(* ===== verification/Prelude.thy ===== *)
theory Prelude
  imports Complex_Main "HOL-Library.List_Lexorder" "HOL-Library.Char_ord" "HOL-Library.Sublist"
begin

text \<open>
  The shared vocabulary of the development: JavaScript values and numbers, the string
  functions of the language that the components call, and the generic lemmas on lists and
  association lists that the component theories rely on.

  A string is the list of its UTF-8 bytes. A JavaScript string is a list of UTF-16 code
  units, so lengths and slices agree with the source on ASCII text. An object is the list of
  its own enumerable properties; \<open>Undef\<close> is the value of a property that is absent. A
  number is a finite rational, an infinity or NaN: every finite double is a rational, and the
  comparisons the source makes are exact on rationals.
\<close>

section \<open>Collections of facts\<close>

named_theorems js_simps "equations that evaluate JavaScript values"
named_theorems frames "what an operation leaves unchanged"
named_theorems steps "definitions of operations, unfolded in proofs about one step"

section \<open>JavaScript values\<close>

datatype jnum = Fin rat | PosInf | NegInf | NaN

datatype js =
    Undef
  | Null
  | Boolean bool
  | Num jnum
  | Str string
  | Arr "js list"
  | Obj "(string \<times> js) list"

abbreviation NumI :: "int \<Rightarrow> js" where
  "NumI i \<equiv> Num (Fin (of_int i))"

fun jnum_less :: "jnum \<Rightarrow> jnum \<Rightarrow> bool" where
  "jnum_less (Fin a) (Fin b) = (a < b)"
| "jnum_less NegInf (Fin b) = True"
| "jnum_less NegInf PosInf = True"
| "jnum_less (Fin a) PosInf = True"
| "jnum_less _ _ = False"

text \<open>\<open>a - b\<close> of two numbers.\<close>

fun jnum_sub :: "jnum \<Rightarrow> jnum \<Rightarrow> jnum" where
  "jnum_sub (Fin a) (Fin b) = Fin (a - b)"
| "jnum_sub (Fin a) PosInf = NegInf"
| "jnum_sub (Fin a) NegInf = PosInf"
| "jnum_sub PosInf (Fin b) = PosInf"
| "jnum_sub PosInf NegInf = PosInf"
| "jnum_sub NegInf (Fin b) = NegInf"
| "jnum_sub NegInf PosInf = NegInf"
| "jnum_sub _ _ = NaN"

text \<open>\<open>o[k]\<close> on an object; every other value of the model has no such own property.\<close>

fun getp :: "js \<Rightarrow> string \<Rightarrow> js" where
  "getp (Obj kvs) k = (case map_of kvs k of None \<Rightarrow> Undef | Some v \<Rightarrow> v)"
| "getp _ k = Undef"

definition has_own :: "(string \<times> js) list \<Rightarrow> string \<Rightarrow> bool" where
  "has_own kvs k = (map_of kvs k \<noteq> None)"

fun as_str :: "js \<Rightarrow> string option" where
  "as_str (Str s) = Some s"
| "as_str _ = None"

fun as_obj :: "js \<Rightarrow> (string \<times> js) list option" where
  "as_obj (Obj kvs) = Some kvs"
| "as_obj _ = None"

fun as_arr :: "js \<Rightarrow> js list option" where
  "as_arr (Arr vs) = Some vs"
| "as_arr _ = None"

fun is_str :: "js \<Rightarrow> bool" where
  "is_str (Str s) = True"
| "is_str _ = False"

fun as_num :: "js \<Rightarrow> jnum option" where
  "as_num (Num n) = Some n"
| "as_num _ = None"

lemma as_str_Some [simp]: "as_str v = Some s \<longleftrightarrow> v = Str s"
  by (cases v) auto

lemma as_obj_Some [simp]: "as_obj v = Some kvs \<longleftrightarrow> v = Obj kvs"
  by (cases v) auto

lemma as_arr_Some [simp]: "as_arr v = Some vs \<longleftrightarrow> v = Arr vs"
  by (cases v) auto

lemma as_num_Some [simp]: "as_num v = Some n \<longleftrightarrow> v = Num n"
  by (cases v) auto

lemma is_str_iff: "is_str v \<longleftrightarrow> (\<exists>s. v = Str s)"
  by (cases v) auto

section \<open>Association lists\<close>

text \<open>\<open>m.set(k, v)\<close> of a Map, or \<open>o[k] = v\<close>: an existing key keeps its place.\<close>

fun assoc_set :: "('k \<times> 'v) list \<Rightarrow> 'k \<Rightarrow> 'v \<Rightarrow> ('k \<times> 'v) list" where
  "assoc_set [] k v = [(k, v)]"
| "assoc_set ((k', v') # kvs) k v =
     (if k' = k then (k, v) # kvs else (k', v') # assoc_set kvs k v)"

definition assoc_del :: "('k \<times> 'v) list \<Rightarrow> 'k \<Rightarrow> ('k \<times> 'v) list" where
  "assoc_del kvs k = filter (\<lambda>(k', _). k' \<noteq> k) kvs"

lemma map_of_assoc_set [simp]: "map_of (assoc_set kvs k v) = (map_of kvs)(k \<mapsto> v)"
  by (induction kvs) (auto simp: fun_eq_iff)

lemma map_of_assoc_del [simp]: "map_of (assoc_del kvs k) = (map_of kvs)(k := None)"
  by (induction kvs) (auto simp: assoc_del_def fun_eq_iff)

lemma keys_assoc_set:
  "map fst (assoc_set kvs k v) =
     (if map_of kvs k = None then map fst kvs @ [k] else map fst kvs)"
  by (induction kvs) auto

lemma distinct_assoc_set [simp]:
  "distinct (map fst kvs) \<Longrightarrow> distinct (map fst (assoc_set kvs k v))"
  by (simp add: keys_assoc_set map_of_eq_None_iff)

lemma distinct_assoc_del [simp]:
  "distinct (map fst kvs) \<Longrightarrow> distinct (map fst (assoc_del kvs k))"
  by (induction kvs) (auto simp: assoc_del_def)

lemma length_assoc_set:
  "length (assoc_set kvs k v) = (if map_of kvs k = None then Suc (length kvs) else length kvs)"
  by (induction kvs) auto

lemma length_assoc_del_le: "length (assoc_del kvs k) \<le> length kvs"
  by (simp add: assoc_del_def)

section \<open>Strings\<close>

abbreviation (input) starts_with :: "string \<Rightarrow> string \<Rightarrow> bool" where
  "starts_with s p \<equiv> prefix p s"

abbreviation (input) ends_with :: "string \<Rightarrow> string \<Rightarrow> bool" where
  "ends_with s p \<equiv> suffix p s"

text \<open>\<open>s.slice(a, b)\<close> for \<open>0 \<le> a\<close> and \<open>0 \<le> b\<close>.\<close>

definition slice :: "string \<Rightarrow> nat \<Rightarrow> nat \<Rightarrow> string" where
  "slice s a b = take (b - a) (drop a s)"

text \<open>\<open>s.split(c)\<close> for a one-character separator.\<close>

fun split_on :: "char \<Rightarrow> string \<Rightarrow> string list" where
  "split_on c [] = [[]]"
| "split_on c (x # xs) =
     (if x = c then [] # split_on c xs
      else (case split_on c xs of [] \<Rightarrow> [[x]] | y # ys \<Rightarrow> (x # y) # ys))"

fun join_on :: "string \<Rightarrow> string list \<Rightarrow> string" where
  "join_on sep [] = []"
| "join_on sep [x] = x"
| "join_on sep (x # y # ys) = x @ sep @ join_on sep (y # ys)"

definition white :: "char \<Rightarrow> bool" where
  "white c = (c \<in> {CHR 0x09, CHR 0x0A, CHR 0x0B, CHR 0x0C, CHR 0x0D, CHR '' ''})"

definition trim_start :: "string \<Rightarrow> string" where
  "trim_start s = dropWhile white s"

definition trim :: "string \<Rightarrow> string" where
  "trim s = rev (dropWhile white (rev (dropWhile white s)))"

definition is_lower :: "char \<Rightarrow> bool" where
  "is_lower c = (CHR ''a'' \<le> c \<and> c \<le> CHR ''z'')"

definition is_upper :: "char \<Rightarrow> bool" where
  "is_upper c = (CHR ''A'' \<le> c \<and> c \<le> CHR ''Z'')"

definition is_digit :: "char \<Rightarrow> bool" where
  "is_digit c = (CHR ''0'' \<le> c \<and> c \<le> CHR ''9'')"

definition lower_char :: "char \<Rightarrow> char" where
  "lower_char c = (if is_upper c then char_of ((of_char c :: nat) + 32) else c)"

abbreviation lower :: "string \<Rightarrow> string" where
  "lower s \<equiv> map lower_char s"

lemma split_on_nonempty [simp]: "split_on c s \<noteq> []"
  by (induction s) (auto split: list.splits)

lemma join_split_on: "join_on [c] (split_on c s) = s"
proof (induction s)
  case Nil
  then show ?case by simp
next
  case (Cons x xs)
  show ?case
  proof (cases "split_on c xs")
    case Nil
    then show ?thesis by simp
  next
    case (Cons y ys)
    with Cons.IH show ?thesis by (cases ys) auto
  qed
qed

lemma split_on_no_sep: "c \<notin> set s \<Longrightarrow> split_on c s = [s]"
  by (induction s) auto

lemma split_on_append:
  "c \<notin> set a \<Longrightarrow> split_on c (a @ c # b) = a # split_on c b"
  by (induction a) auto

lemma split_on_parts: "p \<in> set (split_on c s) \<Longrightarrow> c \<notin> set p"
proof (induction s arbitrary: p)
  case Nil
  then show ?case by simp
next
  case (Cons x xs)
  then show ?case by (cases "split_on c xs") (auto split: if_splits)
qed

lemma slice_0 [simp]: "slice s 0 n = take n s"
  by (simp add: slice_def)

lemma slice_middle: "slice (p @ m @ q) (length p) (length (p @ m @ q) - length q) = m"
  by (simp add: slice_def)

section \<open>Decimal numerals\<close>

definition digit :: "nat \<Rightarrow> char" where
  "digit k = char_of (48 + k)"

fun dec :: "nat \<Rightarrow> string" where
  "dec n = (if n < 10 then [digit n] else dec (n div 10) @ [digit (n mod 10)])"

declare dec.simps [simp del]

definition int_str :: "int \<Rightarrow> string" where
  "int_str i = (if i < 0 then CHR ''-'' # dec (nat (- i)) else dec (nat i))"

text \<open>\<open>String(n).padStart(2, '0')\<close>\<close>

definition pad2 :: "nat \<Rightarrow> string" where
  "pad2 n = (if n < 10 then CHR ''0'' # dec n else dec n)"

lemma digit_0: "digit 0 = CHR ''0''"
  by (simp add: digit_def char_of_def bit_0)

lemma digit_inj: "i < 10 \<Longrightarrow> j < 10 \<Longrightarrow> digit i = digit j \<longleftrightarrow> i = j"
proof -
  assume "i < 10" "j < 10"
  then have "(of_char (digit i) :: nat) = 48 + i" "(of_char (digit j) :: nat) = 48 + j"
    by (simp_all add: digit_def)
  then show ?thesis by (metis add_left_cancel)
qed

lemma of_char_digit: "i < 10 \<Longrightarrow> (of_char (digit i) :: nat) = 48 + i"
  by (simp add: digit_def)

lemma digit_neq:
  assumes "i < 10" and "(of_char c :: nat) < 48 \<or> 57 < (of_char c :: nat)"
  shows "digit i \<noteq> c"
  using of_char_digit [OF assms(1)] assms by auto

lemma dec_digits: "x \<in> set (dec n) \<Longrightarrow> \<exists>i < 10. x = digit i"
proof (induction n rule: dec.induct)
  case (1 n)
  show ?case
  proof (cases "n < 10")
    case True
    with "1.prems" show ?thesis by (auto simp: dec.simps [of n])
  next
    case False
    with "1.prems" have "x \<in> set (dec (n div 10)) \<or> x = digit (n mod 10)"
      by (auto simp: dec.simps [of n])
    with False "1.IH" show ?thesis by (auto intro: exI [of _ "n mod 10"])
  qed
qed

lemma dec_not_in:
  "(of_char c :: nat) < 48 \<or> 57 < (of_char c :: nat) \<Longrightarrow> c \<notin> set (dec n)"
  using dec_digits digit_neq by blast

lemma dec_nonempty [simp]: "dec n \<noteq> []"
  by (subst dec.simps) simp

lemma dec_small: "n < 10 \<Longrightarrow> dec n = [digit n]"
  by (simp add: dec.simps [of n])

lemma dec_big: "10 \<le> n \<Longrightarrow> dec n = dec (n div 10) @ [digit (n mod 10)]"
  by (simp add: dec.simps [of n])

lemma dec_inj: "dec m = dec n \<Longrightarrow> m = n"
proof (induction m arbitrary: n rule: dec.induct)
  case (1 m)
  consider "m < 10" "n < 10" | "m < 10" "10 \<le> n" | "10 \<le> m" "n < 10" | "10 \<le> m" "10 \<le> n"
    by linarith
  then show ?case
  proof cases
    case 1
    with "1.prems" show ?thesis by (simp add: dec_small digit_inj)
  next
    case 2
    with "1.prems" dec_nonempty [of "n div 10"] show ?thesis by (simp add: dec_small dec_big)
  next
    case 3
    with "1.prems" dec_nonempty [of "m div 10"] show ?thesis by (simp add: dec_small dec_big)
  next
    case 4
    with "1.prems" have *: "dec (m div 10) = dec (n div 10)" "m mod 10 = n mod 10"
      by (simp_all add: dec_big digit_inj)
    with "1.IH" 4 have "m div 10 = n div 10" by simp
    with * show ?thesis by (metis div_mult_mod_eq)
  qed
qed

lemma length_pad2: "n < 100 \<Longrightarrow> length (pad2 n) = 2"
  by (simp add: pad2_def dec_small dec_big)

lemma pad2_inj: "m < 100 \<Longrightarrow> n < 100 \<Longrightarrow> pad2 m = pad2 n \<Longrightarrow> m = n"
proof -
  assume mn: "m < 100" "n < 100" and eq: "pad2 m = pad2 n"
  have rep: "pad2 k = [digit (k div 10), digit (k mod 10)]" if "k < 100" for k
    using that by (cases "k < 10") (simp_all add: pad2_def dec_small dec_big digit_0)
  from eq mn have "digit (m div 10) = digit (n div 10)" "digit (m mod 10) = digit (n mod 10)"
    by (simp_all add: rep)
  with mn have "m div 10 = n div 10" "m mod 10 = n mod 10"
    by (simp_all add: digit_inj)
  then show "m = n" by (metis div_mult_mod_eq)
qed

section \<open>Lists\<close>

text \<open>\<open>[...new Set(xs)]\<close>: the first occurrence of each element, in order.\<close>

fun uniq :: "'a list \<Rightarrow> 'a list" where
  "uniq [] = []"
| "uniq (x # xs) = x # filter (\<lambda>y. y \<noteq> x) (uniq xs)"

lemma set_uniq [simp]: "set (uniq xs) = set xs"
  by (induction xs) auto

lemma distinct_uniq [simp]: "distinct (uniq xs)"
  by (induction xs) auto

end
