(* ===== verification/Schema.thy ===== *)
theory Schema
  imports Prelude
begin

text \<open>
  The identifiers and configuration shapes every service agrees on (packages/schema):
  the closed enumerations, the paddock slug, the zod shapes of a fence's rate limit and
  quota, and the OAuth resource indicators. A zod schema is a parser from a JavaScript value:
  \<open>None\<close> where \<open>safeParse\<close> fails, the stripped value where it succeeds.
\<close>

section \<open>Enumerations (enums.ts, capabilities.ts)\<close>

datatype breed_id = Ollama | Comfyui
datatype route_class = ReadClass | InferClass | MutateClass
datatype meter_dim = TokensIn | TokensOut | Jobs | GpuMs | Images
datatype role = Admin | Member | Viewer
datatype user_status = ActiveUser | Deactivated
datatype paddock_status = ActivePaddock | DisabledPaddock
datatype key_status = ActiveKey | RevokedKey
datatype key_kind = LiveKey | OauthKey
datatype capability = CapRead | CapResourceWrite | CapUserManage | CapLicenseManage

fun breed_str :: "breed_id \<Rightarrow> string" where
  "breed_str Ollama = ''ollama''"
| "breed_str Comfyui = ''comfyui''"

fun dim_str :: "meter_dim \<Rightarrow> string" where
  "dim_str TokensIn = ''tokens_in''"
| "dim_str TokensOut = ''tokens_out''"
| "dim_str Jobs = ''jobs''"
| "dim_str GpuMs = ''gpu_ms''"
| "dim_str Images = ''images''"

definition METER_DIMS :: "meter_dim list" where
  "METER_DIMS = [TokensIn, TokensOut, Jobs, GpuMs, Images]"

definition dim_of :: "string \<Rightarrow> meter_dim option" where
  "dim_of s = find (\<lambda>d. dim_str d = s) METER_DIMS"

fun role_str :: "role \<Rightarrow> string" where
  "role_str Admin = ''admin''"
| "role_str Member = ''member''"
| "role_str Viewer = ''viewer''"

definition role_of :: "string \<Rightarrow> role option" where
  "role_of s = find (\<lambda>r. role_str r = s) [Admin, Member, Viewer]"

fun cap_str :: "capability \<Rightarrow> string" where
  "cap_str CapRead = ''read''"
| "cap_str CapResourceWrite = ''resource.write''"
| "cap_str CapUserManage = ''user.manage''"
| "cap_str CapLicenseManage = ''license.manage''"

definition CAPABILITIES :: "capability list" where
  "CAPABILITIES = [CapRead, CapResourceWrite, CapUserManage, CapLicenseManage]"

definition cap_of :: "string \<Rightarrow> capability option" where
  "cap_of s = find (\<lambda>c. cap_str c = s) CAPABILITIES"

lemma dim_str_inj: "dim_str a = dim_str b \<longleftrightarrow> a = b"
  by (cases a; cases b) auto

lemma dim_of_str [simp]: "dim_of (dim_str d) = Some d"
  by (cases d) (auto simp: dim_of_def METER_DIMS_def)

lemma dim_of_Some: "dim_of s = Some d \<longleftrightarrow> s = dim_str d"
proof
  show "dim_of s = Some d \<Longrightarrow> s = dim_str d"
    by (metis (mono_tags, lifting) dim_of_def find_Some_iff)
qed simp

lemma cap_of_str [simp]: "cap_of (cap_str c) = Some c"
  by (cases c) (auto simp: cap_of_def CAPABILITIES_def)

lemma cap_of_Some: "cap_of s = Some c \<longleftrightarrow> s = cap_str c"
proof
  show "cap_of s = Some c \<Longrightarrow> s = cap_str c"
    by (metis (mono_tags, lifting) cap_of_def find_Some_iff)
qed simp

lemma role_of_str [simp]: "role_of (role_str r) = Some r"
  by (cases r) (auto simp: role_of_def)

lemma role_of_Some: "role_of s = Some r \<longleftrightarrow> s = role_str r"
proof
  show "role_of s = Some r \<Longrightarrow> s = role_str r"
    by (metis (mono_tags, lifting) role_of_def find_Some_iff)
qed simp

section \<open>The paddock slug (enums.ts)\<close>

definition slug_alnum :: "char \<Rightarrow> bool" where
  "slug_alnum c = (is_lower c \<or> is_digit c)"

text \<open>\<open>PADDOCK_SLUG_RE\<close>: an alphanumeric, then optionally letters, digits and hyphens
  that end in an alphanumeric.\<close>

fun slug_re :: "string \<Rightarrow> bool" where
  "slug_re [] = False"
| "slug_re (c # cs) =
     (slug_alnum c \<and>
      (cs = [] \<or> (list_all (\<lambda>x. slug_alnum x \<or> x = CHR ''-'') cs \<and> slug_alnum (last cs))))"

definition PADDOCK_SLUG_MAX :: nat where
  "PADDOCK_SLUG_MAX = 64"

definition slug_valid :: "string \<Rightarrow> bool" where
  "slug_valid s = (length s \<le> PADDOCK_SLUG_MAX \<and> slug_re s)"

lemma slug_re_chars: "slug_re s \<Longrightarrow> c \<in> set s \<Longrightarrow> slug_alnum c \<or> c = CHR ''-''"
  by (cases s) (auto simp: list_all_iff)

lemma slug_no_slash: "slug_re s \<Longrightarrow> CHR ''/'' \<notin> set s"
  using slug_re_chars [of s "CHR ''/''"]
  by (auto simp: slug_alnum_def is_lower_def is_digit_def)

section \<open>A fence's rate limit and quota (config.ts)\<close>

record rate_limit =
  windowSec :: int
  rl_max :: int

datatype quota_window = Hour | Day | Month

record quota_rule =
  q_dim :: meter_dim
  q_max :: int
  q_period :: quota_window

text \<open>\<open>z.number().int()\<close>\<close>

definition js_int :: "js \<Rightarrow> int option" where
  "js_int v = (case v of Num (Fin r) \<Rightarrow> if of_int \<lfloor>r\<rfloor> = r then Some \<lfloor>r\<rfloor> else None | _ \<Rightarrow> None)"

definition rateLimitSchema :: "js \<Rightarrow> rate_limit option" where
  "rateLimitSchema v =
     (case v of
        Obj kvs \<Rightarrow>
          (case (js_int (getp v ''windowSec''), js_int (getp v ''max'')) of
             (Some w, Some m) \<Rightarrow>
               if 0 < w \<and> 0 \<le> m then Some \<lparr>windowSec = w, rl_max = m\<rparr> else None
           | _ \<Rightarrow> None)
      | _ \<Rightarrow> None)"

fun window_of :: "js \<Rightarrow> quota_window option" where
  "window_of (Str s) =
     (if s = ''hour'' then Some Hour else if s = ''day'' then Some Day
      else if s = ''month'' then Some Month else None)"
| "window_of _ = None"

definition quotaRuleSchema :: "js \<Rightarrow> quota_rule option" where
  "quotaRuleSchema v =
     (case v of
        Obj kvs \<Rightarrow>
          (case (Option.bind (as_str (getp v ''dim'')) dim_of, js_int (getp v ''max''),
                 window_of (getp v ''period'')) of
             (Some d, Some m, Some p) \<Rightarrow>
               if 0 \<le> m then Some \<lparr>q_dim = d, q_max = m, q_period = p\<rparr> else None
           | _ \<Rightarrow> None)
      | _ \<Rightarrow> None)"

definition quotaSchema :: "js \<Rightarrow> quota_rule list option" where
  "quotaSchema v = (case v of Arr vs \<Rightarrow> those (map quotaRuleSchema vs) | _ \<Rightarrow> None)"

lemma js_int_NumI [simp, js_simps]: "js_int (NumI i) = Some i"
  by (simp add: js_int_def)

lemma rateLimitSchema_wf: "rateLimitSchema v = Some rl \<Longrightarrow> 0 < windowSec rl \<and> 0 \<le> rl_max rl"
  by (cases v) (auto simp: rateLimitSchema_def simp del: getp.simps split: option.split_asm if_split_asm)

lemma those_Some_set: "those xs = Some ys \<Longrightarrow> set xs = Some ` set ys"
  by (induction xs arbitrary: ys) (auto split: option.splits)

lemma quotaRuleSchema_wf: "quotaRuleSchema v = Some r \<Longrightarrow> 0 \<le> q_max r"
  by (cases v) (auto simp: quotaRuleSchema_def simp del: getp.simps split: option.split_asm if_split_asm)

lemma quotaSchema_Some:
  "quotaSchema v = Some rules \<longleftrightarrow> (\<exists>vs. v = Arr vs \<and> those (map quotaRuleSchema vs) = Some rules)"
  by (cases v) (simp_all add: quotaSchema_def)

lemma quotaSchema_wf: "quotaSchema v = Some rules \<Longrightarrow> r \<in> set rules \<Longrightarrow> 0 \<le> q_max r"
proof -
  assume "quotaSchema v = Some rules" and r: "r \<in> set rules"
  then obtain vs where vs: "those (map quotaRuleSchema vs) = Some rules"
    unfolding quotaSchema_Some by blast
  have "Some r \<in> set (map quotaRuleSchema vs)" unfolding those_Some_set [OF vs] using r by (rule imageI)
  then show ?thesis by (auto simp del: not_None_eq simp: image_iff dest: quotaRuleSchema_wf [OF sym])
qed

section \<open>OAuth identifiers and resource indicators (oidc.ts)\<close>

definition CONSOLE_CLIENT_ID :: string where
  "CONSOLE_CLIENT_ID = ''metamodels-console''"

definition CLI_CLIENT_ID :: string where
  "CLI_CLIENT_ID = ''metamodels-cli''"

definition MCP_SCOPE :: string where
  "MCP_SCOPE = ''mcp''"

definition adminApiResource :: "string \<Rightarrow> string" where
  "adminApiResource consoleUrl = consoleUrl @ ''/api/admin''"

definition internalApiAudience :: "string \<Rightarrow> string" where
  "internalApiAudience consoleUrl = consoleUrl @ ''/api/internal''"

definition mcpResource :: "string \<Rightarrow> string \<Rightarrow> string" where
  "mcpResource dataPlaneUrl slug = dataPlaneUrl @ ''/p/'' @ slug @ ''/mcp''"

definition parseMcpResource :: "string \<Rightarrow> string \<Rightarrow> string option" where
  "parseMcpResource dataPlaneUrl uri =
     (let pre = dataPlaneUrl @ ''/p/''; suf = ''/mcp'' in
      if \<not> starts_with uri pre \<or> \<not> ends_with uri suf then None
      else let slug = slice uri (length pre) (length uri - length suf) in
        if length slug \<le> PADDOCK_SLUG_MAX \<and> slug_re slug then Some slug else None)"

text \<open>\<open>requireOrigin\<close>: the URL parser of the runtime is the argument \<open>parse_url\<close>.\<close>

record url =
  u_protocol :: string
  u_origin :: string
  u_pathname :: string
  u_search :: string
  u_hash :: string

datatype origin_error = Required | NotAbsoluteHttp | NotAnOrigin

definition requireOrigin :: "(string \<Rightarrow> url option) \<Rightarrow> string option \<Rightarrow> origin_error + string" where
  "requireOrigin parse_url val =
     (let v = map_option trim val in
      if v = None \<or> v = Some [] then Inl Required
      else case parse_url (the v) of
        None \<Rightarrow> Inl NotAbsoluteHttp
      | Some u \<Rightarrow>
          if u_protocol u \<noteq> ''http:'' \<and> u_protocol u \<noteq> ''https:'' then Inl NotAbsoluteHttp
          else if u_pathname u \<noteq> ''/'' \<or> u_search u \<noteq> [] \<or> u_hash u \<noteq> [] then Inl NotAnOrigin
          else Inr (u_origin u))"

definition protectedResourceMetadataUrl :: "(string \<Rightarrow> url option) \<Rightarrow> string \<Rightarrow> string option" where
  "protectedResourceMetadataUrl parse_url resource =
     map_option (\<lambda>u. u_origin u @ ''/.well-known/oauth-protected-resource'' @
       (if u_pathname u = ''/'' then [] else u_pathname u)) (parse_url resource)"

record resource_metadata =
  rm_resource :: string
  authorization_servers :: "string list"
  scopes_supported :: "string list"
  bearer_methods_supported :: "string list"

definition protectedResourceMetadata :: "string \<Rightarrow> string \<Rightarrow> string list \<Rightarrow> resource_metadata" where
  "protectedResourceMetadata resource issuer scopes =
     \<lparr>rm_resource = resource, authorization_servers = [issuer], scopes_supported = scopes,
      bearer_methods_supported = [''header'']\<rparr>"

lemma parseMcpResource_mcpResource:
  "parseMcpResource base (mcpResource base slug) = (if slug_valid slug then Some slug else None)"
proof -
  have "slice (mcpResource base slug) (length (base @ ''/p/''))
          (length (mcpResource base slug) - length ''/mcp'') = slug"
    using slice_middle [of "base @ ''/p/''" slug "''/mcp''"] by (simp add: mcpResource_def)
  moreover have "suffix ''/mcp'' (mcpResource base slug)"
    unfolding mcpResource_def by (rule suffixI [of _ "base @ ''/p/'' @ slug"]) simp
  ultimately show ?thesis
    by (simp add: parseMcpResource_def slug_valid_def Let_def mcpResource_def)
qed

lemma parseMcpResource_Some_shape:
  assumes "parseMcpResource base uri = Some slug"
  shows "slug_valid slug \<and> uri = mcpResource base slug"
proof -
  let ?pre = "base @ ''/p/''" and ?suf = "''/mcp''"
  from assms have p: "prefix ?pre uri" and s: "suffix ?suf uri"
    and slug: "slug = slice uri (length ?pre) (length uri - length ?suf)"
    and ok: "length slug \<le> PADDOCK_SLUG_MAX" "slug_re slug"
    by (auto simp: parseMcpResource_def Let_def split: if_splits)
  from p obtain r where r: "uri = ?pre @ r" by (auto simp: prefix_def)
  from ok(2) slug r have long: "length r > length ?suf"
    by (cases "length r \<le> 4") (auto simp: slice_def)
  have "suffix r uri" using r by (simp add: suffix_def)
  with s long have "suffix ?suf r" by (intro suffix_length_suffix [of ?suf uri r]) simp_all
  then obtain m where m: "r = m @ ?suf" by (auto simp: suffix_def)
  from slug r m have "slug = m" using slice_middle [of ?pre m ?suf] by simp
  with ok r m show ?thesis by (simp add: slug_valid_def mcpResource_def)
qed

text \<open>
  A resource indicator is accepted exactly when it is, byte for byte, the MCP resource
  of a slug that a paddock could have: parsing inverts printing, and nothing else (another
  host, a trailing slash, a longer path) parses.
\<close>

theorem parseMcpResource_iff:
  "parseMcpResource base uri = Some slug \<longleftrightarrow> slug_valid slug \<and> uri = mcpResource base slug"
  using parseMcpResource_Some_shape [of base uri slug] by (auto simp: parseMcpResource_mcpResource)

lemma mcpResource_inj: "mcpResource base s = mcpResource base t \<longleftrightarrow> s = t"
  by (auto simp: mcpResource_def)

end
