(* ===== verification/Tables.thy ===== *)
theory Tables
  imports Schema
begin

text \<open>
  The Postgres schema (packages/schema/src/schema.ts): one record per table, with the columns of
  the table in its order, and the database as the record of the tables. A row's columns of a closed
  enumeration are that enumeration, \<open>jsonb\<close> columns are JavaScript values, timestamps are
  milliseconds. The \<open>createdAt\<close> default is kept where a query orders by it. A table is the list of its rows; the SQL statements the services issue are the
  list functions below.
\<close>

section \<open>Rows\<close>

record org_row =
  o_id :: string
  o_name :: string
  o_createdAt :: int

record user_row =
  u_id :: string
  u_orgId :: string
  u_email :: string
  u_passwordHash :: string
  u_role :: role
  u_status :: user_status
  u_createdAt :: int

record invite_row =
  i_id :: string
  i_orgId :: string
  i_email :: string
  i_role :: role
  i_tokenHash :: string
  i_expiresAt :: int
  i_acceptedAt :: "int option"
  i_createdAt :: int

record entitlement_row =
  e_orgId :: string
  e_licenseKeyEnc :: string
  e_licenseLast4 :: string
  e_instanceId :: "string option"
  e_status :: string
  e_seats :: int
  e_tier :: "string option"
  e_lastValidatedAt :: "int option"
  e_graceUntil :: "int option"

record flock_row =
  f_id :: string
  f_orgId :: string
  f_breed :: breed_id
  f_name :: string
  f_baseUrl :: string
  f_upstreamAuthEnc :: "string option"
  f_tlsTrust :: bool
  f_healthOk :: "bool option"

record paddock_row =
  p_id :: string
  p_orgId :: string
  p_flockId :: string
  p_slug :: string
  p_name :: string
  p_status :: paddock_status
  p_theme :: string

record fence_row =
  n_orgId :: string
  n_paddockId :: string
  n_constraintJson :: js
  n_rateLimit :: js
  n_quota :: js

record template_row =
  t_id :: string
  t_orgId :: string
  t_flockId :: string
  t_name :: string
  t_graphJson :: js
  t_paramSchema :: js
  t_cost :: int

record key_row =
  k_id :: string
  k_orgId :: string
  k_name :: string
  k_prefix :: string
  k_hash :: string
  k_status :: key_status
  k_expiresAt :: "int option"
  k_overrides :: js
  k_kind :: key_kind
  k_grantId :: "string option"
  k_oauthClientId :: "string option"
  k_userId :: "string option"

record key_paddock_row =
  kp_keyId :: string
  kp_paddockId :: string

record usage_row =
  r_orgId :: string
  r_keyId :: string
  r_paddockId :: string
  r_period :: string
  r_dim :: string
  r_value :: int

record job_row =
  j_id :: string
  j_orgId :: string
  j_keyId :: string
  j_paddockId :: string
  j_templateId :: string
  j_cost :: jnum
  j_metered :: bool
  j_submittedAt :: int

record audit_row =
  a_orgId :: string
  a_actor :: string
  a_action :: string
  a_target :: string
  a_detail :: js
  a_changedBy :: "string option"

record payload_row =
  op_model :: string
  op_id :: string
  op_payload :: js
  op_grantId :: "string option"
  op_userCode :: "string option"
  op_uid :: "string option"
  op_expiresAt :: "int option"
  op_consumedAt :: "int option"

record db =
  orgs :: "org_row list"
  users :: "user_row list"
  invites :: "invite_row list"
  entitlements :: "entitlement_row list"
  flocks :: "flock_row list"
  paddocks :: "paddock_row list"
  fences :: "fence_row list"
  templates :: "template_row list"
  keys :: "key_row list"
  key_paddocks :: "key_paddock_row list"
  usage :: "usage_row list"
  jobs :: "job_row list"
  audit :: "audit_row list"

definition empty_db :: db where
  "empty_db = \<lparr>orgs = [], users = [], invites = [], entitlements = [], flocks = [], paddocks = [],
     fences = [], templates = [], keys = [], key_paddocks = [], usage = [], jobs = [], audit = []\<rparr>"

section \<open>Statements\<close>

text \<open>\<open>select .. where\<close>, \<open>limit 1\<close>, \<open>update .. where .. returning\<close> and
  \<open>delete .. where\<close>.\<close>

definition sel :: "('r \<Rightarrow> bool) \<Rightarrow> 'r list \<Rightarrow> 'r list" where
  "sel P t = filter P t"

definition sel1 :: "('r \<Rightarrow> bool) \<Rightarrow> 'r list \<Rightarrow> 'r option" where
  "sel1 P t = find P t"

definition upd :: "('r \<Rightarrow> bool) \<Rightarrow> ('r \<Rightarrow> 'r) \<Rightarrow> 'r list \<Rightarrow> 'r list" where
  "upd P f t = map (\<lambda>r. if P r then f r else r) t"

definition del :: "('r \<Rightarrow> bool) \<Rightarrow> 'r list \<Rightarrow> 'r list" where
  "del P t = filter (\<lambda>r. \<not> P r) t"

lemma sel1_Some: "sel1 P t = Some r \<Longrightarrow> r \<in> set t \<and> P r"
  by (induction t) (auto simp: sel1_def split: if_split_asm)

lemma sel1_append: "sel1 P (t @ u) = (case sel1 P t of None \<Rightarrow> sel1 P u | Some r \<Rightarrow> Some r)"
  by (induction t) (simp_all add: sel1_def)

lemma sel1_None: "sel1 P t = None \<longleftrightarrow> (\<forall>r \<in> set t. \<not> P r)"
  by (induction t) (auto simp: sel1_def)

lemma sel1_cong: "(\<And>r. r \<in> set t \<Longrightarrow> P r = Q r) \<Longrightarrow> sel1 P t = sel1 Q t"
  by (induction t) (auto simp: sel1_def)

lemma set_sel [simp]: "set (sel P t) = {r \<in> set t. P r}"
  by (simp add: sel_def)

lemma set_upd: "set (upd P f t) = (\<lambda>r. if P r then f r else r) ` set t"
  by (simp add: upd_def)

lemma set_del [simp]: "set (del P t) = {r \<in> set t. \<not> P r}"
  by (auto simp: del_def)

lemma map_upd_key: "(\<And>r. P r \<Longrightarrow> g (f r) = g r) \<Longrightarrow> map g (upd P f t) = map g t"
  by (induction t) (simp_all add: upd_def)

lemma upd_none: "(\<And>r. r \<in> set t \<Longrightarrow> \<not> P r) \<Longrightarrow> upd P f t = t"
  by (induction t) (auto simp: upd_def)

lemma distinct_map_sub: "distinct (map g t) \<Longrightarrow> distinct (map g (filter P t))"
  by (induction t) auto

lemma distinct_del: "distinct (map g t) \<Longrightarrow> distinct (map g (del P t))"
  by (simp add: del_def distinct_map_sub)

lemma distinct_key_eq:
  "distinct (map g t) \<Longrightarrow> a \<in> set t \<Longrightarrow> b \<in> set t \<Longrightarrow> g a = g b \<Longrightarrow> a = b"
  by (induction t) (auto simp: image_iff)

lemma sel1_unique:
  "distinct (map g t) \<Longrightarrow> r \<in> set t \<Longrightarrow> sel1 (\<lambda>x. g x = g r) t = Some r"
  by (induction t) (auto simp: sel1_def)

lemma sel1_only:
  "k \<in> set t \<Longrightarrow> P k \<Longrightarrow> (\<And>k'. k' \<in> set t \<Longrightarrow> P k' \<Longrightarrow> k' = k) \<Longrightarrow> sel1 P t = Some k"
  by (metis option.exhaust sel1_None sel1_Some)

section \<open>Foreign keys with \<open>on delete cascade\<close>\<close>

definition delete_key_cascade :: "string \<Rightarrow> db \<Rightarrow> db" where
  "delete_key_cascade kid d = d\<lparr>keys := del (\<lambda>r. k_id r = kid) (keys d),
     key_paddocks := del (\<lambda>r. kp_keyId r = kid) (key_paddocks d),
     usage := del (\<lambda>r. r_keyId r = kid) (usage d), jobs := del (\<lambda>r. j_keyId r = kid) (jobs d)\<rparr>"

definition delete_paddock_cascade :: "string \<Rightarrow> db \<Rightarrow> db" where
  "delete_paddock_cascade pid d = d\<lparr>paddocks := del (\<lambda>r. p_id r = pid) (paddocks d),
     fences := del (\<lambda>r. n_paddockId r = pid) (fences d),
     key_paddocks := del (\<lambda>r. kp_paddockId r = pid) (key_paddocks d),
     usage := del (\<lambda>r. r_paddockId r = pid) (usage d), jobs := del (\<lambda>r. j_paddockId r = pid) (jobs d)\<rparr>"

definition delete_flock_cascade :: "string \<Rightarrow> db \<Rightarrow> db" where
  "delete_flock_cascade fid d =
     (let d' = fold delete_paddock_cascade (map p_id (sel (\<lambda>p. p_flockId p = fid) (paddocks d))) d in
      d'\<lparr>flocks := del (\<lambda>r. f_id r = fid) (flocks d'), templates := del (\<lambda>r. t_flockId r = fid) (templates d')\<rparr>)"

end
