(* ===== verification/JobStore.thy ===== *)
theory JobStore
  imports Tables
begin

text \<open>
  The job stores of the data plane (apps/data-plane/src/jobs): the in-memory map and the
  Postgres table. Interleaved requests reach a store as a sequence of its operations: each is
  atomic (no \<open>await\<close> inside the in-memory ones, one SQL statement in the other). The
  interface \<open>job_store\<close> is what the pipeline relies on to meter a job once.
\<close>

record job_record =
  jr_jobId :: string
  jr_orgId :: string
  jr_keyId :: string
  jr_paddockId :: string
  jr_templateId :: string
  jr_cost :: jnum
  jr_metered :: bool
  jr_submittedAt :: int

section \<open>The interface\<close>

datatype job_op = Create job_record | MarkMetered string

text \<open>The answers of \<open>markMetered(j)\<close> that were \<open>true\<close>, over a run of operations.\<close>

fun wins :: "('s \<Rightarrow> job_record \<Rightarrow> 's) \<Rightarrow> ('s \<Rightarrow> string \<Rightarrow> bool \<times> 's) \<Rightarrow> string \<Rightarrow> 's \<Rightarrow> job_op list \<Rightarrow> nat" where
  "wins create mark j s [] = 0"
| "wins create mark j s (Create r # ops) = wins create mark j (create s r) ops"
| "wins create mark j s (MarkMetered i # ops) =
     (if i = j \<and> fst (mark s i) then 1 else 0) + wins create mark j (snd (mark s i)) ops"

fun creates :: "string \<Rightarrow> job_op list \<Rightarrow> nat" where
  "creates j [] = 0"
| "creates j (Create r # ops) = (if jr_jobId r = j then 1 else 0) + creates j ops"
| "creates j (MarkMetered i # ops) = creates j ops"

text \<open>Whether some \<open>markMetered(j)\<close> comes after the job is there.\<close>

fun marked_after :: "bool \<Rightarrow> string \<Rightarrow> job_op list \<Rightarrow> bool" where
  "marked_after there j [] = False"
| "marked_after there j (Create r # ops) = marked_after (there \<or> jr_jobId r = j) j ops"
| "marked_after there j (MarkMetered i # ops) = (there \<and> i = j \<or> marked_after there j ops)"

locale job_store =
  fixes create :: "'s \<Rightarrow> job_record \<Rightarrow> 's"
    and get :: "'s \<Rightarrow> string \<Rightarrow> job_record option"
    and mark :: "'s \<Rightarrow> string \<Rightarrow> bool \<times> 's"
    and inv :: "'s \<Rightarrow> bool"
  assumes inv_create: "inv s \<Longrightarrow> inv (create s r)"
    and inv_mark: "inv s \<Longrightarrow> inv (snd (mark s j))"
    and get_create_new: "inv s \<Longrightarrow> get s (jr_jobId r) = None \<Longrightarrow>
      get (create s r) (jr_jobId r) = Some (r\<lparr>jr_metered := False\<rparr>)"
    and get_create_other: "inv s \<Longrightarrow> j \<noteq> jr_jobId r \<Longrightarrow> get (create s r) j = get s j"
    and mark_wins: "inv s \<Longrightarrow> fst (mark s j) \<longleftrightarrow> (\<exists>r. get s j = Some r \<and> \<not> jr_metered r)"
    and get_mark: "inv s \<Longrightarrow> get (snd (mark s j)) i =
      (if i = j then map_option (\<lambda>r. r\<lparr>jr_metered := True\<rparr>) (get s i) else get s i)"
begin

lemma metered_stays:
  assumes "inv s" and "get s j = Some r" and "jr_metered r" and "creates j ops = 0"
  shows "wins create mark j s ops = 0"
  using assms
proof (induction ops arbitrary: s r)
  case (Cons op ops)
  show ?case
  proof (cases op)
    case (Create r')
    with Cons.prems have "j \<noteq> jr_jobId r'" by auto
    with Create Cons.prems Cons.IH [OF inv_create [OF Cons.prems(1)]] show ?thesis
      by (auto simp: get_create_other)
  next
    case (MarkMetered i)
    obtain r' where "get (snd (mark s i)) j = Some r'" "jr_metered r'"
      using Cons.prems(2,3) get_mark [OF Cons.prems(1)] by (cases "i = j") auto
    moreover have "\<not> (i = j \<and> fst (mark s i))"
      using Cons.prems(2,3) mark_wins [OF Cons.prems(1)] by auto
    ultimately show ?thesis
      using MarkMetered Cons.prems(4) Cons.IH [OF inv_mark [OF Cons.prems(1)]] by auto
  qed
qed simp

text \<open>Whatever the interleaving, a job submitted once is metered exactly once if it is ever
  marked after it was submitted, and never otherwise.\<close>

lemma metered_exactly_once:
  assumes "inv s" and "get s j = None \<and> creates j ops \<le> 1 \<or> (\<exists>r. get s j = Some r \<and> \<not> jr_metered r) \<and> creates j ops = 0"
  shows "wins create mark j s ops = (if marked_after (get s j \<noteq> None) j ops then 1 else 0)"
  using assms
proof (induction ops arbitrary: s)
  case (Cons op ops)
  note inv = Cons.prems(1)
  show ?case
  proof (cases op)
    case (Create r)
    show ?thesis
    proof (cases "jr_jobId r = j")
      case True
      with Cons.prems(2) Create have none: "get s j = None" and c: "creates j ops = 0" by auto
      have "get (create s r) j = Some (r\<lparr>jr_metered := False\<rparr>)"
        using get_create_new [OF inv, of r] none True by simp
      with Cons.IH [OF inv_create [OF inv], of r] c Create True show ?thesis by simp
    next
      case False
      then have "get (create s r) j = get s j" using get_create_other [OF inv, of j r] by simp
      with Cons.IH [OF inv_create [OF inv], of r] Cons.prems(2) Create False show ?thesis by simp
    qed
  next
    case (MarkMetered i)
    show ?thesis
    proof (cases "i = j \<and> get s j \<noteq> None")
      case True
      with Cons.prems(2) MarkMetered obtain r where r: "get s j = Some r" "\<not> jr_metered r"
        and c: "creates j ops = 0" by auto
      have "wins create mark j (snd (mark s i)) ops = 0"
        by (rule metered_stays [OF inv_mark [OF inv], where r = "r\<lparr>jr_metered := True\<rparr>"])
          (use True r c get_mark [OF inv, of i j] in simp_all)
      with True r mark_wins [OF inv, of j] MarkMetered show ?thesis by auto
    next
      case False
      then have "get (snd (mark s i)) j = get s j" using get_mark [OF inv, of i j] by auto
      moreover have "\<not> (i = j \<and> fst (mark s i))" using False mark_wins [OF inv, of i] by auto
      ultimately show ?thesis
        using Cons.IH [OF inv_mark [OF inv], of i] Cons.prems(2) MarkMetered False by auto
    qed
  qed
qed simp

end

text \<open>A store that keeps the first record of a duplicate id meters once without the
  assumption that a job is submitted once.\<close>

locale dedup_job_store = job_store +
  assumes get_create_dup: "inv s \<Longrightarrow> get s (jr_jobId r) = Some r' \<Longrightarrow> get (create s r) (jr_jobId r) = Some r'"
begin

lemma never_metered_again:
  assumes "inv s" and "get s j = Some r" and "jr_metered r"
  shows "wins create mark j s ops = 0"
  using assms
proof (induction ops arbitrary: s r)
  case (Cons op ops)
  show ?case
  proof (cases op)
    case (Create r')
    have "get (create s r') j = Some r"
      using Cons.prems get_create_dup [of s r' r] get_create_other [of s j r'] by (cases "j = jr_jobId r'") auto
    with Create Cons.IH [OF inv_create [OF Cons.prems(1)] this Cons.prems(3)] show ?thesis by simp
  next
    case (MarkMetered i)
    obtain r' where "get (snd (mark s i)) j = Some r'" "jr_metered r'"
      using Cons.prems(2,3) get_mark [OF Cons.prems(1)] by (cases "i = j") auto
    moreover have "\<not> (i = j \<and> fst (mark s i))"
      using Cons.prems(2,3) mark_wins [OF Cons.prems(1)] by auto
    ultimately show ?thesis using MarkMetered Cons.IH [OF inv_mark [OF Cons.prems(1)]] by auto
  qed
qed simp

lemma metered_at_most_once: "inv s \<Longrightarrow> wins create mark j s ops \<le> 1"
proof (induction ops arbitrary: s)
  case (Cons op ops)
  show ?case
  proof (cases op)
    case (Create r)
    with Cons.IH [OF inv_create [OF Cons.prems]] show ?thesis by simp
  next
    case (MarkMetered i)
    show ?thesis
    proof (cases "i = j \<and> fst (mark s i)")
      case True
      then obtain r where "get s j = Some r" using mark_wins [OF Cons.prems] by auto
      with True get_mark [OF Cons.prems, of j j]
      have "wins create mark j (snd (mark s i)) ops = 0"
        by (intro never_metered_again [OF inv_mark [OF Cons.prems], of _ j "r\<lparr>jr_metered := True\<rparr>"]) auto
      with True MarkMetered show ?thesis by simp
    next
      case False
      with MarkMetered Cons.IH [OF inv_mark [OF Cons.prems], of i] show ?thesis by auto
    qed
  qed
qed simp

end

section \<open>InMemoryJobStore\<close>

type_synonym mem_jobs = "string \<rightharpoonup> job_record"

definition mem_create :: "mem_jobs \<Rightarrow> job_record \<Rightarrow> mem_jobs" where
  "mem_create m job = m(jr_jobId job \<mapsto> job\<lparr>jr_metered := False\<rparr>)"

definition mem_get :: "mem_jobs \<Rightarrow> string \<Rightarrow> job_record option" where
  "mem_get m jobId = m jobId"

definition mem_markMetered :: "mem_jobs \<Rightarrow> string \<Rightarrow> bool \<times> mem_jobs" where
  "mem_markMetered m jobId =
     (case m jobId of
        None \<Rightarrow> (False, m)
      | Some job \<Rightarrow> if jr_metered job then (False, m) else (True, m(jobId \<mapsto> job\<lparr>jr_metered := True\<rparr>)))"

interpretation mem_store: job_store mem_create mem_get mem_markMetered "\<lambda>s. True"
  by unfold_locales (auto simp: mem_create_def mem_get_def mem_markMetered_def split: option.split)

section \<open>PostgresJobStore\<close>

definition pg_row :: "job_record \<Rightarrow> job_row" where
  "pg_row r = \<lparr>j_id = jr_jobId r, j_orgId = jr_orgId r, j_keyId = jr_keyId r, j_paddockId = jr_paddockId r,
     j_templateId = jr_templateId r, j_cost = jr_cost r, j_metered = False, j_submittedAt = jr_submittedAt r\<rparr>"

definition pg_record :: "job_row \<Rightarrow> job_record" where
  "pg_record r = \<lparr>jr_jobId = j_id r, jr_orgId = j_orgId r, jr_keyId = j_keyId r, jr_paddockId = j_paddockId r,
     jr_templateId = j_templateId r, jr_cost = j_cost r, jr_metered = j_metered r, jr_submittedAt = j_submittedAt r\<rparr>"

text \<open>\<open>insert .. on conflict (id) do nothing\<close>\<close>

definition pg_create :: "job_row list \<Rightarrow> job_record \<Rightarrow> job_row list" where
  "pg_create t rec = (if sel1 (\<lambda>r. j_id r = jr_jobId rec) t \<noteq> None then t else t @ [pg_row rec])"

definition pg_get :: "job_row list \<Rightarrow> string \<Rightarrow> job_record option" where
  "pg_get t jobId = map_option pg_record (sel1 (\<lambda>r. j_id r = jobId) t)"

definition pg_markMetered :: "job_row list \<Rightarrow> string \<Rightarrow> bool \<times> job_row list" where
  "pg_markMetered t jobId =
     (let hit = (\<lambda>r. j_id r = jobId \<and> \<not> j_metered r) in
      (sel hit t \<noteq> [], upd hit (\<lambda>r. r\<lparr>j_metered := True\<rparr>) t))"

lemma pg_record_row: "pg_record (pg_row r) = r\<lparr>jr_metered := False\<rparr>"
  by (cases r) (simp add: pg_record_def pg_row_def)

lemma sel1_single: "sel1 P [x] = (if P x then Some x else None)"
  by (simp add: sel1_def)

lemma pg_row_id [simp]: "j_id (pg_row r) = jr_jobId r"
  by (simp add: pg_row_def)

lemma sel1_metered:
  "sel1 (\<lambda>r. j_id r = i) (upd (\<lambda>r. j_id r = j \<and> \<not> j_metered r) (\<lambda>r. r\<lparr>j_metered := True\<rparr>) t) =
     map_option (\<lambda>r. if i = j then r\<lparr>j_metered := True\<rparr> else r) (sel1 (\<lambda>r. j_id r = i) t)"
proof (induction t)
  case (Cons r t)
  have "r\<lparr>j_metered := True\<rparr> = r" if "j_metered r" using that by (cases r) simp
  with Cons show ?case by (auto simp: sel1_def upd_def)
qed (simp add: sel1_def upd_def)

lemma pg_hit:
  assumes "distinct (map j_id t)"
  shows "sel (\<lambda>r. j_id r = j \<and> \<not> j_metered r) t \<noteq> [] \<longleftrightarrow>
    (\<exists>r. sel1 (\<lambda>r. j_id r = j) t = Some r \<and> \<not> j_metered r)"
proof
  assume "sel (\<lambda>r. j_id r = j \<and> \<not> j_metered r) t \<noteq> []"
  then obtain r where "r \<in> set t" "j_id r = j" "\<not> j_metered r" by (auto simp: sel_def filter_empty_conv)
  with sel1_unique [OF assms, of r] show "\<exists>r. sel1 (\<lambda>r. j_id r = j) t = Some r \<and> \<not> j_metered r" by auto
next
  assume "\<exists>r. sel1 (\<lambda>r. j_id r = j) t = Some r \<and> \<not> j_metered r"
  then show "sel (\<lambda>r. j_id r = j \<and> \<not> j_metered r) t \<noteq> []" by (auto dest: sel1_Some simp: sel_def filter_empty_conv)
qed

interpretation pg_store: dedup_job_store pg_create pg_get pg_markMetered "\<lambda>t. distinct (map j_id t)"
proof unfold_locales
  fix s :: "job_row list" and r r' :: job_record and i j :: string
  assume inv: "distinct (map j_id s)"
  show "distinct (map j_id (pg_create s r))"
    using inv by (auto simp: pg_create_def sel1_None pg_row_def)
  show "distinct (map j_id (snd (pg_markMetered s j)))"
    using inv by (simp add: pg_markMetered_def Let_def map_upd_key)
  show "fst (pg_markMetered s j) \<longleftrightarrow> (\<exists>r. pg_get s j = Some r \<and> \<not> jr_metered r)"
    using pg_hit [OF inv, of j] by (auto simp: pg_markMetered_def pg_get_def pg_record_def)
  show "pg_get (snd (pg_markMetered s j)) i =
      (if i = j then map_option (\<lambda>r. r\<lparr>jr_metered := True\<rparr>) (pg_get s i) else pg_get s i)"
    by (simp add: pg_markMetered_def Let_def pg_get_def sel1_metered option.map_comp comp_def pg_record_def [abs_def])
  show "j \<noteq> jr_jobId r \<Longrightarrow> pg_get (pg_create s r) j = pg_get s j"
    by (auto simp: pg_create_def pg_get_def sel1_append sel1_single split: option.split)
  show "pg_get s (jr_jobId r) = None \<Longrightarrow> pg_get (pg_create s r) (jr_jobId r) = Some (r\<lparr>jr_metered := False\<rparr>)"
    by (simp add: pg_create_def pg_get_def sel1_append sel1_single pg_record_row)
  show "pg_get s (jr_jobId r) = Some r' \<Longrightarrow> pg_get (pg_create s r) (jr_jobId r) = Some r'"
    by (auto simp: pg_create_def pg_get_def)
qed

section \<open>Properties\<close>

definition demo_job :: job_record where
  "demo_job = \<lparr>jr_jobId = ''j'', jr_orgId = ''o'', jr_keyId = ''k'', jr_paddockId = ''p'', jr_templateId = ''t'',
     jr_cost = Fin 1, jr_metered = False, jr_submittedAt = 0\<rparr>"

text \<open>
  A job is metered at most once on the Postgres store, over every interleaving of creates
  (duplicates of its id included) and \<open>markMetered\<close> calls of all instances.
\<close>

theorem postgres_meters_at_most_once:
  assumes "distinct (map j_id t)"
  shows "wins pg_create pg_markMetered j t ops \<le> 1"
  using assms by (rule pg_store.metered_at_most_once)

theorem postgres_meters_at_most_once_witness:
  "wins pg_create pg_markMetered ''j'' [] 
     [MarkMetered ''j'', Create demo_job, MarkMetered ''j'', Create demo_job, MarkMetered ''j''] \<le> 1"
  by (rule postgres_meters_at_most_once) simp

text \<open>
  The in-memory and the Postgres store answer alike: for a job submitted at most once, both
  meter it exactly once when some \<open>markMetered\<close> follows its submission, and never when none does.
\<close>

theorem job_stores_meter_alike:
  assumes "creates j ops \<le> 1"
  shows "wins mem_create mem_markMetered j Map.empty ops = (if marked_after False j ops then 1 else 0) \<and>
    wins pg_create pg_markMetered j [] ops = (if marked_after False j ops then 1 else 0)"
  using mem_store.metered_exactly_once [of Map.empty j ops] pg_store.metered_exactly_once [of "[]" j ops] assms
  by (simp add: mem_get_def pg_get_def sel1_def)

theorem job_stores_meter_alike_witness:
  "wins mem_create mem_markMetered ''j'' Map.empty [MarkMetered ''j'', Create demo_job, MarkMetered ''j'', MarkMetered ''j''] = 1"
  using job_stores_meter_alike [of "''j''" "[MarkMetered ''j'', Create demo_job, MarkMetered ''j'', MarkMetered ''j'']"]
  by (simp add: demo_job_def)

text \<open>
  The two stores differ on a duplicate id: the in-memory one starts the job over, so a
  second submission under the same id is metered again; the Postgres one keeps the first.
\<close>

theorem duplicate_submission_diverges:
  "wins mem_create mem_markMetered (jr_jobId r) Map.empty
     [Create r, MarkMetered (jr_jobId r), Create r, MarkMetered (jr_jobId r)] = 2 \<and>
   wins pg_create pg_markMetered (jr_jobId r) []
     [Create r, MarkMetered (jr_jobId r), Create r, MarkMetered (jr_jobId r)] = 1"
  by (simp add: mem_create_def mem_markMetered_def pg_create_def pg_markMetered_def pg_row_def
      sel_def sel1_def upd_def)

end
