(* ===== verification/Breed.thy ===== *)
theory Breed
  imports JobStore
begin

text \<open>
  What a breed is to the data plane (packages/connectors/src/breed.ts, mcp.ts, registry.ts,
  upstream-auth.ts): requests, guard answers, meter events, MCP tool definitions with their
  validity, and the one header a flock's credential becomes.
\<close>

section \<open>Requests and answers (breed.ts)\<close>

type_synonym headers = "(string \<times> string) list"

record req_ctx =
  rq_method :: string
  rq_path :: string
  rq_headers :: headers
  rq_body :: js
  rq_paddockSlug :: string

record rewritten =
  rw_method :: string
  rw_path :: string
  rw_headers :: headers
  rw_body :: js

datatype guard_result = GuardOk rewritten | GuardRefused int string

record meter_event =
  me_dim :: meter_dim
  me_value :: jnum
  me_at :: int

record upstream_result =
  up_status :: int
  up_headers :: headers
  up_body :: js
  up_finalFrame :: js

record flock_ref =
  fl_baseUrl :: string
  fl_upstreamAuth :: "string option"
  fl_tlsTrust :: bool

datatype route_spec = RouteSpec string string route_class bool

text \<open>\<open>a ?? b\<close>\<close>

fun or_else :: "js \<Rightarrow> js \<Rightarrow> js" where
  "or_else Undef b = b"
| "or_else Null b = b"
| "or_else a b = a"

section \<open>The credential header (upstream-auth.ts)\<close>

definition strip_bearer :: "string \<Rightarrow> string" where
  "strip_bearer t =
     (if lower (take 6 t) = ''bearer'' \<and> takeWhile white (drop 6 t) \<noteq> [] then dropWhile white (drop 6 t) else t)"

definition upstreamAuthHeaders :: "string option \<Rightarrow> headers" where
  "upstreamAuthHeaders auth =
     (case map_option strip_bearer auth of
        None \<Rightarrow> []
      | Some t \<Rightarrow> if t = [] then [] else [(''authorization'', ''Bearer '' @ t)])"

section \<open>MCP tool definitions (mcp.ts)\<close>

record tool_def =
  tl_name :: string
  tl_title :: string
  tl_description :: string
  tl_inputSchema :: js
  tl_annotations :: js

definition tool_name_char :: "char \<Rightarrow> bool" where
  "tool_name_char c = (is_upper c \<or> is_lower c \<or> is_digit c \<or> c = CHR ''_'' \<or> c = CHR ''.'' \<or> c = CHR ''-'')"

definition mcp_tool_name :: "string \<Rightarrow> bool" where
  "mcp_tool_name s = (1 \<le> length s \<and> length s \<le> 128 \<and> list_all tool_name_char s)"

datatype tool_problem =
    InvalidName nat string
  | DuplicateName nat string
  | Unsorted string string
  | EmptyDescription string
  | SchemaNotObject string
  | AdditionalProperties string
  | UndeclaredRequired string js

definition schema_required :: "js \<Rightarrow> js list" where
  "schema_required schema = (case getp schema ''required'' of Arr rs \<Rightarrow> rs | _ \<Rightarrow> [])"

definition declares :: "js \<Rightarrow> js \<Rightarrow> bool" where
  "declares schema r =
     (case (getp schema ''properties'', r) of (Obj ps, Str k) \<Rightarrow> has_own ps k | _ \<Rightarrow> False)"

definition schema_problems :: "tool_def \<Rightarrow> tool_problem list" where
  "schema_problems d =
     (let schema = tl_inputSchema d in
      if getp schema ''type'' \<noteq> Str ''object'' then [SchemaNotObject (tl_name d)]
      else (if getp schema ''additionalProperties'' \<noteq> Boolean False then [AdditionalProperties (tl_name d)] else []) @
        map (UndeclaredRequired (tl_name d)) (filter (\<lambda>r. \<not> declares schema r) (schema_required schema)))"

text \<open>The loop of \<open>toolDefProblems\<close> at index \<open>i\<close>: the name before it, and the names seen.\<close>

fun tool_problems_from :: "nat \<Rightarrow> string option \<Rightarrow> string list \<Rightarrow> tool_def list \<Rightarrow> tool_problem list" where
  "tool_problems_from i prev seen [] = []"
| "tool_problems_from i prev seen (d # ds) =
     (if mcp_tool_name (tl_name d) then [] else [InvalidName i (tl_name d)]) @
     (if tl_name d \<in> set seen then [DuplicateName i (tl_name d)]
      else case prev of
          None \<Rightarrow> []
        | Some p \<Rightarrow> if p < tl_name d then [] else [Unsorted p (tl_name d)]) @
     (if trim (tl_description d) = [] then [EmptyDescription (tl_name d)] else []) @
     schema_problems d @
     tool_problems_from (Suc i) (Some (tl_name d)) (tl_name d # seen) ds"

definition toolDefProblems :: "tool_def list \<Rightarrow> tool_problem list" where
  "toolDefProblems defs = tool_problems_from 0 None [] defs"

lemma tool_problems_from_none:
  "tool_problems_from i prev seen ds = [] \<longleftrightarrow>
     (\<forall>d \<in> set ds. mcp_tool_name (tl_name d) \<and> trim (tl_description d) \<noteq> [] \<and> schema_problems d = []) \<and>
     sorted_wrt (<) (map tl_name ds) \<and>
     (\<forall>d \<in> set ds. tl_name d \<notin> set seen) \<and>
     (\<forall>p. prev = Some p \<longrightarrow> ds = [] \<or> p < tl_name (hd ds))"
proof (induction ds arbitrary: i prev seen)
  case (Cons d ds)
  have hd_less: "(ds = [] \<or> tl_name d < tl_name (hd ds)) \<and> sorted_wrt (<) (map tl_name ds) \<longleftrightarrow>
      (\<forall>e \<in> set ds. tl_name d < tl_name e) \<and> sorted_wrt (<) (map tl_name ds)"
    by (cases ds) (auto intro: less_trans)
  show ?case
    unfolding tool_problems_from.simps append_is_Nil_conv Cons.IH
    using hd_less by (auto split: option.splits)
qed simp

text \<open>A list of tools has no problems exactly when every tool is well formed on its own and the
  names are strictly ascending.\<close>

lemma toolDefProblems_none:
  "toolDefProblems ds = [] \<longleftrightarrow>
     (\<forall>d \<in> set ds. mcp_tool_name (tl_name d) \<and> trim (tl_description d) \<noteq> [] \<and> schema_problems d = []) \<and>
     sorted_wrt (<) (map tl_name ds)"
  by (simp add: toolDefProblems_def tool_problems_from_none)

text \<open>\<open>tools.sort(byToolName)\<close>\<close>

definition sort_tools :: "tool_def list \<Rightarrow> tool_def list" where
  "sort_tools ts = sort_key tl_name ts"

lemma sort_tools_valid:
  assumes "distinct (map tl_name ds)"
    and "\<forall>d \<in> set ds. mcp_tool_name (tl_name d) \<and> trim (tl_description d) \<noteq> [] \<and> schema_problems d = []"
  shows "toolDefProblems (sort_tools ds) = []"
proof -
  have "distinct (map tl_name (sort_tools ds))"
    by (metis assms(1) distinct_map distinct_sort set_sort sort_tools_def)
  moreover have "sorted (map tl_name (sort_tools ds))" by (simp add: sort_tools_def)
  ultimately have "sorted_wrt (<) (map tl_name (sort_tools ds))" by (simp add: strict_sorted_iff)
  with assms(2) show ?thesis by (simp add: toolDefProblems_none sort_tools_def)
qed

section \<open>Calls and results (mcp.ts)\<close>

datatype mcp_content = TextContent string | ImageContent string string

record tool_result =
  tr_content :: "mcp_content list"
  tr_structured :: "js option"
  tr_isError :: bool

definition toolError :: "string \<Rightarrow> tool_result" where
  "toolError text = \<lparr>tr_content = [TextContent text], tr_structured = None, tr_isError = True\<rparr>"

record planned_request =
  pl_method :: string
  pl_path :: string
  pl_body :: js

datatype call_plan = Planned planned_request | NotPlanned string

fun argsObject :: "js \<Rightarrow> (string \<times> js) list option" where
  "argsObject (Obj kvs) = Some kvs"
| "argsObject _ = None"

lemma argsObject_Some [simp]: "argsObject v = Some kvs \<longleftrightarrow> v = Obj kvs"
  by (cases v) auto

section \<open>The registry (registry.ts)\<close>

datatype registry_error = AlreadyRegistered string | UnknownBreed string

definition register :: "(string \<times> 'b) list \<Rightarrow> string \<Rightarrow> 'b \<Rightarrow> registry_error + (string \<times> 'b) list" where
  "register breeds i b = (if map_of breeds i \<noteq> None then Inl (AlreadyRegistered i) else Inr (breeds @ [(i, b)]))"

definition registry_get :: "(string \<times> 'b) list \<Rightarrow> string \<Rightarrow> registry_error + 'b" where
  "registry_get breeds i = (case map_of breeds i of None \<Rightarrow> Inl (UnknownBreed i) | Some b \<Rightarrow> Inr b)"

lemma registry_get_register:
  "register breeds i b = Inr breeds' \<Longrightarrow>
     registry_get breeds' j = (if j = i then Inr b else registry_get breeds j) \<and>
     map fst breeds' = map fst breeds @ [i]"
  by (auto simp: register_def registry_get_def map_add_def split: if_split_asm option.split)

end
