(* ===== verification/Ollama.thy ===== *)
theory Ollama
  imports Breed
begin

text \<open>
  The Ollama breed (packages/connectors/src/ollama): its fence, the route groups, the guard, the
  meter, and the MCP tools, plans and results derived from the fence.
\<close>

section \<open>The fence (constraint.ts)\<close>

datatype ollama_group = GChat | GGenerate | GEmbed | GRead | GMutate | GUnknown

record ollama_fence =
  allowedRoutes :: "ollama_group list"
  allowedModels :: "string list option"

fun fence_route :: "js \<Rightarrow> ollama_group option" where
  "fence_route (Str s) =
     (if s = ''chat'' then Some GChat else if s = ''generate'' then Some GGenerate
      else if s = ''embed'' then Some GEmbed else if s = ''read'' then Some GRead else None)"
| "fence_route _ = None"

fun fence_routes :: "js \<Rightarrow> ollama_group list option" where
  "fence_routes Undef = Some [GChat]"
| "fence_routes (Arr vs) = (if vs = [] then None else those (map fence_route vs))"
| "fence_routes _ = None"

fun fence_models :: "js \<Rightarrow> string list option option" where
  "fence_models Undef = Some None"
| "fence_models Null = Some None"
| "fence_models (Arr vs) = map_option Some (those (map as_str vs))"
| "fence_models _ = None"

definition ollamaConstraint :: "js \<Rightarrow> ollama_fence option" where
  "ollamaConstraint v =
     (case v of
        Obj kvs \<Rightarrow>
          (case (fence_routes (getp v ''allowedRoutes''), fence_models (getp v ''allowedModels'')) of
             (Some rs, Some ms) \<Rightarrow> Some \<lparr>allowedRoutes = rs, allowedModels = ms\<rparr>
           | _ \<Rightarrow> None)
      | _ \<Rightarrow> None)"

definition ollamaModelAllowed :: "ollama_fence \<Rightarrow> string \<Rightarrow> bool" where
  "ollamaModelAllowed fence model =
     (case allowedModels fence of None \<Rightarrow> True | Some ms \<Rightarrow> model \<in> set ms)"

definition routeGroup :: "string \<Rightarrow> ollama_group" where
  "routeGroup path =
     (let p = hd (split_on CHR ''?'' path) in
      if p = ''/api/chat'' \<or> p = ''/v1/chat/completions'' then GChat
      else if p = ''/api/generate'' \<or> p = ''/v1/completions'' then GGenerate
      else if p = ''/api/embed'' \<or> p = ''/api/embeddings'' \<or> p = ''/v1/embeddings'' then GEmbed
      else if p = ''/api/tags'' \<or> p = ''/api/show'' \<or> p = ''/api/ps'' \<or> p = ''/api/version'' \<or>
        p = ''/v1/models'' \<or> starts_with p ''/v1/models/'' then GRead
      else if p = ''/api/pull'' \<or> p = ''/api/push'' \<or> p = ''/api/create'' \<or> p = ''/api/copy'' \<or>
        p = ''/api/delete'' \<or> starts_with p ''/api/blobs'' then GMutate
      else GUnknown)"

fun group_str :: "ollama_group \<Rightarrow> string" where
  "group_str GChat = ''chat''"
| "group_str GGenerate = ''generate''"
| "group_str GEmbed = ''embed''"
| "group_str GRead = ''read''"
| "group_str GMutate = ''mutate''"
| "group_str GUnknown = ''unknown''"

section \<open>The guard and the meter (breed.ts)\<close>

definition ollama_routes :: "route_spec list" where
  "ollama_routes =
     [RouteSpec ''POST'' ''/api/chat'' InferClass True, RouteSpec ''POST'' ''/api/generate'' InferClass True,
      RouteSpec ''POST'' ''/api/embed'' InferClass True, RouteSpec ''GET'' ''/api/tags'' ReadClass True,
      RouteSpec ''POST'' ''/api/pull'' MutateClass False, RouteSpec ''DELETE'' ''/api/delete'' MutateClass False]"

text \<open>\<open>{...o}\<close>: the own enumerable properties; of an array and a string, its indices.\<close>

fun spread :: "js \<Rightarrow> (string \<times> js) list" where
  "spread (Obj kvs) = kvs"
| "spread (Arr vs) = zip (map dec [0..<length vs]) vs"
| "spread (Str s) = zip (map dec [0..<length s]) (map (\<lambda>c. Str [c]) s)"
| "spread _ = []"

definition with_usage :: "js \<Rightarrow> js" where
  "with_usage body = Obj (assoc_set (spread body) ''stream_options''
     (Obj (assoc_set (spread (getp body ''stream_options'')) ''include_usage'' (Boolean True))))"

definition model_refused :: "ollama_fence \<Rightarrow> js \<Rightarrow> bool" where
  "model_refused fence model =
     (allowedModels fence \<noteq> None \<and>
      (case model of Str m \<Rightarrow> \<not> ollamaModelAllowed fence m | _ \<Rightarrow> True))"

definition ollama_guard :: "req_ctx \<Rightarrow> ollama_fence \<Rightarrow> guard_result" where
  "ollama_guard ctx fence =
     (let group = routeGroup (rq_path ctx); model = getp (rq_body ctx) ''model'' in
      if group = GMutate then GuardRefused 403 ''model-management endpoints are not permitted''
      else if group = GUnknown then GuardRefused 403 (''route not permitted: '' @ rq_path ctx)
      else if group \<notin> set (allowedRoutes fence) then
        GuardRefused 403 (''route group '' @ [CHR 0x27] @ group_str group @ [CHR 0x27] @ '' is not allowed by this paddock'')
      else if group \<noteq> GRead \<and> model_refused fence model then
        GuardRefused 403 (''model not allowed: '' @ (case model of Str m \<Rightarrow> m | _ \<Rightarrow> ''(none)''))
      else GuardOk \<lparr>rw_method = rq_method ctx, rw_path = rq_path ctx, rw_headers = rq_headers ctx,
             rw_body = (if group \<noteq> GRead \<and> starts_with (rq_path ctx) ''/v1/'' \<and>
                 getp (rq_body ctx) ''stream'' = Boolean True then with_usage (rq_body ctx) else rq_body ctx)\<rparr>)"

definition count_of :: "js \<Rightarrow> jnum \<Rightarrow> jnum" where
  "count_of v d = (case v of Num n \<Rightarrow> n | _ \<Rightarrow> d)"

definition ollama_meter :: "int \<Rightarrow> upstream_result \<Rightarrow> meter_event list" where
  "ollama_meter now upstream =
     (let frame = or_else (up_finalFrame upstream) (up_body upstream) in
      case frame of
        Obj _ \<Rightarrow>
          let i = count_of (getp frame ''prompt_eval_count'') (Fin 0);
              u = count_of (getp frame ''eval_count'') (Fin 0);
              usage = getp frame ''usage'';
              tokensIn = count_of (getp usage ''prompt_tokens'') i;
              tokensOut = count_of (getp usage ''completion_tokens'') u
          in (if jnum_less (Fin 0) tokensIn then [\<lparr>me_dim = TokensIn, me_value = tokensIn, me_at = now\<rparr>] else []) @
             (if jnum_less (Fin 0) tokensOut then [\<lparr>me_dim = TokensOut, me_value = tokensOut, me_at = now\<rparr>] else [])
      | _ \<Rightarrow> [])"

text \<open>\<open>listModels\<close>: the fetch and its JSON body are the answer \<open>res\<close> (status and body,
  or the message of a failure).\<close>

record model_list =
  ml_ok :: bool
  ml_models :: "string list"
  ml_detail :: "string option"

definition names_of :: "js \<Rightarrow> string list" where
  "names_of ms = (case ms of Arr vs \<Rightarrow> List.map_filter (\<lambda>m. as_str (getp m ''name'')) vs | _ \<Rightarrow> [])"

definition listModels :: "string + (int \<times> js) \<Rightarrow> model_list" where
  "listModels res =
     (case res of
        Inl err \<Rightarrow> \<lparr>ml_ok = False, ml_models = [], ml_detail = Some err\<rparr>
      | Inr (status, body) \<Rightarrow>
          if \<not> (200 \<le> status \<and> status \<le> 299) then
            \<lparr>ml_ok = False, ml_models = [], ml_detail = Some (''upstream returned HTTP '' @ int_str status)\<rparr>
          else \<lparr>ml_ok = True, ml_models = sort (uniq (names_of (getp body ''models''))), ml_detail = None\<rparr>)"

section \<open>Tools (mcp.ts)\<close>

definition INFERENCE :: js where
  "INFERENCE = Obj [(''readOnlyHint'', Boolean True), (''destructiveHint'', Boolean False),
     (''idempotentHint'', Boolean False), (''openWorldHint'', Boolean False)]"

definition LISTING :: js where
  "LISTING = Obj [(''readOnlyHint'', Boolean True), (''destructiveHint'', Boolean False),
     (''idempotentHint'', Boolean True), (''openWorldHint'', Boolean False)]"

definition modelSchema :: "string list option \<Rightarrow> js" where
  "modelSchema allowed =
     (case allowed of
        None \<Rightarrow> Obj [(''type'', Str ''string''), (''minLength'', NumI 1),
          (''description'', Str ''Name of an Ollama model available on this paddock.'')]
      | Some ms \<Rightarrow> Obj [(''type'', Str ''string''), (''enum'', Arr (map Str (sort (uniq ms)))),
          (''description'', Str ''One of the models this paddock allows.'')])"

text \<open>An object schema that allows no other property.\<close>

definition object_schema :: "(string \<times> js) list \<Rightarrow> string list \<Rightarrow> js" where
  "object_schema props req =
     Obj ([(''type'', Str ''object''), (''properties'', Obj props)] @
       (if req = [] then [] else [(''required'', Arr (map Str req))]) @
       [(''additionalProperties'', Boolean False)])"

definition chatTool :: "string list option \<Rightarrow> tool_def" where
  "chatTool allowed = \<lparr>tl_name = ''chat'', tl_title = ''Chat'',
     tl_description = ''Send a conversation to a model and get the next assistant message.'',
     tl_inputSchema = object_schema
       [(''model'', modelSchema allowed),
        (''messages'', Obj [(''type'', Str ''array''), (''minItems'', NumI 1),
           (''items'', object_schema
              [(''role'', Obj [(''type'', Str ''string''), (''enum'', Arr [Str ''system'', Str ''user'', Str ''assistant''])]),
               (''content'', Obj [(''type'', Str ''string'')])]
              [''role'', ''content''])])]
       [''model'', ''messages''],
     tl_annotations = INFERENCE\<rparr>"

definition generateTool :: "string list option \<Rightarrow> tool_def" where
  "generateTool allowed = \<lparr>tl_name = ''generate'', tl_title = ''Generate text'',
     tl_description = ''Complete a single prompt with a model.'',
     tl_inputSchema = object_schema
       [(''model'', modelSchema allowed), (''prompt'', Obj [(''type'', Str ''string'')]),
        (''system'', Obj [(''type'', Str ''string''), (''description'', Str ''Optional system prompt.'')])]
       [''model'', ''prompt''],
     tl_annotations = INFERENCE\<rparr>"

definition embedTool :: "string list option \<Rightarrow> tool_def" where
  "embedTool allowed = \<lparr>tl_name = ''embed'', tl_title = ''Embed text'',
     tl_description = ''Compute embedding vectors for one or more strings.'',
     tl_inputSchema = object_schema
       [(''model'', modelSchema allowed),
        (''input'', Obj [(''type'', Str ''array''), (''minItems'', NumI 1), (''items'', Obj [(''type'', Str ''string'')])])]
       [''model'', ''input''],
     tl_annotations = INFERENCE\<rparr>"

definition listModelsTool :: tool_def where
  "listModelsTool = \<lparr>tl_name = ''list_models'', tl_title = ''List models'',
     tl_description = ''List the models installed on this paddock'' @ [CHR 0x27] @ ''s upstream. Inference tools accept only the models their model parameter allows.'',
     tl_inputSchema = object_schema [] [], tl_annotations = LISTING\<rparr>"

definition ollamaToMcp :: "ollama_fence \<Rightarrow> tool_def list" where
  "ollamaToMcp fence =
     (let allowed = allowedModels fence; canInfer = (allowed = None \<or> allowed \<noteq> Some []) in
      sort_tools
       ((if canInfer \<and> GChat \<in> set (allowedRoutes fence) then [chatTool allowed] else []) @
        (if canInfer \<and> GGenerate \<in> set (allowedRoutes fence) then [generateTool allowed] else []) @
        (if canInfer \<and> GEmbed \<in> set (allowedRoutes fence) then [embedTool allowed] else []) @
        (if GRead \<in> set (allowedRoutes fence) then [listModelsTool] else [])))"

section \<open>Plans and results (mcp.ts)\<close>

definition invalid :: "string \<Rightarrow> call_plan" where
  "invalid why = NotPlanned (''invalid arguments: '' @ why)"

definition bracket :: "nat \<Rightarrow> string" where
  "bracket i = ''messages['' @ dec i @ '']''"

definition chat_message :: "nat \<Rightarrow> js \<Rightarrow> string + js" where
  "chat_message i m =
     (case argsObject m of
        None \<Rightarrow> Inl (bracket i @ '' must be an object'')
      | Some kvs \<Rightarrow>
          if list_ex (\<lambda>(k, v). k \<noteq> ''role'' \<and> k \<noteq> ''content'') kvs then Inl (bracket i @ '' may carry only role and content'')
          else (case getp m ''role'' of
              Str r \<Rightarrow>
                if r \<noteq> ''system'' \<and> r \<noteq> ''user'' \<and> r \<noteq> ''assistant'' then
                  Inl (bracket i @ ''.role must be system, user or assistant'')
                else (case getp m ''content'' of
                    Str c \<Rightarrow> Inr (Obj [(''role'', Str r), (''content'', Str c)])
                  | _ \<Rightarrow> Inl (bracket i @ ''.content must be a string''))
            | _ \<Rightarrow> Inl (bracket i @ ''.role must be system, user or assistant'')))"

fun chat_messages_from :: "nat \<Rightarrow> js list \<Rightarrow> string + js list" where
  "chat_messages_from i [] = Inr []"
| "chat_messages_from i (m # ms) =
     (case chat_message i m of
        Inl e \<Rightarrow> Inl e
      | Inr v \<Rightarrow> (case chat_messages_from (Suc i) ms of Inl e \<Rightarrow> Inl e | Inr vs \<Rightarrow> Inr (v # vs)))"

definition chatMessages :: "js \<Rightarrow> string + js list" where
  "chatMessages v =
     (case v of
        Arr (m # ms) \<Rightarrow> chat_messages_from 0 (m # ms)
      | _ \<Rightarrow> Inl ''messages must be a non-empty array'')"

definition plan_chat :: "js \<Rightarrow> string \<Rightarrow> call_plan" where
  "plan_chat a model =
     (case chatMessages (getp a ''messages'') of
        Inl e \<Rightarrow> invalid e
      | Inr ms \<Rightarrow> Planned \<lparr>pl_method = ''POST'', pl_path = ''/api/chat'',
          pl_body = Obj [(''model'', Str model), (''messages'', Arr ms), (''stream'', Boolean False)]\<rparr>)"

definition plan_generate :: "js \<Rightarrow> string \<Rightarrow> call_plan" where
  "plan_generate a model =
     (case getp a ''prompt'' of
        Str p \<Rightarrow>
          (case getp a ''system'' of
             Undef \<Rightarrow> Planned \<lparr>pl_method = ''POST'', pl_path = ''/api/generate'',
               pl_body = Obj [(''model'', Str model), (''prompt'', Str p), (''stream'', Boolean False)]\<rparr>
           | Str s \<Rightarrow> Planned \<lparr>pl_method = ''POST'', pl_path = ''/api/generate'',
               pl_body = Obj [(''model'', Str model), (''prompt'', Str p), (''system'', Str s), (''stream'', Boolean False)]\<rparr>
           | _ \<Rightarrow> invalid ''system must be a string'')
      | _ \<Rightarrow> invalid ''prompt must be a string'')"

definition plan_embed :: "js \<Rightarrow> string \<Rightarrow> call_plan" where
  "plan_embed a model =
     (case getp a ''input'' of
        Arr vs \<Rightarrow>
          if vs = [] then invalid ''input must be a non-empty array''
          else if \<not> list_all is_str vs then invalid ''input must be an array of strings''
          else Planned \<lparr>pl_method = ''POST'', pl_path = ''/api/embed'',
            pl_body = Obj [(''model'', Str model), (''input'', Arr vs)]\<rparr>
      | _ \<Rightarrow> invalid ''input must be a non-empty array'')"

definition ollamaMcpCall :: "string \<Rightarrow> js \<Rightarrow> ollama_fence \<Rightarrow> call_plan" where
  "ollamaMcpCall name args fence =
     (if name \<notin> tl_name ` set (ollamaToMcp fence) then NotPlanned (''unknown tool: '' @ name)
      else case argsObject args of
        None \<Rightarrow> invalid ''expected an object''
      | Some kvs \<Rightarrow>
          if name = ''list_models'' then Planned \<lparr>pl_method = ''GET'', pl_path = ''/api/tags'', pl_body = Undef\<rparr>
          else (case getp args ''model'' of
              Str model \<Rightarrow>
                if name = ''chat'' then plan_chat args model
                else if name = ''generate'' then plan_generate args model
                else if name = ''embed'' then plan_embed args model
                else NotPlanned (''unknown tool: '' @ name)
            | _ \<Rightarrow> invalid ''model must be a string''))"

definition upstreamError :: "int \<Rightarrow> js \<Rightarrow> string" where
  "upstreamError status body =
     ''upstream error ('' @ int_str status @ '')'' @
     (case getp body ''error'' of Str e \<Rightarrow> if e = [] then [] else '': '' @ e | _ \<Rightarrow> [])"

text \<open>\<open>JSON.stringify\<close> of the embeddings is the argument \<open>stringify\<close>.\<close>

definition ollamaMcpResult :: "(js \<Rightarrow> string) \<Rightarrow> string \<Rightarrow> int \<Rightarrow> js \<Rightarrow> ollama_fence \<Rightarrow> tool_result" where
  "ollamaMcpResult stringify name status body fence =
     (if 400 \<le> status then toolError (upstreamError status body)
      else if (case body of Obj _ \<Rightarrow> False | Arr _ \<Rightarrow> False | _ \<Rightarrow> True) then toolError ''the upstream answer could not be read''
      else if name = ''chat'' then
        (case getp (getp body ''message'') ''content'' of
           Str t \<Rightarrow> \<lparr>tr_content = [TextContent t], tr_structured = Some body, tr_isError = False\<rparr>
         | _ \<Rightarrow> toolError ''the upstream answer had no message'')
      else if name = ''generate'' then
        (case getp body ''response'' of
           Str t \<Rightarrow> \<lparr>tr_content = [TextContent t], tr_structured = Some body, tr_isError = False\<rparr>
         | _ \<Rightarrow> toolError ''the upstream answer had no response'')
      else if name = ''embed'' then
        (case getp body ''embeddings'' of
           Arr vs \<Rightarrow> \<lparr>tr_content = [TextContent (stringify (Arr vs))],
             tr_structured = Some (Obj [(''embeddings'', Arr vs)]), tr_isError = False\<rparr>
         | _ \<Rightarrow> toolError ''the upstream answer had no embeddings'')
      else if name = ''list_models'' then
        (let models = sort (filter (ollamaModelAllowed fence) (uniq (names_of (getp body ''models'')))) in
         \<lparr>tr_content = [TextContent (join_on [CHR 0x0A] models)],
          tr_structured = Some (Obj [(''models'', Arr (map Str models))]), tr_isError = False\<rparr>)
      else toolError (''unknown tool: '' @ name))"

section \<open>Lemmas\<close>

lemma fence_route_group: "fence_route v = Some g \<Longrightarrow> g \<in> {GChat, GGenerate, GEmbed, GRead}"
  by (cases v) (auto split: if_split_asm)

lemma parsed_fence_groups:
  "ollamaConstraint v = Some fence \<Longrightarrow> set (allowedRoutes fence) \<subseteq> {GChat, GGenerate, GEmbed, GRead} \<and> allowedRoutes fence \<noteq> []"
proof -
  assume "ollamaConstraint v = Some fence"
  then obtain w where w: "fence_routes w = Some (allowedRoutes fence)"
    by (cases v) (auto simp: ollamaConstraint_def simp del: getp.simps split: option.split_asm)
  show ?thesis
  proof (cases w)
    case (Arr vs)
    with w have r: "those (map fence_route vs) = Some (allowedRoutes fence)" and ne: "vs \<noteq> []"
      by (auto split: if_split_asm)
    have "g \<in> {GChat, GGenerate, GEmbed, GRead}" if "g \<in> set (allowedRoutes fence)" for g
    proof -
      have "Some g \<in> set (map fence_route vs)" unfolding those_Some_set [OF r] using that by (rule imageI)
      then show ?thesis using fence_route_group by (metis (mono_tags, lifting) ex_map_conv)
    qed
    moreover have "set (map fence_route vs) \<noteq> {}" using ne by simp
    then have "allowedRoutes fence \<noteq> []" unfolding those_Some_set [OF r] by auto
    ultimately show ?thesis by blast
  qed (use w [symmetric] in auto)
qed

lemma getp_with_usage:
  assumes "getp body ''stream'' = Boolean True" and "k \<noteq> ''stream_options''"
  shows "getp (with_usage body) k = getp body k"
proof -
  from assms(1) obtain kvs where "body = Obj kvs" by (cases body) auto
  with assms(2) show ?thesis by (simp add: with_usage_def)
qed

lemma model_checked:
  "\<not> model_refused fence v \<Longrightarrow> allowedModels fence = Some ms \<Longrightarrow> \<exists>m \<in> set ms. v = Str m"
  by (cases v) (auto simp: model_refused_def ollamaModelAllowed_def)

lemma guard_GuardOk:
  assumes "ollama_guard ctx fence = GuardOk r"
  shows "routeGroup (rq_path ctx) \<in> set (allowedRoutes fence) - {GMutate, GUnknown}"
    and "rw_method r = rq_method ctx" and "rw_path r = rq_path ctx" and "rw_headers r = rq_headers ctx"
    and "routeGroup (rq_path ctx) \<noteq> GRead \<Longrightarrow> \<not> model_refused fence (getp (rq_body ctx) ''model'')"
    and "k \<noteq> ''stream_options'' \<Longrightarrow> getp (rw_body r) k = getp (rq_body ctx) k"
  using assms getp_with_usage [of "rq_body ctx" k]
  by (auto simp: ollama_guard_def Let_def split: if_split_asm)

lemma getp_object_schema:
  "getp (object_schema ps rs) ''type'' = Str ''object''"
  "getp (object_schema ps rs) ''additionalProperties'' = Boolean False"
  "getp (object_schema ps rs) ''properties'' = Obj ps"
  "schema_required (object_schema ps rs) = map Str rs"
  by (simp_all add: object_schema_def schema_required_def)

lemma object_schema_ok:
  "tl_inputSchema d = object_schema ps rs \<Longrightarrow> list_all (has_own ps) rs \<Longrightarrow> schema_problems d = []"
  by (simp add: schema_problems_def getp_object_schema declares_def filter_empty_conv list_all_iff del: getp.simps)

lemma tool_names:
  "tl_name (chatTool a) = ''chat''" "tl_name (generateTool a) = ''generate''"
  "tl_name (embedTool a) = ''embed''" "tl_name listModelsTool = ''list_models''"
  by (simp_all add: chatTool_def generateTool_def embedTool_def listModelsTool_def)

lemma trim_nonempty: "s \<noteq> [] \<Longrightarrow> \<not> white (hd s) \<Longrightarrow> trim s \<noteq> []"
  by (cases s) (auto simp: trim_def dropWhile_eq_Nil_conv)

lemma tool_names_ok: "mcp_tool_name ''chat''" "mcp_tool_name ''generate''" "mcp_tool_name ''embed''"
  "mcp_tool_name ''list_models''"
  by code_simp+

lemma tool_descriptions:
  "hd (tl_description (chatTool a)) = CHR ''S''" "hd (tl_description (generateTool a)) = CHR ''C''"
  "hd (tl_description (embedTool a)) = CHR ''C''" "hd (tl_description listModelsTool) = CHR ''L''"
  "tl_description (chatTool a) \<noteq> []" "tl_description (generateTool a) \<noteq> []"
  "tl_description (embedTool a) \<noteq> []" "tl_description listModelsTool \<noteq> []"
  by (simp_all add: chatTool_def generateTool_def embedTool_def listModelsTool_def)

lemma tools_ok:
  assumes "d \<in> {chatTool a, generateTool a, embedTool a, listModelsTool}"
  shows "mcp_tool_name (tl_name d) \<and> trim (tl_description d) \<noteq> [] \<and> schema_problems d = []"
proof -
  have "schema_problems (chatTool a) = []" "schema_problems (generateTool a) = []"
    "schema_problems (embedTool a) = []" "schema_problems listModelsTool = []"
    by (rule object_schema_ok, simp add: chatTool_def generateTool_def embedTool_def listModelsTool_def,
        simp add: has_own_def)+
  moreover have "trim (tl_description d) \<noteq> []"
    using assms by (intro trim_nonempty) (auto simp: tool_descriptions white_def)
  ultimately show ?thesis using assms tool_names_ok by (auto simp: tool_names)
qed

fun tool_group :: "string \<Rightarrow> ollama_group" where
  "tool_group n = (if n = ''chat'' then GChat else if n = ''generate'' then GGenerate
     else if n = ''embed'' then GEmbed else if n = ''list_models'' then GRead else GUnknown)"

lemma offered_tool:
  "n \<in> tl_name ` set (ollamaToMcp fence) \<Longrightarrow>
     n \<in> {''chat'', ''generate'', ''embed'', ''list_models''} \<and> tool_group n \<in> set (allowedRoutes fence)"
  by (auto simp: ollamaToMcp_def Let_def sort_tools_def tool_names split: if_split_asm)

lemma routeGroup_paths:
  "routeGroup ''/api/chat'' = GChat" "routeGroup ''/api/generate'' = GGenerate"
  "routeGroup ''/api/embed'' = GEmbed" "routeGroup ''/api/tags'' = GRead"
  by (simp_all add: routeGroup_def)

lemma plan_shape:
  assumes "ollamaMcpCall n args fence = Planned rq"
  shows "n \<in> tl_name ` set (ollamaToMcp fence) \<and> routeGroup (pl_path rq) = tool_group n \<and>
    tool_group n \<in> set (allowedRoutes fence) - {GMutate, GUnknown} \<and>
    (n \<noteq> ''list_models'' \<longrightarrow> getp (pl_body rq) ''model'' = getp args ''model'' \<and> is_str (getp args ''model'') \<and>
       getp (pl_body rq) ''stream'' \<noteq> Boolean True)"
proof -
  from assms have n: "n \<in> tl_name ` set (ollamaToMcp fence)"
    by (auto simp: ollamaMcpCall_def split: if_split_asm)
  note grp = offered_tool [OF n]
  show ?thesis
  proof (cases "n = ''list_models''")
    case True
    with assms n grp show ?thesis
      by (auto simp: ollamaMcpCall_def invalid_def routeGroup_paths split: option.split_asm)
  next
    case False
    with assms n obtain m where m: "getp args ''model'' = Str m"
      and p: "(n = ''chat'' \<and> plan_chat args m = Planned rq) \<or> (n = ''generate'' \<and> plan_generate args m = Planned rq) \<or>
        (n = ''embed'' \<and> plan_embed args m = Planned rq)"
      by (cases "getp args ''model''")
        (auto simp: ollamaMcpCall_def invalid_def simp del: getp.simps split: option.split_asm if_split_asm)
    from p show ?thesis
    proof (elim disjE conjE)
      assume c: "n = ''chat''" "plan_chat args m = Planned rq"
      then obtain ms where "rq = \<lparr>pl_method = ''POST'', pl_path = ''/api/chat'',
          pl_body = Obj [(''model'', Str m), (''messages'', Arr ms), (''stream'', Boolean False)]\<rparr>"
        by (auto simp: plan_chat_def invalid_def split: sum.split_asm)
      with n grp m c(1) show ?thesis by (auto simp: routeGroup_paths)
    next
      assume c: "n = ''generate''" "plan_generate args m = Planned rq"
      then obtain kvs where "rq = \<lparr>pl_method = ''POST'', pl_path = ''/api/generate'', pl_body = Obj kvs\<rparr>"
        "map_of kvs ''model'' = Some (Str m)" "map_of kvs ''stream'' = Some (Boolean False)"
        by (auto simp: plan_generate_def invalid_def split: js.split_asm)
      with n grp m c(1) show ?thesis by (auto simp: routeGroup_paths)
    next
      assume c: "n = ''embed''" "plan_embed args m = Planned rq"
      then obtain vs where "rq = \<lparr>pl_method = ''POST'', pl_path = ''/api/embed'', pl_body = Obj [(''model'', Str m), (''input'', Arr vs)]\<rparr>"
        by (cases "getp args ''input''") (auto simp: plan_embed_def invalid_def simp del: getp.simps split: if_split_asm)
      with n grp m c(1) show ?thesis by (auto simp: routeGroup_paths)
    qed
  qed
qed

section \<open>Properties\<close>

text \<open>
  C3. What the Ollama guard lets through: a route of a group the fence allows, never model
  management and never an unknown route; the method, path and headers are the caller's; and on an
  inference route under a model list, the body that is sent names a model of the list.
\<close>

theorem ollama_guard_safe:
  assumes "ollama_guard ctx fence = GuardOk r"
  shows "routeGroup (rw_path r) \<in> set (allowedRoutes fence) \<and> routeGroup (rw_path r) \<notin> {GMutate, GUnknown} \<and>
    rw_method r = rq_method ctx \<and> rw_path r = rq_path ctx \<and> rw_headers r = rq_headers ctx \<and>
    (\<forall>ms. routeGroup (rw_path r) \<noteq> GRead \<and> allowedModels fence = Some ms \<longrightarrow>
      (\<exists>m \<in> set ms. getp (rw_body r) ''model'' = Str m))"
proof -
  note g = guard_GuardOk [OF assms]
  have "\<exists>m \<in> set ms. getp (rw_body r) ''model'' = Str m"
    if "routeGroup (rw_path r) \<noteq> GRead" "allowedModels fence = Some ms" for ms
    using that model_checked [of fence "getp (rq_body ctx) ''model''" ms] g(3,5) g(6) [of "''model''"] by simp
  with g(1-4) show ?thesis by auto
qed

definition demo_chat_ctx :: req_ctx where
  "demo_chat_ctx = \<lparr>rq_method = ''POST'', rq_path = ''/v1/chat/completions'', rq_headers = [],
     rq_body = Obj [(''model'', Str ''llama''), (''stream'', Boolean True)], rq_paddockSlug = ''p''\<rparr>"

theorem ollama_guard_safe_witness:
  "\<exists>r. ollama_guard demo_chat_ctx \<lparr>allowedRoutes = [GChat], allowedModels = Some [''llama'']\<rparr> = GuardOk r \<and>
     rw_path r = ''/v1/chat/completions'' \<and> getp (rw_body r) ''model'' = Str ''llama''"
proof -
  have g: "routeGroup ''/v1/chat/completions'' = GChat" by (simp add: routeGroup_def)
  then obtain r where r: "ollama_guard demo_chat_ctx \<lparr>allowedRoutes = [GChat], allowedModels = Some [''llama'']\<rparr> = GuardOk r"
    by (simp add: ollama_guard_def demo_chat_ctx_def model_refused_def ollamaModelAllowed_def)
  from ollama_guard_safe [OF r] g r show ?thesis by (auto simp: demo_chat_ctx_def)
qed

text \<open>
  The MCP tools of every Ollama fence are valid: each is well named and described, takes an
  object with no undeclared property whose required properties are declared, and the list is
  strictly sorted by name; there is a tool for an allowed route group only.
\<close>

theorem ollama_tools_valid:
  "toolDefProblems (ollamaToMcp fence) = [] \<and>
   tool_group ` tl_name ` set (ollamaToMcp fence) \<subseteq> set (allowedRoutes fence)"
proof
  let ?ts = "\<lambda>a rs inf. (if inf \<and> GChat \<in> set rs then [chatTool a] else []) @
    (if inf \<and> GGenerate \<in> set rs then [generateTool a] else []) @
    (if inf \<and> GEmbed \<in> set rs then [embedTool a] else []) @ (if GRead \<in> set rs then [listModelsTool] else [])"
  have "toolDefProblems (sort_tools (?ts a rs inf)) = []" for a rs inf
  proof (rule sort_tools_valid)
    show "distinct (map tl_name (?ts a rs inf))" by (auto simp: tool_names)
    have "set (?ts a rs inf) \<subseteq> {chatTool a, generateTool a, embedTool a, listModelsTool}" by auto
    with tools_ok [of _ a] show "\<forall>d \<in> set (?ts a rs inf).
        mcp_tool_name (tl_name d) \<and> trim (tl_description d) \<noteq> [] \<and> schema_problems d = []" by blast
  qed
  then show "toolDefProblems (ollamaToMcp fence) = []" unfolding ollamaToMcp_def Let_def .
  show "tool_group ` tl_name ` set (ollamaToMcp fence) \<subseteq> set (allowedRoutes fence)"
    using offered_tool by blast
qed

text \<open>
  An MCP call is only ever planned as a request the proxy would admit on its own terms: it is
  of an offered tool, goes to that tool's route group, which the fence allows, and the guard
  refuses it only for its model, with the reason the proxy gives.
\<close>

theorem ollama_plan_meets_guard:
  assumes "ollamaMcpCall n args fence = Planned rq"
    and "rq_path ctx = pl_path rq" and "rq_body ctx = pl_body rq"
  shows "n \<in> tl_name ` set (ollamaToMcp fence) \<and> routeGroup (pl_path rq) \<in> set (allowedRoutes fence) \<and>
    (case ollama_guard ctx fence of
       GuardOk r \<Rightarrow> n = ''list_models'' \<or> \<not> model_refused fence (getp args ''model'')
     | GuardRefused status reason \<Rightarrow> n \<noteq> ''list_models'' \<and> status = 403 \<and>
         (\<exists>m. getp args ''model'' = Str m \<and> \<not> ollamaModelAllowed fence m \<and> reason = ''model not allowed: '' @ m))"
proof -
  note p = plan_shape [OF assms(1)]
  let ?g = "routeGroup (pl_path rq)"
  have g: "?g \<in> set (allowedRoutes fence)" "?g \<noteq> GMutate" "?g \<noteq> GUnknown" using p by auto
  have n: "n \<in> {''chat'', ''generate'', ''embed'', ''list_models''}" using p offered_tool by blast
  then have rd: "?g = GRead \<longleftrightarrow> n = ''list_models''" using p by auto
  have refused: "\<exists>m. getp args ''model'' = Str m \<and> \<not> ollamaModelAllowed fence m"
    if "n \<noteq> ''list_models''" "model_refused fence (getp args ''model'')"
    using that p by (cases "getp args ''model''") (auto simp: model_refused_def)
  show ?thesis
    using p g rd refused assms(2,3) by (auto simp: ollama_guard_def Let_def simp del: getp.simps)
qed

lemma demo_plan: "ollamaMcpCall ''embed'' (Obj [(''model'', Str ''m''), (''input'', Arr [Str ''x''])])
    \<lparr>allowedRoutes = [GEmbed], allowedModels = None\<rparr> =
  Planned \<lparr>pl_method = ''POST'', pl_path = ''/api/embed'', pl_body = Obj [(''model'', Str ''m''), (''input'', Arr [Str ''x''])]\<rparr>"
  by (simp add: ollamaMcpCall_def ollamaToMcp_def sort_tools_def tool_names plan_embed_def)

theorem ollama_plan_meets_guard_witness:
  "''embed'' \<in> tl_name ` set (ollamaToMcp \<lparr>allowedRoutes = [GEmbed], allowedModels = None\<rparr>) \<and>
   routeGroup ''/api/embed'' \<in> set (allowedRoutes \<lparr>allowedRoutes = [GEmbed], allowedModels = (None :: string list option)\<rparr>)"
  using ollama_plan_meets_guard [OF demo_plan, where ctx = "\<lparr>rq_method = ''POST'', rq_path = ''/api/embed'', rq_headers = [],
      rq_body = Obj [(''model'', Str ''m''), (''input'', Arr [Str ''x''])], rq_paddockSlug = ''p''\<rparr>"]
  by simp

text \<open>The model names of a \<open>list_models\<close> answer are sorted, distinct, and of the fence.\<close>

lemma list_models_narrowed:
  assumes "status < 400" and "body = Obj kvs"
  shows "\<exists>models. ollamaMcpResult stringify ''list_models'' status body fence =
      \<lparr>tr_content = [TextContent (join_on [CHR 0x0A] models)],
       tr_structured = Some (Obj [(''models'', Arr (map Str models))]), tr_isError = False\<rparr> \<and>
    sorted models \<and> distinct models \<and> set models = {m \<in> set (names_of (getp body ''models'')). ollamaModelAllowed fence m}"
  using assms by (auto simp: ollamaMcpResult_def Let_def distinct_filter)

lemma ollama_meter_positive:
  "e \<in> set (ollama_meter now u) \<Longrightarrow> jnum_less (Fin 0) (me_value e) \<and> me_dim e \<in> {TokensIn, TokensOut} \<and> me_at e = now"
  by (auto simp: ollama_meter_def Let_def split: js.split_asm if_split_asm)

lemma ollama_meter_distinct: "distinct (map me_dim (ollama_meter now u))"
  by (auto simp: ollama_meter_def Let_def split: js.split)

end
