(* ===== verification/ComfyTemplate.thy ===== *)
theory ComfyTemplate
  imports Breed
begin

text \<open>
  Workflow templates of the ComfyUI breed (packages/connectors/src/comfyui/template.ts and the
  constraint of breed.ts): the operator's approved graphs with their declared parameters, and
  \<open>reconstructGraph\<close>, which builds the graph that is submitted from the stored template and
  the consumer's parameter values. The random numbers of the seeds are the argument \<open>rng\<close>,
  one for each call of \<open>rng()\<close>, in \<open>[0, 1)\<close>.
\<close>

section \<open>Templates\<close>

record target =
  tg_node :: string
  tg_input :: string

datatype param_spec =
    TextParam (spec_name: string) target
  | SeedParam (spec_name: string) "target list"
  | NumberParam (spec_name: string) target "jnum option" "jnum option"
  | ImageParam (spec_name: string) target

record graph_node =
  class_type :: string
  inputs :: "(string \<times> js) list"

type_synonym graph = "(string \<times> graph_node) list"

record template =
  tp_id :: string
  tp_graph :: graph
  tp_params :: "param_spec list"
  tp_cost :: jnum

type_synonym comfy_fence = "template list"

section \<open>The constraint schema (comfyui/breed.ts)\<close>

definition targetSchema :: "js \<Rightarrow> target option" where
  "targetSchema v =
     (case (as_obj v, as_str (getp v ''node''), as_str (getp v ''input'')) of
        (Some _, Some n, Some i) \<Rightarrow> Some \<lparr>tg_node = n, tg_input = i\<rparr>
      | _ \<Rightarrow> None)"

text \<open>\<open>z.number().optional()\<close>: NaN is not a number for zod.\<close>

fun optional_number :: "js \<Rightarrow> jnum option option" where
  "optional_number Undef = Some None"
| "optional_number (Num n) = (if n = NaN then None else Some (Some n))"
| "optional_number _ = None"

definition paramSpecSchema :: "js \<Rightarrow> param_spec option" where
  "paramSpecSchema v =
     (case (as_str (getp v ''name''), as_str (getp v ''type'')) of
        (Some nm, Some ty) \<Rightarrow>
          if ty = ''text'' then map_option (TextParam nm) (targetSchema (getp v ''target''))
          else if ty = ''seed'' then
            (case getp v ''targets'' of Arr ts \<Rightarrow> map_option (SeedParam nm) (those (map targetSchema ts)) | _ \<Rightarrow> None)
          else if ty = ''number'' then
            (case (targetSchema (getp v ''target''), optional_number (getp v ''min''), optional_number (getp v ''max'')) of
               (Some t, Some mn, Some mx) \<Rightarrow> Some (NumberParam nm t mn mx)
             | _ \<Rightarrow> None)
          else if ty = ''image'' then map_option (ImageParam nm) (targetSchema (getp v ''target''))
          else None
      | _ \<Rightarrow> None)"

definition nodeSchema :: "string \<times> js \<Rightarrow> (string \<times> graph_node) option" where
  "nodeSchema kv =
     (case (as_str (getp (snd kv) ''class_type''), as_obj (getp (snd kv) ''inputs'')) of
        (Some c, Some i) \<Rightarrow> Some (fst kv, \<lparr>class_type = c, inputs = i\<rparr>)
      | _ \<Rightarrow> None)"

definition workflowTemplateSchema :: "js \<Rightarrow> template option" where
  "workflowTemplateSchema v =
     (case (as_str (getp v ''id''), as_obj (getp v ''graph''), as_arr (getp v ''params''), as_num (getp v ''cost'')) of
        (Some i, Some g, Some ps, Some c) \<Rightarrow>
          if c = NaN then None
          else (case (those (map nodeSchema g), those (map paramSpecSchema ps)) of
              (Some g', Some ps') \<Rightarrow> Some \<lparr>tp_id = i, tp_graph = g', tp_params = ps', tp_cost = c\<rparr>
            | _ \<Rightarrow> None)
      | _ \<Rightarrow> None)"

definition comfyuiConstraint :: "js \<Rightarrow> comfy_fence option" where
  "comfyuiConstraint v =
     (case v of
        Obj kvs \<Rightarrow>
          (case getp v ''templates'' of
             Undef \<Rightarrow> Some []
           | Arr ts \<Rightarrow> those (map workflowTemplateSchema ts)
           | _ \<Rightarrow> None)
      | _ \<Rightarrow> None)"

section \<open>Rebuilding the graph (template.ts)\<close>

datatype build_error =
    UnknownParam string
  | MissingNode string string
  | MustBeString string
  | MustBeNumber string
  | BelowMin string jnum
  | AboveMax string jnum
  | NeedsUpload string

definition set_input :: "target \<Rightarrow> js \<Rightarrow> graph \<Rightarrow> graph" where
  "set_input t v g = map (\<lambda>(k, n).
     if k = tg_node t then (k, n\<lparr>inputs := assoc_set (inputs n) (tg_input t) v\<rparr>) else (k, n)) g"

text \<open>\<open>inputsFor\<close> and the assignment that follows it.\<close>

definition put_input :: "string \<Rightarrow> target \<Rightarrow> js \<Rightarrow> graph \<Rightarrow> build_error + graph" where
  "put_input name t v g =
     (if map_of g (tg_node t) = None then Inl (MissingNode name (tg_node t)) else Inr (set_input t v g))"

fun put_seeds :: "string \<Rightarrow> target list \<Rightarrow> js \<Rightarrow> graph \<Rightarrow> build_error + graph" where
  "put_seeds name [] v g = Inr g"
| "put_seeds name (t # ts) v g =
     (case put_input name t v g of Inl e \<Rightarrow> Inl e | Inr g' \<Rightarrow> put_seeds name ts v g')"

definition seed_value :: "rat \<Rightarrow> int" where
  "seed_value r = \<lfloor>r * 10 ^ 12\<rfloor>"

definition number_problem :: "string \<Rightarrow> jnum \<Rightarrow> jnum option \<Rightarrow> jnum option \<Rightarrow> build_error option" where
  "number_problem name raw mn mx =
     (if (case mn of Some m \<Rightarrow> jnum_less raw m | None \<Rightarrow> False) then Some (BelowMin name (the mn))
      else if (case mx of Some m \<Rightarrow> jnum_less m raw | None \<Rightarrow> False) then Some (AboveMax name (the mx))
      else None)"

text \<open>One turn of the loop over the declared parameters; the number counts the calls of \<open>rng\<close>.\<close>

fun apply_spec :: "(string \<times> js) list \<Rightarrow> (string \<times> string) list \<Rightarrow> (nat \<Rightarrow> rat) \<Rightarrow> param_spec \<Rightarrow> nat \<times> graph \<Rightarrow>
    build_error + nat \<times> graph" where
  "apply_spec params uploads rng (SeedParam name ts) (n, g) =
     (case put_seeds name ts (NumI (seed_value (rng n))) g of Inl e \<Rightarrow> Inl e | Inr g' \<Rightarrow> Inr (Suc n, g'))"
| "apply_spec params uploads rng (TextParam name t) (n, g) =
     (case map_of params name of
        None \<Rightarrow> Inr (n, g)
      | Some (Str s) \<Rightarrow> (case put_input name t (Str s) g of Inl e \<Rightarrow> Inl e | Inr g' \<Rightarrow> Inr (n, g'))
      | Some _ \<Rightarrow> Inl (MustBeString name))"
| "apply_spec params uploads rng (NumberParam name t mn mx) (n, g) =
     (case map_of params name of
        None \<Rightarrow> Inr (n, g)
      | Some (Num (Fin r)) \<Rightarrow>
          (case number_problem name (Fin r) mn mx of
             Some e \<Rightarrow> Inl e
           | None \<Rightarrow> (case put_input name t (Num (Fin r)) g of Inl e \<Rightarrow> Inl e | Inr g' \<Rightarrow> Inr (n, g')))
      | Some _ \<Rightarrow> Inl (MustBeNumber name))"
| "apply_spec params uploads rng (ImageParam name t) (n, g) =
     (case map_of params name of
        None \<Rightarrow> Inr (n, g)
      | Some _ \<Rightarrow>
          (case map_of uploads name of
             None \<Rightarrow> Inl (NeedsUpload name)
           | Some f \<Rightarrow> (case put_input name t (Str f) g of Inl e \<Rightarrow> Inl e | Inr g' \<Rightarrow> Inr (n, g'))))"

fun apply_specs :: "(string \<times> js) list \<Rightarrow> (string \<times> string) list \<Rightarrow> (nat \<Rightarrow> rat) \<Rightarrow> param_spec list \<Rightarrow> nat \<times> graph \<Rightarrow>
    build_error + nat \<times> graph" where
  "apply_specs params uploads rng [] st = Inr st"
| "apply_specs params uploads rng (s # ss) st =
     (case apply_spec params uploads rng s st of Inl e \<Rightarrow> Inl e | Inr st' \<Rightarrow> apply_specs params uploads rng ss st')"

definition reconstructGraph :: "template \<Rightarrow> (string \<times> js) list \<Rightarrow> (string \<times> string) list \<Rightarrow> (nat \<Rightarrow> rat) \<Rightarrow> build_error + graph" where
  "reconstructGraph tpl params uploads rng =
     (case find (\<lambda>(k, v). k \<notin> spec_name ` set (tp_params tpl)) params of
        Some (k, v) \<Rightarrow> Inl (UnknownParam k)
      | None \<Rightarrow> map_sum id snd (apply_specs params uploads rng (tp_params tpl) (0, tp_graph tpl)))"

section \<open>What a declared parameter may write\<close>

fun in_bounds :: "jnum option \<Rightarrow> jnum option \<Rightarrow> jnum \<Rightarrow> bool" where
  "in_bounds mn mx r =
     ((case mn of Some m \<Rightarrow> \<not> jnum_less r m | None \<Rightarrow> True) \<and> (case mx of Some m \<Rightarrow> \<not> jnum_less m r | None \<Rightarrow> True))"

text \<open>\<open>spec\<close> allows the value \<open>v\<close> at the input \<open>i\<close> of the node \<open>k\<close>.\<close>

fun may_write :: "(string \<times> js) list \<Rightarrow> (string \<times> string) list \<Rightarrow> string \<Rightarrow> string \<Rightarrow> js \<Rightarrow> param_spec \<Rightarrow> bool" where
  "may_write params uploads k i v (TextParam name t) =
     (t = \<lparr>tg_node = k, tg_input = i\<rparr> \<and> map_of params name = Some v \<and> is_str v)"
| "may_write params uploads k i v (SeedParam name ts) =
     (\<lparr>tg_node = k, tg_input = i\<rparr> \<in> set ts \<and> (\<exists>n. v = NumI n \<and> 0 \<le> n \<and> n < 10 ^ 12))"
| "may_write params uploads k i v (NumberParam name t mn mx) =
     (t = \<lparr>tg_node = k, tg_input = i\<rparr> \<and> map_of params name = Some v \<and>
      (\<exists>r. v = Num (Fin r) \<and> in_bounds mn mx (Fin r)))"
| "may_write params uploads k i v (ImageParam name t) =
     (t = \<lparr>tg_node = k, tg_input = i\<rparr> \<and> (\<exists>f. map_of uploads name = Some f \<and> v = Str f))"

definition input_of :: "graph \<Rightarrow> string \<Rightarrow> string \<Rightarrow> js option" where
  "input_of g k i = (case map_of g k of None \<Rightarrow> None | Some n \<Rightarrow> map_of (inputs n) i)"

definition shape :: "graph \<Rightarrow> (string \<times> string) list" where
  "shape g = map (\<lambda>(k, n). (k, class_type n)) g"

lemma shape_set_input [simp]: "shape (set_input t v g) = shape g"
  by (auto simp: shape_def set_input_def)

lemma map_of_set_input:
  "map_of (set_input t v g) k = map_option (\<lambda>n.
     if k = tg_node t then n\<lparr>inputs := assoc_set (inputs n) (tg_input t) v\<rparr> else n) (map_of g k)"
  by (induction g) (auto simp: set_input_def)

lemma input_of_set_input:
  "input_of (set_input t v g) k i =
     (if t = \<lparr>tg_node = k, tg_input = i\<rparr> \<and> map_of g k \<noteq> None then Some v else input_of g k i)"
  by (cases t) (auto simp: input_of_def map_of_set_input split: option.split)

lemma put_input_Inr:
  "put_input name t v g = Inr g' \<longleftrightarrow> map_of g (tg_node t) \<noteq> None \<and> g' = set_input t v g"
  by (auto simp: put_input_def)

lemma map_of_set_input_None [simp]: "map_of (set_input t v g) k = None \<longleftrightarrow> map_of g k = None"
  by (simp add: map_of_set_input)

lemma put_seeds_effect:
  "put_seeds name ts v g = Inr g' \<Longrightarrow> shape g' = shape g \<and>
     (\<forall>k i. input_of g' k i = input_of g k i \<or> \<lparr>tg_node = k, tg_input = i\<rparr> \<in> set ts \<and> input_of g' k i = Some v)"
proof (induction ts arbitrary: g)
  case (Cons t ts)
  then obtain g1 where g1: "g1 = set_input t v g" and rest: "put_seeds name ts v g1 = Inr g'"
    by (auto simp: put_input_Inr split: sum.split_asm)
  have "input_of g1 k i = input_of g k i \<or> \<lparr>tg_node = k, tg_input = i\<rparr> = t \<and> input_of g1 k i = Some v" for k i
    by (auto simp: g1 input_of_set_input)
  with Cons.IH [OF rest] show ?case by (metis g1 list.set_intros(1,2) shape_set_input)
qed simp

lemma seed_value_range: "0 \<le> r \<Longrightarrow> r < 1 \<Longrightarrow> 0 \<le> seed_value r \<and> seed_value r < 10 ^ 12"
  by (auto simp: seed_value_def floor_less_iff)

lemma apply_spec_effect:
  assumes "apply_spec params uploads rng s (n, g) = Inr (n', g')" and "\<forall>j. 0 \<le> rng j \<and> rng j < 1"
  shows "shape g' = shape g \<and>
    (\<forall>k i. input_of g' k i = input_of g k i \<or> (\<exists>v. input_of g' k i = Some v \<and> may_write params uploads k i v s))"
proof (cases s)
  case (SeedParam name ts)
  with assms(1) have p: "put_seeds name ts (NumI (seed_value (rng n))) g = Inr g'"
    by (auto split: sum.split_asm)
  have "0 \<le> seed_value (rng n) \<and> seed_value (rng n) < 10 ^ 12" using assms(2) seed_value_range by blast
  with put_seeds_effect [OF p] SeedParam show ?thesis by fastforce
next
  case (TextParam name t)
  with assms(1) show ?thesis
    by (auto simp: put_input_Inr input_of_set_input split: option.split_asm js.split_asm sum.split_asm if_split_asm)
next
  case (NumberParam name t mn mx)
  with assms(1) show ?thesis
    by (auto simp: put_input_Inr input_of_set_input number_problem_def
        split: option.split_asm js.split_asm jnum.split_asm sum.split_asm if_split_asm option.split)
next
  case (ImageParam name t)
  with assms(1) show ?thesis
    by (auto simp: put_input_Inr input_of_set_input split: option.split_asm sum.split_asm if_split_asm)
qed

lemma apply_specs_effect:
  assumes "apply_specs params uploads rng ss (n, g) = Inr (n', g')" and "\<forall>j. 0 \<le> rng j \<and> rng j < 1"
  shows "shape g' = shape g \<and>
    (\<forall>k i. input_of g' k i = input_of g k i \<or>
      (\<exists>v. input_of g' k i = Some v \<and> (\<exists>s \<in> set ss. may_write params uploads k i v s)))"
  using assms(1)
proof (induction ss arbitrary: n g)
  case (Cons s ss)
  then obtain n1 g1 where 1: "apply_spec params uploads rng s (n, g) = Inr (n1, g1)"
    and rest: "apply_specs params uploads rng ss (n1, g1) = Inr (n', g')"
    by (auto split: sum.split_asm)
  from apply_spec_effect [OF 1 assms(2)] Cons.IH [OF rest] show ?case
    by (metis list.set_intros(1,2))
qed simp

section \<open>Properties\<close>

text \<open>
  C2. A rebuilt graph is the operator's: it has exactly the template's nodes with their class
  types, and every input has its stored value, or one a declared parameter allows at exactly that
  place: the supplied string, the supplied number within its bounds, a fresh seed, or the filename
  the upstream gave an upload.
\<close>

theorem reconstructGraph_confined:
  assumes "reconstructGraph tpl params uploads rng = Inr g" and "\<forall>j. 0 \<le> rng j \<and> rng j < 1"
  shows "shape g = shape (tp_graph tpl) \<and>
    (\<forall>k i. input_of g k i = input_of (tp_graph tpl) k i \<or>
      (\<exists>v. input_of g k i = Some v \<and> (\<exists>s \<in> set (tp_params tpl). may_write params uploads k i v s)))"
proof -
  from assms(1) obtain n where "apply_specs params uploads rng (tp_params tpl) (0, tp_graph tpl) = Inr (n, g)"
    by (auto simp: reconstructGraph_def map_sum_def split: option.split_asm sum.split_asm)
  from apply_specs_effect [OF this assms(2)] show ?thesis .
qed

definition demo_template :: template where
  "demo_template = \<lparr>tp_id = ''t'', tp_graph = [(''6'', \<lparr>class_type = ''CLIPTextEncode'', inputs = [(''text'', Str ''x'')]\<rparr>)],
     tp_params = [TextParam ''prompt'' \<lparr>tg_node = ''6'', tg_input = ''text''\<rparr>], tp_cost = Fin 1\<rparr>"

theorem reconstructGraph_confined_witness:
  "\<exists>g. reconstructGraph demo_template [(''prompt'', Str ''cat'')] [] (\<lambda>j. 0) = Inr g \<and> shape g = [(''6'', ''CLIPTextEncode'')]"
proof -
  obtain g where g: "reconstructGraph demo_template [(''prompt'', Str ''cat'')] [] (\<lambda>j. 0) = Inr g"
    by (simp add: reconstructGraph_def demo_template_def put_input_def)
  from reconstructGraph_confined [OF g] g show ?thesis by (simp add: shape_def demo_template_def)
qed

text \<open>
  A parameter the template does not declare is refused by its name, whatever else the request
  holds: it can never reach a graph.
\<close>

theorem undeclared_param_refused:
  assumes "(k, v) \<in> set params" and "k \<notin> spec_name ` set (tp_params tpl)"
  shows "\<exists>k'. k' \<in> fst ` set params - spec_name ` set (tp_params tpl) \<and>
    reconstructGraph tpl params uploads rng = Inl (UnknownParam k')"
proof -
  let ?bad = "\<lambda>(k, v). k \<notin> spec_name ` set (tp_params tpl)"
  from assms have "find ?bad params \<noteq> None" by (auto simp: find_None_iff)
  then obtain k' v' where f: "find ?bad params = Some (k', v')" by auto
  then have "(k', v') \<in> set params \<and> k' \<notin> spec_name ` set (tp_params tpl)"
    using find_Some_iff [of ?bad params "(k', v')"] nth_mem by fastforce
  with f show ?thesis by (intro exI [of _ k']) (force simp: reconstructGraph_def)
qed

theorem undeclared_param_refused_witness:
  "\<exists>k'. reconstructGraph demo_template [(''prompt'', Str ''x''), (''6'', Obj [])] [] (\<lambda>j. 0) = Inl (UnknownParam k')"
  using undeclared_param_refused [of "''6''" "Obj []" "[(''prompt'', Str ''x''), (''6'', Obj [])]" demo_template "[]" "\<lambda>j. 0"]
  by (auto simp: demo_template_def)

end
