(* ===== verification/JsText.thy ===== *)
theory JsText
  imports Prelude
begin

text \<open>
  The functions of the language's standard library that turn text into other text or numbers:
  \<open>Number(s)\<close>, \<open>encodeURIComponent\<close> and its inverse, the form encoding of
  \<open>URLSearchParams\<close>, and base64 (\<open>Buffer.from(s, 'base64')\<close>, both alphabets). A number
  is exact: \<open>Number\<close> rounds to a double, the model does not.
\<close>

section \<open>Number(s)\<close>

definition radix_digit :: "char \<Rightarrow> nat option" where
  "radix_digit c =
     (if is_digit c then Some (of_char c - 48)
      else if CHR ''a'' \<le> c \<and> c \<le> CHR ''f'' then Some (of_char c - 87)
      else if CHR ''A'' \<le> c \<and> c \<le> CHR ''F'' then Some (of_char c - 55) else None)"

fun radix_value :: "nat \<Rightarrow> nat \<Rightarrow> string \<Rightarrow> nat option" where
  "radix_value r acc [] = Some acc"
| "radix_value r acc (c # cs) =
     (case radix_digit c of None \<Rightarrow> None | Some k \<Rightarrow> if k < r then radix_value r (r * acc + k) cs else None)"

definition radix_number :: "nat \<Rightarrow> string \<Rightarrow> jnum" where
  "radix_number r s = (if s = [] then NaN else case radix_value r 0 s of None \<Rightarrow> NaN | Some n \<Rightarrow> Fin (of_nat n))"

definition digits_value :: "string \<Rightarrow> nat" where
  "digits_value s = (case radix_value 10 0 s of None \<Rightarrow> 0 | Some n \<Rightarrow> n)"

definition all_digits :: "string \<Rightarrow> bool" where
  "all_digits s = (s \<noteq> [] \<and> list_all is_digit s)"

text \<open>The exponent after the mantissa: a power of ten, or \<open>None\<close>.\<close>

definition exponent :: "string \<Rightarrow> rat option" where
  "exponent s =
     (case s of
        [] \<Rightarrow> Some 1
      | c # t \<Rightarrow>
          if c \<noteq> CHR ''e'' \<and> c \<noteq> CHR ''E'' then None
          else (let (down, ds) = (case t of CHR ''-'' # u \<Rightarrow> (True, u) | CHR ''+'' # u \<Rightarrow> (False, u) | _ \<Rightarrow> (False, t)) in
            if \<not> all_digits ds then None
            else Some (if down then 1 / 10 ^ digits_value ds else 10 ^ digits_value ds)))"

definition decimal_number :: "string \<Rightarrow> jnum" where
  "decimal_number s =
     (let ip = takeWhile is_digit s; r = dropWhile is_digit s;
          (fp, r') = (case r of CHR ''.'' # t \<Rightarrow> (takeWhile is_digit t, dropWhile is_digit t) | _ \<Rightarrow> ([], r)) in
      if s = ''Infinity'' then PosInf
      else if ip = [] \<and> fp = [] then NaN
      else case exponent r' of
          None \<Rightarrow> NaN
        | Some m \<Rightarrow> Fin ((of_nat (digits_value ip) + of_nat (digits_value fp) / 10 ^ length fp) * m))"

fun jnum_neg :: "jnum \<Rightarrow> jnum" where
  "jnum_neg (Fin a) = Fin (- a)"
| "jnum_neg PosInf = NegInf"
| "jnum_neg NegInf = PosInf"
| "jnum_neg NaN = NaN"

definition Number :: "string \<Rightarrow> jnum" where
  "Number s =
     (let t = trim s in
      if t = [] then Fin 0
      else if lower (take 2 t) = ''0x'' then radix_number 16 (drop 2 t)
      else if lower (take 2 t) = ''0o'' then radix_number 8 (drop 2 t)
      else if lower (take 2 t) = ''0b'' then radix_number 2 (drop 2 t)
      else case t of
          CHR ''-'' # u \<Rightarrow> jnum_neg (decimal_number u)
        | CHR ''+'' # u \<Rightarrow> decimal_number u
        | _ \<Rightarrow> decimal_number t)"

section \<open>Percent encoding\<close>

definition unreserved :: "char \<Rightarrow> bool" where
  "unreserved c = (is_upper c \<or> is_lower c \<or> is_digit c \<or>
     c \<in> {CHR ''-'', CHR ''_'', CHR ''.'', CHR ''!'', CHR ''~'', CHR ''*'', CHR 0x27, CHR ''('', CHR '')''})"

definition hex_upper :: "nat \<Rightarrow> char" where
  "hex_upper n = char_of (if n < 10 then 48 + n else 55 + n)"

definition percent :: "char \<Rightarrow> string" where
  "percent c = [CHR ''%'', hex_upper (of_char c div 16), hex_upper (of_char c mod 16)]"

definition encodeURIComponent :: "string \<Rightarrow> string" where
  "encodeURIComponent s = concat (map (\<lambda>c. if unreserved c then [c] else percent c) s)"

text \<open>\<open>None\<close> for the error a malformed escape throws.\<close>

fun decodeURIComponent :: "string \<Rightarrow> string option" where
  "decodeURIComponent [] = Some []"
| "decodeURIComponent (c # cs) =
     (if c \<noteq> CHR ''%'' then map_option ((#) c) (decodeURIComponent cs)
      else case cs of
          h # l # rest \<Rightarrow>
            (case (radix_digit h, radix_digit l) of
               (Some a, Some b) \<Rightarrow> map_option ((#) (char_of (16 * a + b))) (decodeURIComponent rest)
             | _ \<Rightarrow> None)
        | _ \<Rightarrow> None)"

lemma radix_hex_upper: "n < 16 \<Longrightarrow> radix_digit (hex_upper n) = Some n"
  by (simp add: radix_digit_def hex_upper_def is_digit_def less_eq_char_def)

lemma of_char_split: "(16 * (of_char c div 16) + of_char c mod 16 :: nat) = of_char c"
  by (rule mult_div_mod_eq)

lemma decode_percent:
  "decodeURIComponent (percent c @ rest) = map_option ((#) c) (decodeURIComponent rest)"
proof -
  have "(of_char c :: nat) < 256" by simp
  then have "(of_char c :: nat) div 16 < 16" by (simp add: less_mult_imp_div_less)
  then show ?thesis by (simp add: percent_def radix_hex_upper of_char_split)
qed

lemma not_unreserved_percent: "\<not> unreserved (CHR ''%'')"
  by (simp add: unreserved_def is_upper_def is_lower_def is_digit_def less_eq_char_def)

lemma decode_encodeURIComponent: "decodeURIComponent (encodeURIComponent s) = Some s"
proof (induction s)
  case (Cons c s)
  show ?case
  proof (cases "unreserved c")
    case True
    with not_unreserved_percent have "c \<noteq> CHR ''%''" by auto
    with True Cons show ?thesis by (simp add: encodeURIComponent_def)
  next
    case False
    with Cons decode_percent [of c "encodeURIComponent s"] show ?thesis by (simp add: encodeURIComponent_def)
  qed
qed (simp add: encodeURIComponent_def)

text \<open>The serialisation of \<open>URLSearchParams\<close>.\<close>

definition form_char :: "char \<Rightarrow> string" where
  "form_char c =
     (if c = CHR '' '' then ''+''
      else if is_upper c \<or> is_lower c \<or> is_digit c \<or> c \<in> {CHR ''*'', CHR ''-'', CHR ''.'', CHR ''_''} then [c]
      else percent c)"

definition form_encode :: "(string \<times> string) list \<Rightarrow> string" where
  "form_encode kvs = join_on ''&'' (map (\<lambda>(k, v). concat (map form_char k) @ ''='' @ concat (map form_char v)) kvs)"

section \<open>Base64\<close>

definition b64_char :: "nat \<Rightarrow> char" where
  "b64_char i =
     (if i < 26 then char_of (65 + i) else if i < 52 then char_of (71 + i) else if i < 62 then char_of (i - 4)
      else if i = 62 then CHR ''+'' else CHR ''/'')"

definition b64_value :: "char \<Rightarrow> nat option" where
  "b64_value c =
     (if is_upper c then Some (of_char c - 65) else if is_lower c then Some (of_char c - 71)
      else if is_digit c then Some (of_char c + 4)
      else if c = CHR ''+'' \<or> c = CHR ''-'' then Some 62
      else if c = CHR ''/'' \<or> c = CHR ''_'' then Some 63 else None)"

fun sextets :: "nat list \<Rightarrow> nat list" where
  "sextets (x # y # z # r) = x div 4 # (x mod 4 * 16 + y div 16) # (y mod 16 * 4 + z div 64) # z mod 64 # sextets r"
| "sextets [x, y] = [x div 4, x mod 4 * 16 + y div 16, y mod 16 * 4]"
| "sextets [x] = [x div 4, x mod 4 * 16]"
| "sextets [] = []"

fun octets :: "nat list \<Rightarrow> nat list" where
  "octets (a # b # c # d # r) = (a * 4 + b div 16) # (b mod 16 * 16 + c div 4) # (c mod 4 * 64 + d) # octets r"
| "octets [a, b, c] = [a * 4 + b div 16, b mod 16 * 16 + c div 4]"
| "octets [a, b] = [a * 4 + b div 16]"
| "octets _ = []"

definition b64_pad :: "nat \<Rightarrow> string" where
  "b64_pad n = (if n mod 3 = 1 then ''=='' else if n mod 3 = 2 then ''='' else [])"

text \<open>\<open>buf.toString('base64')\<close> and \<open>Buffer.from(s, 'base64')\<close>: the decoder stops at the
  padding and skips what is in neither alphabet.\<close>

definition to_base64 :: "string \<Rightarrow> string" where
  "to_base64 s = map b64_char (sextets (map of_char s)) @ b64_pad (length s)"

definition from_base64 :: "string \<Rightarrow> string" where
  "from_base64 s = map char_of (octets (List.map_filter b64_value (takeWhile (\<lambda>c. c \<noteq> CHR ''='') s)))"

lemma b64_value_char: "i < 64 \<Longrightarrow> b64_value (b64_char i) = Some i \<and> b64_char i \<noteq> CHR ''=''"
  by (auto simp: b64_value_def b64_char_def is_upper_def is_lower_def is_digit_def less_eq_char_def char_of_eq_iff take_bit_eq_mod)

lemma sextets_less: "\<forall>x \<in> set xs. x < 256 \<Longrightarrow> y \<in> set (sextets xs) \<Longrightarrow> y < 64"
proof (induction xs rule: sextets.induct)
  case (1 x y z r)
  then show ?case by auto
next
  case (2 x y)
  then show ?case by auto
next
  case (3 x)
  then show ?case by auto
qed simp

lemma octets_sextets: "\<forall>x \<in> set xs. x < 256 \<Longrightarrow> octets (sextets xs) = xs"
proof (induction xs rule: sextets.induct)
  case (1 x y z r)
  have "y div 16 < 16" "z div 64 < 4" using "1.prems" by (auto simp: less_mult_imp_div_less)
  with 1 show ?case by simp
next
  case (2 x y)
  have "y div 16 < 16" using "2.prems" by (auto simp: less_mult_imp_div_less)
  with 2 show ?case by simp
qed simp_all

lemma from_base64_chars:
  "\<forall>x \<in> set xs. x < 64 \<Longrightarrow> takeWhile (\<lambda>c. c \<noteq> CHR ''='') (map b64_char xs @ b64_pad n) = map b64_char xs \<and>
     List.map_filter b64_value (map b64_char xs) = xs"
proof (induction xs)
  case Nil
  then show ?case by (simp add: b64_pad_def)
next
  case (Cons x xs)
  then show ?case using b64_value_char [of x] by simp
qed

lemma from_base64_to_base64: "from_base64 (to_base64 s) = s"
proof -
  let ?ns = "map of_char s :: nat list"
  have bytes: "\<forall>x \<in> set ?ns. x < 256" by auto
  then have "\<forall>y \<in> set (sextets ?ns). y < 64" using sextets_less by blast
  then show ?thesis
    by (simp add: from_base64_def to_base64_def from_base64_chars octets_sextets [OF bytes] comp_def)
qed

section \<open>The bearer credential of a header\<close>

text \<open>\<open>/^Bearer +(.+)$/i\<close>: the match of the group. With nothing but spaces after the scheme the
  greedy run gives one back, and the group is that space.\<close>

definition bearer_match :: "string \<Rightarrow> string option" where
  "bearer_match h =
     (if lower (take 6 h) \<noteq> ''bearer'' then None
      else (let rest = drop 6 h; sp = takeWhile (\<lambda>c. c = CHR '' '') rest; tok = dropWhile (\<lambda>c. c = CHR '' '') rest in
        if sp = [] \<or> CHR 0x0A \<in> set tok \<or> CHR 0x0D \<in> set tok then None
        else if tok \<noteq> [] then Some tok
        else if 2 \<le> length sp then Some '' '' else None))"

lemma bearer_match_token:
  assumes "t \<noteq> []" and "hd t \<noteq> CHR '' ''" and "CHR 0x0A \<notin> set t" and "CHR 0x0D \<notin> set t"
  shows "bearer_match (''Bearer '' @ t) = Some t"
proof -
  have "dropWhile (\<lambda>c. c = CHR '' '') t = t" "takeWhile (\<lambda>c. c = CHR '' '') t = []"
    using assms(1,2) by (cases t; simp)+
  with assms show ?thesis by (simp add: bearer_match_def lower_char_def is_upper_def less_eq_char_def char_of_eq_iff)
qed

end
