(* ===== verification/Comfy.thy ===== *)
theory Comfy
  imports ComfyTemplate JsText
begin

text \<open>
  The ComfyUI breed (packages/connectors/src/comfyui): the submit flow \<open>handle\<close>, the job
  outcome of a history answer, and the MCP tools, plans and results. The upstream is the arguments
  \<open>up\<close> (what \<open>/upload/image\<close> names an upload; \<open>None\<close> for every failure) and
  \<open>submit\<close> (the body \<open>/prompt\<close> answers; \<open>None\<close> when the call throws); what the
  flow does to the world is the list of its effects. \<open>num_str\<close> prints a number.
\<close>

section \<open>The submit flow (breed.ts)\<close>

datatype effect =
    Upload string string
  | Submit js
  | CreateJob job_record
  | EmitMeter "meter_event list"

datatype answer = Answer int js | Thrown

record comfy_io =
  io_orgId :: string
  io_keyId :: string
  io_paddockId :: string
  io_up :: "string \<Rightarrow> string \<Rightarrow> string option"
  io_submit :: "js \<Rightarrow> js option"
  io_uuid :: "nat \<Rightarrow> string"
  io_rng :: "nat \<Rightarrow> rat"
  io_now :: int

definition err :: "int \<Rightarrow> string \<Rightarrow> answer" where
  "err status message = Answer status (Obj [(''error'', Str message)])"

definition quoted :: "string \<Rightarrow> string" where
  "quoted s = [CHR 0x27] @ s @ [CHR 0x27]"

fun build_message :: "(jnum \<Rightarrow> string) \<Rightarrow> build_error \<Rightarrow> string" where
  "build_message num_str (UnknownParam k) = ''unknown param: '' @ k"
| "build_message num_str (MissingNode n k) = ''param '' @ quoted n @ '' targets missing node: '' @ k"
| "build_message num_str (MustBeString n) = ''param '' @ quoted n @ '' must be a string''"
| "build_message num_str (MustBeNumber n) = ''param '' @ quoted n @ '' must be a number''"
| "build_message num_str (BelowMin n m) = ''param '' @ quoted n @ '' below min '' @ num_str m"
| "build_message num_str (AboveMax n m) = ''param '' @ quoted n @ '' above max '' @ num_str m"
| "build_message num_str (NeedsUpload n) = ''param '' @ quoted n @ '' requires an uploaded image''"

text \<open>The upload loop: the uploads so far, or the answer that ends the request; and its effects.\<close>

fun upload_images :: "comfy_io \<Rightarrow> (string \<times> js) list \<Rightarrow> nat \<Rightarrow> param_spec list \<Rightarrow> (string \<times> string) list \<Rightarrow>
    (answer + (string \<times> string) list) \<times> effect list" where
  "upload_images io params i [] uploads = (Inr uploads, [])"
| "upload_images io params i (ImageParam name t # ss) uploads =
     (case map_of params name of
        None \<Rightarrow> upload_images io params i ss uploads
      | Some (Str raw) \<Rightarrow>
          let sent = io_keyId io @ ''-'' @ io_uuid io i @ ''.png'' in
          (case io_up io sent raw of
             None \<Rightarrow> (Inl (err 502 (''image upload failed for param '' @ quoted name)), [Upload sent raw])
           | Some f \<Rightarrow>
               (let (r, es) = upload_images io params (Suc i) ss (assoc_set uploads name f)
                in (r, Upload sent raw # es)))
      | Some _ \<Rightarrow> (Inl (err 422 (''param '' @ quoted name @ '' must be a base64 image string'')), []))"
| "upload_images io params i (s # ss) uploads = upload_images io params i ss uploads"

definition graph_js :: "graph \<Rightarrow> js" where
  "graph_js g = Obj (map (\<lambda>(k, n). (k, Obj [(''class_type'', Str (class_type n)), (''inputs'', Obj (inputs n))])) g)"

definition submit_graph :: "comfy_io \<Rightarrow> template \<Rightarrow> graph \<Rightarrow> answer \<times> effect list" where
  "submit_graph io tpl g =
     (let req = Obj [(''prompt'', graph_js g)] in
      case io_submit io req of
        None \<Rightarrow> (Thrown, [Submit req])
      | Some body \<Rightarrow>
          (case getp body ''prompt_id'' of
             Str promptId \<Rightarrow>
               if promptId = [] then (err 502 ''upstream did not return a prompt_id'', [Submit req])
               else (Answer 202 (Obj [(''job_id'', Str promptId)]),
                 [Submit req,
                  CreateJob \<lparr>jr_jobId = promptId, jr_orgId = io_orgId io, jr_keyId = io_keyId io,
                    jr_paddockId = io_paddockId io, jr_templateId = tp_id tpl, jr_cost = tp_cost tpl,
                    jr_metered = False, jr_submittedAt = io_now io\<rparr>,
                  EmitMeter [\<lparr>me_dim = Jobs, me_value = tp_cost tpl, me_at = io_now io\<rparr>]])
           | _ \<Rightarrow> (err 502 ''upstream did not return a prompt_id'', [Submit req])))"

definition comfy_handle :: "(jnum \<Rightarrow> string) \<Rightarrow> comfy_io \<Rightarrow> js \<Rightarrow> comfy_fence \<Rightarrow> answer \<times> effect list" where
  "comfy_handle num_str io body fence =
     (case (as_str (getp body ''template_id''), as_obj (getp body ''params'')) of
        (Some template_id, Some params) \<Rightarrow>
          (case find (\<lambda>t. tp_id t = template_id) fence of
             None \<Rightarrow> (err 404 (''unknown template: '' @ template_id), [])
           | Some tpl \<Rightarrow>
               (case upload_images io params 0 (tp_params tpl) [] of
                  (Inl a, es) \<Rightarrow> (a, es)
                | (Inr uploads, es) \<Rightarrow>
                    (case reconstructGraph tpl params uploads (io_rng io) of
                       Inl e \<Rightarrow> (err 422 (build_message num_str e), es)
                     | Inr g \<Rightarrow> let (a, es') = submit_graph io tpl g in (a, es @ es'))))
      | _ \<Rightarrow> (err 422 ''malformed request: expected { template_id, params }'', []))"

definition comfy_guard :: "req_ctx \<Rightarrow> comfy_fence \<Rightarrow> guard_result" where
  "comfy_guard ctx fence =
     GuardRefused 403 ''direct comfyui routes are not permitted; use the template submit flow''"

definition comfy_routes :: "route_spec list" where
  "comfy_routes =
     [RouteSpec ''POST'' ''/prompt'' InferClass False, RouteSpec ''POST'' ''/upload/image'' MutateClass False,
      RouteSpec ''GET'' ''/history'' ReadClass False, RouteSpec ''GET'' ''/view'' ReadClass False]"

section \<open>The outcome of a job (result.ts)\<close>

record image_ref =
  im_filename :: string
  im_subfolder :: string
  im_type :: string

record job_outcome =
  oc_done :: bool
  oc_images :: "image_ref list"
  oc_gpuMs :: jnum

definition max_zero :: "jnum \<Rightarrow> jnum" where
  "max_zero n = (if n = NaN then NaN else if jnum_less (Fin 0) n then n else Fin 0)"

text \<open>One history message: its kind and its timestamp, if it has both.\<close>

definition history_message :: "js \<Rightarrow> (string \<times> jnum) option" where
  "history_message msg =
     (case msg of
        Arr (Str kind # Obj payload # _) \<Rightarrow>
          (case getp (Obj payload) ''timestamp'' of
             Num ts \<Rightarrow> if ts = NaN then None else Some (kind, ts)
           | _ \<Rightarrow> None)
      | _ \<Rightarrow> None)"

fun gpu_marks :: "js list \<Rightarrow> jnum option \<times> jnum option \<Rightarrow> jnum option \<times> jnum option" where
  "gpu_marks [] st = st"
| "gpu_marks (m # ms) (start, success) =
     (case history_message m of
        None \<Rightarrow> gpu_marks ms (start, success)
      | Some (kind, ts) \<Rightarrow>
          if kind = ''execution_start'' then gpu_marks ms (Some ts, success)
          else if kind = ''execution_success'' then gpu_marks ms (start, Some ts)
          else gpu_marks ms (start, success))"

definition deriveGpuMs :: "js \<Rightarrow> jnum" where
  "deriveGpuMs messages =
     (case messages of
        Arr ms \<Rightarrow>
          (case gpu_marks ms (None, None) of
             (Some start, Some success) \<Rightarrow> max_zero (jnum_sub success start)
           | _ \<Rightarrow> Fin 0)
      | _ \<Rightarrow> Fin 0)"

definition str_or_empty :: "js \<Rightarrow> string" where
  "str_or_empty v = (case v of Str s \<Rightarrow> s | _ \<Rightarrow> [])"

definition image_of :: "js \<Rightarrow> image_ref option" where
  "image_of img =
     (case (as_obj img, as_str (getp img ''filename'')) of
        (Some _, Some f) \<Rightarrow> Some \<lparr>im_filename = f, im_subfolder = str_or_empty (getp img ''subfolder''),
           im_type = str_or_empty (getp img ''type'')\<rparr>
      | _ \<Rightarrow> None)"

definition node_images :: "js \<Rightarrow> image_ref list" where
  "node_images node = (case getp node ''images'' of Arr is \<Rightarrow> List.map_filter image_of is | _ \<Rightarrow> [])"

definition parseHistory :: "js \<Rightarrow> string \<Rightarrow> job_outcome" where
  "parseHistory history promptId =
     (case getp history promptId of
        Obj entry \<Rightarrow>
          let status = getp (Obj entry) ''status'' in
          \<lparr>oc_done = (getp status ''completed'' = Boolean True),
           oc_images = (case getp (Obj entry) ''outputs'' of
               Obj outs \<Rightarrow> concat (map (\<lambda>(k, node). node_images node) outs)
             | _ \<Rightarrow> []),
           oc_gpuMs = deriveGpuMs (getp status ''messages'')\<rparr>
      | _ \<Rightarrow> \<lparr>oc_done = False, oc_images = [], oc_gpuMs = Fin 0\<rparr>)"

section \<open>Tool names (mcp.ts)\<close>

definition JOB_RESULT_TOOL :: string where
  "JOB_RESULT_TOOL = ''get_job_result''"

definition MAX_NAME :: nat where
  "MAX_NAME = 128"

definition comfyToolName :: "string \<Rightarrow> string" where
  "comfyToolName templateId =
     (let safe = map (\<lambda>c. if tool_name_char c then c else CHR ''_'') templateId
      in take MAX_NAME (''run_'' @ (if safe = [] then ''_'' else safe)))"

definition numbered :: "string \<Rightarrow> nat \<Rightarrow> string" where
  "numbered base n = (let suf = CHR ''_'' # dec n in take (MAX_NAME - length suf) base @ suf)"

text \<open>The inner loop that looks for a free name; \<open>free_name_enough\<close> shows the fuel suffices.\<close>

fun free_name :: "nat \<Rightarrow> string list \<Rightarrow> string \<Rightarrow> string \<Rightarrow> nat \<Rightarrow> string option" where
  "free_name 0 names base name n = None"
| "free_name (Suc fuel) names base name n =
     (if name \<in> set names then free_name fuel names base (numbered base n) (Suc n) else Some name)"

fun name_templates :: "template list \<Rightarrow> (string \<times> string) list \<Rightarrow> (string \<times> string) list" where
  "name_templates [] names = names"
| "name_templates (t # ts) names =
     (if tp_id t \<in> snd ` set names then name_templates ts names
      else (let base = comfyToolName (tp_id t) in
        case free_name (Suc (Suc (length names))) (map fst names) base base 2 of
          None \<Rightarrow> names
        | Some name \<Rightarrow> name_templates ts (names @ [(name, tp_id t)])))"

definition comfyToolNames :: "template list \<Rightarrow> (string \<times> string) list" where
  "comfyToolNames ts = name_templates ts []"

section \<open>Tools, plans and results (mcp.ts)\<close>

fun param_schema :: "param_spec \<Rightarrow> (string \<times> js) option" where
  "param_schema (SeedParam name ts) = None"
| "param_schema (TextParam name t) = Some (name, Obj [(''type'', Str ''string'')])"
| "param_schema (NumberParam name t mn mx) = Some (name, Obj ([(''type'', Str ''number'')] @
     (case mn of None \<Rightarrow> [] | Some m \<Rightarrow> [(''minimum'', Num m)]) @
     (case mx of None \<Rightarrow> [] | Some m \<Rightarrow> [(''maximum'', Num m)])))"
| "param_schema (ImageParam name t) = Some (name, Obj [(''type'', Str ''string''), (''contentEncoding'', Str ''base64''),
     (''description'', Str ''Base64-encoded image bytes.'')])"

text \<open>\<open>Object.fromEntries\<close>: a later entry of the same name replaces an earlier one in place.\<close>

definition from_entries :: "(string \<times> js) list \<Rightarrow> (string \<times> js) list" where
  "from_entries kvs = fold (\<lambda>(k, v) acc. assoc_set acc k v) kvs []"

definition runTool :: "(jnum \<Rightarrow> string) \<Rightarrow> string \<Rightarrow> template \<Rightarrow> tool_def" where
  "runTool num_str name tpl =
     \<lparr>tl_name = name, tl_title = ''Run '' @ tp_id tpl,
      tl_description = ''Run the operator-approved ComfyUI workflow '' @ [CHR 0x22] @ tp_id tpl @ [CHR 0x22] @
        ''. Every parameter is optional; an omitted one keeps the template'' @ [CHR 0x27] @
        ''s own value. Returns a job_id: pass it to '' @ JOB_RESULT_TOOL @ '' for the output. Each run costs '' @
        num_str (tp_cost tpl) @ '' job unit'' @ (if tp_cost tpl = Fin 1 then [] else ''s'') @ ''.'',
      tl_inputSchema = Obj [(''type'', Str ''object''),
        (''properties'', Obj (from_entries (List.map_filter param_schema (tp_params tpl)))),
        (''additionalProperties'', Boolean False)],
      tl_annotations = Obj [(''readOnlyHint'', Boolean False), (''destructiveHint'', Boolean False),
        (''idempotentHint'', Boolean False), (''openWorldHint'', Boolean False)]\<rparr>"

definition jobResultTool :: tool_def where
  "jobResultTool =
     \<lparr>tl_name = JOB_RESULT_TOOL, tl_title = ''Get job result'',
      tl_description = ''Fetch the status and outputs of a job started by one of this paddock'' @ [CHR 0x27] @
        ''s run_ tools. Only the caller'' @ [CHR 0x27] @ ''s own jobs are visible.'',
      tl_inputSchema = Obj [(''type'', Str ''object''),
        (''properties'', Obj [(''job_id'', Obj [(''type'', Str ''string''), (''minLength'', NumI 1)])]),
        (''required'', Arr [Str ''job_id'']), (''additionalProperties'', Boolean False)],
      tl_annotations = Obj [(''readOnlyHint'', Boolean True), (''destructiveHint'', Boolean False),
        (''idempotentHint'', Boolean True), (''openWorldHint'', Boolean False)]\<rparr>"

definition comfyToMcp :: "(jnum \<Rightarrow> string) \<Rightarrow> comfy_fence \<Rightarrow> tool_def list" where
  "comfyToMcp num_str fence =
     (let tools = map (\<lambda>(name, i). runTool num_str name (the (find (\<lambda>t. tp_id t = i) fence))) (comfyToolNames fence)
      in sort_tools (tools @ (if tools = [] then [] else [jobResultTool])))"

definition comfyMcpCall :: "string \<Rightarrow> js \<Rightarrow> comfy_fence \<Rightarrow> call_plan" where
  "comfyMcpCall name args fence =
     (let names = comfyToolNames fence in
      if name = JOB_RESULT_TOOL then
        (if names = [] then NotPlanned (''unknown tool: '' @ name)
         else case argsObject args of
             None \<Rightarrow> NotPlanned ''invalid arguments: expected an object''
           | Some a \<Rightarrow>
               (case getp args ''job_id'' of
                  Str j \<Rightarrow> if j = [] then NotPlanned ''invalid arguments: job_id must be a non-empty string''
                    else Planned \<lparr>pl_method = ''GET'', pl_path = ''/result/'' @ encodeURIComponent j, pl_body = Undef\<rparr>
                | _ \<Rightarrow> NotPlanned ''invalid arguments: job_id must be a non-empty string''))
      else case map_of names name of
          None \<Rightarrow> NotPlanned (''unknown tool: '' @ name)
        | Some i \<Rightarrow>
            (case argsObject args of
               None \<Rightarrow> NotPlanned ''invalid arguments: expected an object''
             | Some a \<Rightarrow> Planned \<lparr>pl_method = ''POST'', pl_path = ''/submit'',
                 pl_body = Obj [(''template_id'', Str i), (''params'', Obj a)]\<rparr>))"

definition reasonOf :: "js \<Rightarrow> int \<Rightarrow> string" where
  "reasonOf body status =
     (case getp body ''error'' of
        Str e \<Rightarrow> if e = [] then ''the request failed ('' @ int_str status @ '')'' else e
      | _ \<Rightarrow> ''the request failed ('' @ int_str status @ '')'')"

definition image_content :: "js \<Rightarrow> mcp_content option" where
  "image_content img =
     (case (getp img ''data'', getp img ''mimeType'') of
        (Str d, Str m) \<Rightarrow> Some (ImageContent d m)
      | _ \<Rightarrow> None)"

definition image_refs :: "js list \<Rightarrow> js" where
  "image_refs is = Arr (map (\<lambda>img. Obj [(''filename'', getp img ''filename''), (''subfolder'', getp img ''subfolder''),
     (''type'', getp img ''type'')]) is)"

definition comfyMcpResult :: "string \<Rightarrow> int \<Rightarrow> js \<Rightarrow> tool_result" where
  "comfyMcpResult name status body =
     (if 400 \<le> status then toolError (reasonOf body status)
      else if name \<noteq> JOB_RESULT_TOOL then
        (case getp body ''job_id'' of
           Str j \<Rightarrow> \<lparr>tr_content = [TextContent (''Job '' @ j @ '' started. Call '' @ JOB_RESULT_TOOL @
               '' with this job_id for the output.'')],
             tr_structured = Some (Obj [(''job_id'', Str j)]), tr_isError = False\<rparr>
         | _ \<Rightarrow> toolError ''the job did not start'')
      else (let images = (case getp body ''images'' of Arr is \<Rightarrow> is | _ \<Rightarrow> []) in
        if getp body ''done'' \<noteq> Boolean True then
          \<lparr>tr_content = [TextContent ''Job still running. Call again later.''],
           tr_structured = Some (Obj [(''done'', Boolean False), (''images'', image_refs images)]), tr_isError = False\<rparr>
        else
          \<lparr>tr_content = TextContent (''Job finished with '' @ dec (length images) @ '' image'' @
              (if length images = 1 then [] else ''s'') @ ''.'') # List.map_filter image_content images,
           tr_structured = Some (Obj [(''done'', Boolean True), (''images'', image_refs images)]), tr_isError = False\<rparr>))"

section \<open>The submit flow: lemmas\<close>

fun uploads_only :: "effect list \<Rightarrow> bool" where
  "uploads_only [] = True"
| "uploads_only (Upload n b # es) = uploads_only es"
| "uploads_only (e # es) = False"

lemma upload_images_effects: "uploads_only (snd (upload_images io params i ss uploads))"
  by (induction io params i ss uploads rule: upload_images.induct)
    (auto simp: Let_def case_prod_beta split: option.split js.split)

lemma upload_images_refusal:
  "fst (upload_images io params i ss uploads) = Inl a \<Longrightarrow> \<exists>st msg. a = err st msg \<and> st \<in> {422, 502}"
  by (induction io params i ss uploads rule: upload_images.induct)
    (auto simp: Let_def split: option.split_asm js.split_asm prod.split_asm)

text \<open>Every filename comes from the upstream's answer to an upload of this request.\<close>

lemma upload_images_names:
  "fst (upload_images io params i ss uploads) = Inr us \<Longrightarrow> map_of us name = Some f \<Longrightarrow>
     map_of uploads name = Some f \<or>
     (\<exists>sent raw. Upload sent raw \<in> set (snd (upload_images io params i ss uploads)) \<and> io_up io sent raw = Some f)"
proof (induction io params i ss uploads rule: upload_images.induct)
  case (2 io params i n t ss uploads)
  show ?case
  proof (cases "map_of params n")
    case None
    with 2 show ?thesis by simp
  next
    case (Some v)
    with "2.prems"(1) obtain raw where v: "v = Str raw" by (cases v) auto
    let ?sent = "io_keyId io @ ''-'' @ io_uuid io i @ ''.png''"
    from Some v "2.prems"(1) obtain g where g: "io_up io ?sent raw = Some g"
      by (auto simp: Let_def split: option.split_asm)
    from Some v g "2.prems"(1) have rest: "fst (upload_images io params (Suc i) ss (assoc_set uploads n g)) = Inr us"
      by (simp add: Let_def split: prod.split_asm)
    have es: "snd (upload_images io params i (ImageParam n t # ss) uploads) =
        Upload ?sent raw # snd (upload_images io params (Suc i) ss (assoc_set uploads n g))"
      using Some v g by (simp add: Let_def split: prod.split)
    from "2.IH"(2) [OF Some v refl g rest "2.prems"(2)] g show ?thesis
      unfolding es by (auto split: if_split_asm)
  qed
qed auto

lemma submit_graph_cases:
  obtains "submit_graph io tpl g = (Thrown, [Submit (Obj [(''prompt'', graph_js g)])])"
  | "submit_graph io tpl g = (err 502 ''upstream did not return a prompt_id'', [Submit (Obj [(''prompt'', graph_js g)])])"
  | j where "j \<noteq> []" and "submit_graph io tpl g = (Answer 202 (Obj [(''job_id'', Str j)]),
      [Submit (Obj [(''prompt'', graph_js g)]),
       CreateJob \<lparr>jr_jobId = j, jr_orgId = io_orgId io, jr_keyId = io_keyId io, jr_paddockId = io_paddockId io,
         jr_templateId = tp_id tpl, jr_cost = tp_cost tpl, jr_metered = False, jr_submittedAt = io_now io\<rparr>,
       EmitMeter [\<lparr>me_dim = Jobs, me_value = tp_cost tpl, me_at = io_now io\<rparr>]])"
proof -
  let ?req = "Obj [(''prompt'', graph_js g)]"
  show thesis
  proof (cases "io_submit io ?req")
    case None
    then show thesis by (intro that(1)) (simp add: submit_graph_def)
  next
    case (Some body)
    show thesis
    proof (cases "getp body ''prompt_id''")
      case (Str j)
      with Some that(2) that(3) [of j] show thesis by (cases "j = []") (simp_all add: submit_graph_def)
    qed (use Some in \<open>auto intro!: that(2) simp: submit_graph_def\<close>)
  qed
qed

definition accounting :: "effect list \<Rightarrow> effect list" where
  "accounting es = filter (\<lambda>e. case e of Upload _ _ \<Rightarrow> False | Submit _ \<Rightarrow> False | _ \<Rightarrow> True) es"

lemma accounting_uploads: "uploads_only es \<Longrightarrow> accounting (es @ es') = accounting es'"
  by (induction es rule: uploads_only.induct) (simp_all add: accounting_def)

lemma submit_not_upload: "uploads_only es \<Longrightarrow> Submit r \<notin> set es"
  by (induction es rule: uploads_only.induct) auto

lemma find_Some_mem: "find P xs = Some x \<Longrightarrow> x \<in> set xs \<and> P x"
  by (induction xs) (auto split: if_split_asm)

section \<open>Properties of the submit flow\<close>

text \<open>
  A ComfyUI submission is accounted exactly when it is accepted: only a 202 creates a job and
  meters it, once, as one \<open>jobs\<close> event of the template's cost, owned by the caller's key, paddock
  and organization under the id the upstream gave; and nothing is submitted but the graph rebuilt
  from the template of the fence that the request names.
\<close>

theorem comfy_submission_accounted:
  assumes "comfy_handle num_str io body fence = (a, es)"
  shows "(if \<exists>b. a = Answer 202 b
          then \<exists>tpl j. tpl \<in> set fence \<and> j \<noteq> [] \<and> a = Answer 202 (Obj [(''job_id'', Str j)]) \<and>
            accounting es =
              [CreateJob \<lparr>jr_jobId = j, jr_orgId = io_orgId io, jr_keyId = io_keyId io, jr_paddockId = io_paddockId io,
                 jr_templateId = tp_id tpl, jr_cost = tp_cost tpl, jr_metered = False, jr_submittedAt = io_now io\<rparr>,
               EmitMeter [\<lparr>me_dim = Jobs, me_value = tp_cost tpl, me_at = io_now io\<rparr>]]
          else accounting es = []) \<and>
    (\<forall>req. Submit req \<in> set es \<longrightarrow>
      (\<exists>tpl params uploads g. tpl \<in> set fence \<and> Str (tp_id tpl) = getp body ''template_id'' \<and> Obj params = getp body ''params'' \<and>
         reconstructGraph tpl params uploads (io_rng io) = Inr g \<and> req = Obj [(''prompt'', graph_js g)]))"
proof (cases "\<exists>t ps. getp body ''template_id'' = Str t \<and> getp body ''params'' = Obj ps")
  case False
  then have "comfy_handle num_str io body fence = (err 422 ''malformed request: expected { template_id, params }'', [])"
    by (cases "getp body ''template_id''"; cases "getp body ''params''") (simp_all add: comfy_handle_def)
  with assms have "a = err 422 ''malformed request: expected { template_id, params }''" "es = []" by simp_all
  then show ?thesis by (simp add: err_def accounting_def)
next
  case True
  then obtain t ps where b: "getp body ''template_id'' = Str t" "getp body ''params'' = Obj ps" by blast
  show ?thesis
  proof (cases "find (\<lambda>tp. tp_id tp = t) fence")
    case None
    with b assms have "a = err 404 (''unknown template: '' @ t)" "es = []" by (simp_all add: comfy_handle_def)
    then show ?thesis by (simp add: err_def accounting_def)
  next
    case (Some tpl)
    then have tpl: "tpl \<in> set fence" "tp_id tpl = t" using find_Some_mem by fastforce+
    obtain r us where up: "upload_images io ps 0 (tp_params tpl) [] = (r, us)" by fastforce
    have us: "uploads_only us" using upload_images_effects [of io ps 0 "tp_params tpl" "[]"] up by simp
    note none = accounting_uploads [OF us, of "[]", simplified] submit_not_upload [OF us]
    show ?thesis
    proof (cases r)
      case (Inl a')
      then obtain st msg where "a' = err st msg" "st \<in> {422, 502}"
        using upload_images_refusal [of io ps 0 "tp_params tpl" "[]" a'] up by auto
      with Inl up b Some assms none show ?thesis by (auto simp: comfy_handle_def err_def accounting_def)
    next
      case (Inr uploads)
      show ?thesis
      proof (cases "reconstructGraph tpl ps uploads (io_rng io)")
        case (Inl e)
        with Inr up b Some assms none show ?thesis by (auto simp: comfy_handle_def err_def accounting_def)
      next
        case g: (Inr g)
        have eq: "(a, es) = (fst (submit_graph io tpl g), us @ snd (submit_graph io tpl g))"
          using g Inr up b Some assms by (simp add: comfy_handle_def split: prod.split_asm)
        have sub: "\<exists>tpl' params uploads' g'. tpl' \<in> set fence \<and> Str (tp_id tpl') = getp body ''template_id'' \<and>
            Obj params = getp body ''params'' \<and> reconstructGraph tpl' params uploads' (io_rng io) = Inr g' \<and>
            Obj [(''prompt'', graph_js g)] = Obj [(''prompt'', graph_js g')]"
          using tpl b g by metis
        show ?thesis
          by (rule submit_graph_cases [of io tpl g])
            (use eq us none sub tpl in \<open>auto simp: accounting_uploads accounting_def err_def simp del: getp.simps\<close>)
      qed
    qed
  qed
qed

definition demo_io :: comfy_io where
  "demo_io = \<lparr>io_orgId = ''o'', io_keyId = ''k'', io_paddockId = ''p'', io_up = (\<lambda>n b. Some n),
     io_submit = (\<lambda>r. Some (Obj [(''prompt_id'', Str ''j1'')])), io_uuid = (\<lambda>i. dec i), io_rng = (\<lambda>i. 0), io_now = 7\<rparr>"

lemma demo_handle:
  "\<exists>es. comfy_handle (\<lambda>n. ''1'') demo_io (Obj [(''template_id'', Str ''t''), (''params'', Obj [(''prompt'', Str ''cat'')])]) [demo_template] =
     (Answer 202 (Obj [(''job_id'', Str ''j1'')]), es)"
  by (simp add: comfy_handle_def demo_io_def demo_template_def reconstructGraph_def put_input_def submit_graph_def)

theorem comfy_submission_accounted_witness:
  "\<exists>es. comfy_handle (\<lambda>n. ''1'') demo_io (Obj [(''template_id'', Str ''t''), (''params'', Obj [(''prompt'', Str ''cat'')])]) [demo_template] =
     (Answer 202 (Obj [(''job_id'', Str ''j1'')]), es) \<and> length (accounting es) = 2"
proof -
  obtain es where es: "comfy_handle (\<lambda>n. ''1'') demo_io (Obj [(''template_id'', Str ''t''), (''params'', Obj [(''prompt'', Str ''cat'')])]) [demo_template] =
     (Answer 202 (Obj [(''job_id'', Str ''j1'')]), es)" using demo_handle by blast
  from comfy_submission_accounted [OF es] es show ?thesis by auto
qed

section \<open>Tool names: lemmas\<close>

lemma dec_length: "0 < m \<Longrightarrow> n < 10 ^ m \<Longrightarrow> length (dec n) \<le> m"
proof (induction m arbitrary: n)
  case (Suc m)
  show ?case
  proof (cases "n < 10")
    case False
    then have "n div 10 < 10 ^ m" "0 < m" using Suc.prems by (cases m; simp)+
    with Suc.IH [of "n div 10"] False show ?thesis by (simp add: dec_big)
  qed (simp add: dec_small)
qed simp

lemma dec_chars: "list_all tool_name_char (dec n)"
proof -
  have "tool_name_char (digit i)" if "i < 10" for i
    using that by (simp add: tool_name_char_def is_digit_def less_eq_char_def of_char_digit)
  with dec_digits [of _ n] show ?thesis unfolding list_all_iff by blast
qed

lemma underscore_not_dec: "CHR ''_'' \<notin> set (dec n)"
  by (rule dec_not_in) simp

lemma numbered_inj: "numbered base m = numbered base n \<Longrightarrow> m = n"
proof -
  have tail: "takeWhile (\<lambda>c. c \<noteq> CHR ''_'') (rev (numbered base k)) = rev (dec k)" for k
  proof -
    have "\<forall>c \<in> set (rev (dec k)). c \<noteq> CHR ''_''" using underscore_not_dec [of k] by auto
    then show ?thesis by (simp add: numbered_def takeWhile_append)
  qed
  assume "numbered base m = numbered base n"
  with tail [of m] tail [of n] have "dec m = dec n" by simp
  then show ?thesis by (rule dec_inj)
qed

lemma free_name_taken: "free_name (Suc f) names base name n = None \<Longrightarrow> name \<in> set names"
  by (auto split: if_split_asm)

lemma free_name_None:
  "free_name (Suc f) names base name n = None \<Longrightarrow> n \<le> k \<Longrightarrow> k < n + f \<Longrightarrow> numbered base k \<in> set names"
proof (induction f arbitrary: name n)
  case (Suc f)
  from Suc.prems(1) have rest: "free_name (Suc f) names base (numbered base n) (Suc n) = None"
    by (simp split: if_split_asm)
  show ?case
  proof (cases "k = n")
    case True
    with free_name_taken [OF rest] show ?thesis by simp
  next
    case False
    with Suc.IH [OF rest] Suc.prems(2,3) show ?thesis by simp
  qed
qed simp

text \<open>With two more turns than there are names, the loop finds a free name: its candidates are
  pairwise different.\<close>

lemma free_name_enough: "\<exists>name'. free_name (Suc (Suc (length names))) names base name n = Some name'"
proof (rule ccontr)
  assume "\<not> ?thesis"
  then have "free_name (Suc (Suc (length names))) names base name n = None" by simp
  from free_name_None [OF this] have "numbered base ` {n..<n + Suc (length names)} \<subseteq> set names" by auto
  then have "card (numbered base ` {n..<n + Suc (length names)}) \<le> card (set names)" by (rule card_mono [rotated]) simp
  moreover have "inj_on (numbered base) {n..<n + Suc (length names)}" by (auto intro: inj_onI numbered_inj)
  ultimately show False using card_length [of names] by (simp add: card_image)
qed

lemma free_name_Some:
  "free_name f names base name n = Some name' \<Longrightarrow> name' \<notin> set names \<and>
     (name' = name \<or> (\<exists>k. n \<le> k \<and> k < n + f \<and> name' = numbered base k))"
proof (induction f arbitrary: name n)
  case (Suc f)
  show ?case
  proof (cases "name \<in> set names")
    case True
    with Suc.prems have "free_name f names base (numbered base n) (Suc n) = Some name'" by simp
    from Suc.IH [OF this] show ?thesis by (metis Suc_leD add_Suc_right add_Suc le_add1 le_refl less_Suc_eq_le)
  qed (use Suc.prems in simp)
qed simp

definition run_name :: "string \<Rightarrow> bool" where
  "run_name s = (length s \<le> MAX_NAME \<and> prefix ''run_'' s \<and> list_all tool_name_char s)"

lemma run_name_ok: "run_name s \<Longrightarrow> mcp_tool_name s \<and> s \<noteq> JOB_RESULT_TOOL"
  by (auto simp: run_name_def mcp_tool_name_def MAX_NAME_def prefix_def JOB_RESULT_TOOL_def)

lemma comfyToolName_run: "run_name (comfyToolName i)"
proof -
  have "list_all tool_name_char ''run_''" by code_simp
  then show ?thesis
    by (auto simp: run_name_def comfyToolName_def MAX_NAME_def Let_def list_all_iff tool_name_char_def is_lower_def
        dest: in_set_takeD)
qed

lemma numbered_run:
  assumes "run_name base" and "n < 10 ^ 101"
  shows "run_name (numbered base n)"
proof -
  have d: "length (dec n) \<le> 101" using assms(2) by (intro dec_length) simp_all
  from assms(1) obtain rest where b: "base = ''run_'' @ rest" by (auto simp: run_name_def prefix_def)
  have "4 \<le> MAX_NAME - Suc (length (dec n))" using d by (simp add: MAX_NAME_def)
  then obtain m where m: "MAX_NAME - Suc (length (dec n)) = 4 + m" by (auto simp: le_iff_add)
  have "prefix ''run_'' (numbered base n)" 
    by (simp add: numbered_def m b) (simp add: prefix_def numeral_eq_Suc)
  moreover have "length (numbered base n) \<le> MAX_NAME" using d by (simp add: numbered_def MAX_NAME_def)
  moreover have "list_all tool_name_char (numbered base n)"
    using assms(1) dec_chars [of n]
    by (auto simp: numbered_def run_name_def list_all_iff tool_name_char_def dest: in_set_takeD)
  ultimately show ?thesis by (simp add: run_name_def)
qed

lemma name_templates_ok:
  assumes "distinct (map fst names)" and "list_all run_name (map fst names)" and "length names + length ts < 10 ^ 100"
  shows "distinct (map fst (name_templates ts names)) \<and> list_all run_name (map fst (name_templates ts names)) \<and>
    map snd (name_templates ts names) = map snd names @ filter (\<lambda>i. i \<notin> snd ` set names) (uniq (map tp_id ts))"
  using assms
proof (induction ts arbitrary: names)
  case (Cons t ts)
  show ?case
  proof (cases "tp_id t \<in> snd ` set names")
    case True
    then have "filter (\<lambda>i. i \<notin> snd ` set names) (filter (\<lambda>y. y \<noteq> tp_id t) xs) = filter (\<lambda>i. i \<notin> snd ` set names) xs" for xs
      by (induction xs) auto
    with True Cons.IH [of names] Cons.prems show ?thesis by simp
  next
    case False
    let ?base = "comfyToolName (tp_id t)"
    obtain name where nm: "free_name (Suc (Suc (length names))) (map fst names) ?base ?base 2 = Some name"
      using free_name_enough [of "map fst names" ?base ?base 2] by auto
    note f = free_name_Some [OF nm]
    have "run_name name"
    proof (cases "name = ?base")
      case False
      with f obtain k where k: "k < 2 + Suc (Suc (length names))" "name = numbered ?base k" by blast
      have "k < 10 ^ 101" using k(1) Cons.prems(3) by simp
      with k(2) numbered_run [OF comfyToolName_run] show ?thesis by simp
    qed (simp add: comfyToolName_run)
    with Cons.IH [of "names @ [(name, tp_id t)]"] Cons.prems f
    have IH: "distinct (map fst (name_templates ts (names @ [(name, tp_id t)])))"
      "list_all run_name (map fst (name_templates ts (names @ [(name, tp_id t)])))"
      "map snd (name_templates ts (names @ [(name, tp_id t)])) = map snd names @ [tp_id t] @
        filter (\<lambda>i. i \<notin> insert (tp_id t) (snd ` set names)) (uniq (map tp_id ts))" by auto
    have "filter (\<lambda>i. i \<notin> insert (tp_id t) (snd ` set names)) xs =
        filter (\<lambda>i. i \<notin> snd ` set names) (filter (\<lambda>y. y \<noteq> tp_id t) xs)" for xs
      by (induction xs) auto
    with IH False nm show ?thesis by simp
  qed
qed simp

lemma comfyToolNames_ok:
  assumes "length ts < 10 ^ 100"
  shows "distinct (map fst (comfyToolNames ts))" and "list_all run_name (map fst (comfyToolNames ts))"
    and "map snd (comfyToolNames ts) = uniq (map tp_id ts)"
  using name_templates_ok [of "[]" ts] assms by (simp_all add: comfyToolNames_def)

section \<open>Properties of the tools\<close>

lemma runTool_ok:
  "schema_problems (runTool num_str n tpl) = [] \<and> trim (tl_description (runTool num_str n tpl)) \<noteq> [] \<and>
   tl_name (runTool num_str n tpl) = n"
  by (simp add: runTool_def schema_problems_def schema_required_def trim_def white_def dropWhile_eq_Nil_conv)

lemma jobResultTool_ok:
  "schema_problems jobResultTool = [] \<and> trim (tl_description jobResultTool) \<noteq> [] \<and>
   tl_name jobResultTool = JOB_RESULT_TOOL \<and> mcp_tool_name JOB_RESULT_TOOL"
proof -
  have "mcp_tool_name JOB_RESULT_TOOL" by code_simp
  then show ?thesis
    by (simp add: jobResultTool_def schema_problems_def schema_required_def declares_def has_own_def trim_def
        white_def dropWhile_eq_Nil_conv)
qed

lemma comfyToMcp_names:
  "tl_name ` set (comfyToMcp num_str fence) =
     fst ` set (comfyToolNames fence) \<union> (if comfyToolNames fence = [] then {} else {JOB_RESULT_TOOL})"
proof -
  have "tl_name ` set (map (\<lambda>(name, i). runTool num_str name (the (find (\<lambda>t. tp_id t = i) fence))) xs) = fst ` set xs" for xs
    by (induction xs) (auto simp: runTool_ok)
  then show ?thesis by (simp add: comfyToMcp_def Let_def sort_tools_def jobResultTool_ok image_Un)
qed



text \<open>
  A call of a \<open>run_\<close> tool is the template submission of exactly the template the tool was
  listed for, with the caller's arguments as its parameters; a name that is not listed is refused.
\<close>

theorem comfy_call_inverts_names:
  assumes "length fence < 10 ^ 100"
  shows "((n, i) \<in> set (comfyToolNames fence) \<longrightarrow> comfyMcpCall n (Obj a) fence =
      Planned \<lparr>pl_method = ''POST'', pl_path = ''/submit'', pl_body = Obj [(''template_id'', Str i), (''params'', Obj a)]\<rparr>) \<and>
    (n \<notin> tl_name ` set (comfyToMcp num_str fence) \<longrightarrow> comfyMcpCall n args fence = NotPlanned (''unknown tool: '' @ n))"
proof -
  note ok = comfyToolNames_ok [OF assms]
  have "n \<noteq> JOB_RESULT_TOOL \<and> map_of (comfyToolNames fence) n = Some i" if "(n, i) \<in> set (comfyToolNames fence)"
  proof -
    have "run_name n" using ok(2) that unfolding list_all_iff by force
    with that ok(1) run_name_ok show ?thesis by auto
  qed
  moreover have "map_of (comfyToolNames fence) n = None \<and> (n = JOB_RESULT_TOOL \<longrightarrow> comfyToolNames fence = [])"
    if "n \<notin> tl_name ` set (comfyToMcp num_str fence)"
    using that unfolding comfyToMcp_names by (auto simp: map_of_eq_None_iff split: if_split_asm)
  ultimately show ?thesis by (auto simp: comfyMcpCall_def Let_def)
qed

theorem comfy_call_inverts_names_witness:
  "comfyMcpCall ''nope'' (Obj []) [demo_template] = NotPlanned (''unknown tool: '' @ ''nope'')"
proof -
  have "''nope'' \<notin> tl_name ` set (comfyToMcp (\<lambda>n. ''1'') [demo_template])"
    unfolding comfyToMcp_names by code_simp
  with comfy_call_inverts_names [of "[demo_template]" "''nope''"] show ?thesis by force
qed

text \<open>
  The GPU time of a job is never negative, and for the two messages of a run with finite
  times it is the time from the last start to the last success, at least 0.
\<close>

theorem gpu_time_nonnegative:
  "\<not> jnum_less (oc_gpuMs (parseHistory h p)) (Fin 0)"
proof -
  have "\<not> jnum_less (max_zero n) (Fin 0)" for n
    by (cases n) (auto simp: max_zero_def)
  then show ?thesis
    by (auto simp: parseHistory_def deriveGpuMs_def Let_def split: js.split option.split prod.split)
qed

end
