(* ===== verification/ConfigCache.thy ===== *)
theory ConfigCache
  imports Prelude
begin

text \<open>
  The memoizing config store of the data plane (apps/data-plane/src/config/caching-config-store.ts,
  config-invalidation-subscriber.ts): a FIFO-bounded map with a time to live, flushed by pub/sub.
  A lookup that misses awaits the store behind it, so other lookups and flushes run in between:
  the runs of the cache are the traces of the step relation \<open>cache_step\<close>. The three caches of
  the class (keys by hash, keys by id, paddocks by slug) are three instances of the same code, so
  one is modelled. \<open>inner t k\<close> is what the store behind answers for \<open>k\<close> at time \<open>t\<close>.
\<close>

section \<open>The cache\<close>

record 'v entry =
  c_value :: 'v
  c_expiresAt :: int

type_synonym 'v cache = "(string \<times> 'v entry) list"

definition fresh :: "int \<Rightarrow> 'v entry option \<Rightarrow> bool" where
  "fresh now e = (case e of None \<Rightarrow> False | Some e \<Rightarrow> now < c_expiresAt e)"

definition setBounded :: "nat \<Rightarrow> 'v cache \<Rightarrow> string \<Rightarrow> 'v entry \<Rightarrow> 'v cache" where
  "setBounded maxEntries cache k e =
     (let cache' =
        (if map_of cache k = None \<and> maxEntries \<le> length cache then
           (case cache of [] \<Rightarrow> [] | (oldest, _) # _ \<Rightarrow> assoc_del cache oldest)
         else cache)
      in assoc_set cache' k e)"

definition cached :: "int \<Rightarrow> 'v cache \<Rightarrow> string \<Rightarrow> 'v option" where
  "cached now cache k =
     (if fresh now (map_of cache k) then map_option c_value (map_of cache k) else None)"

definition invalidateAll :: "'v cache \<Rightarrow> 'v cache" where
  "invalidateAll cache = []"

text \<open>\<open>decodeConfigInvalidation\<close> on the parsed payload (\<open>None\<close>: not JSON), and the
  subscriber's handler: a malformed message is ignored.\<close>

definition decodeConfigInvalidation :: "js option \<Rightarrow> (string \<times> jnum) option" where
  "decodeConfigInvalidation payload =
     (case payload of
        Some (Obj kvs) \<Rightarrow>
          (case (getp (Obj kvs) ''reason'', getp (Obj kvs) ''at'') of
             (Str r, Num n) \<Rightarrow> Some (r, n)
           | _ \<Rightarrow> None)
      | _ \<Rightarrow> None)"

definition CONFIG_INVALIDATE_CHANNEL :: string where
  "CONFIG_INVALIDATE_CHANNEL = ''metamodels:config:invalidate''"

definition onMessage :: "string \<Rightarrow> js option \<Rightarrow> 'v cache \<Rightarrow> 'v cache" where
  "onMessage channel payload cache =
     (if channel = CONFIG_INVALIDATE_CHANNEL then
        (case decodeConfigInvalidation payload of None \<Rightarrow> cache | Some _ \<Rightarrow> invalidateAll cache)
      else cache)"

lemma length_assoc_del_hd: "distinct (map fst ((k, v) # kvs)) \<Longrightarrow> assoc_del ((k, v) # kvs) k = kvs"
  by (auto simp: assoc_del_def filter_id_conv image_iff)

lemma setBounded_length:
  assumes "distinct (map fst cache)" and "length cache \<le> maxEntries" and "0 < maxEntries"
  shows "length (setBounded maxEntries cache k e) \<le> maxEntries"
proof (cases "map_of cache k = None \<and> maxEntries \<le> length cache")
  case True
  with assms obtain o' v rest where c: "cache = (o', v) # rest" by (cases cache) auto
  have "assoc_del cache o' = rest" using assms(1) unfolding c by (rule length_assoc_del_hd)
  with True c assms(2) show ?thesis by (auto simp: setBounded_def length_assoc_set)
next
  case False
  with assms show ?thesis by (auto simp: setBounded_def length_assoc_set)
qed

lemma setBounded_distinct: "distinct (map fst cache) \<Longrightarrow> distinct (map fst (setBounded maxEntries cache k e))"
  by (auto simp: setBounded_def Let_def split: list.split)

lemma setBounded_entries:
  "distinct (map fst cache) \<Longrightarrow> map_of (setBounded maxEntries cache k e) k' = Some e' \<Longrightarrow>
     k' = k \<and> e' = e \<or> map_of cache k' = Some e'"
  by (auto simp: setBounded_def Let_def split: list.split_asm if_split_asm)

section \<open>Runs\<close>

text \<open>A lookup in flight: its number, its key, and what the store behind answered and when.\<close>

record 'v cache_state =
  cc :: "'v cache"
  waiting :: "(nat \<times> string \<times> ('v \<times> int) option) list"

datatype 'v cache_label = Asked nat string | Answered nat | Served nat string 'v | Flushed

text \<open>The store behind answers within \<open>lat\<close>.\<close>

inductive cache_step :: "(int \<Rightarrow> string \<Rightarrow> 'v) \<Rightarrow> nat \<Rightarrow> int \<Rightarrow> int \<Rightarrow> int \<Rightarrow>
    'v cache_state \<Rightarrow> 'v cache_label \<Rightarrow> 'v cache_state \<Rightarrow> bool"
  for inner :: "int \<Rightarrow> string \<Rightarrow> 'v" and maxEntries :: nat and ttlMs :: int and lat :: int and now :: int where
  hit: "cached now (cc s) k = Some v \<Longrightarrow>
    cache_step inner maxEntries ttlMs lat now s (Served i k v) s"
| miss: "cached now (cc s) k = None \<Longrightarrow> map_of (waiting s) i = None \<Longrightarrow>
    cache_step inner maxEntries ttlMs lat now s (Asked i k) (s\<lparr>waiting := (i, k, None) # waiting s\<rparr>)"
| read: "map_of (waiting s) i = Some (k, None) \<Longrightarrow>
    cache_step inner maxEntries ttlMs lat now s (Answered i)
      (s\<lparr>waiting := assoc_set (waiting s) i (k, Some (inner now k, now))\<rparr>)"
| store: "map_of (waiting s) i = Some (k, Some (v, r)) \<Longrightarrow> now - r \<le> lat \<Longrightarrow>
    cache_step inner maxEntries ttlMs lat now s (Served i k v)
      (s\<lparr>cc := setBounded maxEntries (cc s) k \<lparr>c_value = v, c_expiresAt = now + ttlMs\<rparr>,
         waiting := assoc_del (waiting s) i\<rparr>)"
| flush: "cache_step inner maxEntries ttlMs lat now s Flushed (s\<lparr>cc := invalidateAll (cc s)\<rparr>)"

inductive_cases cache_stepE: "cache_step inner maxEntries ttlMs lat now s l s'"

inductive cache_run :: "(int \<Rightarrow> string \<Rightarrow> 'v) \<Rightarrow> nat \<Rightarrow> int \<Rightarrow> int \<Rightarrow> 'v cache_state \<Rightarrow> int \<Rightarrow>
    (int \<times> 'v cache_label) list \<Rightarrow> 'v cache_state \<Rightarrow> int \<Rightarrow> bool"
  for inner :: "int \<Rightarrow> string \<Rightarrow> 'v" and maxEntries :: nat and ttlMs :: int and lat :: int
    and s0 :: "'v cache_state" and n0 :: int where
  nil: "cache_run inner maxEntries ttlMs lat s0 n0 [] s0 n0"
| snoc: "cache_run inner maxEntries ttlMs lat s0 n0 tr s n \<Longrightarrow> n \<le> t \<Longrightarrow>
    cache_step inner maxEntries ttlMs lat t s l s' \<Longrightarrow>
    cache_run inner maxEntries ttlMs lat s0 n0 (tr @ [(t, l)]) s' t"

definition cache_start :: "'v cache_state" where
  "cache_start = \<lparr>cc = [], waiting = []\<rparr>"

text \<open>Where the values in a state come from: every one was read at some time \<open>r\<close> in
  \<open>[since, now]\<close>, and an entry lives at most \<open>ttlMs + lat\<close> past its read.\<close>

definition sourced :: "(int \<Rightarrow> string \<Rightarrow> 'v) \<Rightarrow> int \<Rightarrow> int \<Rightarrow> int \<Rightarrow> 'v cache_state \<Rightarrow> int \<Rightarrow> bool" where
  "sourced inner ttlMs lat since s now =
     (distinct (map fst (cc s)) \<and> distinct (map fst (waiting s)) \<and>
      (\<forall>k e. map_of (cc s) k = Some e \<longrightarrow>
        (\<exists>r. since \<le> r \<and> r \<le> now \<and> c_value e = inner r k \<and> c_expiresAt e \<le> r + ttlMs + lat)) \<and>
      (\<forall>i k v r. map_of (waiting s) i = Some (k, Some (v, r)) \<longrightarrow> since \<le> r \<and> r \<le> now \<and> v = inner r k))"

lemma sourced_later: "sourced inner ttlMs lat since s n \<Longrightarrow> n \<le> t \<Longrightarrow> sourced inner ttlMs lat since s t"
  unfolding sourced_def by (intro conjI) (fast intro: order_trans)+

lemma sourced_step:
  assumes "sourced inner ttlMs lat since s t" and "since \<le> t" and "cache_step inner maxEntries ttlMs lat t s l s'"
  shows "sourced inner ttlMs lat since s' t"
  using assms(3)
proof (cases rule: cache_step.cases)
  case (store i k v r)
  with assms(1) have r: "since \<le> r" "r \<le> t" "v = inner r k" by (auto simp: sourced_def)
  let ?e = "\<lparr>c_value = v, c_expiresAt = t + ttlMs\<rparr>"
  have "\<exists>r. since \<le> r \<and> r \<le> t \<and> c_value e = inner r k' \<and> c_expiresAt e \<le> r + ttlMs + lat"
    if "map_of (setBounded maxEntries (cc s) k ?e) k' = Some e" for k' e
    using setBounded_entries [OF _ that] assms(1) r store(4) by (auto simp: sourced_def)
  with assms(1) store show ?thesis by (auto simp: sourced_def setBounded_distinct split: if_split_asm)
qed (use assms in \<open>auto simp: sourced_def invalidateAll_def map_of_eq_None_iff split: if_split_asm\<close>)

lemma sourced_served:
  assumes "sourced inner ttlMs lat since s t" and "cache_step inner maxEntries ttlMs lat t s (Served i k v) s'"
    and "0 < ttlMs" and "0 \<le> lat"
  shows "\<exists>r. since \<le> r \<and> r \<le> t \<and> v = inner r k \<and> t - r < ttlMs + lat"
  using assms(2)
proof (cases rule: cache_step.cases)
  case hit
  then obtain e where "map_of (cc s) k = Some e" "c_value e = v" "t < c_expiresAt e"
    by (auto simp: cached_def fresh_def split: if_split_asm option.split_asm)
  with assms(1) obtain r where "since \<le> r" "r \<le> t" "v = inner r k" "c_expiresAt e \<le> r + ttlMs + lat"
    unfolding sourced_def by blast
  with \<open>t < c_expiresAt e\<close> show ?thesis by (intro exI [of _ r]) auto
next
  case (store r)
  with assms(1,3) show ?thesis by (intro exI [of _ r]) (auto simp: sourced_def)
qed

lemma run_sourced:
  assumes "cache_run inner maxEntries ttlMs lat s0 n0 tr s n"
    and "sourced inner ttlMs lat since s0 n0" and "since \<le> n0" and "0 < ttlMs" and "0 \<le> lat"
  shows "sourced inner ttlMs lat since s n \<and> since \<le> n \<and>
    (\<forall>t i k v. (t, Served i k v) \<in> set tr \<longrightarrow>
      (\<exists>r. since \<le> r \<and> r \<le> t \<and> v = inner r k \<and> t - r < ttlMs + lat))"
  using assms(1)
proof (induction rule: cache_run.induct)
  case nil
  with assms(2,3) show ?case by simp
next
  case (snoc tr s n t l s')
  from snoc.IH snoc.hyps(2) have s: "sourced inner ttlMs lat since s t" and t: "since \<le> t"
    by (auto intro: sourced_later)
  from sourced_step [OF s t snoc.hyps(3)] sourced_served [OF s _ assms(4,5)] snoc.hyps(3) snoc.IH t
  show ?case by fastforce
qed

lemma run_bounded:
  assumes "cache_run inner maxEntries ttlMs lat s0 n0 tr s n" and "0 < maxEntries"
    and "distinct (map fst (cc s0))" and "length (cc s0) \<le> maxEntries"
  shows "distinct (map fst (cc s)) \<and> length (cc s) \<le> maxEntries"
  using assms(1)
proof (induction rule: cache_run.induct)
  case nil
  with assms(3,4) show ?case by simp
next
  case (snoc tr s n t l s')
  from snoc.hyps(3) show ?case
    by (cases rule: cache_step.cases)
      (use snoc.IH assms(2) in \<open>simp_all add: setBounded_distinct setBounded_length invalidateAll_def\<close>)
qed

lemma start_sourced: "sourced inner ttlMs lat n cache_start n"
  by (simp add: sourced_def cache_start_def)

section \<open>Properties\<close>

text \<open>
  C34. The cache never grows past its bound, and bounds staleness: over every interleaving of
  lookups, answers and flushes, what a lookup gets at time \<open>t\<close> is what the store behind held at
  some time less than the time to live plus one store latency before \<open>t\<close>.
\<close>

theorem cache_bounded_and_recent:
  assumes "cache_run inner maxEntries ttlMs lat cache_start n0 tr s n" and "0 < maxEntries"
    and "0 < ttlMs" and "0 \<le> lat"
  shows "length (cc s) \<le> maxEntries \<and>
    (\<forall>t i k v. (t, Served i k v) \<in> set tr \<longrightarrow> (\<exists>r. r \<le> t \<and> t - r < ttlMs + lat \<and> v = inner r k))"
  using run_sourced [OF assms(1) start_sourced order_refl assms(3,4)]
    run_bounded [OF assms(1,2)] by (fastforce simp: cache_start_def)

lemma run_one: "cache_step inner maxEntries ttlMs lat t s l s' \<Longrightarrow> n \<le> t \<Longrightarrow>
  cache_run inner maxEntries ttlMs lat s n [(t, l)] s' t"
  using cache_run.snoc [OF cache_run.nil] by fastforce

text \<open>A run that shows a flush overtaken by a lookup in flight: the store behind answers at 1,
  its row changes at 2 and the flush runs at 3, the answer is cached at 4 and served at 29.\<close>

definition demo_store :: "int \<Rightarrow> string \<Rightarrow> bool" where
  "demo_store t k = (t < 2)"

definition demo_trace :: "(int \<times> bool cache_label) list" where
  "demo_trace = [(0, Asked 0 ''h''), (1, Answered 0), (3, Flushed), (4, Served 0 ''h'' True), (29, Served 1 ''h'' True)]"

lemma demo_run:
  "\<exists>s. cache_run demo_store 10 30 5 cache_start 0 demo_trace s 29"
proof -
  let ?s1 = "\<lparr>cc = [], waiting = [(0, ''h'', None)]\<rparr> :: bool cache_state"
  let ?s2 = "\<lparr>cc = [], waiting = [(0, ''h'', Some (True, 1))]\<rparr> :: bool cache_state"
  let ?s3 = "\<lparr>cc = [(''h'', \<lparr>c_value = True, c_expiresAt = 34\<rparr>)], waiting = []\<rparr> :: bool cache_state"
  have 1: "cache_step demo_store 10 30 5 0 cache_start (Asked 0 ''h'') ?s1"
    using cache_step.miss [of 0 cache_start "''h''" 0 demo_store 10 30 5]
    by (simp add: cached_def fresh_def cache_start_def)
  have 2: "cache_step demo_store 10 30 5 1 ?s1 (Answered 0) ?s2"
    using cache_step.read [of ?s1 0 "''h''" demo_store 10 30 5 1] by (simp add: demo_store_def)
  have 3: "cache_step demo_store 10 30 5 3 ?s2 Flushed ?s2"
    using cache_step.flush [of demo_store 10 30 5 3 ?s2] by (simp add: invalidateAll_def)
  have 4: "cache_step demo_store 10 30 5 4 ?s2 (Served 0 ''h'' True) ?s3"
    using cache_step.store [of ?s2 0 "''h''" True 1 4 5 demo_store 10 30]
    by (simp add: setBounded_def assoc_del_def)
  have 5: "cache_step demo_store 10 30 5 29 ?s3 (Served 1 ''h'' True) ?s3"
    by (rule cache_step.hit) (simp add: cached_def fresh_def)
  from cache_run.snoc [OF cache_run.snoc [OF cache_run.snoc [OF cache_run.snoc [OF run_one [OF 1] _ 2] _ 3] _ 4] _ 5, of 0]
  show ?thesis by (auto simp: demo_trace_def)
qed

theorem cache_bounded_and_recent_witness:
  "\<exists>r \<le> 29. 29 - r < 30 + 5 \<and> True = demo_store r ''h''"
proof -
  obtain s where "cache_run demo_store 10 30 5 cache_start 0 demo_trace s 29" using demo_run by blast
  from cache_bounded_and_recent [OF this] show ?thesis unfolding demo_trace_def by fastforce
qed

text \<open>
  A flush that no answered lookup overtakes is final: if no lookup holds an answer when the
  cache is flushed at \<open>f\<close>, everything served afterwards was read at \<open>f\<close> or later.
\<close>

theorem quiet_flush_is_final:
  assumes "cache_run inner maxEntries ttlMs lat \<lparr>cc = invalidateAll c, waiting = w\<rparr> f tr s n"
    and "distinct (map fst w)" and "\<forall>(i, k, a) \<in> set w. a = None" and "0 < ttlMs" and "0 \<le> lat"
    and "(t, Served i k v) \<in> set tr"
  shows "\<exists>r. f \<le> r \<and> r \<le> t \<and> v = inner r k"
proof -
  have "sourced inner ttlMs lat f \<lparr>cc = invalidateAll c, waiting = w\<rparr> f"
    using assms(2,3) by (auto simp: sourced_def invalidateAll_def dest: map_of_SomeD)
  from run_sourced [OF assms(1) this order_refl assms(4,5)] assms(6) show ?thesis by blast
qed

theorem quiet_flush_is_final_witness:
  "\<exists>r. 2 \<le> r \<and> r \<le> 4 \<and> False = demo_store r ''h''"
proof -
  let ?s0 = "\<lparr>cc = invalidateAll [(''h'', \<lparr>c_value = True, c_expiresAt = 30\<rparr>)], waiting = [(0, ''h'', None)]\<rparr> :: bool cache_state"
  let ?s1 = "\<lparr>cc = [], waiting = [(0, ''h'', Some (False, 3))]\<rparr> :: bool cache_state"
  have 1: "cache_step demo_store 10 30 5 3 ?s0 (Answered 0) ?s1"
    using cache_step.read [of ?s0 0 "''h''" demo_store 10 30 5 3] by (simp add: demo_store_def invalidateAll_def)
  have 2: "cache_step demo_store 10 30 5 4 ?s1 (Served 0 ''h'' False)
      (?s1\<lparr>cc := setBounded 10 (cc ?s1) ''h'' \<lparr>c_value = False, c_expiresAt = 4 + 30\<rparr>, waiting := assoc_del (waiting ?s1) 0\<rparr>)"
    by (rule cache_step.store [of ?s1 0 "''h''" False 3 4 5 demo_store 10 30]) simp_all
  from cache_run.snoc [OF run_one [OF 1, of 2] _ 2] show ?thesis
    by (rule quiet_flush_is_final [where i = 0]) simp_all
qed

text \<open>
  A flush can be overtaken: a lookup that read the store before a change and is answered
  after the flush caches the old value, which is served for the whole time to live although the
  store has not held it since before the flush.
\<close>

theorem flush_can_be_overtaken:
  "\<exists>s. cache_run demo_store 10 30 5 cache_start 0 demo_trace s 29 \<and>
     (3, Flushed) \<in> set demo_trace \<and> (29, Served 1 ''h'' True) \<in> set demo_trace \<and>
     \<not> demo_store 2 ''h'' \<and> \<not> demo_store 29 ''h''"
  using demo_run by (auto simp: demo_trace_def demo_store_def)

end
