(* ===== verification/Sealed.thy ===== *)
theory Sealed
  imports Tables
begin

text \<open>
  Sealing of a flock's upstream credential (packages/schema/src/sealed.ts): the envelope
  \<open>sealed:v1:kid:iv:ciphertext:tag\<close>, the keyring, and opening under the row a value belongs
  to. The ciphers of node:crypto are the functions of a record \<open>crypto\<close>; what is used of
  them is \<open>gcm_ok\<close>: deciphering is the inverse of enciphering, and a deciphering that
  succeeds is of what enciphering gives. Base64url is modelled concretely. A Buffer is its list of
  bytes.
\<close>

section \<open>Base64url\<close>

definition b64_char :: "nat \<Rightarrow> char" where
  "b64_char n = char_of
     (if n < 26 then 65 + n else if n < 52 then 71 + n else if n < 62 then n - 4
      else if n = 62 then 45 else 95)"

definition b64_val :: "char \<Rightarrow> nat" where
  "b64_val c = (let k = of_char c :: nat in
     if 97 \<le> k then k - 71 else if k = 95 then 63 else if 65 \<le> k then k - 65
     else if k = 45 then 62 else k + 4)"

definition b64_ok :: "char \<Rightarrow> bool" where
  "b64_ok c = (is_upper c \<or> is_lower c \<or> is_digit c \<or> c = CHR ''_'' \<or> c = CHR ''-'')"

abbreviation byte :: "char \<Rightarrow> nat" where
  "byte c \<equiv> of_char c"

fun to_b64u :: "string \<Rightarrow> string" where
  "to_b64u [] = []"
| "to_b64u [a] = [b64_char (byte a div 4), b64_char (byte a mod 4 * 16)]"
| "to_b64u [a, b] =
     [b64_char (byte a div 4), b64_char (byte a mod 4 * 16 + byte b div 16), b64_char (byte b mod 16 * 4)]"
| "to_b64u (a # b # c # bs) =
     b64_char (byte a div 4) # b64_char (byte a mod 4 * 16 + byte b div 16) #
     b64_char (byte b mod 16 * 4 + byte c div 64) # b64_char (byte c mod 64) # to_b64u bs"

text \<open>\<open>Buffer.from(s, 'base64url')\<close>: bits that do not fill a byte are dropped.\<close>

fun of_b64u :: "string \<Rightarrow> string" where
  "of_b64u (p # q # r # s # cs) =
     char_of (b64_val p * 4 + b64_val q div 16) # char_of (b64_val q mod 16 * 16 + b64_val r div 4) #
     char_of (b64_val r mod 4 * 64 + b64_val s) # of_b64u cs"
| "of_b64u [p, q, r] =
     [char_of (b64_val p * 4 + b64_val q div 16), char_of (b64_val q mod 16 * 16 + b64_val r div 4)]"
| "of_b64u [p, q] = [char_of (b64_val p * 4 + b64_val q div 16)]"
| "of_b64u _ = []"

lemma of_char_le [simp]: "(of_char c :: nat) < 256"
  using nat_of_char_less_256 by simp

lemma b64_val_char: "n < 64 \<Longrightarrow> b64_val (b64_char n) = n"
  by (auto simp: b64_val_def b64_char_def Let_def)

lemma byte_nibbles:
  "byte b div 16 div 16 = 0" "byte b div 16 mod 16 = byte b div 16"
  "byte c div 64 div 4 = 0" "byte c div 64 mod 4 = byte c div 64"
proof -
  have "byte b div 16 < 16" "byte c div 64 < 4"
    using of_char_le [of b] of_char_le [of c] by (simp_all add: div_less_iff_less_mult)
  then show "byte b div 16 div 16 = 0" "byte b div 16 mod 16 = byte b div 16"
    "byte c div 64 div 4 = 0" "byte c div 64 mod 4 = byte c div 64" by simp_all
qed

lemma b64_bounds:
  "byte a div 4 < 64" "byte a mod 4 * 16 < 64" "byte a mod 4 * 16 + byte b div 16 < 64"
  "byte b mod 16 * 4 < 64" "byte b mod 16 * 4 + byte c div 64 < 64" "byte c mod 64 < 64"
proof -
  have "byte a div 4 < 64" "byte b div 16 < 16" "byte c div 64 < 4"
    using of_char_le [of a] of_char_le [of b] of_char_le [of c] by (simp_all add: div_less_iff_less_mult)
  moreover have "byte a mod 4 < 4" "byte b mod 16 < 16" by simp_all
  ultimately show "byte a div 4 < 64" "byte a mod 4 * 16 < 64" "byte a mod 4 * 16 + byte b div 16 < 64"
    "byte b mod 16 * 4 < 64" "byte b mod 16 * 4 + byte c div 64 < 64" "byte c mod 64 < 64" by simp_all
qed

lemma of_to_b64u [simp]: "of_b64u (to_b64u bs) = bs"
  by (induction bs rule: to_b64u.induct) (simp_all add: b64_val_char b64_bounds byte_nibbles)

lemma b64_ok_char: "n < 64 \<Longrightarrow> b64_ok (b64_char n)"
  by (auto simp: b64_ok_def b64_char_def is_upper_def is_lower_def is_digit_def less_eq_char_def
      char_of_eq_iff)

lemma to_b64u_ok: "list_all b64_ok (to_b64u bs)"
  by (induction bs rule: to_b64u.induct) (simp_all add: b64_ok_char b64_bounds)

lemma length_to_b64u:
  "length (to_b64u bs) = length bs div 3 * 4 + (if length bs mod 3 = 0 then 0 else length bs mod 3 + 1)"
  by (induction bs rule: to_b64u.induct) simp_all

lemma of_b64u_length: "length s mod 4 \<noteq> 1 \<Longrightarrow> length (of_b64u s) = length s * 3 div 4"
  by (induction s rule: of_b64u.induct) simp_all

section \<open>Keys and keyrings\<close>

record crypto =
  hkdf_sha256 :: "string \<Rightarrow> string \<Rightarrow> string \<Rightarrow> nat \<Rightarrow> string"
  sha256_hex :: "string \<Rightarrow> string"
  gcm_enc :: "string \<Rightarrow> string \<Rightarrow> string \<Rightarrow> string \<Rightarrow> string \<times> string"
  gcm_dec :: "string \<Rightarrow> string \<Rightarrow> string \<Rightarrow> string \<Rightarrow> string \<Rightarrow> string option"

record seal_key =
  kid :: string
  key :: string

record seal_keyring =
  current :: seal_key
  byKid :: "(string \<times> seal_key) list"

record seal_binding =
  b_orgId :: string
  b_flockId :: string

datatype unseal_reason = Malformed | UnknownKey | Tampered
datatype seal_error = Unseal unseal_reason | NotUuid | ConstraintViolated
datatype keyring_error = KeyRequired | BadKey string | RepeatedKey

definition hex_digit :: "char \<Rightarrow> bool" where
  "hex_digit c = (is_digit c \<or> CHR ''a'' \<le> c \<and> c \<le> CHR ''f'')"

definition is_uuid :: "string \<Rightarrow> bool" where
  "is_uuid s =
     (case split_on CHR ''-'' (lower s) of
        [a, b, c, d, e] \<Rightarrow>
          map length [a, b, c, d, e] = [8, 4, 4, 4, 12] \<and> list_all (list_all hex_digit) [a, b, c, d, e]
      | _ \<Rightarrow> False)"

definition seal_key_re :: "string \<Rightarrow> bool" where
  "seal_key_re s = (length s = 44 \<and> last s = CHR ''='' \<and>
     list_all (\<lambda>c. is_upper c \<or> is_lower c \<or> is_digit c \<or> c = CHR ''+'' \<or> c = CHR ''/'') (butlast s))"

text \<open>\<open>Buffer.from(s, 'base64')\<close> of a padded base64 string\<close>

definition of_b64 :: "string \<Rightarrow> string" where
  "of_b64 s = of_b64u (map (\<lambda>c. if c = CHR ''+'' then CHR ''-'' else if c = CHR ''/'' then CHR ''_'' else c)
     (filter (\<lambda>c. c \<noteq> CHR ''='') s))"

definition aad :: "seal_binding \<Rightarrow> seal_error + string" where
  "aad b = (if \<not> is_uuid (b_orgId b) \<or> \<not> is_uuid (b_flockId b) then Inl NotUuid
     else Inr (''flock:'' @ lower (b_orgId b) @ '':'' @ lower (b_flockId b)))"

definition parseSealKey :: "crypto \<Rightarrow> string \<Rightarrow> string \<Rightarrow> keyring_error + seal_key" where
  "parseSealKey c b64 name =
     (if \<not> seal_key_re b64 then Inl (BadKey name)
      else let k = hkdf_sha256 c (of_b64 b64) [] ''metamodels flock.upstream_auth v1'' 32 in
        Inr \<lparr>kid = take 16 (sha256_hex c (''kid'' @ [CHR 0x00] @ k)), key = k\<rparr>)"

fun add_previous :: "crypto \<Rightarrow> nat \<Rightarrow> string list \<Rightarrow> (string \<times> seal_key) list \<Rightarrow> keyring_error + (string \<times> seal_key) list" where
  "add_previous c i [] m = Inr m"
| "add_previous c i (p # ps) m =
     (case parseSealKey c p (''UPSTREAM_AUTH_PREVIOUS_KEYS['' @ dec i @ '']'') of
        Inl e \<Rightarrow> Inl e
      | Inr k \<Rightarrow> if map_of m (kid k) \<noteq> None then Inl RepeatedKey
          else add_previous c (Suc i) ps (assoc_set m (kid k) k))"

definition loadSealKeyring :: "crypto \<Rightarrow> (string \<Rightarrow> string option) \<Rightarrow> keyring_error + seal_keyring" where
  "loadSealKeyring c env =
     (case env ''UPSTREAM_AUTH_KEY'' of
        None \<Rightarrow> Inl KeyRequired
      | Some raw \<Rightarrow>
          if raw = [] then Inl KeyRequired
          else (case parseSealKey c raw ''UPSTREAM_AUTH_KEY'' of
              Inl e \<Rightarrow> Inl e
            | Inr cur \<Rightarrow>
                (case add_previous c 0
                    (filter (\<lambda>s. s \<noteq> [])
                      (map trim (split_on CHR '','' (case env ''UPSTREAM_AUTH_PREVIOUS_KEYS'' of None \<Rightarrow> [] | Some s \<Rightarrow> s))))
                    [(kid cur, cur)] of
                   Inl e \<Rightarrow> Inl e
                 | Inr m \<Rightarrow> Inr \<lparr>current = cur, byKid = m\<rparr>)))"

section \<open>The envelope\<close>

record envelope =
  env_kid :: string
  env_iv :: string
  env_ct :: string
  env_tag :: string

definition SEAL_PREFIX :: string where
  "SEAL_PREFIX = ''sealed:v1:''"

definition print_envelope :: "envelope \<Rightarrow> string" where
  "print_envelope e = SEAL_PREFIX @ env_kid e @ '':'' @ env_iv e @ '':'' @ env_ct e @ '':'' @ env_tag e"

definition envelope_ok :: "envelope \<Rightarrow> bool" where
  "envelope_ok e = (length (env_kid e) = 16 \<and> list_all hex_digit (env_kid e) \<and>
     length (env_iv e) = 16 \<and> list_all b64_ok (env_iv e) \<and> list_all b64_ok (env_ct e) \<and>
     length (env_tag e) = 22 \<and> list_all b64_ok (env_tag e))"

text \<open>\<open>ENVELOPE_RE.exec\<close>: the four classes exclude the separator.\<close>

definition match_envelope :: "string \<Rightarrow> envelope option" where
  "match_envelope s =
     (if \<not> starts_with s SEAL_PREFIX then None
      else case split_on CHR '':'' (drop (length SEAL_PREFIX) s) of
        [k, iv, ct, tag] \<Rightarrow>
          let e = \<lparr>env_kid = k, env_iv = iv, env_ct = ct, env_tag = tag\<rparr> in
          if envelope_ok e then Some e else None
      | _ \<Rightarrow> None)"

definition isSealed :: "string \<Rightarrow> bool" where
  "isSealed s = (match_envelope s \<noteq> None)"

definition seal :: "crypto \<Rightarrow> string \<Rightarrow> string \<Rightarrow> seal_keyring \<Rightarrow> seal_binding \<Rightarrow> seal_error + string" where
  "seal c iv plaintext ring bind =
     (case aad bind of
        Inl e \<Rightarrow> Inl e
      | Inr ad \<Rightarrow>
          let (ct, tag) = gcm_enc c (key (current ring)) iv ad plaintext in
          Inr (print_envelope \<lparr>env_kid = kid (current ring), env_iv = to_b64u iv,
                 env_ct = to_b64u ct, env_tag = to_b64u tag\<rparr>))"

definition openSealed :: "crypto \<Rightarrow> string \<Rightarrow> seal_keyring \<Rightarrow> seal_binding \<Rightarrow> seal_error + string" where
  "openSealed c env ring bind =
     (case aad bind of
        Inl e \<Rightarrow> Inl e
      | Inr ad \<Rightarrow>
          (case match_envelope env of
             None \<Rightarrow> Inl (Unseal Malformed)
           | Some m \<Rightarrow>
               (case map_of (byKid ring) (env_kid m) of
                  None \<Rightarrow> Inl (Unseal UnknownKey)
                | Some k \<Rightarrow>
                    (case gcm_dec c (key k) (of_b64u (env_iv m)) ad (of_b64u (env_ct m)) (of_b64u (env_tag m)) of
                       None \<Rightarrow> Inl (Unseal Tampered)
                     | Some p \<Rightarrow> Inr p))))"

definition needsReseal :: "string \<Rightarrow> seal_keyring \<Rightarrow> bool" where
  "needsReseal v ring =
     (case match_envelope v of None \<Rightarrow> True | Some m \<Rightarrow> env_kid m \<noteq> kid (current ring))"

section \<open>What is used of the cipher\<close>

definition gcm_ok :: "crypto \<Rightarrow> bool" where
  "gcm_ok c = (\<forall>k iv ad. length k = 32 \<and> length iv = 12 \<longrightarrow>
     (\<forall>p ct tag. gcm_dec c k iv ad ct tag = Some p \<longleftrightarrow> gcm_enc c k iv ad p = (ct, tag)) \<and>
     (\<forall>p. length (snd (gcm_enc c k iv ad p)) = 16))"

text \<open>A keyring as \<open>loadSealKeyring\<close> builds it.\<close>

definition key_wf :: "string \<Rightarrow> seal_key \<Rightarrow> bool" where
  "key_wf i k = (i = kid k \<and> length (kid k) = 16 \<and> list_all hex_digit (kid k) \<and> length (key k) = 32)"

definition ring_ok :: "seal_keyring \<Rightarrow> bool" where
  "ring_ok r = (map_of (byKid r) (kid (current r)) = Some (current r) \<and>
     (\<forall>(i, k) \<in> set (byKid r). key_wf i k))"

definition digest_ok :: "crypto \<Rightarrow> bool" where
  "digest_ok c = ((\<forall>x. length (sha256_hex c x) = 64 \<and> list_all hex_digit (sha256_hex c x)) \<and>
     (\<forall>x s i n. length (hkdf_sha256 c x s i n) = n))"

section \<open>Envelopes and bindings\<close>

lemma colon_not_b64: "list_all b64_ok s \<Longrightarrow> CHR '':'' \<notin> set s"
  by (auto simp: list_all_iff b64_ok_def is_upper_def is_lower_def is_digit_def)

lemma colon_not_hex: "list_all hex_digit s \<Longrightarrow> CHR '':'' \<notin> set s"
  by (auto simp: list_all_iff hex_digit_def is_digit_def)

lemma split_four:
  assumes "c \<notin> set w" "c \<notin> set x" "c \<notin> set y" "c \<notin> set z"
  shows "split_on c (w @ c # x @ c # y @ c # z) = [w, x, y, z]"
  using assms by (simp add: split_on_append split_on_no_sep)

lemma match_print_envelope: "envelope_ok e \<Longrightarrow> match_envelope (print_envelope e) = Some e"
proof -
  assume ok: "envelope_ok e"
  then have "split_on CHR '':'' (env_kid e @ CHR '':'' # env_iv e @ CHR '':'' # env_ct e @ CHR '':'' # env_tag e) =
      [env_kid e, env_iv e, env_ct e, env_tag e]"
    by (intro split_four) (simp_all add: envelope_ok_def colon_not_b64 colon_not_hex)
  with ok show ?thesis
    by (cases e) (simp add: match_envelope_def print_envelope_def SEAL_PREFIX_def Let_def)
qed

lemma match_envelope_Some: "match_envelope s = Some e \<Longrightarrow> envelope_ok e \<and> s = print_envelope e"
proof -
  assume m: "match_envelope s = Some e"
  then obtain t where t: "s = SEAL_PREFIX @ t"
    by (auto simp: match_envelope_def prefix_def split: if_split_asm)
  with m have "split_on CHR '':'' t = [env_kid e, env_iv e, env_ct e, env_tag e] \<and> envelope_ok e"
    by (auto simp: match_envelope_def Let_def split: list.split_asm if_split_asm)
  with join_split_on [of "CHR '':''" t] show ?thesis by (auto simp: t print_envelope_def)
qed

lemma lower_uuid_no_colon: "is_uuid s \<Longrightarrow> CHR '':'' \<notin> set (lower s)"
proof -
  assume "is_uuid s"
  then obtain a b c d e where sp: "split_on CHR ''-'' (lower s) = [a, b, c, d, e]"
    and hex: "list_all (list_all hex_digit) [a, b, c, d, e]"
    by (auto simp: is_uuid_def split: list.split_asm)
  have "lower s = join_on [CHR ''-''] [a, b, c, d, e]" using join_split_on [of "CHR ''-''" "lower s"] sp by simp
  moreover have "CHR '':'' \<notin> set (join_on [CHR ''-''] [a, b, c, d, e])" using hex colon_not_hex by auto
  ultimately show ?thesis by simp
qed

lemma aad_Inr: "aad b = Inr ad \<longleftrightarrow> is_uuid (b_orgId b) \<and> is_uuid (b_flockId b) \<and>
  ad = ''flock:'' @ lower (b_orgId b) @ '':'' @ lower (b_flockId b)"
  by (auto simp: aad_def)

lemma aad_same_row:
  assumes "aad a = Inr ad" and "aad b = Inr ad"
  shows "lower (b_orgId a) = lower (b_orgId b) \<and> lower (b_flockId a) = lower (b_flockId b)"
proof -
  from assms have eq: "lower (b_orgId a) @ CHR '':'' # lower (b_flockId a) = lower (b_orgId b) @ CHR '':'' # lower (b_flockId b)"
    and u: "is_uuid (b_orgId a)" "is_uuid (b_orgId b)" by (auto simp: aad_Inr)
  have "lower (b_orgId a) = lower (b_orgId b)"
    using arg_cong [OF eq, of "\<lambda>s. hd (split_on CHR '':'' s)"]
    unfolding split_on_append [OF lower_uuid_no_colon [OF u(1)]] split_on_append [OF lower_uuid_no_colon [OF u(2)]]
    by simp
  with eq show ?thesis by simp
qed

lemma ring_key:
  "ring_ok r \<Longrightarrow> map_of (byKid r) i = Some k \<Longrightarrow>
     i = kid k \<and> length (kid k) = 16 \<and> list_all hex_digit (kid k) \<and> length (key k) = 32"
  by (drule map_of_SomeD) (auto simp: ring_ok_def key_wf_def)

lemma sealed_envelope:
  assumes "gcm_ok c" and "ring_ok ring" and "length iv = 12" and "aad bind = Inr ad"
    and "gcm_enc c (key (current ring)) iv ad p = (ct, tag)"
  shows "envelope_ok \<lparr>env_kid = kid (current ring), env_iv = to_b64u iv, env_ct = to_b64u ct, env_tag = to_b64u tag\<rparr>"
proof -
  have k: "length (kid (current ring)) = 16" "list_all hex_digit (kid (current ring))" "length (key (current ring)) = 32"
    using ring_key [OF assms(2), of "kid (current ring)" "current ring"] assms(2) by (auto simp: ring_ok_def)
  then have "length tag = 16"
    using assms(1,3,5) unfolding gcm_ok_def by (metis snd_conv)
  with k assms(3) show ?thesis by (simp add: envelope_ok_def to_b64u_ok length_to_b64u)
qed

lemma seal_Inr:
  assumes "gcm_ok c" and "ring_ok ring" and "length iv = 12" and "seal c iv p ring bind = Inr v"
  obtains ad ct tag where "aad bind = Inr ad" and "gcm_enc c (key (current ring)) iv ad p = (ct, tag)"
    and "match_envelope v = Some \<lparr>env_kid = kid (current ring), env_iv = to_b64u iv,
           env_ct = to_b64u ct, env_tag = to_b64u tag\<rparr>"
proof -
  from assms(4) obtain ad ct tag where *: "aad bind = Inr ad" "gcm_enc c (key (current ring)) iv ad p = (ct, tag)"
    and v: "v = print_envelope \<lparr>env_kid = kid (current ring), env_iv = to_b64u iv,
           env_ct = to_b64u ct, env_tag = to_b64u tag\<rparr>"
    by (auto simp: seal_def split: sum.splits prod.splits)
  from that * show thesis by (simp add: v match_print_envelope [OF sealed_envelope [OF assms(1-3) *]])
qed

lemma open_sealed:
  assumes "gcm_ok c" and "ring_ok ring" and "length iv = 12" and "seal c iv p ring bind = Inr v"
    and "map_of (byKid ring') (kid (current ring)) = Some (current ring)"
  shows "openSealed c v ring' bind = Inr p"
proof -
  from seal_Inr [OF assms(1-4)] obtain ad ct tag where *: "aad bind = Inr ad"
    "gcm_enc c (key (current ring)) iv ad p = (ct, tag)"
    "match_envelope v = Some \<lparr>env_kid = kid (current ring), env_iv = to_b64u iv,
           env_ct = to_b64u ct, env_tag = to_b64u tag\<rparr>" .
  have "length (key (current ring)) = 32"
    using ring_key [OF assms(2), of "kid (current ring)" "current ring"] assms(2) by (auto simp: ring_ok_def)
  with assms(1,3) *(2) have "gcm_dec c (key (current ring)) iv ad ct tag = Some p" by (simp add: gcm_ok_def)
  with * assms(5) show ?thesis by (simp add: openSealed_def)
qed

lemma seal_current: "gcm_ok c \<Longrightarrow> ring_ok ring \<Longrightarrow> length iv = 12 \<Longrightarrow> seal c iv p ring bind = Inr v \<Longrightarrow>
  \<not> needsReseal v ring \<and> isSealed v"
  by (erule (3) seal_Inr) (simp add: needsReseal_def isSealed_def)

lemma seal_total: "aad bind = Inr ad \<Longrightarrow> \<exists>v. seal c iv p ring bind = Inr v"
  by (auto simp: seal_def split: prod.splits)

section \<open>Loading a keyring\<close>

lemma parseSealKey_ok:
  "digest_ok c \<Longrightarrow> parseSealKey c b n = Inr k \<Longrightarrow>
     length (kid k) = 16 \<and> list_all hex_digit (kid k) \<and> length (key k) = 32"
proof -
  assume d: "digest_ok c" and "parseSealKey c b n = Inr k"
  then have k: "kid k = take 16 (sha256_hex c (''kid'' @ [CHR 0x00] @ key k))"
    "key k = hkdf_sha256 c (of_b64 b) [] ''metamodels flock.upstream_auth v1'' 32"
    by (auto simp: parseSealKey_def Let_def split: if_split_asm)
  from k(2) d have "length (key k) = 32" by (simp add: digest_ok_def)
  moreover have "length (kid k) = 16 \<and> list_all hex_digit (kid k)"
    using d by (subst (1 2) k(1)) (auto simp: digest_ok_def list_all_iff dest: in_set_takeD)
  ultimately show ?thesis by simp
qed

definition kids_ok :: "(string \<times> seal_key) list \<Rightarrow> bool" where
  "kids_ok m = (\<forall>(i, k) \<in> set m. key_wf i k)"

lemma kids_ok_set: "kids_ok m \<Longrightarrow> kids_ok [(kid k, k)] \<Longrightarrow> kids_ok (assoc_set m (kid k) k)"
  by (induction m) (auto simp: kids_ok_def split: if_split_asm)

lemma add_previous_ok:
  assumes "digest_ok c" and "kids_ok m" and "add_previous c i ps m = Inr m'"
  shows "kids_ok m' \<and> (\<forall>j k. map_of m j = Some k \<longrightarrow> map_of m' j = Some k)"
  using assms(2,3)
proof (induction ps arbitrary: i m)
  case (Cons p ps)
  from Cons.prems(2) obtain k where k: "parseSealKey c p (''UPSTREAM_AUTH_PREVIOUS_KEYS['' @ dec i @ '']'') = Inr k"
    and new: "map_of m (kid k) = None" and rest: "add_previous c (Suc i) ps (assoc_set m (kid k) k) = Inr m'"
    by (auto split: sum.split_asm if_split_asm)
  have "kids_ok (assoc_set m (kid k) k)"
    by (rule kids_ok_set [OF Cons.prems(1)]) (simp add: kids_ok_def key_wf_def parseSealKey_ok [OF assms(1) k])
  note IH = Cons.IH [OF this rest]
  have "map_of m' j = Some k'" if "map_of m j = Some k'" for j k'
    using IH new that by (metis fun_upd_other map_of_assoc_set option.distinct(1))
  with IH show ?case by simp
qed simp

lemma loadSealKeyring_ok:
  assumes "digest_ok c" and "loadSealKeyring c env = Inr r"
  shows "ring_ok r"
proof -
  from assms(2) obtain raw cur ps m where cur: "parseSealKey c raw ''UPSTREAM_AUTH_KEY'' = Inr cur"
    and m: "add_previous c 0 ps [(kid cur, cur)] = Inr m" and r: "r = \<lparr>current = cur, byKid = m\<rparr>"
    using that by (fastforce simp: loadSealKeyring_def simp del: add_previous.simps
        split: option.split_asm if_split_asm sum.split_asm)
  have "kids_ok [(kid cur, cur)]" by (simp add: kids_ok_def key_wf_def parseSealKey_ok [OF assms(1) cur])
  from add_previous_ok [OF assms(1) this m] show ?thesis by (simp add: ring_ok_def r kids_ok_def)
qed

section \<open>Properties\<close>

text \<open>The concrete cipher of the witnesses: plaintext with a tag that names key and row.\<close>

definition demo_crypto :: crypto where
  "demo_crypto = \<lparr>hkdf_sha256 = (\<lambda>ikm s i n. take n (ikm @ replicate n CHR ''x'')),
     sha256_hex = (\<lambda>x. replicate 64 CHR ''0''),
     gcm_enc = (\<lambda>k iv ad p. (p, take 16 (drop 6 ad @ replicate 16 CHR ''0''))),
     gcm_dec = (\<lambda>k iv ad ct tag.
       if tag = take 16 (drop 6 ad @ replicate 16 CHR ''0'') then Some ct else None)\<rparr>"

definition demo_ring :: seal_keyring where
  "demo_ring = (let k = \<lparr>kid = replicate 16 CHR ''0'', key = replicate 32 CHR ''k''\<rparr> in
     \<lparr>current = k, byKid = [(kid k, k)]\<rparr>)"

definition demo_uuid :: string where
  "demo_uuid = ''aaaaaaaa-0000-0000-0000-000000000000''"

definition demo_uuid_upper :: string where
  "demo_uuid_upper = ''AAAAAAAA-0000-0000-0000-000000000000''"

lemma demo_crypto_ok: "gcm_ok demo_crypto" "digest_ok demo_crypto"
  by (auto simp: gcm_ok_def digest_ok_def demo_crypto_def hex_digit_def is_digit_def list_all_iff)

lemma demo_ring_ok: "ring_ok demo_ring"
  by (simp add: ring_ok_def demo_ring_def key_wf_def hex_digit_def is_digit_def list_all_iff Let_def)

lemma demo_uuid_ok: "is_uuid demo_uuid" "lower demo_uuid_upper = lower demo_uuid" "is_uuid demo_uuid_upper"
  by code_simp+

text \<open>
  A credential that was sealed opens again to the same plaintext, for its own row, under
  every keyring that still holds the key it was sealed under: rotation keeps old values readable
  through the overlap window.
\<close>

theorem seal_then_open:
  assumes "gcm_ok c" and "digest_ok c" and "loadSealKeyring c env = Inr ring" and "length iv = 12"
    and "seal c iv plaintext ring bind = Inr v"
    and "map_of (byKid ring') (kid (current ring)) = Some (current ring)"
  shows "openSealed c v ring' bind = Inr plaintext"
  by (rule open_sealed [OF assms(1) loadSealKeyring_ok [OF assms(2,3)] assms(4-6)])

lemma demo_load:
  obtains ring where "loadSealKeyring demo_crypto [''UPSTREAM_AUTH_KEY'' \<mapsto> replicate 43 CHR ''A'' @ ''=''] = Inr ring"
    and "map_of (byKid ring) (kid (current ring)) = Some (current ring)"
proof -
  have "case loadSealKeyring demo_crypto [''UPSTREAM_AUTH_KEY'' \<mapsto> replicate 43 CHR ''A'' @ ''=''] of
      Inl e \<Rightarrow> False | Inr r \<Rightarrow> map_of (byKid r) (kid (current r)) = Some (current r)"
    by code_simp
  with that show thesis by (auto split: sum.splits)
qed

theorem seal_then_open_witness:
  "\<exists>ring v. seal demo_crypto (replicate 12 CHR ''i'') ''Bearer x'' ring \<lparr>b_orgId = demo_uuid, b_flockId = demo_uuid\<rparr> = Inr v \<and>
     openSealed demo_crypto v ring \<lparr>b_orgId = demo_uuid, b_flockId = demo_uuid\<rparr> = Inr ''Bearer x''"
proof -
  let ?b = "\<lparr>b_orgId = demo_uuid, b_flockId = demo_uuid\<rparr>"
  obtain ring where r: "loadSealKeyring demo_crypto [''UPSTREAM_AUTH_KEY'' \<mapsto> replicate 43 CHR ''A'' @ ''=''] = Inr ring"
    "map_of (byKid ring) (kid (current ring)) = Some (current ring)"
    by (rule demo_load)
  obtain ad where "aad ?b = Inr ad" by (simp add: aad_def demo_uuid_ok)
  then obtain v where v: "seal demo_crypto (replicate 12 CHR ''i'') ''Bearer x'' ring ?b = Inr v"
    using seal_total by blast
  from seal_then_open [OF demo_crypto_ok r(1) _ v r(2)] v show ?thesis by (metis length_replicate)
qed

text \<open>
  An envelope opens for one row only: if the same envelope opens under two rows, they are
  the same row up to the case of its ids, or a plaintext has been found whose GCM ciphertext and
  tag agree under two different additional data (a forgery).
\<close>

theorem sealed_value_bound_to_row:
  assumes "gcm_ok c" and "ring_ok ring" and "openSealed c v ring a = Inr p" and "openSealed c v ring b = Inr q"
  shows "lower (b_orgId a) = lower (b_orgId b) \<and> lower (b_flockId a) = lower (b_flockId b) \<or>
    (\<exists>k iv ad ad'. ad \<noteq> ad' \<and> aad a = Inr ad \<and> aad b = Inr ad' \<and> gcm_enc c k iv ad p = gcm_enc c k iv ad' q)"
proof -
  from assms(3) obtain ad m k where a: "aad a = Inr ad" "match_envelope v = Some m"
    "map_of (byKid ring) (env_kid m) = Some k"
    "gcm_dec c (key k) (of_b64u (env_iv m)) ad (of_b64u (env_ct m)) (of_b64u (env_tag m)) = Some p"
    by (auto simp: openSealed_def split: sum.split_asm option.split_asm)
  from assms(4) a(2,3) obtain ad' where b: "aad b = Inr ad'"
    "gcm_dec c (key k) (of_b64u (env_iv m)) ad' (of_b64u (env_ct m)) (of_b64u (env_tag m)) = Some q"
    by (auto simp: openSealed_def split: sum.split_asm option.split_asm)
  have "length (key k) = 32" using ring_key [OF assms(2) a(3)] by simp
  moreover have "length (of_b64u (env_iv m)) = 12"
    using match_envelope_Some [OF a(2)] of_b64u_length [of "env_iv m"] by (simp add: envelope_ok_def)
  ultimately have enc: "gcm_enc c (key k) (of_b64u (env_iv m)) ad p = gcm_enc c (key k) (of_b64u (env_iv m)) ad' q"
    using assms(1) a(4) b(2) unfolding gcm_ok_def by metis
  show ?thesis
  proof (cases "ad = ad'")
    case True
    with aad_same_row [of a ad b] a(1) b(1) show ?thesis by simp
  next
    case False
    with a(1) b(1) enc show ?thesis by blast
  qed
qed

theorem sealed_value_bound_to_row_witness:
  "\<exists>v. openSealed demo_crypto v demo_ring \<lparr>b_orgId = demo_uuid, b_flockId = demo_uuid\<rparr> = Inr ''s'' \<and>
     openSealed demo_crypto v demo_ring \<lparr>b_orgId = demo_uuid_upper, b_flockId = demo_uuid\<rparr> = Inr ''s'' \<and>
     (lower demo_uuid = lower demo_uuid_upper \<or>
       (\<exists>k iv ad ad'. ad \<noteq> ad' \<and> gcm_enc demo_crypto k iv ad ''s'' = gcm_enc demo_crypto k iv ad' ''s''))"
proof -
  let ?b = "\<lparr>b_orgId = demo_uuid, b_flockId = demo_uuid\<rparr>"
  let ?b' = "\<lparr>b_orgId = demo_uuid_upper, b_flockId = demo_uuid\<rparr>"
  have same: "aad ?b' = aad ?b" by (simp add: aad_def demo_uuid_ok)
  obtain ad where "aad ?b = Inr ad" by (simp add: aad_def demo_uuid_ok)
  then obtain v where v: "seal demo_crypto (replicate 12 CHR ''i'') ''s'' demo_ring ?b = Inr v"
    using seal_total by blast
  have o: "openSealed demo_crypto v demo_ring ?b = Inr ''s''"
    by (rule open_sealed [OF demo_crypto_ok(1) demo_ring_ok _ v])
      (use demo_ring_ok in \<open>simp_all add: ring_ok_def\<close>)
  then have o': "openSealed demo_crypto v demo_ring ?b' = Inr ''s''"
    by (simp add: openSealed_def same)
  from sealed_value_bound_to_row [OF demo_crypto_ok(1) demo_ring_ok o o'] have
    "lower demo_uuid = lower demo_uuid_upper \<or>
       (\<exists>k iv ad ad'. ad \<noteq> ad' \<and> gcm_enc demo_crypto k iv ad ''s'' = gcm_enc demo_crypto k iv ad' ''s'')"
    by (elim disjE) auto
  with o o' show ?thesis by blast
qed

end
