(* ===== verification/ConfigStore.thy ===== *)
theory ConfigStore
  imports ConfigCache Sealed
begin

text \<open>
  The config store of the data plane on the database (apps/data-plane/src/config/config-store.ts):
  which keys it resolves, what it resolves them to, and a paddock with its flock, fence and opened
  credential. The last section puts the cache in front of it.
\<close>

section \<open>What is resolved\<close>

record resolved_key =
  rk_keyId :: string
  rk_orgId :: string
  rk_status :: key_status
  rk_expiresAt :: "int option"
  rk_paddockSlugs :: "string list"
  rk_overrides :: js
  rk_oauthClientId :: "string option"

record resolved_flock =
  rf_baseUrl :: string
  rf_upstreamAuth :: "string option"
  rf_tlsTrust :: bool

record resolved_fence =
  rn_constraintJson :: js
  rn_rateLimit :: js
  rn_quota :: js

record resolved_paddock =
  rp_paddockId :: string
  rp_orgId :: string
  rp_slug :: string
  rp_name :: string
  rp_status :: paddock_status
  rp_breedId :: breed_id
  rp_flock :: resolved_flock
  rp_fence :: resolved_fence
  rp_upstreamAuthError :: "unseal_reason option"

section \<open>Keys\<close>

definition usable :: "int \<Rightarrow> key_row \<Rightarrow> bool" where
  "usable now r = (k_status r = ActiveKey \<and> (case k_expiresAt r of None \<Rightarrow> True | Some e \<Rightarrow> now < e))"

definition keyExpired :: "int option \<Rightarrow> int \<Rightarrow> bool" where
  "keyExpired expiresAt now = (case expiresAt of None \<Rightarrow> False | Some e \<Rightarrow> e \<le> now)"

definition linked_slugs :: "db \<Rightarrow> string \<Rightarrow> string list" where
  "linked_slugs d keyId =
     concat (map (\<lambda>l. map p_slug (sel (\<lambda>p. p_id p = kp_paddockId l) (paddocks d)))
       (sel (\<lambda>l. kp_keyId l = keyId) (key_paddocks d)))"

definition resolve :: "db \<Rightarrow> key_row option \<Rightarrow> resolved_key option" where
  "resolve d row =
     (case row of
        None \<Rightarrow> None
      | Some k \<Rightarrow> Some \<lparr>rk_keyId = k_id k, rk_orgId = k_orgId k, rk_status = k_status k,
          rk_expiresAt = k_expiresAt k, rk_paddockSlugs = linked_slugs d (k_id k),
          rk_overrides = k_overrides k, rk_oauthClientId = k_oauthClientId k\<rparr>)"

definition resolveKeyByHash :: "db \<Rightarrow> int \<Rightarrow> string \<Rightarrow> resolved_key option" where
  "resolveKeyByHash d now hash =
     resolve d (sel1 (\<lambda>k. k_hash k = hash \<and> k_kind k = LiveKey \<and> usable now k) (keys d))"

definition resolveKeyById :: "db \<Rightarrow> int \<Rightarrow> string \<Rightarrow> resolved_key option" where
  "resolveKeyById d now i =
     (if \<not> is_uuid i then None
      else resolve d (sel1 (\<lambda>k. k_id k = lower i \<and> k_kind k = OauthKey \<and> usable now k) (keys d)))"

section \<open>Paddocks\<close>

text \<open>The inner join with the flock and the left join with the fence.\<close>

fun left_join :: "'a list \<Rightarrow> 'a option list" where
  "left_join [] = [None]"
| "left_join xs = map Some xs"

definition paddock_join :: "db \<Rightarrow> (paddock_row \<times> flock_row \<times> fence_row option) list" where
  "paddock_join d = [(p, f, n). p \<leftarrow> paddocks d, f \<leftarrow> sel (\<lambda>f. f_id f = p_flockId p) (flocks d),
     n \<leftarrow> left_join (sel (\<lambda>n. n_paddockId n = p_id p) (fences d))]"

text \<open>A programming error of the binding is thrown; any other failure to open is resolved.\<close>

definition open_upstream :: "crypto \<Rightarrow> seal_keyring \<Rightarrow> flock_row \<Rightarrow> seal_error + (string option \<times> unseal_reason option)" where
  "open_upstream c ring f =
     (case f_upstreamAuthEnc f of
        None \<Rightarrow> Inr (None, None)
      | Some v \<Rightarrow>
          (case openSealed c v ring \<lparr>b_orgId = f_orgId f, b_flockId = f_id f\<rparr> of
             Inr p \<Rightarrow> Inr (Some p, None)
           | Inl (Unseal r) \<Rightarrow> Inr (None, Some r)
           | Inl e \<Rightarrow> Inl e))"

definition getPaddockBySlug :: "crypto \<Rightarrow> seal_keyring \<Rightarrow> db \<Rightarrow> string \<Rightarrow> seal_error + resolved_paddock option" where
  "getPaddockBySlug c ring d slug =
     (case sel1 (\<lambda>(p, f, n). p_slug p = slug) (paddock_join d) of
        None \<Rightarrow> Inr None
      | Some (p, f, n) \<Rightarrow>
          (case open_upstream c ring f of
             Inl e \<Rightarrow> Inl e
           | Inr (auth, err) \<Rightarrow> Inr (Some
               \<lparr>rp_paddockId = p_id p, rp_orgId = p_orgId p, rp_slug = p_slug p, rp_name = p_name p,
                rp_status = p_status p, rp_breedId = f_breed f,
                rp_flock = \<lparr>rf_baseUrl = f_baseUrl f, rf_upstreamAuth = auth, rf_tlsTrust = f_tlsTrust f\<rparr>,
                rp_fence = (case n of
                    None \<Rightarrow> \<lparr>rn_constraintJson = Obj [], rn_rateLimit = Null, rn_quota = Null\<rparr>
                  | Some n \<Rightarrow> \<lparr>rn_constraintJson = (if n_constraintJson n = Null then Obj [] else n_constraintJson n),
                      rn_rateLimit = n_rateLimit n, rn_quota = n_quota n\<rparr>),
                rp_upstreamAuthError = err\<rparr>)))"

section \<open>Lemmas\<close>

lemma usable_iff: "usable now r \<longleftrightarrow> k_status r = ActiveKey \<and> \<not> keyExpired (k_expiresAt r) now"
  by (auto simp: usable_def keyExpired_def split: option.split)

lemma resolveKeyByHash_Some:
  assumes "resolveKeyByHash d now hash = Some rk"
  obtains k where "k \<in> set (keys d)" and "k_hash k = hash" and "k_kind k = LiveKey" and "usable now k"
    and "rk_keyId rk = k_id k" and "rk_orgId rk = k_orgId k" and "rk_expiresAt rk = k_expiresAt k"
    and "rk_paddockSlugs rk = linked_slugs d (k_id k)"
proof -
  from assms obtain k where k: "sel1 (\<lambda>k. k_hash k = hash \<and> k_kind k = LiveKey \<and> usable now k) (keys d) = Some k"
    by (auto simp: resolveKeyByHash_def resolve_def split: option.split_asm)
  with sel1_Some [OF k] assms show thesis
    by (intro that [of k]) (auto simp: resolveKeyByHash_def resolve_def)
qed

lemma resolveKeyById_Some:
  assumes "resolveKeyById d now i = Some rk"
  obtains k where "k \<in> set (keys d)" and "k_id k = lower i" and "k_kind k = OauthKey" and "usable now k"
    and "rk_keyId rk = lower i" and "rk_orgId rk = k_orgId k" and "rk_expiresAt rk = k_expiresAt k"
    and "rk_paddockSlugs rk = linked_slugs d (lower i)" and "rk_oauthClientId rk = k_oauthClientId k"
proof -
  from assms obtain k where k: "sel1 (\<lambda>k. k_id k = lower i \<and> k_kind k = OauthKey \<and> usable now k) (keys d) = Some k"
    by (auto simp: resolveKeyById_def resolve_def split: option.split_asm if_split_asm)
  with sel1_Some [OF k] assms show thesis
    by (intro that [of k]) (auto simp: resolveKeyById_def resolve_def split: if_split_asm)
qed

lemma paddock_join_mem:
  "(p, f, n) \<in> set (paddock_join d) \<Longrightarrow> p \<in> set (paddocks d) \<and> f \<in> set (flocks d) \<and> f_id f = p_flockId p"
  by (auto simp: paddock_join_def)

text \<open>A credential is carried to the upstream only when it opened; a paddock whose credential did
  not open carries none and says why.\<close>

lemma getPaddock_auth:
  assumes "getPaddockBySlug c ring d slug = Inr (Some rp)"
  shows "rp_slug rp = slug \<and> (\<exists>f \<in> set (flocks d). rp_breedId rp = f_breed f \<and> rf_baseUrl (rp_flock rp) = f_baseUrl f \<and>
    (case f_upstreamAuthEnc f of
       None \<Rightarrow> rf_upstreamAuth (rp_flock rp) = None \<and> rp_upstreamAuthError rp = None
     | Some v \<Rightarrow>
         (case openSealed c v ring \<lparr>b_orgId = f_orgId f, b_flockId = f_id f\<rparr> of
            Inr p \<Rightarrow> rf_upstreamAuth (rp_flock rp) = Some p \<and> rp_upstreamAuthError rp = None
          | Inl e \<Rightarrow> rf_upstreamAuth (rp_flock rp) = None \<and> (\<exists>r. e = Unseal r \<and> rp_upstreamAuthError rp = Some r))))"
proof -
  from assms obtain p f n where row: "sel1 (\<lambda>(p, f, n). p_slug p = slug) (paddock_join d) = Some (p, f, n)"
    by (auto simp: getPaddockBySlug_def split: option.split_asm)
  from sel1_Some [OF row] have "p_slug p = slug" "f \<in> set (flocks d)" by (auto dest: paddock_join_mem)
  with row assms show ?thesis
    by (intro conjI bexI [of _ f])
      (auto simp: getPaddockBySlug_def open_upstream_def split: option.splits sum.splits seal_error.splits)
qed

section \<open>The cached store\<close>

text \<open>\<open>history t\<close> is the database at time \<open>t\<close>.\<close>

definition key_history :: "(int \<Rightarrow> db) \<Rightarrow> int \<Rightarrow> string \<Rightarrow> resolved_key option" where
  "key_history history t hash = resolveKeyByHash (history t) t hash"

definition key_id_history :: "(int \<Rightarrow> db) \<Rightarrow> int \<Rightarrow> string \<Rightarrow> resolved_key option" where
  "key_id_history history t i = resolveKeyById (history t) t i"

text \<open>
  A key the cached store serves was, within the time to live plus one query, a live key of the
  database with that hash, active and unexpired; with the caller's own expiry check it is still
  unexpired now. A revoked or unknown key is therefore refused at the latest that much later.
\<close>

theorem served_key_was_usable:
  assumes "cache_run (key_history history) maxEntries ttlMs lat cache_start n0 tr s n"
    and "0 < maxEntries" and "0 < ttlMs" and "0 \<le> lat"
    and "(t, Served i hash (Some rk)) \<in> set tr" and "\<not> keyExpired (rk_expiresAt rk) t"
  shows "\<exists>r \<le> t. t - r < ttlMs + lat \<and>
    (\<exists>k \<in> set (keys (history r)). k_hash k = hash \<and> k_kind k = LiveKey \<and> k_status k = ActiveKey \<and>
       k_id k = rk_keyId rk \<and> k_orgId k = rk_orgId rk \<and> \<not> keyExpired (k_expiresAt k) t)"
proof -
  have "\<forall>t i k v. (t, Served i k v) \<in> set tr \<longrightarrow>
      (\<exists>r. n0 \<le> r \<and> r \<le> t \<and> v = key_history history r k \<and> t - r < ttlMs + lat)"
    using run_sourced [OF assms(1) start_sourced order_refl assms(3,4)] by blast
  with assms(5) obtain r where "r \<le> t" "t - r < ttlMs + lat" "Some rk = key_history history r hash" by blast
  then have r: "r \<le> t" "t - r < ttlMs + lat" "resolveKeyByHash (history r) r hash = Some rk"
    by (simp_all add: key_history_def)
  from resolveKeyByHash_Some [OF r(3)] obtain k where "k \<in> set (keys (history r))" "k_hash k = hash"
    "k_kind k = LiveKey" "usable r k" "rk_keyId rk = k_id k" "rk_orgId rk = k_orgId k" "rk_expiresAt rk = k_expiresAt k" .
  with r assms(6) show ?thesis by (auto simp: usable_iff)
qed

definition demo_key :: key_row where
  "demo_key = \<lparr>k_id = ''k'', k_orgId = ''o'', k_name = ''n'', k_prefix = ''mm_live_'', k_hash = ''h'',
     k_status = ActiveKey, k_expiresAt = Some 100, k_overrides = Null, k_kind = LiveKey,
     k_grantId = None, k_oauthClientId = None, k_userId = None\<rparr>"

lemma demo_key_run:
  "\<exists>rk s. cache_run (key_history (\<lambda>t. empty_db\<lparr>keys := [demo_key]\<rparr>)) 10 30 5 cache_start 0
     [(0, Asked 0 ''h''), (1, Answered 0), (2, Served 0 ''h'' (Some rk))] s 2 \<and> rk_expiresAt rk = Some 100"
proof -
  let ?h = "key_history (\<lambda>t. empty_db\<lparr>keys := [demo_key]\<rparr>)"
  obtain rk where rk: "?h 1 ''h'' = Some rk" "rk_expiresAt rk = Some 100"
    by (simp add: key_history_def resolveKeyByHash_def resolve_def demo_key_def sel1_def usable_def)
  let ?s1 = "\<lparr>cc = [], waiting = [(0, ''h'', None)]\<rparr>" and ?s2 = "\<lparr>cc = [], waiting = [(0, ''h'', Some (Some rk, 1))]\<rparr>"
  have 1: "cache_step ?h 10 30 5 0 cache_start (Asked 0 ''h'') ?s1"
    using cache_step.miss [of 0 cache_start "''h''" 0 ?h 10 30 5] by (simp add: cached_def fresh_def cache_start_def)
  have 2: "cache_step ?h 10 30 5 1 ?s1 (Answered 0) ?s2"
    using cache_step.read [of ?s1 0 "''h''" ?h 10 30 5 1] by (simp add: rk)
  have 3: "\<exists>s. cache_step ?h 10 30 5 2 ?s2 (Served 0 ''h'' (Some rk)) s"
    using cache_step.store [of ?s2 0 "''h''" "Some rk" 1 2 5 ?h 10 30] by fastforce
  then obtain s where "cache_step ?h 10 30 5 2 ?s2 (Served 0 ''h'' (Some rk)) s" ..
  from cache_run.snoc [OF cache_run.snoc [OF run_one [OF 1] _ 2] _ this, of 0] rk show ?thesis by auto
qed

theorem served_key_was_usable_witness:
  "\<exists>r. 2 - r < 30 + (5 :: int) \<and> demo_key \<in> set (keys (empty_db\<lparr>keys := [demo_key]\<rparr>)) \<and> r \<le> 2 \<and>
     k_status demo_key = ActiveKey \<and> \<not> keyExpired (k_expiresAt demo_key) 2"
proof -
  obtain rk s where "cache_run (key_history (\<lambda>t. empty_db\<lparr>keys := [demo_key]\<rparr>)) 10 30 5 cache_start 0
     [(0, Asked 0 ''h''), (1, Answered 0), (2, Served 0 ''h'' (Some rk))] s 2" "rk_expiresAt rk = Some 100"
    using demo_key_run by blast
  from served_key_was_usable [OF this(1), of 2 0 "''h''" rk] this(2)
  obtain r :: int where "r \<le> 2" "2 - r < 35" "k_status demo_key = ActiveKey" "\<not> keyExpired (k_expiresAt demo_key) 2"
    by (auto simp: keyExpired_def)
  then show ?thesis by (intro exI [of _ r]) simp
qed

end
