(* ===== verification/Proxy.thy ===== *)
theory Proxy
  imports Ollama Comfy ConfigStore
begin

text \<open>
  Calls to the upstream (apps/data-plane/src/proxy/proxy.ts, meter/extract.ts): the request that is
  sent with the flock's credential, the answer that is relayed and the answer that is metered. The
  network is the argument \<open>net\<close> (\<open>None\<close>: a transport failure), \<open>JSON.parse\<close> the
  argument \<open>parse\<close>. A streamed body is the text it adds up to.
\<close>

section \<open>Messages\<close>

datatype http_body = NoBody | TextBody string | JsonBody js | FormBody string string

record http_req =
  hq_method :: string
  hq_url :: string
  hq_headers :: headers
  hq_body :: http_body

record http_resp =
  hr_status :: int
  hr_headers :: headers
  hr_body :: "string option"

record response =
  rs_status :: int
  rs_headers :: headers
  rs_body :: http_body

section \<open>Frames of a drained body (meter/extract.ts)\<close>

definition frame_text :: "string \<Rightarrow> string" where
  "frame_text line =
     (if starts_with line ''data:'' then
        (let rest = drop 5 line in case rest of CHR '' '' # t \<Rightarrow> t | _ \<Rightarrow> rest)
      else line)"

fun last_frame :: "(string \<Rightarrow> js option) \<Rightarrow> string list \<Rightarrow> js" where
  "last_frame parse [] = Undef"
| "last_frame parse (line # earlier) =
     (let t = frame_text line in
      if t = ''[DONE]'' then last_frame parse earlier
      else case parse t of Some v \<Rightarrow> v | None \<Rightarrow> last_frame parse earlier)"

definition try_parse :: "(string \<Rightarrow> js option) \<Rightarrow> string \<Rightarrow> js" where
  "try_parse parse s = (case parse s of Some v \<Rightarrow> v | None \<Rightarrow> Undef)"

definition extractTextFrames :: "(string \<Rightarrow> js option) \<Rightarrow> string \<Rightarrow> js \<times> js" where
  "extractTextFrames parse buffer =
     (let lines = filter (\<lambda>l. l \<noteq> []) (map trim (split_on (CHR 0x0A) buffer));
          finalFrame = last_frame parse (rev lines)
      in (or_else (try_parse parse buffer) finalFrame, finalFrame))"

section \<open>The request that is sent (proxy.ts)\<close>

definition strip_slash :: "string \<Rightarrow> string" where
  "strip_slash base = (if ends_with base ''/'' then butlast base else base)"

definition set_headers :: "headers \<Rightarrow> headers \<Rightarrow> headers" where
  "set_headers h h' = fold (\<lambda>(k, v) acc. assoc_set acc k v) h' h"

definition proxy_request :: "resolved_flock \<Rightarrow> rewritten \<Rightarrow> http_req" where
  "proxy_request fl rq =
     (let hs = set_headers (rw_headers rq) (upstreamAuthHeaders (rf_upstreamAuth fl));
          sends = (rw_method rq \<noteq> ''GET'' \<and> rw_method rq \<noteq> ''HEAD'' \<and> rw_body rq \<noteq> Undef);
          typed = (case map_of hs ''content-type'' of None \<Rightarrow> False | Some t \<Rightarrow> t \<noteq> [])
      in \<lparr>hq_method = rw_method rq, hq_url = strip_slash (rf_baseUrl fl) @ rw_path rq,
          hq_headers = (if sends \<and> \<not> is_str (rw_body rq) \<and> \<not> typed then assoc_set hs ''content-type'' ''application/json'' else hs),
          hq_body = (if \<not> sends then NoBody
             else case rw_body rq of Str s \<Rightarrow> TextBody s | v \<Rightarrow> JsonBody v)\<rparr>)"

definition UNSAFE_CLIENT_HEADERS :: "string list" where
  "UNSAFE_CLIENT_HEADERS = [''content-encoding'', ''content-length'', ''transfer-encoding'', ''connection'',
     ''keep-alive'', ''proxy-authenticate'', ''proxy-authorization'', ''te'', ''trailer'', ''upgrade'']"

definition clientHeaders :: "headers \<Rightarrow> headers" where
  "clientHeaders h = filter (\<lambda>(k, v). lower k \<notin> set UNSAFE_CLIENT_HEADERS) h"

definition readOutcome :: "(string \<Rightarrow> js option) \<Rightarrow> http_resp \<Rightarrow> upstream_result" where
  "readOutcome parse r =
     (case hr_body r of
        None \<Rightarrow> \<lparr>up_status = hr_status r, up_headers = hr_headers r,
          up_body = try_parse parse [], up_finalFrame = try_parse parse []\<rparr>
      | Some buffer \<Rightarrow>
          (let (body, finalFrame) = extractTextFrames parse buffer in
           \<lparr>up_status = hr_status r, up_headers = hr_headers r, up_body = body, up_finalFrame = finalFrame\<rparr>))"

definition relayed :: "http_resp \<Rightarrow> response" where
  "relayed r = \<lparr>rs_status = hr_status r, rs_headers = clientHeaders (hr_headers r),
     rs_body = (case hr_body r of None \<Rightarrow> TextBody [] | Some t \<Rightarrow> TextBody t)\<rparr>"

definition proxyToUpstream :: "(string \<Rightarrow> js option) \<Rightarrow> (http_req \<Rightarrow> http_resp option) \<Rightarrow> resolved_flock \<Rightarrow> rewritten \<Rightarrow>
    (response \<times> upstream_result) option" where
  "proxyToUpstream parse net fl rq =
     map_option (\<lambda>r. (relayed r, readOutcome parse r)) (net (proxy_request fl rq))"

text \<open>\<open>rawToUpstream\<close> with the caller's headers, and the upload of one image.\<close>

definition raw_request :: "resolved_flock \<Rightarrow> string \<Rightarrow> string \<Rightarrow> headers \<Rightarrow> http_body \<Rightarrow> http_req" where
  "raw_request fl mthd path hs body =
     \<lparr>hq_method = mthd, hq_url = strip_slash (rf_baseUrl fl) @ path,
      hq_headers = set_headers hs (upstreamAuthHeaders (rf_upstreamAuth fl)), hq_body = body\<rparr>"

definition resp_ok :: "http_resp \<Rightarrow> bool" where
  "resp_ok r = (200 \<le> hr_status r \<and> hr_status r \<le> 299)"

definition upload_request :: "resolved_flock \<Rightarrow> string \<Rightarrow> string \<Rightarrow> http_req" where
  "upload_request fl name base64 = raw_request fl ''POST'' ''/upload/image'' [] (FormBody name base64)"

definition uploadImage :: "(string \<Rightarrow> js option) \<Rightarrow> (http_req \<Rightarrow> http_resp option) \<Rightarrow> resolved_flock \<Rightarrow> string \<Rightarrow> string \<Rightarrow> string option" where
  "uploadImage parse net fl name base64 =
     (case net (upload_request fl name base64) of
        None \<Rightarrow> None
      | Some r \<Rightarrow>
          if \<not> resp_ok r then None
          else (case parse (case hr_body r of None \<Rightarrow> [] | Some t \<Rightarrow> t) of
              None \<Rightarrow> None
            | Some json \<Rightarrow>
                (case getp json ''name'' of Str f \<Rightarrow> if f = [] then None else Some f | _ \<Rightarrow> None)))"

section \<open>Lemmas\<close>

text \<open>A call carries nothing but a content type and the flock's own credential.\<close>

definition flock_call :: "resolved_flock \<Rightarrow> headers \<Rightarrow> http_req \<Rightarrow> bool" where
  "flock_call fl hs c =
     (prefix (strip_slash (rf_baseUrl fl)) (hq_url c) \<and>
      (\<forall>k v. map_of (hq_headers c) k = Some v \<longrightarrow>
         map_of (upstreamAuthHeaders (rf_upstreamAuth fl)) k = Some v \<or>
         map_of hs k = Some v \<or> (k = ''content-type'' \<and> v = ''application/json'')))"

lemma map_of_set_headers:
  "map_of (set_headers h h') k = Some v \<Longrightarrow> map_of h k = Some v \<or> (k, v) \<in> set h'"
proof (induction h' arbitrary: h)
  case (Cons kv h')
  obtain k' v' where kv: "kv = (k', v')" by fastforce
  with Cons.prems have "map_of (set_headers (assoc_set h k' v') h') k = Some v" by (simp add: set_headers_def)
  from Cons.IH [OF this] kv show ?case by (auto split: if_split_asm)
qed (simp add: set_headers_def)

lemma upstreamAuthHeaders_map: "(k, v) \<in> set (upstreamAuthHeaders a) \<Longrightarrow> map_of (upstreamAuthHeaders a) k = Some v"
  by (auto simp: upstreamAuthHeaders_def split: option.split_asm if_split_asm)

lemma proxy_request_call: "flock_call fl (rw_headers rq) (proxy_request fl rq)"
  unfolding flock_call_def proxy_request_def Let_def
  by (auto dest!: map_of_set_headers upstreamAuthHeaders_map split: if_split_asm)

lemma raw_request_call: "flock_call fl hs (raw_request fl m p hs b)"
  unfolding flock_call_def raw_request_def
  by (auto dest!: map_of_set_headers upstreamAuthHeaders_map)

lemma strip_bearer_no_scheme:
  "upstreamAuthHeaders auth = [(''authorization'', h)] \<Longrightarrow> \<exists>t. h = ''Bearer '' @ t \<and> t \<noteq> []"
  by (auto simp: upstreamAuthHeaders_def split: option.split_asm if_split_asm)

text \<open>The last JSON line of a stream is the final frame, whatever follows it.\<close>

lemma last_frame_skips:
  "\<forall>l \<in> set after. frame_text l = ''[DONE]'' \<or> parse (frame_text l) = None \<Longrightarrow>
   frame_text l \<noteq> ''[DONE]'' \<Longrightarrow> parse (frame_text l) = Some v \<Longrightarrow> last_frame parse (after @ l # before) = v"
  by (induction after) (auto simp: Let_def)

lemma clientHeaders_safe: "(k, v) \<in> set (clientHeaders h) \<Longrightarrow> lower k \<notin> set UNSAFE_CLIENT_HEADERS"
  by (auto simp: clientHeaders_def)

end
