(* ===== verification/RateLimit.thy ===== *)
theory RateLimit
  imports Schema "HOL-Library.Product_Lexorder" "HOL-Library.Multiset"
begin

text \<open>
  The sliding-window rate limiters of the data plane (apps/data-plane/src/ratelimit): the
  in-memory one and the Redis script. The interface \<open>sliding_limiter\<close> states what the
  request pipeline relies on; both implementations are interpreted in it, so the window bound
  is proved once. Times are the milliseconds of \<open>Date.now()\<close>.
\<close>

section \<open>The specification: a log of admitted times\<close>

text \<open>A check at \<open>t\<close> is admitted when fewer than \<open>cap\<close> checks were admitted in
  the window \<open>(t - W, t]\<close> before it.\<close>

fun spec_log :: "int \<Rightarrow> int \<Rightarrow> int list \<Rightarrow> int list \<Rightarrow> (int \<times> bool) list" where
  "spec_log W cap hist [] = []"
| "spec_log W cap hist (t # ts) =
     (let a = int (length (filter (\<lambda>h. t - W < h) hist)) < cap in
      (t, a) # spec_log W cap (if a then hist @ [t] else hist) ts)"

text \<open>The log of a limiter given by its check, over a list of inputs.\<close>

fun limiter_log :: "('s \<Rightarrow> 'i \<Rightarrow> bool \<times> 's) \<Rightarrow> ('i \<Rightarrow> int) \<Rightarrow> 's \<Rightarrow> 'i list \<Rightarrow> (int \<times> bool) list" where
  "limiter_log check tm s [] = []"
| "limiter_log check tm s (i # is) =
     (tm i, fst (check s i)) # limiter_log check tm (snd (check s i)) is"

fun valid_inputs :: "('s \<Rightarrow> 'i \<Rightarrow> bool \<times> 's) \<Rightarrow> ('i \<Rightarrow> int) \<Rightarrow> ('s \<Rightarrow> 'i \<Rightarrow> bool) \<Rightarrow> 's \<Rightarrow> int \<Rightarrow> 'i list \<Rightarrow> bool" where
  "valid_inputs check tm ok s n [] = True"
| "valid_inputs check tm ok s n (i # is) =
     (n \<le> tm i \<and> ok s i \<and> valid_inputs check tm ok (snd (check s i)) (tm i) is)"

definition admitted_in :: "int \<Rightarrow> int \<Rightarrow> (int \<times> bool) list \<Rightarrow> nat" where
  "admitted_in W T lg = length (filter (\<lambda>(t, a). a \<and> T - W < t \<and> t \<le> T) lg)"

lemma spec_log_bound:
  assumes "sorted (hist @ ts)"
    and "\<And>T. int (length (filter (\<lambda>h. T - W < h \<and> h \<le> T) hist)) \<le> cap"
  shows "int (length (filter (\<lambda>h. T - W < h \<and> h \<le> T) hist)) + int (admitted_in W T (spec_log W cap hist ts)) \<le> cap"
  using assms
proof (induction ts arbitrary: hist)
  case Nil
  then show ?case by (simp add: admitted_in_def)
next
  case (Cons t ts)
  let ?n = "\<lambda>T h. length (filter (\<lambda>h. T - W < h \<and> h \<le> T) h)"
  show ?case
  proof (cases "int (length (filter (\<lambda>h. t - W < h) hist)) < cap")
    case False
    with Cons.prems Cons.IH [of hist] show ?thesis by (simp add: admitted_in_def sorted_append)
  next
    case True
    have bound: "int (?n U (hist @ [t])) \<le> cap" for U
    proof (cases "t \<le> U")
      case False
      with Cons.prems(2) [of U] show ?thesis by simp
    next
      case tU: True
      have "?n U hist \<le> length (filter (\<lambda>h. t - W < h) hist)"
        using tU by (induction hist) auto
      with True show ?thesis by simp
    qed
    have "sorted ((hist @ [t]) @ ts)" using Cons.prems(1) by simp
    from Cons.IH [OF this bound] True show ?thesis
      by (auto simp: admitted_in_def split: if_split_asm)
  qed
qed

section \<open>The interface\<close>

text \<open>
  \<open>view s n\<close> is what the limiter would count at time \<open>n\<close>: the admitted times in the
  window. \<open>inv s n\<close> holds of a state last used at time \<open>n\<close>; \<open>ok s i\<close> is what an
  input needs beyond a clock that does not run backwards.
\<close>

locale sliding_limiter =
  fixes check :: "'s \<Rightarrow> 'i \<Rightarrow> bool \<times> 's"
    and tm :: "'i \<Rightarrow> int"
    and ok :: "'s \<Rightarrow> 'i \<Rightarrow> bool"
    and inv :: "'s \<Rightarrow> int \<Rightarrow> bool"
    and view :: "'s \<Rightarrow> int \<Rightarrow> int list"
    and start :: 's
    and W :: int
    and cap :: int
  assumes inv_start: "inv start n"
    and view_start: "view start n = []"
    and inv_check: "inv s n \<Longrightarrow> n \<le> tm i \<Longrightarrow> ok s i \<Longrightarrow> inv (snd (check s i)) (tm i)"
    and check_admits: "inv s n \<Longrightarrow> n \<le> tm i \<Longrightarrow> ok s i \<Longrightarrow>
      fst (check s i) \<longleftrightarrow> int (length (view s (tm i))) < cap"
    and view_check: "inv s n \<Longrightarrow> n \<le> tm i \<Longrightarrow> ok s i \<Longrightarrow> tm i \<le> m \<Longrightarrow>
      view (snd (check s i)) m =
        filter (\<lambda>h. m - W < h) (view s (tm i) @ (if fst (check s i) then [tm i] else []))"
begin

lemma log_is_spec_from:
  assumes "inv s n" and "valid_inputs check tm ok s n is"
    and "\<And>m. n \<le> m \<Longrightarrow> view s m = filter (\<lambda>h. m - W < h) hist"
  shows "limiter_log check tm s is = spec_log W cap hist (map tm is)"
  using assms
proof (induction "is" arbitrary: s n hist)
  case (Cons i "is")
  from Cons.prems(2) have i: "n \<le> tm i" "ok s i"
    and rest: "valid_inputs check tm ok (snd (check s i)) (tm i) is" by auto
  have now: "view s (tm i) = filter (\<lambda>h. tm i - W < h) hist" by (rule Cons.prems(3) [OF i(1)])
  note a = check_admits [OF Cons.prems(1) i]
  let ?hist = "if fst (check s i) then hist @ [tm i] else hist"
  have "view (snd (check s i)) m = filter (\<lambda>h. m - W < h) ?hist" if "tm i \<le> m" for m
  proof -
    have "(tm i - W < h \<and> m - W < h) = (m - W < h)" for h using that by auto
    then show ?thesis
      unfolding view_check [OF Cons.prems(1) i that] now by simp
  qed
  from Cons.IH [OF inv_check [OF Cons.prems(1) i] rest this] show ?case
    by (simp add: a now Let_def)
qed simp

lemma log_is_spec:
  "valid_inputs check tm ok start n is \<Longrightarrow>
   limiter_log check tm start is = spec_log W cap [] (map tm is)"
  by (rule log_is_spec_from [OF inv_start]) (simp_all add: view_start)

lemma sorted_inputs: "valid_inputs check tm ok s n is \<Longrightarrow> sorted (n # map tm is)"
proof (induction "is" arbitrary: s n)
  case (Cons i "is")
  then have "sorted (tm i # map tm is)" by auto
  with Cons.prems show ?case by (auto intro: order_trans)
qed simp

lemma window_bound:
  assumes "0 \<le> cap" and "valid_inputs check tm ok start n is"
  shows "int (admitted_in W T (limiter_log check tm start is)) \<le> cap"
proof -
  have "sorted (map tm is)" using sorted_inputs [OF assms(2)] by simp
  with spec_log_bound [of "[]" "map tm is" W cap T] assms show ?thesis
    by (simp add: log_is_spec)
qed

end

section \<open>InMemoryRateLimiter\<close>

record rl_result =
  allowed :: bool
  retryAfterSec :: jnum

type_synonym mem_limiter = "string \<rightharpoonup> int list"

text \<open>\<open>Math.ceil(x / 1000)\<close> for an integer \<open>x\<close>\<close>

definition ceil_sec :: "int \<Rightarrow> int" where
  "ceil_sec x = - ((- x) div 1000)"

text \<open>
  \<open>check\<close>. With \<open>max = 0\<close> and no recent hit, \<open>recent[0]\<close> is undefined and
  \<open>Math.max(1, NaN)\<close> is NaN.
\<close>

definition mem_check :: "int \<Rightarrow> string \<Rightarrow> rate_limit \<Rightarrow> mem_limiter \<Rightarrow> rl_result \<times> mem_limiter" where
  "mem_check now bucketKey limit hits =
     (let windowMs = windowSec limit * 1000;
          cutoff = now - windowMs;
          recent = filter (\<lambda>t. cutoff < t) (case hits bucketKey of None \<Rightarrow> [] | Some ts \<Rightarrow> ts)
      in if int (length recent) < rl_max limit
         then (\<lparr>allowed = True, retryAfterSec = Fin 0\<rparr>, hits(bucketKey \<mapsto> recent @ [now]))
         else (\<lparr>allowed = False, retryAfterSec =
                 (case recent of
                    [] \<Rightarrow> NaN
                  | oldest # _ \<Rightarrow> Fin (of_int (max 1 (ceil_sec (oldest + windowMs - now)))))\<rparr>,
               hits(bucketKey \<mapsto> recent)))"

section \<open>RedisRateLimiter\<close>

text \<open>A sorted set: pairs of score and member, ordered by score and then member, with an
  optional expiry of the key.\<close>

record zkey =
  zmembers :: "(int \<times> string) list"
  expireAt :: "int option"

type_synonym redis = "string \<rightharpoonup> zkey"

definition z_live :: "redis \<Rightarrow> int \<Rightarrow> string \<Rightarrow> zkey" where
  "z_live r now k =
     (case r k of
        None \<Rightarrow> \<lparr>zmembers = [], expireAt = None\<rparr>
      | Some z \<Rightarrow>
          (case expireAt z of
             Some e \<Rightarrow> if e \<le> now then \<lparr>zmembers = [], expireAt = None\<rparr> else z
           | None \<Rightarrow> z))"

definition zremrangebyscore :: "int \<Rightarrow> int \<Rightarrow> (int \<times> string) list \<Rightarrow> (int \<times> string) list" where
  "zremrangebyscore lo hi zs = filter (\<lambda>(s, _). \<not> (lo \<le> s \<and> s \<le> hi)) zs"

definition zadd :: "int \<Rightarrow> string \<Rightarrow> (int \<times> string) list \<Rightarrow> (int \<times> string) list" where
  "zadd score m zs = insort (score, m) (filter (\<lambda>(_, m'). m' \<noteq> m) zs)"

text \<open>Redis removes a key whose set is empty, with its expiry.\<close>

definition z_store :: "redis \<Rightarrow> string \<Rightarrow> zkey \<Rightarrow> redis" where
  "z_store r k z = (if zmembers z = [] then r(k := None) else r(k \<mapsto> z))"

definition redis_script :: "int \<Rightarrow> int \<Rightarrow> int \<Rightarrow> string \<Rightarrow> string \<Rightarrow> redis \<Rightarrow> (bool \<times> int) \<times> redis" where
  "redis_script now windowMs mx member k r =
     (let z = z_live r now k;
          zs = zremrangebyscore 0 (now - windowMs) (zmembers z)
      in if int (length zs) < mx
         then ((True, 0), z_store r k \<lparr>zmembers = zadd now member zs, expireAt = Some (now + windowMs)\<rparr>)
         else let retryMs = (case zs of [] \<Rightarrow> windowMs | (oldest, _) # _ \<Rightarrow> oldest + windowMs - now);
                  retrySec = ceil_sec retryMs
              in ((False, if retrySec < 1 then 1 else retrySec), z_store r k (z\<lparr>zmembers := zs\<rparr>)))"

definition redis_check :: "int \<Rightarrow> string \<Rightarrow> string \<Rightarrow> rate_limit \<Rightarrow> redis \<Rightarrow> rl_result \<times> redis" where
  "redis_check now uuid bucketKey limit r =
     (let (res, r') = redis_script now (windowSec limit * 1000) (rl_max limit) uuid (''rl:'' @ bucketKey) r
      in (\<lparr>allowed = fst res, retryAfterSec = Fin (of_int (snd res))\<rparr>, r'))"

section \<open>Both limiters implement the interface\<close>

definition mem_bucket :: "string \<Rightarrow> rate_limit \<Rightarrow> mem_limiter \<Rightarrow> int \<Rightarrow> bool \<times> mem_limiter" where
  "mem_bucket k limit s now = (let (res, s') = mem_check now k limit s in (allowed res, s'))"

definition mem_view :: "string \<Rightarrow> int \<Rightarrow> mem_limiter \<Rightarrow> int \<Rightarrow> int list" where
  "mem_view k W s n = filter (\<lambda>t. n - W < t) (case s k of None \<Rightarrow> [] | Some ts \<Rightarrow> ts)"

interpretation mem_lim: sliding_limiter "mem_bucket k limit" "\<lambda>now. now" "\<lambda>s i. True" "\<lambda>s n. True"
  "mem_view k (windowSec limit * 1000)" Map.empty "windowSec limit * 1000" "rl_max limit"
  for k limit
  by unfold_locales (auto simp: mem_view_def mem_bucket_def mem_check_def Let_def)

definition redis_bucket :: "string \<Rightarrow> rate_limit \<Rightarrow> redis \<Rightarrow> int \<times> string \<Rightarrow> bool \<times> redis" where
  "redis_bucket k limit s i = (let (res, s') = redis_check (fst i) (snd i) k limit s in (allowed res, s'))"

definition redis_view :: "string \<Rightarrow> int \<Rightarrow> redis \<Rightarrow> int \<Rightarrow> int list" where
  "redis_view k W s n = filter (\<lambda>t. n - W < t) (map fst (zmembers (z_live s n (''rl:'' @ k))))"

text \<open>The member is a fresh \<open>randomUUID()\<close>, and the clock is past the epoch.\<close>

definition redis_ok :: "string \<Rightarrow> redis \<Rightarrow> int \<times> string \<Rightarrow> bool" where
  "redis_ok k s i =
     (0 \<le> fst i \<and>
      (case s (''rl:'' @ k) of None \<Rightarrow> True | Some z \<Rightarrow> snd i \<notin> snd ` set (zmembers z)))"

definition redis_inv :: "string \<Rightarrow> int \<Rightarrow> redis \<Rightarrow> int \<Rightarrow> bool" where
  "redis_inv k W s n =
     (case s (''rl:'' @ k) of
        None \<Rightarrow> True
      | Some z \<Rightarrow> sorted (zmembers z) \<and>
          (\<exists>e. expireAt z = Some e \<and> (\<forall>(t, m) \<in> set (zmembers z). 0 \<le> t \<and> t \<le> n \<and> t + W \<le> e)))"

lemma sorted_map_fst: "sorted zs \<Longrightarrow> sorted (map fst (zs :: (int \<times> string) list))"
  by (induction zs) (auto simp: less_eq_prod_def)

lemma map_fst_insort:
  fixes zs :: "(int \<times> string) list"
  assumes "sorted zs" and "\<forall>(t, m) \<in> set zs. t \<le> a"
  shows "map fst (insort (a, u) zs) = map fst zs @ [a :: int]"
proof -
  have "mset (map fst (insort (a, u) zs)) = mset (map fst zs @ [a])" by simp
  moreover have "sorted (map fst (insort (a, u) zs))"
    by (intro sorted_map_fst) (simp add: sorted_insort assms(1))
  moreover have "sorted (map fst zs @ [a])"
    using assms sorted_map_fst by (auto simp: sorted_append)
  ultimately show ?thesis by (metis properties_for_sort sorted_sort_id)
qed

lemma redis_view_live:
  assumes "redis_inv k W s n" and "n \<le> m"
  shows "redis_view k W s m =
    filter (\<lambda>t. m - W < t) (case s (''rl:'' @ k) of None \<Rightarrow> [] | Some z \<Rightarrow> map fst (zmembers z))"
proof (cases "s (''rl:'' @ k)")
  case (Some z)
  with assms(1) obtain e where e: "expireAt z = Some e"
    and le: "\<forall>(t, u) \<in> set (zmembers z). t + W \<le> e" by (auto simp: redis_inv_def)
  show ?thesis
  proof (cases "e \<le> m")
    case True
    with le have "filter (\<lambda>t. m - W < t) (map fst (zmembers z)) = []"
      by (auto simp: filter_empty_conv)
    with True Some e show ?thesis by (simp add: redis_view_def z_live_def)
  qed (use Some e in \<open>simp add: redis_view_def z_live_def\<close>)
qed (simp add: redis_view_def z_live_def)

definition z_kept :: "string \<Rightarrow> int \<Rightarrow> redis \<Rightarrow> int \<Rightarrow> (int \<times> string) list" where
  "z_kept k W s m = zremrangebyscore 0 (m - W) (zmembers (z_live s m (''rl:'' @ k)))"

lemma z_live_subset:
  "s key = Some z \<Longrightarrow> zmembers (z_live s m key) = zmembers z \<or> zmembers (z_live s m key) = []"
  "s key = None \<Longrightarrow> zmembers (z_live s m key) = []"
  by (auto simp: z_live_def split: option.splits)

lemma z_kept_facts:
  assumes "redis_inv k W s n" and "n \<le> m"
  shows "map fst (z_kept k W s m) = redis_view k W s m" and "sorted (z_kept k W s m)"
    and "(t, u) \<in> set (z_kept k W s m) \<Longrightarrow> 0 \<le> t \<and> t \<le> m"
    and "redis_ok k s (m, u) \<Longrightarrow> u \<notin> snd ` set (z_kept k W s m)"
proof -
  let ?zs = "zmembers (z_live s m (''rl:'' @ k))"
  have wf: "sorted ?zs \<and> (\<forall>(t, u) \<in> set ?zs. 0 \<le> t \<and> t \<le> m) \<and>
      (redis_ok k s (m, u) \<longrightarrow> u \<notin> snd ` set ?zs)" for u
  proof (cases "s (''rl:'' @ k)")
    case (Some z)
    with assms(1) have z: "sorted (zmembers z)" "\<forall>(t, u) \<in> set (zmembers z). 0 \<le> t \<and> t \<le> n"
      by (auto simp: redis_inv_def)
    from z(2) assms(2) have "\<forall>(t, u) \<in> set (zmembers z). 0 \<le> t \<and> t \<le> m" by force
    moreover have "redis_ok k s (m, u) \<longrightarrow> u \<notin> snd ` set (zmembers z)"
      using Some by (simp add: redis_ok_def)
    ultimately show ?thesis using z(1) z_live_subset(1) [where s = s and key = "''rl:'' @ k", OF Some, of m]
      by (elim disjE) simp_all
  qed (simp add: z_live_subset)
  show "sorted (z_kept k W s m)" using wf by (auto simp: z_kept_def zremrangebyscore_def sorted_wrt_filter)
  show "(t, u) \<in> set (z_kept k W s m) \<Longrightarrow> 0 \<le> t \<and> t \<le> m"
    using wf by (auto simp: z_kept_def zremrangebyscore_def)
  show "redis_ok k s (m, u) \<Longrightarrow> u \<notin> snd ` set (z_kept k W s m)"
    using wf [of u] by (auto simp: z_kept_def zremrangebyscore_def)
  have "map fst (filter (\<lambda>(t, _). \<not> (0 \<le> t \<and> t \<le> m - W)) zs) = filter (\<lambda>t. m - W < t) (map fst zs)"
    if "\<forall>(t, u) \<in> set zs. 0 \<le> t" for zs :: "(int \<times> string) list"
    using that by (induction zs) auto
  with wf show "map fst (z_kept k W s m) = redis_view k W s m"
    by (fastforce simp: z_kept_def zremrangebyscore_def redis_view_def)
qed

lemma redis_bucket_eq:
  "redis_bucket k limit s i =
     (let zs = z_kept k (windowSec limit * 1000) s (fst i) in
      if int (length zs) < rl_max limit
      then (True, z_store s (''rl:'' @ k) \<lparr>zmembers = zadd (fst i) (snd i) zs,
              expireAt = Some (fst i + windowSec limit * 1000)\<rparr>)
      else (False, z_store s (''rl:'' @ k) ((z_live s (fst i) (''rl:'' @ k))\<lparr>zmembers := zs\<rparr>)))"
  by (simp add: redis_bucket_def redis_check_def redis_script_def z_kept_def Let_def)

lemma redis_bucket_first:
  "0 < rl_max limit \<Longrightarrow> snd (redis_bucket k limit Map.empty i) =
     [''rl:'' @ k \<mapsto> \<lparr>zmembers = [i], expireAt = Some (fst i + windowSec limit * 1000)\<rparr>]"
  by (simp add: redis_bucket_eq z_kept_def z_live_def z_store_def zadd_def zremrangebyscore_def)

lemma redis_bucket_admits:
  assumes "redis_inv k W s n" and "n \<le> fst i" and "W = windowSec limit * 1000"
  shows "fst (redis_bucket k limit s i) \<longleftrightarrow> int (length (redis_view k W s (fst i))) < rl_max limit"
proof -
  have "length (z_kept k W s (fst i)) = length (redis_view k W s (fst i))"
    by (metis z_kept_facts(1) [OF assms(1,2)] length_map)
  then show ?thesis by (simp add: redis_bucket_eq Let_def assms(3))
qed

lemma z_store_members:
  "(case z_store s key z key of None \<Rightarrow> [] | Some z' \<Rightarrow> map fst (zmembers z')) = map fst (zmembers z)"
  by (simp add: z_store_def)

lemma zadd_fresh: "u \<notin> snd ` set zs \<Longrightarrow> zadd t u zs = insort (t, u) zs"
proof -
  assume "u \<notin> snd ` set zs"
  then have "filter (\<lambda>(_, m'). m' \<noteq> u) zs = zs" by (force simp: filter_id_conv)
  then show ?thesis by (simp add: zadd_def)
qed

lemma redis_bucket_stored:
  assumes "redis_inv k W s n" and "n \<le> fst i" and "redis_ok k s i" and "W = windowSec limit * 1000"
  shows "(case snd (redis_bucket k limit s i) (''rl:'' @ k) of None \<Rightarrow> [] | Some z \<Rightarrow> map fst (zmembers z)) =
    redis_view k W s (fst i) @ (if fst (redis_bucket k limit s i) then [fst i] else [])"
proof -
  let ?zs = "z_kept k W s (fst i)"
  note f = z_kept_facts [OF assms(1,2)]
  have "zadd (fst i) (snd i) ?zs = insort (fst i, snd i) ?zs"
    using f(4) [of "snd i"] assms(3) by (intro zadd_fresh) simp
  then have "map fst (zadd (fst i) (snd i) ?zs) = map fst ?zs @ [fst i]"
    using f(2,3) by (simp only:) (rule map_fst_insort, auto)
  then show ?thesis using f(1) by (simp add: redis_bucket_eq Let_def z_store_members assms(4))
qed

lemma redis_bucket_inv:
  assumes "redis_inv k W s n" and "n \<le> fst i" and "redis_ok k s i" and "W = windowSec limit * 1000"
  shows "redis_inv k W (snd (redis_bucket k limit s i)) (fst i)"
proof (cases "int (length (z_kept k W s (fst i))) < rl_max limit")
  case True
  let ?zs = "z_kept k W s (fst i)"
  note f = z_kept_facts [OF assms(1,2)]
  have "zadd (fst i) (snd i) ?zs = insort (fst i, snd i) ?zs"
    using f(4) [of "snd i"] assms(3) by (intro zadd_fresh) simp
  moreover have "0 \<le> fst i" using assms(3) by (simp add: redis_ok_def)
  ultimately show ?thesis using True f(2,3) assms(4)
    by (auto simp: redis_bucket_eq Let_def z_store_def redis_inv_def sorted_insort set_insort_key)
next
  case False
  let ?zs = "z_kept k W s (fst i)"
  show ?thesis
  proof (cases "?zs = []")
    case True
    with False assms(4) show ?thesis
      by (simp add: redis_bucket_eq Let_def z_store_def redis_inv_def)
  next
    case ne: False
    note f = z_kept_facts [OF assms(1,2)]
    from ne obtain z where z: "s (''rl:'' @ k) = Some z"
      by (cases "s (''rl:'' @ k)") (auto simp: z_kept_def zremrangebyscore_def z_live_subset)
    with assms(1) obtain e where e: "expireAt z = Some e" "\<forall>(t, u) \<in> set (zmembers z). t + W \<le> e"
      by (auto simp: redis_inv_def)
    have live: "z_live s (fst i) (''rl:'' @ k) = z"
      using ne z e(1) by (auto simp: z_kept_def z_live_def zremrangebyscore_def split: if_splits)
    then have "set ?zs \<subseteq> set (zmembers z)" by (auto simp: z_kept_def zremrangebyscore_def)
    with e f(2,3) False ne assms(4) live show ?thesis
      by (auto simp: redis_bucket_eq Let_def z_store_def redis_inv_def)
  qed
qed

interpretation redis_lim: sliding_limiter "redis_bucket k limit" fst "redis_ok k"
  "redis_inv k (windowSec limit * 1000)" "redis_view k (windowSec limit * 1000)" Map.empty
  "windowSec limit * 1000" "rl_max limit"
  for k limit
proof unfold_locales
  fix s n i m
  assume inv: "redis_inv k (windowSec limit * 1000) s n" and i: "n \<le> fst i" "redis_ok k s i"
  show "redis_inv k (windowSec limit * 1000) (snd (redis_bucket k limit s i)) (fst i)"
    by (rule redis_bucket_inv [OF inv i refl])
  show "fst (redis_bucket k limit s i) \<longleftrightarrow>
      int (length (redis_view k (windowSec limit * 1000) s (fst i))) < rl_max limit"
    by (rule redis_bucket_admits [OF inv i(1) refl])
  assume m: "fst i \<le> m"
  show "redis_view k (windowSec limit * 1000) (snd (redis_bucket k limit s i)) m =
      filter (\<lambda>h. m - windowSec limit * 1000 < h)
        (redis_view k (windowSec limit * 1000) s (fst i) @ (if fst (redis_bucket k limit s i) then [fst i] else []))"
    by (simp only: redis_view_live [OF redis_bucket_inv [OF inv i refl] m] redis_bucket_stored [OF inv i refl])
qed (auto simp: redis_inv_def redis_view_def z_live_def)

section \<open>Properties\<close>

text \<open>
  C17. In-memory limiter, sliding window: over any sequence of checks of one bucket under one
  limit, by a clock that never runs backwards, at most \<open>max\<close> checks are admitted in every
  window of \<open>windowSec\<close> seconds, wherever the window ends.
\<close>

theorem mem_limiter_window_bound:
  assumes "0 \<le> rl_max limit" and "sorted nows"
  shows "int (admitted_in (windowSec limit * 1000) T
           (limiter_log (mem_bucket k limit) (\<lambda>now. now) Map.empty nows)) \<le> rl_max limit"
proof -
  have "valid_inputs (mem_bucket k limit) (\<lambda>now. now) (\<lambda>s i. True) s n nows"
    if "sorted (n # nows)" for n s
    using that by (induction nows arbitrary: n s) auto
  from mem_lim.window_bound [OF assms(1) this] assms(2) show ?thesis
    by (cases nows) auto
qed

theorem mem_limiter_window_bound_witness:
  "int (admitted_in 60000 61000 (limiter_log (mem_bucket ''k:p'' \<lparr>windowSec = 60, rl_max = 2\<rparr>)
     (\<lambda>now. now) Map.empty [0, 1000, 2000, 61000, 61500])) \<le> 2"
  using mem_limiter_window_bound [of "\<lparr>windowSec = 60, rl_max = 2\<rparr>" "[0, 1000, 2000, 61000, 61500]" 61000 "''k:p''"]
  by simp


lemma redis_two_valid:
  assumes "0 < rl_max limit" and "0 \<le> t" and "t \<le> t'" and "u' \<noteq> u"
  shows "valid_inputs (redis_bucket k limit) fst (redis_ok k) Map.empty 0 [(t, u), (t', u')]"
  using assms by (simp add: redis_bucket_first) (simp add: redis_ok_def)


lemma ceil_sec_bounds: "x \<le> 1000 * ceil_sec x \<and> 1000 * ceil_sec x < x + 1000"
proof -
  define q r where "q = (- x) div 1000" and "r = (- x) mod 1000"
  have "- x = 1000 * q + r" and "0 \<le> r \<and> r < 1000"
    by (simp_all add: q_def r_def)
  then show ?thesis by (simp add: ceil_sec_def flip: q_def)
qed

lemma bucket_length:
  fixes s :: mem_limiter and P :: "int \<Rightarrow> bool"
  assumes "case s k of None \<Rightarrow> True | Some ts \<Rightarrow> int (length ts) \<le> cap" and "0 \<le> cap"
  shows "int (length (filter P (case s k of None \<Rightarrow> [] | Some ts \<Rightarrow> ts))) \<le> cap"
proof (cases "s k")
  case (Some ts)
  with assms(1) have "int (length ts) \<le> cap" by simp
  moreover have "int (length (filter P ts)) \<le> int (length ts)" by simp
  ultimately have "int (length (filter P ts)) \<le> cap" by (rule order_trans [rotated])
  then show ?thesis using Some by simp
qed (use assms in simp)

lemma mem_check_bounded:
  assumes "case s k of None \<Rightarrow> True | Some ts \<Rightarrow> int (length ts) \<le> rl_max limit" and "0 \<le> rl_max limit"
  shows "case snd (mem_check now k limit s) k of None \<Rightarrow> True | Some ts \<Rightarrow> int (length ts) \<le> rl_max limit"
  using bucket_length [where s = s and k = k and P = "\<lambda>t. now - windowSec limit * 1000 < t", OF assms]
  by (auto simp: mem_check_def Let_def)

text \<open>
  A denial's \<open>retry-after\<close> is honest: it is a whole number of seconds, at least one,
  and a caller of that bucket who waits that long (and is the next to call) is admitted.
\<close>

theorem mem_retry_after_sound:
  assumes "mem_check now k limit s = (r, s')" and "\<not> allowed r" and "0 < rl_max limit"
    and "case s k of None \<Rightarrow> True | Some ts \<Rightarrow> int (length ts) \<le> rl_max limit"
  shows "\<exists>n. retryAfterSec r = Fin (of_int n) \<and> 1 \<le> n \<and>
    (\<forall>later \<ge> now + 1000 * n. allowed (fst (mem_check later k limit s')))"
proof -
  let ?W = "windowSec limit * 1000"
  define recent where "recent = filter (\<lambda>t. now - ?W < t) (case s k of None \<Rightarrow> [] | Some ts \<Rightarrow> ts)"
  have deny: "\<not> int (length recent) < rl_max limit" and s': "s' = s(k \<mapsto> recent)"
    and ra: "retryAfterSec r = (case recent of [] \<Rightarrow> NaN
      | oldest # _ \<Rightarrow> Fin (of_int (max 1 (ceil_sec (oldest + ?W - now)))))"
    using assms(1,2) by (auto simp: mem_check_def recent_def Let_def split: if_split_asm)
  from deny assms(3) obtain oldest rest where rec: "recent = oldest # rest" by (cases recent) auto
  let ?n = "max 1 (ceil_sec (oldest + ?W - now))"
  have le: "int (length recent) \<le> rl_max limit"
    using assms(3) unfolding recent_def by (intro bucket_length [where s = s and k = k, OF assms(4)]) simp
  have "allowed (fst (mem_check later k limit s'))" if "now + 1000 * ?n \<le> later" for later
  proof -
    have "oldest + ?W \<le> later" using that ceil_sec_bounds [of "oldest + ?W - now"] by linarith
    then have "length (filter (\<lambda>t. later - ?W < t) recent) \<le> length rest"
      using rec length_filter_le [of "\<lambda>t. later - ?W < t" rest] by simp
    with le rec have "int (length (filter (\<lambda>t. later - ?W < t) recent)) < rl_max limit" by simp
    then show ?thesis by (simp add: s' mem_check_def Let_def)
  qed
  with ra rec show ?thesis by (intro exI [of _ ?n]) auto
qed

theorem mem_retry_after_sound_witness:
  "\<exists>n. retryAfterSec (fst (mem_check 1500 ''k:p'' \<lparr>windowSec = 1, rl_max = 1\<rparr> [''k:p'' \<mapsto> [1000]])) = Fin (of_int n) \<and> 1 \<le> n"
proof -
  let ?l = "\<lparr>windowSec = 1, rl_max = 1\<rparr>" and ?s = "[''k:p'' \<mapsto> [1000]]"
  have "mem_check 1500 ''k:p'' ?l ?s = (fst (mem_check 1500 ''k:p'' ?l ?s), snd (mem_check 1500 ''k:p'' ?l ?s))"
    by simp
  from mem_retry_after_sound [OF this] show ?thesis by (auto simp: mem_check_def)
qed

text \<open>
  A fence whose \<open>max\<close> is 0 denies every call on both limiters, but only the Redis
  script names a delay: the in-memory limiter takes \<open>recent[0]\<close> of an empty list, so the
  \<open>retry-after\<close> it hands to the client is NaN.
\<close>

theorem deny_all_retry_after:
  "mem_check now k \<lparr>windowSec = w, rl_max = 0\<rparr> Map.empty =
     (\<lparr>allowed = False, retryAfterSec = NaN\<rparr>, [k \<mapsto> []]) \<and>
   fst (redis_check now u k \<lparr>windowSec = int (Suc v), rl_max = 0\<rparr> Map.empty) =
     \<lparr>allowed = False, retryAfterSec = Fin (of_nat (Suc v))\<rparr>"
  by (simp add: mem_check_def redis_check_def redis_script_def z_live_def zremrangebyscore_def
      ceil_sec_def Let_def flip: mult_minus_left)

end
