(* ===== verification/Pipeline.thy ===== *)
theory Pipeline
  imports Proxy RateLimit
begin

text \<open>
  The gates every request to a paddock passes (apps/data-plane/src/pipeline.ts): scope, rate
  limit, quota, guard or handle, metering, and the scoped result of a job. The services the
  pipeline is given are the record \<open>deps\<close>: a rate limiter and a job store with their states,
  a usage reader, the network. The state records what the process has done: the limiter's and the
  store's states, the meter events handed to the sink, the calls to upstreams. Metering is awaited
  (\<open>drain\<close>): the events of a request are in the state it returns.
\<close>

section \<open>State and services\<close>

record meter_record =
  mr_orgId :: string
  mr_keyId :: string
  mr_paddockId :: string
  mr_breedId :: breed_id
  mr_dim :: meter_dim
  mr_value :: jnum
  mr_at :: int

record ('l, 'j) plane =
  pl_limiter :: 'l
  pl_jobs :: 'j
  pl_meters :: "meter_record list"
  pl_calls :: "http_req list"

record ('l, 'j) deps =
  d_check :: "string \<Rightarrow> rate_limit \<Rightarrow> 'l \<Rightarrow> rl_result \<times> 'l"
  d_create :: "'j \<Rightarrow> job_record \<Rightarrow> 'j"
  d_get :: "'j \<Rightarrow> string \<Rightarrow> job_record option"
  d_mark :: "'j \<Rightarrow> string \<Rightarrow> bool \<times> 'j"
  d_usage :: "(string \<Rightarrow> string \<Rightarrow> meter_dim \<Rightarrow> quota_window \<Rightarrow> int) option"
  d_getPaddock :: "string \<Rightarrow> resolved_paddock option"
  d_keyByHash :: "string \<Rightarrow> resolved_key option"
  d_keyById :: "string \<Rightarrow> resolved_key option"
  d_hash :: "string \<Rightarrow> string"
  d_net :: "http_req \<Rightarrow> http_resp option"
  d_parse :: "string \<Rightarrow> js option"
  d_numstr :: "jnum \<Rightarrow> string"
  d_uuid :: "nat \<Rightarrow> string"
  d_rng :: "nat \<Rightarrow> rat"
  d_now :: int
  d_defaultLimit :: rate_limit

definition DEFAULT_RATE_LIMIT :: rate_limit where
  "DEFAULT_RATE_LIMIT = \<lparr>windowSec = 60, rl_max = 60\<rparr>"

record scope =
  sc_key :: resolved_key
  sc_paddock :: resolved_paddock

record refusal =
  rf_status :: int
  rf_body :: js
  rf_headers :: headers

text \<open>\<open>RunThrows\<close>: the fence does not parse, and the request fails as a whole.\<close>

datatype outcome = ORefused refusal | OHandled int js | OProxied response upstream_result | RunThrows

datatype limit_outcome = Proceed | Limited refusal | LimitNotValidated

definition refuse :: "int \<Rightarrow> string \<Rightarrow> refusal" where
  "refuse status e = \<lparr>rf_status = status, rf_body = Obj [(''error'', Str e)], rf_headers = []\<rparr>"

definition refusalReason :: "refusal \<Rightarrow> string" where
  "refusalReason r = (case getp (rf_body r) ''error'' of Str e \<Rightarrow> e | _ \<Rightarrow> ''refused ('' @ int_str (rf_status r) @ '')'')"

section \<open>Scope and limits\<close>

definition paddockScope :: "('l, 'j) deps \<Rightarrow> resolved_key \<Rightarrow> string \<Rightarrow> refusal + scope" where
  "paddockScope d k slug =
     (case d_getPaddock d slug of
        None \<Rightarrow> Inl (refuse 404 ''unknown paddock'')
      | Some p \<Rightarrow>
          if rp_status p \<noteq> ActivePaddock then Inl (refuse 404 ''unknown paddock'')
          else if slug \<notin> set (rk_paddockSlugs k) then Inl (refuse 403 ''key not scoped to paddock'')
          else if rp_upstreamAuthError p \<noteq> None then Inl (refuse 503 ''upstream credential unavailable'')
          else Inr \<lparr>sc_key = k, sc_paddock = p\<rparr>)"

text \<open>The limit in force: the key's override, the fence's, the default. The stored ones are cast,
  not parsed; one that is not a rate limit is outside the model.\<close>

definition effective_limit :: "('l, 'j) deps \<Rightarrow> scope \<Rightarrow> rate_limit option" where
  "effective_limit d sc =
     (case or_else (getp (rk_overrides (sc_key sc)) ''rateLimit'') (or_else (rn_rateLimit (rp_fence (sc_paddock sc))) Undef) of
        Undef \<Rightarrow> Some (d_defaultLimit d)
      | v \<Rightarrow> rateLimitSchema v)"

definition bucket_key :: "scope \<Rightarrow> string" where
  "bucket_key sc = rk_keyId (sc_key sc) @ '':'' @ rp_paddockId (sc_paddock sc)"

fun quota_check :: "(meter_dim \<Rightarrow> quota_window \<Rightarrow> int) \<Rightarrow> quota_rule list \<Rightarrow> meter_dim option" where
  "quota_check used [] = None"
| "quota_check used (r # rs) =
     (if q_max r \<le> used (q_dim r) (q_period r) then Some (q_dim r) else quota_check used rs)"

definition quota_refusal :: "('l, 'j) deps \<Rightarrow> scope \<Rightarrow> refusal option" where
  "quota_refusal d sc =
     (case d_usage d of
        None \<Rightarrow> None
      | Some reader \<Rightarrow>
          (case quotaSchema (rn_quota (rp_fence (sc_paddock sc))) of
             None \<Rightarrow> None
           | Some rules \<Rightarrow>
               map_option (\<lambda>dim. \<lparr>rf_status = 429,
                   rf_body = Obj [(''error'', Str ''quota exceeded''), (''dim'', Str (dim_str dim))], rf_headers = []\<rparr>)
                 (quota_check (reader (rk_keyId (sc_key sc)) (rp_paddockId (sc_paddock sc))) rules)))"

definition limits :: "('l, 'j) deps \<Rightarrow> scope \<Rightarrow> ('l, 'j) plane \<Rightarrow> limit_outcome \<times> ('l, 'j) plane" where
  "limits d sc s =
     (case effective_limit d sc of
        None \<Rightarrow> (LimitNotValidated, s)
      | Some limit \<Rightarrow>
          (let (rl, l') = d_check d (bucket_key sc) limit (pl_limiter s); s' = s\<lparr>pl_limiter := l'\<rparr> in
           if \<not> allowed rl then
             (Limited \<lparr>rf_status = 429, rf_body = Obj [(''error'', Str ''rate limit exceeded'')],
                rf_headers = [(''retry-after'', d_numstr d (retryAfterSec rl))]\<rparr>, s')
           else (case quota_refusal d sc of Some r \<Rightarrow> (Limited r, s') | None \<Rightarrow> (Proceed, s'))))"

section \<open>Running a request\<close>

definition meter_of :: "scope \<Rightarrow> meter_event \<Rightarrow> meter_record" where
  "meter_of sc e = \<lparr>mr_orgId = rp_orgId (sc_paddock sc), mr_keyId = rk_keyId (sc_key sc),
     mr_paddockId = rp_paddockId (sc_paddock sc), mr_breedId = rp_breedId (sc_paddock sc),
     mr_dim = me_dim e, mr_value = me_value e, mr_at = me_at e\<rparr>"

definition emitScoped :: "scope \<Rightarrow> meter_event list \<Rightarrow> ('l, 'j) plane \<Rightarrow> ('l, 'j) plane" where
  "emitScoped sc events s = s\<lparr>pl_meters := pl_meters s @ map (meter_of sc) events\<rparr>"

definition called :: "http_req \<Rightarrow> ('l, 'j) plane \<Rightarrow> ('l, 'j) plane" where
  "called c s = s\<lparr>pl_calls := pl_calls s @ [c]\<rparr>"

definition prompt_request :: "js \<Rightarrow> rewritten" where
  "prompt_request body = \<lparr>rw_method = ''POST'', rw_path = ''/prompt'',
     rw_headers = [(''content-type'', ''application/json'')], rw_body = body\<rparr>"

text \<open>\<open>buildIo\<close>: \<open>upstream\<close> turns a transport failure into a 502 without a body.\<close>

definition build_io :: "('l, 'j) deps \<Rightarrow> scope \<Rightarrow> comfy_io" where
  "build_io d sc =
     (let fl = rp_flock (sc_paddock sc) in
      \<lparr>io_orgId = rp_orgId (sc_paddock sc), io_keyId = rk_keyId (sc_key sc), io_paddockId = rp_paddockId (sc_paddock sc),
       io_up = uploadImage (d_parse d) (d_net d) fl,
       io_submit = (\<lambda>req.
         (case proxyToUpstream (d_parse d) (d_net d) fl (prompt_request req) of
            None \<Rightarrow> Some Undef
          | Some (resp, up) \<Rightarrow> Some (up_body up))),
       io_uuid = d_uuid d, io_rng = d_rng d, io_now = d_now d\<rparr>)"

fun apply_effect :: "('l, 'j) deps \<Rightarrow> scope \<Rightarrow> effect \<Rightarrow> ('l, 'j) plane \<Rightarrow> ('l, 'j) plane" where
  "apply_effect d sc (Upload name raw) s = called (upload_request (rp_flock (sc_paddock sc)) name raw) s"
| "apply_effect d sc (Submit req) s = called (proxy_request (rp_flock (sc_paddock sc)) (prompt_request req)) s"
| "apply_effect d sc (CreateJob r) s = s\<lparr>pl_jobs := d_create d (pl_jobs s) r\<rparr>"
| "apply_effect d sc (EmitMeter es) s = emitScoped sc es s"

definition direct_route :: "route_spec list \<Rightarrow> string \<Rightarrow> string \<Rightarrow> bool" where
  "direct_route routes m path =
     list_ex (\<lambda>r. case r of RouteSpec rm rp cls expose \<Rightarrow>
       rm = m \<and> \<not> expose \<and> (path = rp \<or> starts_with path (rp @ ''/''))) routes"

definition run_comfy :: "('l, 'j) deps \<Rightarrow> scope \<Rightarrow> req_ctx \<Rightarrow> ('l, 'j) plane \<Rightarrow> outcome \<times> ('l, 'j) plane" where
  "run_comfy d sc ctx s =
     (case comfyuiConstraint (rn_constraintJson (rp_fence (sc_paddock sc))) of
        None \<Rightarrow> (RunThrows, s)
      | Some fence \<Rightarrow>
          (case (if direct_route comfy_routes (rq_method ctx) (rq_path ctx) then comfy_guard ctx fence
                 else GuardOk \<lparr>rw_method = rq_method ctx, rw_path = rq_path ctx, rw_headers = rq_headers ctx, rw_body = rq_body ctx\<rparr>) of
             GuardRefused st e \<Rightarrow> (ORefused (refuse st e), s)
           | GuardOk _ \<Rightarrow>
               (let (a, es) = comfy_handle (d_numstr d) (build_io d sc) (rq_body ctx) fence;
                    s' = fold (apply_effect d sc) es s
                in (case a of Answer st body \<Rightarrow> OHandled st body | Thrown \<Rightarrow> RunThrows, s'))))"

definition run_ollama :: "('l, 'j) deps \<Rightarrow> scope \<Rightarrow> req_ctx \<Rightarrow> ('l, 'j) plane \<Rightarrow> outcome \<times> ('l, 'j) plane" where
  "run_ollama d sc ctx s =
     (case ollamaConstraint (rn_constraintJson (rp_fence (sc_paddock sc))) of
        None \<Rightarrow> (RunThrows, s)
      | Some fence \<Rightarrow>
          (case ollama_guard ctx fence of
             GuardRefused st e \<Rightarrow> (ORefused (refuse st e), s)
           | GuardOk rq \<Rightarrow>
               (let fl = rp_flock (sc_paddock sc); s' = called (proxy_request fl rq) s in
                case proxyToUpstream (d_parse d) (d_net d) fl rq of
                  None \<Rightarrow> (RunThrows, s')
                | Some (resp, up) \<Rightarrow> (OProxied resp up, emitScoped sc (ollama_meter (d_now d) up) s'))))"

definition run :: "('l, 'j) deps \<Rightarrow> scope \<Rightarrow> req_ctx \<Rightarrow> ('l, 'j) plane \<Rightarrow> outcome \<times> ('l, 'j) plane" where
  "run d sc ctx s =
     (case rp_breedId (sc_paddock sc) of Comfyui \<Rightarrow> run_comfy d sc ctx s | Ollama \<Rightarrow> run_ollama d sc ctx s)"

section \<open>The result of a job\<close>

definition image_js :: "image_ref \<Rightarrow> js" where
  "image_js i = Obj [(''filename'', Str (im_filename i)), (''subfolder'', Str (im_subfolder i)), (''type'', Str (im_type i))]"

definition history_request :: "string \<Rightarrow> rewritten" where
  "history_request jobId = \<lparr>rw_method = ''GET'', rw_path = ''/history/'' @ jobId, rw_headers = [], rw_body = Undef\<rparr>"

text \<open>The first half of \<open>jobResult\<close>: ownership, then the history of the job.\<close>

definition job_outcome_of :: "('l, 'j) deps \<Rightarrow> scope \<Rightarrow> string \<Rightarrow> ('l, 'j) plane \<Rightarrow> (job_outcome \<times> ('l, 'j) plane) option" where
  "job_outcome_of d sc jobId s =
     (case d_get d (pl_jobs s) jobId of
        None \<Rightarrow> None
      | Some job \<Rightarrow>
          if jr_keyId job \<noteq> rk_keyId (sc_key sc) \<or> jr_paddockId job \<noteq> rp_paddockId (sc_paddock sc) then None
          else (let fl = rp_flock (sc_paddock sc);
                    h = (case proxyToUpstream (d_parse d) (d_net d) fl (history_request jobId) of
                           None \<Rightarrow> Undef | Some (resp, up) \<Rightarrow> up_body up)
                in Some (parseHistory h jobId, called (proxy_request fl (history_request jobId)) s)))"

text \<open>The second half: mark, and meter only when this poll won the mark.\<close>

definition settle_job :: "('l, 'j) deps \<Rightarrow> scope \<Rightarrow> string \<Rightarrow> job_outcome \<Rightarrow> ('l, 'j) plane \<Rightarrow> ('l, 'j) plane" where
  "settle_job d sc jobId oc s =
     (if \<not> oc_done oc then s
      else (let (won, j') = d_mark d (pl_jobs s) jobId; s' = s\<lparr>pl_jobs := j'\<rparr> in
        if won then emitScoped sc
            [\<lparr>me_dim = Images, me_value = Fin (of_nat (length (oc_images oc))), me_at = d_now d\<rparr>,
             \<lparr>me_dim = GpuMs, me_value = oc_gpuMs oc, me_at = d_now d\<rparr>] s'
        else s'))"

definition jobResult :: "('l, 'j) deps \<Rightarrow> scope \<Rightarrow> string \<Rightarrow> ('l, 'j) plane \<Rightarrow> (int \<times> js) \<times> ('l, 'j) plane" where
  "jobResult d sc jobId s =
     (case job_outcome_of d sc jobId s of
        None \<Rightarrow> ((404, Obj [(''error'', Str ''not found'')]), s)
      | Some (oc, s') \<Rightarrow>
          ((200, Obj [(''done'', Boolean (oc_done oc)), (''images'', Arr (map image_js (oc_images oc)))]),
           settle_job d sc jobId oc s'))"

definition raw :: "scope \<Rightarrow> string \<Rightarrow> string \<Rightarrow> headers \<Rightarrow> http_req" where
  "raw sc mthd path hs = raw_request (rp_flock (sc_paddock sc)) mthd path hs NoBody"

section \<open>Lemmas\<close>

lemma paddockScope_Inr:
  "paddockScope d k slug = Inr sc \<longleftrightarrow>
     (\<exists>p. d_getPaddock d slug = Some p \<and> rp_status p = ActivePaddock \<and> slug \<in> set (rk_paddockSlugs k) \<and>
        rp_upstreamAuthError p = None \<and> sc = \<lparr>sc_key = k, sc_paddock = p\<rparr>)"
  by (auto simp: paddockScope_def split: option.split)

lemma quota_check_None:
  "quota_check used rs = None \<longleftrightarrow> (\<forall>r \<in> set rs. used (q_dim r) (q_period r) < q_max r)"
  by (induction rs) auto

lemma plane_frames [frames]:
  "pl_calls (emitScoped sc es s) = pl_calls s" "pl_jobs (emitScoped sc es s) = pl_jobs s"
  "pl_meters (called c s) = pl_meters s" "pl_jobs (called c s) = pl_jobs s"
  "pl_limiter (emitScoped sc es s) = pl_limiter s" "pl_limiter (called c s) = pl_limiter s"
  "pl_calls (called c s) = pl_calls s @ [c]" "pl_meters (emitScoped sc es s) = pl_meters s @ map (meter_of sc) es"
  by (simp_all add: emitScoped_def called_def)

lemma limits_frame:
  "limits d sc s = (r, s') \<Longrightarrow> pl_calls s' = pl_calls s \<and> pl_meters s' = pl_meters s \<and> pl_jobs s' = pl_jobs s"
  by (auto simp: limits_def Let_def split: option.split_asm prod.split_asm if_split_asm)

text \<open>Every call of a request goes to the flock of its scope, with no header but a content type of
  the request and the flock's own credential.\<close>

definition own_headers :: "headers \<Rightarrow> bool" where
  "own_headers hs = (\<forall>k v. map_of hs k = Some v \<longrightarrow> k = ''content-type'')"

definition scoped_call :: "scope \<Rightarrow> http_req \<Rightarrow> bool" where
  "scoped_call sc c =
     (prefix (strip_slash (rf_baseUrl (rp_flock (sc_paddock sc)))) (hq_url c) \<and>
      (\<forall>k v. map_of (hq_headers c) k = Some v \<longrightarrow> k = ''content-type'' \<or>
         map_of (upstreamAuthHeaders (rf_upstreamAuth (rp_flock (sc_paddock sc)))) k = Some v))"

lemma scoped_callI: "flock_call (rp_flock (sc_paddock sc)) hs c \<Longrightarrow> own_headers hs \<Longrightarrow> scoped_call sc c"
  unfolding flock_call_def own_headers_def scoped_call_def by blast

lemma scoped_proxy: "own_headers (rw_headers rq) \<Longrightarrow> scoped_call sc (proxy_request (rp_flock (sc_paddock sc)) rq)"
  by (rule scoped_callI [OF proxy_request_call])

lemma own_headers_simps [simp]: "own_headers []" "own_headers [(''content-type'', t)]"
  by (simp_all add: own_headers_def)

definition grows_scoped :: "scope \<Rightarrow> ('l, 'j) plane \<Rightarrow> ('l, 'j) plane \<Rightarrow> bool" where
  "grows_scoped sc s s' =
     (\<exists>cs ms. pl_calls s' = pl_calls s @ cs \<and> list_all (scoped_call sc) cs \<and>
        pl_meters s' = pl_meters s @ ms \<and>
        list_all (\<lambda>m. mr_orgId m = rp_orgId (sc_paddock sc) \<and> mr_keyId m = rk_keyId (sc_key sc) \<and>
          mr_paddockId m = rp_paddockId (sc_paddock sc)) ms)"

lemma grows_refl [intro]: "grows_scoped sc s s"
  by (auto simp: grows_scoped_def)

lemma grows_trans [trans]: "grows_scoped sc s t \<Longrightarrow> grows_scoped sc t u \<Longrightarrow> grows_scoped sc s u"
  by (fastforce simp: grows_scoped_def)

lemma grows_emit [intro]: "grows_scoped sc s (emitScoped sc es s)"
  by (auto simp: grows_scoped_def frames meter_of_def list_all_iff)

lemma grows_called: "scoped_call sc c \<Longrightarrow> grows_scoped sc s (called c s)"
  by (auto simp: grows_scoped_def frames)

lemma grows_effect: "grows_scoped sc s (apply_effect d sc e s)"
proof (cases e)
  case (Upload n b)
  then show ?thesis by (auto intro!: grows_called scoped_callI raw_request_call simp: upload_request_def)
next
  case (Submit req)
  then show ?thesis by (auto intro!: grows_called scoped_proxy simp: prompt_request_def)
qed (auto simp: grows_scoped_def frames meter_of_def list_all_iff)

lemma grows_effects: "grows_scoped sc s (fold (apply_effect d sc) es s)"
proof (induction es arbitrary: s)
  case (Cons e es)
  from grows_trans [OF grows_effect Cons.IH] show ?case by simp
qed auto

lemma run_grows:
  assumes "own_headers (rq_headers ctx)"
  shows "grows_scoped sc s (snd (run d sc ctx s))"
proof (cases "rp_breedId (sc_paddock sc)")
  case Comfyui
  then show ?thesis
    by (auto simp: run_def run_comfy_def Let_def grows_effects split: option.split guard_result.split prod.split)
next
  case Ollama
  show ?thesis
  proof (cases "ollamaConstraint (rn_constraintJson (rp_fence (sc_paddock sc)))")
    case None
    with Ollama show ?thesis by (auto simp: run_def run_ollama_def)
  next
    case (Some fence)
    show ?thesis
    proof (cases "ollama_guard ctx fence")
      case (GuardRefused st e)
      with Some Ollama show ?thesis by (auto simp: run_def run_ollama_def)
    next
      case (GuardOk rq)
      let ?c = "proxy_request (rp_flock (sc_paddock sc)) rq"
      have "own_headers (rw_headers rq)" using guard_GuardOk(4) [OF GuardOk] assms by simp
      then have "grows_scoped sc s (called ?c s)" by (intro grows_called scoped_proxy)
      with GuardOk Some Ollama show ?thesis
        by (auto simp: run_def run_ollama_def Let_def split: option.split intro: grows_trans)
    qed
  qed
qed

lemma settle_grows: "grows_scoped sc s (settle_job d sc jobId oc s)"
proof (cases "oc_done oc")
  case True
  obtain won j' where m: "d_mark d (pl_jobs s) jobId = (won, j')" by fastforce
  have "grows_scoped sc s (s\<lparr>pl_jobs := j'\<rparr>)" by (simp add: grows_scoped_def)
  with True m show ?thesis by (auto simp: settle_job_def Let_def intro: grows_trans)
qed (auto simp: settle_job_def)

lemma jobResult_grows: "grows_scoped sc s (snd (jobResult d sc jobId s))"
proof (cases "job_outcome_of d sc jobId s")
  case (Some p)
  then obtain oc s' where p: "p = (oc, s')" "s' = called (proxy_request (rp_flock (sc_paddock sc)) (history_request jobId)) s"
    by (auto simp: job_outcome_of_def Let_def split: option.split_asm if_split_asm)
  have "grows_scoped sc s s'" unfolding p(2) by (intro grows_called scoped_proxy) (simp add: history_request_def)
  then have "grows_scoped sc s (settle_job d sc jobId oc s')" by (rule grows_trans [OF _ settle_grows])
  with Some p(1) show ?thesis by (simp add: jobResult_def)
qed (auto simp: jobResult_def)

end
