(* ===== verification/Http.thy ===== *)
theory Http
  imports Pipeline JsText
begin

text \<open>
  The HTTP surface shared by the routes of the data plane: the counted request body
  (apps/data-plane/src/body-limit.ts), the key a request presents and the 401 it gets
  (unauthorized.ts, app.ts), the headers every response carries. Header names are lower case, as
  the framework hands them out; a body arrives in chunks.
\<close>

section \<open>Requests and answers\<close>

record http_in =
  hi_method :: string
  hi_path :: string
  hi_headers :: headers
  hi_chunks :: "string list option"

definition header :: "http_in \<Rightarrow> string \<Rightarrow> string option" where
  "header q name = map_of (hi_headers q) name"

text \<open>\<open>c.json(body, status)\<close> with extra headers.\<close>

definition json_reply :: "int \<Rightarrow> headers \<Rightarrow> js \<Rightarrow> response" where
  "json_reply status hs body =
     \<lparr>rs_status = status, rs_headers = set_headers [(''content-type'', ''application/json'')] hs, rs_body = JsonBody body\<rparr>"

definition error_reply :: "int \<Rightarrow> string \<Rightarrow> response" where
  "error_reply status e = json_reply status [] (Obj [(''error'', Str e)])"

definition refusal_reply :: "refusal \<Rightarrow> response" where
  "refusal_reply r = json_reply (rf_status r) (rf_headers r) (rf_body r)"

text \<open>A handler that throws is answered by the framework.\<close>

definition internal_error :: response where
  "internal_error = \<lparr>rs_status = 500, rs_headers = [(''content-type'', ''text/plain'')], rs_body = TextBody ''Internal Server Error''\<rparr>"

definition SECURITY_HEADERS :: headers where
  "SECURITY_HEADERS = [(''X-Content-Type-Options'', ''nosniff''), (''Strict-Transport-Security'', ''max-age=63072000''),
     (''X-Frame-Options'', ''DENY''), (''Referrer-Policy'', ''no-referrer'')]"

definition secured :: "response \<Rightarrow> response" where
  "secured r = r\<lparr>rs_headers := set_headers (rs_headers r) (map (\<lambda>(k, v). (lower k, v)) SECURITY_HEADERS)\<rparr>"

section \<open>The request body (body-limit.ts)\<close>

definition MAX_REQUEST_BODY_BYTES :: int where
  "MAX_REQUEST_BODY_BYTES = 32 * 1024 * 1024"

definition bodyTooLarge :: response where
  "bodyTooLarge = error_reply 413 ''request body too large''"

text \<open>The refusal of a declared length, before anything is read.\<close>

definition declared_too_large :: "int \<Rightarrow> http_in \<Rightarrow> bool" where
  "declared_too_large maxSize q =
     (case hi_chunks q of
        None \<Rightarrow> False
      | Some _ \<Rightarrow>
          (case header q ''content-length'' of
             None \<Rightarrow> False
           | Some declared \<Rightarrow> header q ''transfer-encoding'' = None \<and> jnum_less (Fin (of_int maxSize)) (Number declared)))"

text \<open>The counting transform: \<open>None\<close> where the read that crosses the limit fails.\<close>

fun read_counted :: "int \<Rightarrow> int \<Rightarrow> string list \<Rightarrow> string option" where
  "read_counted maxSize seen [] = Some []"
| "read_counted maxSize seen (chunk # chunks) =
     (let seen' = seen + int (length chunk) in
      if maxSize < seen' then None else map_option ((@) chunk) (read_counted maxSize seen' chunks))"

definition read_text :: "int \<Rightarrow> http_in \<Rightarrow> string option" where
  "read_text maxSize q = (case hi_chunks q of None \<Rightarrow> Some [] | Some chunks \<Rightarrow> read_counted maxSize 0 chunks)"

lemma read_counted_Some:
  "0 \<le> maxSize - seen \<Longrightarrow> read_counted maxSize seen chunks = Some t \<longleftrightarrow>
     t = concat chunks \<and> seen + int (length (concat chunks)) \<le> maxSize"
proof (induction chunks arbitrary: seen t)
  case (Cons c cs)
  show ?case
  proof (cases "maxSize < seen + int (length c)")
    case False
    with Cons.IH [of "seen + int (length c)"] show ?thesis by (auto simp: Let_def add.assoc)
  qed auto
qed auto

section \<open>The credential of a request (app.ts, unauthorized.ts)\<close>

definition extractKey :: "string option \<Rightarrow> string option \<Rightarrow> string option" where
  "extractKey authorization xApiKey =
     (case (case authorization of Some h \<Rightarrow> if h = [] then None else bearer_match h | None \<Rightarrow> None) of
        Some tok \<Rightarrow> Some (trim tok)
      | None \<Rightarrow> (case xApiKey of Some x \<Rightarrow> if x = [] then None else Some (trim x) | None \<Rightarrow> None))"

datatype key_rejection = NoKeyPresented | NoKeyMatches | KeyHasExpired

definition API_KEY_CHALLENGE :: string where
  "API_KEY_CHALLENGE = ''Bearer''"

definition unauthorizedKey :: "key_rejection \<Rightarrow> response" where
  "unauthorizedKey rejection =
     \<lparr>rs_status = 401, rs_headers = [(''content-type'', ''application/json''), (''www-authenticate'', API_KEY_CHALLENGE)],
      rs_body = JsonBody (Obj [(''error'', Str (if rejection \<noteq> NoKeyPresented then ''invalid api key'' else ''missing api key''))])\<rparr>"

text \<open>The caller's key, or the 401; an empty string is no key.\<close>

definition liveKey :: "('l, 'j) deps \<Rightarrow> http_in \<Rightarrow> response + resolved_key" where
  "liveKey d q =
     (case extractKey (header q ''authorization'') (header q ''x-api-key'') of
        None \<Rightarrow> Inl (unauthorizedKey NoKeyPresented)
      | Some plaintext \<Rightarrow>
          if plaintext = [] then Inl (unauthorizedKey NoKeyPresented)
          else (case d_keyByHash d (d_hash d plaintext) of
              None \<Rightarrow> Inl (unauthorizedKey NoKeyMatches)
            | Some k \<Rightarrow> if keyExpired (rk_expiresAt k) (d_now d) then Inl (unauthorizedKey KeyHasExpired) else Inr k))"

lemma liveKey_Inr:
  "liveKey d q = Inr k \<longleftrightarrow>
     (\<exists>plaintext. extractKey (header q ''authorization'') (header q ''x-api-key'') = Some plaintext \<and> plaintext \<noteq> [] \<and>
        d_keyByHash d (d_hash d plaintext) = Some k \<and> \<not> keyExpired (rk_expiresAt k) (d_now d))"
  by (auto simp: liveKey_def split: option.split)

lemma map_of_set_headers_last:
  "map_of (set_headers h h') k = (case map_of (rev h') k of Some v \<Rightarrow> Some v | None \<Rightarrow> map_of h k)"
proof (induction h' arbitrary: h)
  case (Cons kv h')
  obtain k' v' where kv: "kv = (k', v')" by fastforce
  have "set_headers h (kv # h') = set_headers (assoc_set h k' v') h'" by (simp add: set_headers_def kv)
  with Cons kv show ?case by (auto simp: map_add_def split: option.split)
qed (simp add: set_headers_def)

section \<open>A concrete data plane\<close>

text \<open>One Ollama paddock, one key, a limiter that counts, an upstream that is down.\<close>

definition demo_paddock :: resolved_paddock where
  "demo_paddock = \<lparr>rp_paddockId = ''p'', rp_orgId = ''o'', rp_slug = ''pad'', rp_name = ''Pad'', rp_status = ActivePaddock,
     rp_breedId = Ollama, rp_flock = \<lparr>rf_baseUrl = ''http://f'', rf_upstreamAuth = Some ''s'', rf_tlsTrust = False\<rparr>,
     rp_fence = \<lparr>rn_constraintJson = Obj [(''allowedRoutes'', Arr [Str ''read''])], rn_rateLimit = Null, rn_quota = Null\<rparr>, rp_upstreamAuthError = None\<rparr>"

definition demo_resolved :: resolved_key where
  "demo_resolved = \<lparr>rk_keyId = ''k'', rk_orgId = ''o'', rk_status = ActiveKey, rk_expiresAt = Some 100,
     rk_paddockSlugs = [''pad''], rk_overrides = Null, rk_oauthClientId = Some ''c''\<rparr>"

definition demo_deps :: "(js \<Rightarrow> js) \<Rightarrow> (nat, job_row list) deps" where
  "demo_deps parsed = \<lparr>d_check = (\<lambda>k l n. (\<lparr>allowed = True, retryAfterSec = Fin 0\<rparr>, Suc n)),
     d_create = pg_create, d_get = pg_get, d_mark = pg_markMetered, d_usage = None,
     d_getPaddock = (\<lambda>slug. if slug = ''pad'' then Some demo_paddock else None),
     d_keyByHash = (\<lambda>h. if h = ''mm_live_x'' then Some demo_resolved else None),
     d_keyById = (\<lambda>i. if i = ''k'' then Some demo_resolved else None), d_hash = (\<lambda>s. s),
     d_net = (\<lambda>rq. None), d_parse = (\<lambda>t. Some (parsed (Str t))), d_numstr = (\<lambda>n. ''n''), d_uuid = (\<lambda>i. ''u''), d_rng = (\<lambda>i. 0),
     d_now = 10, d_defaultLimit = DEFAULT_RATE_LIMIT\<rparr>"

definition demo_plane :: "(nat, job_row list) plane" where
  "demo_plane = \<lparr>pl_limiter = 0, pl_jobs = [], pl_meters = [], pl_calls = []\<rparr>"

end
