(* ===== verification/AccessToken.thy ===== *)
theory AccessToken
  imports Schema
begin

text \<open>
  The verifier of access tokens (packages/schema/src/access-token.ts). The JOSE library is a
  parameter: what \<open>decodeJwt\<close> reads without verifying, whether the key set is cooling down,
  and how \<open>jwtVerify\<close> ends. A verification ends in the claims, in a refusal (answered 401) or
  in an unavailable key set (answered 503).
\<close>

section \<open>The library (jose)\<close>

text \<open>How \<open>jwtVerify\<close> ends: the protected header and the payload, or the error it throws.\<close>

datatype jose_result =
    Verified js js
  | NoMatchingKey
  | JwksTimeout
  | JwksInvalid
  | JoseError string
  | ForeignError

record jose =
  jo_decode :: "string \<Rightarrow> js option"
  jo_coolingDown :: bool
  jo_verify :: "string \<Rightarrow> jose_result"

section \<open>The verifier\<close>

definition JWKS_COOLDOWN_MS :: int where
  "JWKS_COOLDOWN_MS = 30 * 1000"

definition AUDIENCE_MISMATCH :: string where
  "AUDIENCE_MISMATCH = ''audience mismatch''"

datatype verify_out = Claims js | TokenRefused string | KeySetUnavailable string bool

definition keySetFailure :: "jose_result \<Rightarrow> string option" where
  "keySetFailure e =
     (case e of
        JwksTimeout \<Rightarrow> Some ''timed out fetching the key set''
      | JwksInvalid \<Rightarrow> Some ''the published key set is malformed''
      | JoseError code \<Rightarrow>
          if code = ''ERR_JOSE_GENERIC'' then Some ''the key set endpoint did not return a usable JWKS'' else None
      | ForeignError \<Rightarrow> Some ''the key set endpoint could not be reached''
      | _ \<Rightarrow> None)"

fun jnum_le :: "jnum \<Rightarrow> jnum \<Rightarrow> bool" where
  "jnum_le a b = (jnum_less a b \<or> a = b \<and> a \<noteq> NaN)"

definition expiredBeforeVerifying :: "jose \<Rightarrow> int \<Rightarrow> string \<Rightarrow> bool" where
  "expiredBeforeVerifying j now jwt =
     (case jo_decode j jwt of
        None \<Rightarrow> False
      | Some claims \<Rightarrow>
          (case getp claims ''exp'' of Num e \<Rightarrow> jnum_le e (Fin (of_int (now div 1000))) | _ \<Rightarrow> False))"

definition audience_ok :: "js \<Rightarrow> string \<Rightarrow> bool" where
  "audience_ok aud audience =
     (case aud of Str a \<Rightarrow> a = audience | Arr as \<Rightarrow> Str audience \<in> set as | _ \<Rightarrow> False)"

definition verify_access_token :: "jose \<Rightarrow> int \<Rightarrow> string \<Rightarrow> string \<Rightarrow> verify_out" where
  "verify_access_token j now jwt audience =
     (if expiredBeforeVerifying j now jwt then TokenRefused ''expired, judged before resolving the signing key''
      else case jo_verify j jwt of
          Verified hdr payload \<Rightarrow>
            if getp hdr ''alg'' \<noteq> Str ''RS256'' then TokenRefused ''alg must be RS256''
            else if \<not> audience_ok (getp payload ''aud'') audience then TokenRefused AUDIENCE_MISMATCH
            else Claims payload
        | NoMatchingKey \<Rightarrow>
            if jo_coolingDown j then KeySetUnavailable ''the token `kid` is not in a key set fetched too recently to refetch'' True
            else TokenRefused ''the token `kid` is not in a key set fetched during this verification''
        | e \<Rightarrow>
            (case keySetFailure e of
               Some reason \<Rightarrow> KeySetUnavailable reason False
             | None \<Rightarrow> TokenRefused ''signature, issuer, typ or expiry rejected''))"

text \<open>The log of unavailable key sets: every fetch failure, a cooldown miss at most once per cooldown.\<close>

definition logKeySetUnavailable :: "int \<Rightarrow> bool \<Rightarrow> int option \<Rightarrow> bool \<times> int option" where
  "logKeySetUnavailable now cooldownMiss prev =
     (if \<not> cooldownMiss then (True, prev)
      else case prev of
          None \<Rightarrow> (True, Some now)
        | Some t \<Rightarrow> if now - t < JWKS_COOLDOWN_MS then (False, prev) else (True, Some now))"

section \<open>Lemmas\<close>

lemma verify_Claims:
  "verify_access_token j now jwt audience = Claims c \<longleftrightarrow>
     \<not> expiredBeforeVerifying j now jwt \<and>
     (\<exists>hdr. jo_verify j jwt = Verified hdr c \<and> getp hdr ''alg'' = Str ''RS256'' \<and> audience_ok (getp c ''aud'') audience)"
  by (auto simp: verify_access_token_def keySetFailure_def split: jose_result.split option.split)

section \<open>Properties\<close>

text \<open>
  Expiry is judged first: a token whose own \<open>exp\<close> has passed is refused with a 401,
  whatever the key set does, and never answered with the 503 of an unavailable key set. A 503 is
  given only when the key set could not be obtained or is too fresh to be fetched again for a key
  it lacks; then the token was neither accepted nor judged.
\<close>

theorem expired_token_never_unavailable:
  "(expiredBeforeVerifying j now jwt \<longrightarrow> (\<exists>r. verify_access_token j now jwt audience = TokenRefused r)) \<and>
   (\<forall>r miss. verify_access_token j now jwt audience = KeySetUnavailable r miss \<longrightarrow>
      \<not> expiredBeforeVerifying j now jwt \<and> (\<forall>hdr c. jo_verify j jwt \<noteq> Verified hdr c) \<and>
      (miss \<longleftrightarrow> jo_verify j jwt = NoMatchingKey) \<and> (miss \<longrightarrow> jo_coolingDown j))"
  by (auto simp: verify_access_token_def keySetFailure_def split: jose_result.split_asm option.split_asm if_split_asm)

definition demo_jose :: jose where
  "demo_jose = \<lparr>jo_decode = (\<lambda>s. Some (Obj [(''exp'', NumI 100)])), jo_coolingDown = True, jo_verify = (\<lambda>s. NoMatchingKey)\<rparr>"

theorem expired_token_never_unavailable_witness:
  "(\<exists>r. verify_access_token demo_jose 100000 ''t'' ''a'' = TokenRefused r)"
  using expired_token_never_unavailable [of demo_jose 100000 "''t''" "''a''"]
  by (simp add: expiredBeforeVerifying_def demo_jose_def)

text \<open>
  Over any run of unavailable key sets, two cooldown misses that are logged lie at least a
  cooldown apart, so a caller that sends unknown key ids cannot fill the log.
\<close>

fun logged_misses :: "int option \<Rightarrow> (int \<times> bool) list \<Rightarrow> int list" where
  "logged_misses prev [] = []"
| "logged_misses prev ((now, miss) # evs) =
     (let (line, prev') = logKeySetUnavailable now miss prev
      in (if line \<and> miss then [now] else []) @ logged_misses prev' evs)"

lemma logged_misses_spaced:
  "sorted_wrt (\<le>) (map fst evs) \<Longrightarrow>
     sorted_wrt (\<lambda>a b. a + JWKS_COOLDOWN_MS \<le> b) (logged_misses prev evs) \<and>
     (\<forall>t. prev = Some t \<longrightarrow> (\<forall>a \<in> set (logged_misses prev evs). t + JWKS_COOLDOWN_MS \<le> a)) \<and>
     (\<forall>a \<in> set (logged_misses prev evs). a \<in> fst ` set evs)"
proof (induction evs arbitrary: prev)
  case (Cons e evs)
  obtain now miss where e: "e = (now, miss)" by fastforce
  obtain line prev' where l: "logKeySetUnavailable now miss prev = (line, prev')" by fastforce
  from Cons.IH [of prev'] Cons.prems have IH: "sorted_wrt (\<lambda>a b. a + JWKS_COOLDOWN_MS \<le> b) (logged_misses prev' evs)"
    "\<And>t a. prev' = Some t \<Longrightarrow> a \<in> set (logged_misses prev' evs) \<Longrightarrow> t + JWKS_COOLDOWN_MS \<le> a"
    "\<And>a. a \<in> set (logged_misses prev' evs) \<Longrightarrow> a \<in> fst ` set evs" by auto
  from l have cases: "line \<and> miss \<Longrightarrow> prev' = Some now \<and> (\<forall>t. prev = Some t \<longrightarrow> t + JWKS_COOLDOWN_MS \<le> now)"
    "\<not> (line \<and> miss) \<Longrightarrow> prev' = prev"
    by (auto simp: logKeySetUnavailable_def split: if_split_asm option.split_asm)
  have pos: "0 < JWKS_COOLDOWN_MS" by (simp add: JWKS_COOLDOWN_MS_def)
  show ?case
  proof (cases "line \<and> miss")
    case True
    with cases(1) have now: "prev' = Some now" "\<And>t. prev = Some t \<Longrightarrow> t + JWKS_COOLDOWN_MS \<le> now" by auto
    from True l e have eq: "logged_misses prev (e # evs) = now # logged_misses prev' evs" by simp
    have later: "now + JWKS_COOLDOWN_MS \<le> a" if "a \<in> set (logged_misses prev' evs)" for a
      using IH(2) [OF now(1) that] .
    show ?thesis unfolding eq using IH(1,3) later now(2) pos e by fastforce
  next
    case False
    with cases(2) have "prev' = prev" by simp
    with False l e have "logged_misses prev (e # evs) = logged_misses prev evs" by auto
    with IH \<open>prev' = prev\<close> show ?thesis by auto
  qed
qed simp

theorem cooldown_misses_spaced:
  assumes "sorted (map fst evs)"
  shows "sorted_wrt (\<lambda>a b. a + JWKS_COOLDOWN_MS \<le> b) (logged_misses None evs)"
  using logged_misses_spaced [of evs None] assms by simp

theorem cooldown_misses_spaced_witness:
  "sorted_wrt (\<lambda>a b. a + JWKS_COOLDOWN_MS \<le> b) (logged_misses None [(0, True), (10, True), (29999, False), (30000, True)])"
  by (rule cooldown_misses_spaced) simp

end
