(* ===== verification/McpProtocol.thy ===== *)
theory McpProtocol
  imports JsText Breed
begin

text \<open>
  The wire protocol of the MCP endpoint (apps/data-plane/src/mcp/jsonrpc.ts, protocol.ts): one JSON-RPC
  message per request, its era, and what the headers of each era must say. A header is looked up by
  the argument \<open>hdr\<close>.
\<close>

section \<open>JSON-RPC (jsonrpc.ts)\<close>

definition MODERN_PROTOCOL_VERSIONS :: "string list" where
  "MODERN_PROTOCOL_VERSIONS = [''2026-07-28'']"

definition LEGACY_PROTOCOL_VERSIONS :: "string list" where
  "LEGACY_PROTOCOL_VERSIONS = [''2025-11-25'', ''2025-06-18'']"

definition SUPPORTED_PROTOCOL_VERSIONS :: "string list" where
  "SUPPORTED_PROTOCOL_VERSIONS = MODERN_PROTOCOL_VERSIONS @ LEGACY_PROTOCOL_VERSIONS"

definition PROTOCOL_VERSION_META :: string where
  "PROTOCOL_VERSION_META = ''io.modelcontextprotocol/protocolVersion''"

definition SERVER_INFO_META :: string where
  "SERVER_INFO_META = ''io.modelcontextprotocol/serverInfo''"

datatype rpc_code =
    ParseError | InvalidRequest | MethodNotFound | InvalidParams | InternalError | HeaderMismatch | UnsupportedVersion

fun rpc_code_int :: "rpc_code \<Rightarrow> int" where
  "rpc_code_int ParseError = -32700"
| "rpc_code_int InvalidRequest = -32600"
| "rpc_code_int MethodNotFound = -32601"
| "rpc_code_int InvalidParams = -32602"
| "rpc_code_int InternalError = -32603"
| "rpc_code_int HeaderMismatch = -32020"
| "rpc_code_int UnsupportedVersion = -32022"

text \<open>An id is a string or a finite number; \<open>Null\<close> where there is none.\<close>

datatype rpc_message =
    RpcRequest js string js
  | RpcNotification string
  | RpcInvalid js string

definition rpc_id :: "js \<Rightarrow> js" where
  "rpc_id v = (case v of Str s \<Rightarrow> Str s | Num (Fin q) \<Rightarrow> Num (Fin q) | _ \<Rightarrow> Null)"

fun rpc_params_ok :: "js \<Rightarrow> bool" where
  "rpc_params_ok Undef = True"
| "rpc_params_ok (Obj kvs) = True"
| "rpc_params_ok (Arr vs) = True"
| "rpc_params_ok _ = False"

definition parseJsonRpc :: "js \<Rightarrow> rpc_message" where
  "parseJsonRpc raw =
     (case raw of
        Arr _ \<Rightarrow> RpcInvalid Null ''batch requests are not supported''
      | Obj kvs \<Rightarrow>
          (let i = rpc_id (getp raw ''id''); params = getp raw ''params'' in
           if getp raw ''jsonrpc'' \<noteq> Str ''2.0'' then RpcInvalid i (''jsonrpc must be '' @ [CHR 0x22] @ ''2.0'' @ [CHR 0x22])
           else case getp raw ''method'' of
               Str m \<Rightarrow>
                 if \<not> has_own kvs ''id'' then RpcNotification m
                 else if i = Null then RpcInvalid Null ''id must be a string or a number''
                 else if \<not> rpc_params_ok params then RpcInvalid i ''params must be an object or an array''
                 else RpcRequest i m params
             | _ \<Rightarrow> RpcInvalid i ''method must be a string'')
      | _ \<Rightarrow> RpcInvalid Null ''expected a JSON-RPC 2.0 object'')"

definition rpcResult :: "js \<Rightarrow> js \<Rightarrow> js" where
  "rpcResult i result = Obj [(''jsonrpc'', Str ''2.0''), (''id'', i), (''result'', result)]"

definition rpcError :: "js \<Rightarrow> rpc_code \<Rightarrow> string \<Rightarrow> js \<Rightarrow> js" where
  "rpcError i code message data = Obj [(''jsonrpc'', Str ''2.0''), (''id'', i), (''error'',
     Obj ([(''code'', NumI (rpc_code_int code)), (''message'', Str message)] @
       (if data = Undef then [] else [(''data'', data)])))]"

section \<open>Header values (protocol.ts)\<close>

definition SENTINEL_PREFIX :: string where
  "SENTINEL_PREFIX = ''=?base64?''"

definition SENTINEL_SUFFIX :: string where
  "SENTINEL_SUFFIX = ''?=''"

definition b64_std :: "char \<Rightarrow> bool" where
  "b64_std c = (is_upper c \<or> is_lower c \<or> is_digit c \<or> c = CHR ''+'' \<or> c = CHR ''/'')"

text \<open>\<open>/^[A-Za-z0-9+/]*={0,2}$/\<close> and \<open>/^[\x20-\x7e\t]*$/\<close>\<close>

definition base64_re :: "string \<Rightarrow> bool" where
  "base64_re s = (dropWhile b64_std s \<in> {[], ''='', ''==''})"

definition field_value_re :: "string \<Rightarrow> bool" where
  "field_value_re s = list_all (\<lambda>c. CHR '' '' \<le> c \<and> c \<le> CHR ''~'' \<or> c = CHR 0x09) s"

definition decodeHeaderValue :: "string \<Rightarrow> string option" where
  "decodeHeaderValue v =
     (if starts_with v SENTINEL_PREFIX \<and> ends_with v SENTINEL_SUFFIX \<and>
         length SENTINEL_PREFIX + length SENTINEL_SUFFIX \<le> length v then
        (let payload = slice v (length SENTINEL_PREFIX) (length v - length SENTINEL_SUFFIX) in
         if base64_re payload then Some (from_base64 payload) else None)
      else if field_value_re v then Some v else None)"

section \<open>Eras and their validation (protocol.ts)\<close>

datatype era = Modern | Legacy

definition metaVersion :: "js \<Rightarrow> js" where
  "metaVersion params = getp (getp params ''_meta'') PROTOCOL_VERSION_META"

definition eraOf :: "string \<Rightarrow> js \<Rightarrow> string option \<Rightarrow> era" where
  "eraOf mthd params headerVersion =
     (if mthd = ''initialize'' then Legacy
      else if metaVersion params = Undef \<and>
          (case headerVersion of Some v \<Rightarrow> v \<in> set LEGACY_PROTOCOL_VERSIONS | None \<Rightarrow> False) then Legacy
      else Modern)"

definition legacyNegotiatedVersion :: "js \<Rightarrow> string" where
  "legacyNegotiatedVersion requested =
     (case requested of
        Str v \<Rightarrow> if v \<in> set LEGACY_PROTOCOL_VERSIONS then v else hd LEGACY_PROTOCOL_VERSIONS
      | _ \<Rightarrow> hd LEGACY_PROTOCOL_VERSIONS)"

definition mismatch :: "js \<Rightarrow> string \<Rightarrow> js" where
  "mismatch i message = rpcError i HeaderMismatch (''Header mismatch: '' @ message) Undef"

text \<open>The body of the 400 to send, or \<open>None\<close>.\<close>

definition validateModern :: "js \<Rightarrow> string \<Rightarrow> js \<Rightarrow> (string \<Rightarrow> string option) \<Rightarrow> js option" where
  "validateModern i mthd params hdr =
     (case hdr ''mcp-protocol-version'' of
        None \<Rightarrow> Some (mismatch i ''the MCP-Protocol-Version header is required'')
      | Some version \<Rightarrow>
          if metaVersion params \<noteq> Str version then
            Some (mismatch i (''MCP-Protocol-Version does not match params._meta['' @ [CHR 0x22] @ PROTOCOL_VERSION_META @ [CHR 0x22] @ '']''))
          else if version \<notin> set MODERN_PROTOCOL_VERSIONS then
            Some (rpcError i UnsupportedVersion ''Unsupported protocol version''
              (Obj [(''supported'', Arr (map Str SUPPORTED_PROTOCOL_VERSIONS)), (''requested'', Str version)]))
          else case hdr ''mcp-method'' of
              None \<Rightarrow> Some (mismatch i ''the Mcp-Method header is required'')
            | Some m \<Rightarrow>
                if m \<noteq> mthd then Some (mismatch i ''Mcp-Method does not match the body method'')
                else if mthd = ''tools/call'' then
                  (case hdr ''mcp-name'' of
                     None \<Rightarrow> Some (mismatch i ''the Mcp-Name header is required for tools/call'')
                   | Some raw \<Rightarrow>
                       (case decodeHeaderValue raw of
                          None \<Rightarrow> Some (mismatch i ''Mcp-Name does not match params.name'')
                        | Some n \<Rightarrow> if getp params ''name'' \<noteq> Str n then Some (mismatch i ''Mcp-Name does not match params.name'')
                            else None))
                else None)"

definition validateLegacy :: "js \<Rightarrow> string \<Rightarrow> (string \<Rightarrow> string option) \<Rightarrow> js option" where
  "validateLegacy i mthd hdr =
     (case hdr ''mcp-protocol-version'' of
        Some version \<Rightarrow>
          if mthd = ''initialize'' \<and> version \<notin> set SUPPORTED_PROTOCOL_VERSIONS then
            Some (rpcError i InvalidRequest (''unsupported MCP-Protocol-Version; supported: '' @
              join_on '', '' SUPPORTED_PROTOCOL_VERSIONS) Undef)
          else None
      | None \<Rightarrow> None)"

section \<open>Lemmas\<close>

lemma b64_std_char: "i < 64 \<Longrightarrow> b64_std (b64_char i)"
  by (auto simp: b64_std_def b64_char_def is_upper_def is_lower_def is_digit_def less_eq_char_def)

lemma base64_re_to_base64: "base64_re (to_base64 s)"
proof -
  let ?ns = "map of_char s :: nat list"
  have "\<forall>y \<in> set (sextets ?ns). y < 64" using sextets_less [of ?ns] by auto
  then have "\<forall>c \<in> set (map b64_char (sextets ?ns)). b64_std c" using b64_std_char by auto
  then have "dropWhile b64_std (to_base64 s) = dropWhile b64_std (b64_pad (length s))"
    unfolding to_base64_def by (intro dropWhile_append2) auto
  moreover have "\<not> b64_std (CHR ''='')" by (simp add: b64_std_def is_upper_def is_lower_def is_digit_def less_eq_char_def)
  ultimately show ?thesis by (simp add: base64_re_def b64_pad_def)
qed

lemma era_legacy_validated:
  "eraOf mthd params (hdr ''mcp-protocol-version'') = Legacy \<Longrightarrow> validateLegacy i mthd hdr = None \<Longrightarrow>
     mthd = ''initialize'' \<or> (\<exists>v \<in> set LEGACY_PROTOCOL_VERSIONS. hdr ''mcp-protocol-version'' = Some v)"
  by (auto simp: eraOf_def split: if_split_asm option.split_asm)

section \<open>Properties\<close>

text \<open>
  A header value survives its encoding: the base64 sentinel of any text decodes to that text,
  and a value of printable characters that is no sentinel is read as itself.
\<close>

theorem header_value_roundtrip:
  "decodeHeaderValue (SENTINEL_PREFIX @ to_base64 s @ SENTINEL_SUFFIX) = Some s \<and>
   (\<not> prefix SENTINEL_PREFIX v \<and> field_value_re v \<longrightarrow> decodeHeaderValue v = Some v)"
proof
  have "suffix SENTINEL_SUFFIX (SENTINEL_PREFIX @ to_base64 s @ SENTINEL_SUFFIX)"
    by (rule suffixI [of _ "SENTINEL_PREFIX @ to_base64 s"]) simp
  then show "decodeHeaderValue (SENTINEL_PREFIX @ to_base64 s @ SENTINEL_SUFFIX) = Some s"
    using slice_middle [of SENTINEL_PREFIX "to_base64 s" SENTINEL_SUFFIX]
    by (simp add: decodeHeaderValue_def Let_def base64_re_to_base64 from_base64_to_base64)
  show "\<not> prefix SENTINEL_PREFIX v \<and> field_value_re v \<longrightarrow> decodeHeaderValue v = Some v"
    by (simp add: decodeHeaderValue_def)
qed

theorem header_value_roundtrip_witness:
  "decodeHeaderValue ''run_a'' = Some ''run_a''"
  using header_value_roundtrip [of "[]" "''run_a''"] by (simp add: SENTINEL_PREFIX_def field_value_re_def less_eq_char_def)

text \<open>
  A modern request is served only when its headers and its body agree: one served version, the
  body's method, and for a tool call the tool's name. Every other request that reaches the
  dispatcher is the handshake or names a legacy version.
\<close>

theorem modern_request_agrees:
  "validateModern i mthd params hdr = None \<longleftrightarrow>
     (\<exists>v \<in> set MODERN_PROTOCOL_VERSIONS. hdr ''mcp-protocol-version'' = Some v \<and> metaVersion params = Str v) \<and>
     hdr ''mcp-method'' = Some mthd \<and>
     (if mthd = ''tools/call''
      then (case hdr ''mcp-name'' of None \<Rightarrow> False
        | Some raw \<Rightarrow> (case decodeHeaderValue raw of None \<Rightarrow> False | Some n \<Rightarrow> getp params ''name'' = Str n))
      else True)"
  by (auto simp: validateModern_def split: option.split_asm if_split_asm option.split)

text \<open>
  Reading a JSON-RPC request is total and inverts writing it: the object of an id, a method and
  parameters is read back as that request, and an accepted request is always such an object.
\<close>

theorem jsonrpc_request_iff:
  "parseJsonRpc raw = RpcRequest i m params \<longleftrightarrow>
     (\<exists>kvs. raw = Obj kvs \<and> getp raw ''jsonrpc'' = Str ''2.0'' \<and> getp raw ''method'' = Str m \<and>
        has_own kvs ''id'' \<and> rpc_id (getp raw ''id'') = i \<and> i \<noteq> Null \<and> getp raw ''params'' = params \<and> rpc_params_ok params)"
  by (cases raw) (auto simp: parseJsonRpc_def Let_def simp del: getp.simps split: js.split if_split_asm)

end
