(* ===== verification/McpEndpoint.thy ===== *)
theory McpEndpoint
  imports Http AccessToken McpProtocol
begin

text \<open>
  The MCP endpoint of a paddock (apps/data-plane/src/mcp/auth.ts, job-images.ts, endpoint.ts): who may
  call it, how a message is dispatched, what a tool call does. A handler is \<open>None\<close> where it
  throws. The URL parser and \<open>JSON.stringify\<close> are parameters.
\<close>

section \<open>Services\<close>

record mcp_deps =
  mc_dataPlaneUrl :: string
  mc_oidcIssuer :: string
  mc_verify :: "string \<Rightarrow> string \<Rightarrow> verify_out"
  mc_parse_url :: "string \<Rightarrow> url option"
  mc_stringify :: "js \<Rightarrow> string"
  mc_maxImageBytes :: int

definition MCP_MAX_IMAGE_BYTES :: int where
  "MCP_MAX_IMAGE_BYTES = 8 * 1024 * 1024"

section \<open>Authentication (auth.ts)\<close>

definition mcpChallenge :: "mcp_deps \<Rightarrow> string \<Rightarrow> string option" where
  "mcpChallenge mc slug =
     map_option (\<lambda>u. ''Bearer resource_metadata='' @ [CHR 0x22] @ u @ [CHR 0x22] @ '', scope='' @ [CHR 0x22] @ MCP_SCOPE @ [CHR 0x22])
       (protectedResourceMetadataUrl (mc_parse_url mc) (mcpResource (mc_dataPlaneUrl mc) slug))"

definition mcp_unauthorized :: "mcp_deps \<Rightarrow> string \<Rightarrow> string \<Rightarrow> response option" where
  "mcp_unauthorized mc slug body =
     map_option (\<lambda>ch. json_reply 401 [(''www-authenticate'', ch)] (Obj [(''error'', Str body)])) (mcpChallenge mc slug)"

definition mcp_refuse :: "mcp_deps \<Rightarrow> string \<Rightarrow> (response + resolved_key) option" where
  "mcp_refuse mc slug = map_option Inl (mcp_unauthorized mc slug ''invalid access token'')"

definition keys_unavailable :: response where
  "keys_unavailable = json_reply 503 [(''retry-after'', int_str (JWKS_COOLDOWN_MS div 1000))]
     (Obj [(''error'', Str ''access token keys unavailable'')])"

definition nullable :: "string option \<Rightarrow> js" where
  "nullable s = (case s of None \<Rightarrow> Null | Some t \<Rightarrow> Str t)"

definition claims_key :: "('l, 'j) deps \<Rightarrow> string \<Rightarrow> js \<Rightarrow> resolved_key option" where
  "claims_key d slug claims =
     (case (getp claims ''scope'', getp claims ''mm_kid'') of
        (Str scope, Str mm_kid) \<Rightarrow>
          if MCP_SCOPE \<notin> set (split_on (CHR '' '') scope) then None
          else (case d_keyById d mm_kid of
              None \<Rightarrow> None
            | Some k \<Rightarrow>
                if keyExpired (rk_expiresAt k) (d_now d) then None
                else if slug \<notin> set (rk_paddockSlugs k) then None
                else if getp claims ''client_id'' \<noteq> nullable (rk_oauthClientId k) then None
                else Some k)
      | _ \<Rightarrow> None)"

definition authenticateMcp :: "('l, 'j) deps \<Rightarrow> mcp_deps \<Rightarrow> string option \<Rightarrow> string \<Rightarrow> (response + resolved_key) option" where
  "authenticateMcp d mc authorization slug =
     (let tok = map_option trim (case authorization of Some h \<Rightarrow> if h = [] then None else bearer_match h | None \<Rightarrow> None) in
      case tok of
        None \<Rightarrow> map_option Inl (mcp_unauthorized mc slug ''missing access token'')
      | Some t \<Rightarrow>
          if t = [] then map_option Inl (mcp_unauthorized mc slug ''missing access token'')
          else if starts_with t ''mm_live_'' then mcp_refuse mc slug
          else (case mc_verify mc t (mcpResource (mc_dataPlaneUrl mc) slug) of
              KeySetUnavailable r m \<Rightarrow> Some (Inl keys_unavailable)
            | TokenRefused r \<Rightarrow> mcp_refuse mc slug
            | Claims c \<Rightarrow> (case claims_key d slug c of None \<Rightarrow> mcp_refuse mc slug | Some k \<Rightarrow> Some (Inr k))))"

section \<open>The bytes of a job's images (job-images.ts)\<close>

definition too_big :: "int \<Rightarrow> string" where
  "too_big cap = ''the job'' @ [CHR 0x27] @ ''s images exceed the '' @ int_str cap @ ''-byte limit for one MCP result''"

definition unfetchable :: string where
  "unfetchable = ''an output image could not be fetched''"

definition readCapped :: "http_resp \<Rightarrow> int \<Rightarrow> string option" where
  "readCapped r remaining =
     (case hr_body r of
        None \<Rightarrow> Some []
      | Some bytes \<Rightarrow> if bytes \<noteq> [] \<and> remaining < int (length bytes) then None else Some bytes)"

text \<open>The images of a result view have three strings each.\<close>

definition view_path :: "js \<Rightarrow> string" where
  "view_path img = ''/view?'' @ form_encode (map (\<lambda>k. (k, str_or_empty (getp img k))) [''filename'', ''subfolder'', ''type''])"

definition mime_type :: "http_resp \<Rightarrow> string" where
  "mime_type r =
     (case map_of (hr_headers r) ''content-type'' of
        None \<Rightarrow> ''image/png''
      | Some ct \<Rightarrow> let m = trim (hd (split_on (CHR '';'') ct)) in if m = [] then ''image/png'' else m)"

definition with_bytes :: "js \<Rightarrow> string \<Rightarrow> string \<Rightarrow> js" where
  "with_bytes img bytes mime =
     Obj (assoc_set (assoc_set (spread img) ''data'' (Str (to_base64 bytes))) ''mimeType'' (Str mime))"

fun attach_images :: "(http_req \<Rightarrow> http_resp option) \<Rightarrow> scope \<Rightarrow> int \<Rightarrow> int \<Rightarrow> js list \<Rightarrow> (string + js list) \<times> http_req list" where
  "attach_images net sc cap used [] = (Inr [], [])"
| "attach_images net sc cap used (img # imgs) =
     (let rq = raw sc ''GET'' (view_path img) [] in
      case net rq of
        None \<Rightarrow> (Inl unfetchable, [rq])
      | Some r \<Rightarrow>
          if \<not> resp_ok r then (Inl unfetchable, [rq])
          else if jnum_less (Fin (of_int (cap - used)))
              (Number (case map_of (hr_headers r) ''content-length'' of None \<Rightarrow> ''0'' | Some v \<Rightarrow> v)) then (Inl (too_big cap), [rq])
          else (case readCapped r (cap - used) of
              None \<Rightarrow> (Inl (too_big cap), [rq])
            | Some bytes \<Rightarrow>
                (let (res, rqs) = attach_images net sc cap (used + int (length bytes)) imgs in
                 (map_sum id ((#) (with_bytes img bytes (mime_type r))) res, rq # rqs))))"

definition attachImageBytes :: "(http_req \<Rightarrow> http_resp option) \<Rightarrow> scope \<Rightarrow> int \<Rightarrow> js \<Rightarrow> (string + js) \<times> http_req list" where
  "attachImageBytes net sc cap body =
     (let images = (case getp body ''images'' of Arr is \<Rightarrow> is | _ \<Rightarrow> []) in
      if getp body ''done'' \<noteq> Boolean True then
        (Inr (Obj [(''done'', Boolean False), (''images'', Arr images)]), [])
      else (let (res, rqs) = attach_images net sc cap 0 images in
        (map_sum id (\<lambda>out. Obj [(''done'', Boolean True), (''images'', Arr out)]) res, rqs)))"

section \<open>The breed of a scope\<close>

datatype breed_fence = ComfyFence comfy_fence | OllamaFence ollama_fence

definition parse_fence :: "scope \<Rightarrow> breed_fence option" where
  "parse_fence sc =
     (let v = rn_constraintJson (rp_fence (sc_paddock sc)) in
      case rp_breedId (sc_paddock sc) of
        Comfyui \<Rightarrow> map_option ComfyFence (comfyuiConstraint v)
      | Ollama \<Rightarrow> map_option OllamaFence (ollamaConstraint v))"

fun breed_tools :: "(jnum \<Rightarrow> string) \<Rightarrow> breed_fence \<Rightarrow> tool_def list" where
  "breed_tools num_str (ComfyFence f) = comfyToMcp num_str f"
| "breed_tools num_str (OllamaFence f) = ollamaToMcp f"

fun breed_mcpCall :: "breed_fence \<Rightarrow> string \<Rightarrow> js \<Rightarrow> call_plan" where
  "breed_mcpCall (ComfyFence f) name args = comfyMcpCall name args f"
| "breed_mcpCall (OllamaFence f) name args = ollamaMcpCall name args f"

fun breed_mcpResult :: "(js \<Rightarrow> string) \<Rightarrow> breed_fence \<Rightarrow> string \<Rightarrow> int \<Rightarrow> js \<Rightarrow> tool_result" where
  "breed_mcpResult stringify (ComfyFence f) name status body = comfyMcpResult name status body"
| "breed_mcpResult stringify (OllamaFence f) name status body = ollamaMcpResult stringify name status body f"

section \<open>Tool calls (endpoint.ts)\<close>

text \<open>\<open>/^\/result\/([^/]+)$/\<close>\<close>

definition result_path :: "string \<Rightarrow> string option" where
  "result_path path =
     (let r = drop 8 path in
      if starts_with path ''/result/'' \<and> r \<noteq> [] \<and> CHR ''/'' \<notin> set r then Some r else None)"

definition upstream_unreachable :: tool_result where
  "upstream_unreachable = toolError ''the upstream could not be reached''"

definition calls_made :: "http_req list \<Rightarrow> ('l, 'j) plane \<Rightarrow> ('l, 'j) plane" where
  "calls_made rqs s = fold called rqs s"

definition call_result :: "('l, 'j) deps \<Rightarrow> mcp_deps \<Rightarrow> breed_fence \<Rightarrow> string \<Rightarrow> string \<Rightarrow> scope \<Rightarrow> ('l, 'j) plane \<Rightarrow>
    tool_result \<times> ('l, 'j) plane" where
  "call_result d mc fence name encoded sc s =
     (let shape = breed_mcpResult (mc_stringify mc) fence name in
      case decodeURIComponent encoded of
        None \<Rightarrow> (upstream_unreachable, s)
      | Some jobId \<Rightarrow>
          (let ((status, body), s') = jobResult d sc jobId s in
           if status \<noteq> 200 then (shape status body, s')
           else (let (res, rqs) = attachImageBytes (d_net d) sc (mc_maxImageBytes mc) body in
             (case res of Inl e \<Rightarrow> toolError e | Inr b \<Rightarrow> shape 200 b, calls_made rqs s'))))"

definition call_ctx :: "planned_request \<Rightarrow> string \<Rightarrow> req_ctx" where
  "call_ctx rq slug = \<lparr>rq_method = pl_method rq, rq_path = pl_path rq,
     rq_headers = (if pl_body rq = Undef then [] else [(''content-type'', ''application/json'')]),
     rq_body = pl_body rq, rq_paddockSlug = slug\<rparr>"

definition call_run :: "('l, 'j) deps \<Rightarrow> mcp_deps \<Rightarrow> breed_fence \<Rightarrow> string \<Rightarrow> planned_request \<Rightarrow> scope \<Rightarrow> string \<Rightarrow>
    ('l, 'j) plane \<Rightarrow> tool_result \<times> ('l, 'j) plane" where
  "call_run d mc fence name rq sc slug s =
     (let (out, s') = run d sc (call_ctx rq slug) s; shape = breed_mcpResult (mc_stringify mc) fence name in
      (case out of
         ORefused r \<Rightarrow> toolError (refusalReason r)
       | OHandled status body \<Rightarrow> shape status body
       | OProxied resp up \<Rightarrow> shape (up_status up) (up_body up)
       | RunThrows \<Rightarrow> upstream_unreachable, s'))"

text \<open>Plan first; a planned call spends rate limit and quota, then runs.\<close>

definition callTool :: "('l, 'j) deps \<Rightarrow> mcp_deps \<Rightarrow> breed_fence \<Rightarrow> string \<Rightarrow> js \<Rightarrow> scope \<Rightarrow> string \<Rightarrow> ('l, 'j) plane \<Rightarrow>
    tool_result option \<times> ('l, 'j) plane" where
  "callTool d mc fence name args sc slug s =
     (case breed_mcpCall fence name args of
        NotPlanned e \<Rightarrow> (Some (toolError e), s)
      | Planned rq \<Rightarrow>
          (case limits d sc s of
             (LimitNotValidated, s1) \<Rightarrow> (None, s1)
           | (Limited r, s1) \<Rightarrow> (Some (toolError (refusalReason r)), s1)
           | (Proceed, s1) \<Rightarrow>
               (case (if pl_method rq = ''GET'' then result_path (pl_path rq) else None) of
                  Some encoded \<Rightarrow> apfst Some (call_result d mc fence name encoded sc s1)
                | None \<Rightarrow> apfst Some (call_run d mc fence name rq sc slug s1))))"

definition toolsCall :: "('l, 'j) deps \<Rightarrow> mcp_deps \<Rightarrow> breed_fence \<Rightarrow> js \<Rightarrow> js \<Rightarrow> scope \<Rightarrow> string \<Rightarrow> ('l, 'j) plane \<Rightarrow>
    ((int \<times> js) + tool_result) option \<times> ('l, 'j) plane" where
  "toolsCall d mc fence i params sc slug s =
     (case getp params ''name'' of
        Str name \<Rightarrow>
          if name \<notin> tl_name ` set (breed_tools (d_numstr d) fence) then
            (Some (Inl (200, rpcError i InvalidParams (''Unknown tool: '' @ name) Undef)), s)
          else apfst (map_option Inr) (callTool d mc fence name (or_else (getp params ''arguments'') (Obj [])) sc slug s)
      | _ \<Rightarrow> (Some (Inl (200, rpcError i InvalidParams ''params.name must be a string'' Undef)), s))"

section \<open>Dispatch (endpoint.ts)\<close>

definition tool_js :: "tool_def \<Rightarrow> js" where
  "tool_js t = Obj [(''name'', Str (tl_name t)), (''title'', Str (tl_title t)), (''description'', Str (tl_description t)),
     (''inputSchema'', tl_inputSchema t), (''annotations'', tl_annotations t)]"

fun content_js :: "mcp_content \<Rightarrow> js" where
  "content_js (TextContent t) = Obj [(''type'', Str ''text''), (''text'', Str t)]"
| "content_js (ImageContent dat mime) = Obj [(''type'', Str ''image''), (''data'', Str dat), (''mimeType'', Str mime)]"

definition result_fields :: "tool_result \<Rightarrow> (string \<times> js) list" where
  "result_fields r = [(''content'', Arr (map content_js (tr_content r)))] @
     (case tr_structured r of None \<Rightarrow> [] | Some v \<Rightarrow> [(''structuredContent'', v)]) @
     (if tr_isError r then [(''isError'', Boolean True)] else [])"

definition server_meta :: js where
  "server_meta = Obj [(SERVER_INFO_META, Obj [(''name'', Str ''metamodels''), (''version'', Str ''0.0.0'')])]"

definition method_not_found :: "js \<Rightarrow> string \<Rightarrow> js" where
  "method_not_found i mthd = rpcError i MethodNotFound (''method not found: '' @ mthd) Undef"

text \<open>The answers of an era to everything but a tool call.\<close>

definition modern_answer :: "js \<Rightarrow> string \<Rightarrow> tool_def list \<Rightarrow> int \<times> js" where
  "modern_answer i mthd tools =
     (if mthd = ''server/discover'' then
        (200, rpcResult i (Obj [(''resultType'', Str ''complete''), (''supportedVersions'', Arr (map Str SUPPORTED_PROTOCOL_VERSIONS)),
           (''capabilities'', Obj [(''tools'', Obj [])]), (''_meta'', server_meta), (''ttlMs'', NumI 0), (''cacheScope'', Str ''private'')]))
      else if mthd = ''tools/list'' then
        (200, rpcResult i (Obj [(''resultType'', Str ''complete''), (''tools'', Arr (map tool_js tools)), (''ttlMs'', NumI 0),
           (''cacheScope'', Str ''private''), (''_meta'', server_meta)]))
      else (404, method_not_found i mthd))"

definition legacy_answer :: "js \<Rightarrow> string \<Rightarrow> js \<Rightarrow> string \<Rightarrow> tool_def list \<Rightarrow> int \<times> js" where
  "legacy_answer i mthd params title tools =
     (if mthd = ''initialize'' then
        (200, rpcResult i (Obj [(''protocolVersion'', Str (legacyNegotiatedVersion (getp params ''protocolVersion''))),
           (''capabilities'', Obj [(''tools'', Obj [(''listChanged'', Boolean False)])]),
           (''serverInfo'', Obj [(''name'', Str ''metamodels''), (''title'', Str title), (''version'', Str ''0.0.0'')])]))
      else if mthd = ''ping'' then (200, rpcResult i (Obj []))
      else if mthd = ''tools/list'' then (200, rpcResult i (Obj [(''tools'', Arr (map tool_js tools))]))
      else (200, method_not_found i mthd))"

definition call_answer :: "era \<Rightarrow> js \<Rightarrow> (int \<times> js) + tool_result \<Rightarrow> int \<times> js" where
  "call_answer e i out =
     (case out of
        Inl a \<Rightarrow> a
      | Inr r \<Rightarrow>
          (200, rpcResult i (Obj (case e of
             Modern \<Rightarrow> [(''resultType'', Str ''complete'')] @ result_fields r @ [(''_meta'', server_meta)]
           | Legacy \<Rightarrow> result_fields r))))"

definition dispatch :: "('l, 'j) deps \<Rightarrow> mcp_deps \<Rightarrow> era \<Rightarrow> js \<Rightarrow> string \<Rightarrow> js \<Rightarrow> scope \<Rightarrow> string \<Rightarrow> ('l, 'j) plane \<Rightarrow>
    (int \<times> js) option \<times> ('l, 'j) plane" where
  "dispatch d mc e i mthd params sc slug s =
     (case parse_fence sc of
        None \<Rightarrow> (Some (200, rpcError i InternalError (''this paddock'' @ [CHR 0x27] @ ''s fence is invalid'') Undef), s)
      | Some fence \<Rightarrow>
          if mthd = ''tools/call'' then apfst (map_option (call_answer e i)) (toolsCall d mc fence i params sc slug s)
          else (let tools = breed_tools (d_numstr d) fence in
            (Some (case e of
               Modern \<Rightarrow> modern_answer i mthd tools
             | Legacy \<Rightarrow> legacy_answer i mthd params (rp_name (sc_paddock sc)) tools), s)))"

section \<open>The routes (endpoint.ts)\<close>

definition not_found :: response where
  "not_found = error_reply 404 ''not found''"

text \<open>\<open>GET /.well-known/oauth-protected-resource/p/:slug/mcp\<close>\<close>

definition mcp_metadata :: "('l, 'j) deps \<Rightarrow> mcp_deps option \<Rightarrow> string \<Rightarrow> response" where
  "mcp_metadata d mcp slug =
     (case mcp of
        None \<Rightarrow> not_found
      | Some mc \<Rightarrow>
          if \<not> slug_valid slug then not_found
          else (case d_getPaddock d slug of
              None \<Rightarrow> not_found
            | Some p \<Rightarrow>
                if rp_status p \<noteq> ActivePaddock then not_found
                else (let m = protectedResourceMetadata (mcpResource (mc_dataPlaneUrl mc) slug) (mc_oidcIssuer mc) [MCP_SCOPE] in
                  json_reply 200 [] (Obj [(''resource'', Str (rm_resource m)),
                    (''authorization_servers'', Arr (map Str (authorization_servers m))),
                    (''scopes_supported'', Arr (map Str (scopes_supported m))),
                    (''bearer_methods_supported'', Arr (map Str (bearer_methods_supported m)))]))))"

definition origin_refused :: response where
  "origin_refused = json_reply 403 [] (Obj [(''jsonrpc'', Str ''2.0''),
     (''error'', Obj [(''code'', NumI (rpc_code_int InvalidRequest)), (''message'', Str ''Origin not allowed'')])])"

definition mcp_request :: "('l, 'j) deps \<Rightarrow> mcp_deps \<Rightarrow> resolved_key \<Rightarrow> string \<Rightarrow> http_in \<Rightarrow> js \<Rightarrow> string \<Rightarrow> js \<Rightarrow> ('l, 'j) plane \<Rightarrow>
    response option \<times> ('l, 'j) plane" where
  "mcp_request d mc k slug q i mthd params s =
     (let e = eraOf mthd params (header q ''mcp-protocol-version'') in
      case (case e of Modern \<Rightarrow> validateModern i mthd params (header q) | Legacy \<Rightarrow> validateLegacy i mthd (header q)) of
        Some body \<Rightarrow> (Some (json_reply 400 [] body), s)
      | None \<Rightarrow>
          (case paddockScope d k slug of
             Inl r \<Rightarrow> (Some (refusal_reply r), s)
           | Inr sc \<Rightarrow> apfst (map_option (\<lambda>(status, body). json_reply status [] body)) (dispatch d mc e i mthd params sc slug s)))"

definition mcp_body :: "('l, 'j) deps \<Rightarrow> mcp_deps \<Rightarrow> int \<Rightarrow> resolved_key \<Rightarrow> string \<Rightarrow> http_in \<Rightarrow> ('l, 'j) plane \<Rightarrow>
    response option \<times> ('l, 'j) plane" where
  "mcp_body d mc maxSize k slug q s =
     (case read_text maxSize q of
        None \<Rightarrow> (Some bodyTooLarge, s)
      | Some t \<Rightarrow>
          (case d_parse d t of
             None \<Rightarrow> (Some (json_reply 400 [] (rpcError Null ParseError ''parse error'' Undef)), s)
           | Some msg \<Rightarrow>
               (case parseJsonRpc msg of
                  RpcInvalid i message \<Rightarrow> (Some (json_reply 400 [] (rpcError i InvalidRequest message Undef)), s)
                | RpcNotification m \<Rightarrow> (Some \<lparr>rs_status = 202, rs_headers = [], rs_body = NoBody\<rparr>, s)
                | RpcRequest i mthd params \<Rightarrow> mcp_request d mc k slug q i mthd params s)))"

text \<open>\<open>POST /p/:slug/mcp\<close>\<close>

definition mcp_post :: "('l, 'j) deps \<Rightarrow> mcp_deps option \<Rightarrow> int \<Rightarrow> string \<Rightarrow> http_in \<Rightarrow> ('l, 'j) plane \<Rightarrow>
    response option \<times> ('l, 'j) plane" where
  "mcp_post d mcp maxSize slug q s =
     (case mcp of
        None \<Rightarrow> (Some not_found, s)
      | Some mc \<Rightarrow>
          if \<not> slug_valid slug then (Some not_found, s)
          else (case (header q ''origin'', mc_parse_url mc (mc_dataPlaneUrl mc)) of
              (Some v, None) \<Rightarrow> (None, s)
            | (origin, u) \<Rightarrow>
                if (case origin of None \<Rightarrow> False | Some v \<Rightarrow> Some v \<noteq> map_option u_origin u) then (Some origin_refused, s)
                else (case authenticateMcp d mc (header q ''authorization'') slug of
                    None \<Rightarrow> (None, s)
                  | Some (Inl r) \<Rightarrow> (Some r, s)
                  | Some (Inr k) \<Rightarrow> mcp_body d mc maxSize k slug q s)))"

text \<open>Every other method on the endpoint, and everything below it.\<close>

definition mcp_other :: "mcp_deps option \<Rightarrow> response" where
  "mcp_other mcp =
     (if mcp = None then not_found
      else json_reply 405 [(''allow'', ''POST'')] (Obj [(''error'', Str ''method not allowed'')]))"

section \<open>Lemmas\<close>

lemma limits_grows: "grows_scoped sc' s (snd (limits d sc s))"
  using limits_frame [of d sc s] by (cases "limits d sc s") (auto simp: grows_scoped_def)

lemma raw_scoped: "scoped_call sc (raw sc m p [])"
  unfolding raw_def by (rule scoped_callI [OF raw_request_call]) simp

lemma attach_scoped: "attach_images net sc cap n imgs = (res, rqs) \<Longrightarrow> list_all (scoped_call sc) rqs"
proof (induction imgs arbitrary: n res rqs)
  case (Cons img imgs)
  from Cons.prems Cons.IH show ?case
    by (auto simp: Let_def raw_scoped split: option.split_asm prod.split_asm if_split_asm)
qed simp

lemma attachImageBytes_scoped: "attachImageBytes net sc cap body = (res, rqs) \<Longrightarrow> list_all (scoped_call sc) rqs"
  by (auto simp: attachImageBytes_def Let_def attach_scoped split: prod.split_asm if_split_asm)

lemma calls_made_grows: "list_all (scoped_call sc) rqs \<Longrightarrow> grows_scoped sc s (calls_made rqs s)"
proof (induction rqs arbitrary: s)
  case (Cons rq rqs)
  then have "grows_scoped sc s (called rq s)" "grows_scoped sc (called rq s) (calls_made rqs (called rq s))"
    by (auto intro: grows_called)
  then show ?case using grows_trans by (auto simp: calls_made_def)
qed (auto simp: calls_made_def)

lemma call_result_grows: "grows_scoped sc s (snd (call_result d mc fence name encoded sc s))"
proof (cases "decodeURIComponent encoded")
  case (Some jobId)
  obtain status body s' where j: "jobResult d sc jobId s = ((status, body), s')" by (metis prod.collapse)
  with jobResult_grows [of sc s d jobId] have g: "grows_scoped sc s s'" by simp
  obtain res rqs where a: "attachImageBytes (d_net d) sc (mc_maxImageBytes mc) body = (res, rqs)" by fastforce
  then have "grows_scoped sc s' (calls_made rqs s')" by (intro calls_made_grows attachImageBytes_scoped)
  with g have "grows_scoped sc s (calls_made rqs s')" by (rule grows_trans)
  with g Some j a show ?thesis by (simp add: call_result_def Let_def)
qed (auto simp: call_result_def)

lemma call_run_grows: "grows_scoped sc s (snd (call_run d mc fence name rq sc slug s))"
  using run_grows [of "call_ctx rq slug" sc s d]
  by (auto simp: call_run_def call_ctx_def Let_def split: prod.split)

lemma callTool_grows: "grows_scoped sc s (snd (callTool d mc fence name args sc slug s))"
proof (cases "breed_mcpCall fence name args")
  case (Planned rq)
  obtain l s1 where l: "limits d sc s = (l, s1)" by fastforce
  with limits_grows [of sc s d sc] have g: "grows_scoped sc s s1" by simp
  note steps = grows_trans [OF g call_result_grows] grows_trans [OF g call_run_grows]
  from g steps Planned l show ?thesis
    by (cases l) (auto simp: callTool_def split: option.split)
qed (auto simp: callTool_def)

lemma dispatch_grows: "grows_scoped sc s (snd (dispatch d mc e i mthd params sc slug s))"
  by (auto simp: dispatch_def toolsCall_def Let_def callTool_grows split: option.split js.split)

lemma dispatch_unchanged: "mthd \<noteq> ''tools/call'' \<Longrightarrow> snd (dispatch d mc e i mthd params sc slug s) = s"
  by (simp add: dispatch_def Let_def split: option.split)

text \<open>What a request on the endpoint leaves behind, it does as a key the token names and the paddock
  accepts, through the flock of that paddock.\<close>

lemma mcp_post_effects:
  "mcp_post d mcp maxSize slug q s = (r, s') \<Longrightarrow> s' \<noteq> s \<Longrightarrow>
     \<exists>mc k sc. mcp = Some mc \<and> slug_valid slug \<and> authenticateMcp d mc (header q ''authorization'') slug = Some (Inr k) \<and>
       paddockScope d k slug = Inr sc \<and> grows_scoped sc s s' \<and>
       (header q ''origin'' = None \<or> header q ''origin'' = map_option u_origin (mc_parse_url mc (mc_dataPlaneUrl mc)))"
  by (auto simp: mcp_post_def mcp_body_def mcp_request_def Let_def apfst_def map_prod_def
      split: option.split_asm if_split_asm sum.split_asm rpc_message.split_asm prod.split_asm)
    (metis dispatch_grows snd_conv)+

lemma claims_key_Some:
  "claims_key d slug c = Some k \<longleftrightarrow>
     (\<exists>scopes i. getp c ''scope'' = Str scopes \<and> MCP_SCOPE \<in> set (split_on (CHR '' '') scopes) \<and> getp c ''mm_kid'' = Str i \<and>
        d_keyById d i = Some k \<and> \<not> keyExpired (rk_expiresAt k) (d_now d) \<and> slug \<in> set (rk_paddockSlugs k) \<and>
        getp c ''client_id'' = nullable (rk_oauthClientId k))"
  by (auto simp: claims_key_def split: js.split option.split)

lemma authenticateMcp_Inr:
  assumes "authenticateMcp d mc authorization slug = Some (Inr k)"
  shows "\<exists>h t c. authorization = Some h \<and> bearer_match h = Some t \<and> \<not> prefix ''mm_live_'' (trim t) \<and>
    mc_verify mc (trim t) (mcpResource (mc_dataPlaneUrl mc) slug) = Claims c \<and> claims_key d slug c = Some k"
  using assms by (auto simp: authenticateMcp_def Let_def mcp_refuse_def mcp_unauthorized_def
      split: option.split_asm if_split_asm verify_out.split_asm)


definition demo_mcp :: mcp_deps where
  "demo_mcp = \<lparr>mc_dataPlaneUrl = ''http://d'', mc_oidcIssuer = ''http://i'',
     mc_verify = (\<lambda>t a. if t = ''tok'' \<and> a = ''http://d/p/pad/mcp''
       then Claims (Obj [(''scope'', Str ''mcp''), (''mm_kid'', Str ''k''), (''client_id'', Str ''c'')]) else TokenRefused ''no''),
     mc_parse_url = (\<lambda>u. None), mc_stringify = (\<lambda>v. []), mc_maxImageBytes = MCP_MAX_IMAGE_BYTES\<rparr>"

definition demo_call :: http_in where
  "demo_call = \<lparr>hi_method = ''POST'', hi_path = ''/p/pad/mcp'',
     hi_headers = [(''authorization'', ''Bearer tok''), (''mcp-protocol-version'', ''2025-06-18'')], hi_chunks = Some [''{}'']\<rparr>"

definition demo_call_body :: "js \<Rightarrow> js" where
  "demo_call_body v = Obj [(''jsonrpc'', Str ''2.0''), (''id'', NumI 1), (''method'', Str ''tools/call''),
     (''params'', Obj [(''name'', Str ''list_models'')])]"

lemma demo_call_spends:
  "pl_limiter (snd (mcp_post (demo_deps demo_call_body) (Some demo_mcp) 100 ''pad'' demo_call demo_plane)) = 1"
  by code_simp

section \<open>Properties\<close>





definition image_bytes :: "js \<Rightarrow> int" where
  "image_bytes v = int (length (from_base64 (str_or_empty (getp v ''data''))))"

lemma image_bytes_with [simp]: "image_bytes (with_bytes img bytes mime) = int (length bytes)"
  by (simp add: image_bytes_def with_bytes_def str_or_empty_def from_base64_to_base64)

lemma map_sum_Inr: "map_sum f g r = Inr y \<longleftrightarrow> (\<exists>x. r = Inr x \<and> y = g x)"
  by (cases r) auto

lemma attach_images_bounded:
  "attach_images net sc cap n imgs = (Inr out, rqs) \<Longrightarrow> n \<le> cap \<Longrightarrow>
     length out = length imgs \<and> n + sum_list (map image_bytes out) \<le> cap"
proof (induction imgs arbitrary: n out rqs)
  case (Cons img imgs)
  from Cons.prems obtain r bytes out' rqs' where r: "readCapped r (cap - n) = Some bytes"
    "attach_images net sc cap (n + int (length bytes)) imgs = (Inr out', rqs')" "out = with_bytes img bytes (mime_type r) # out'"
    by (auto simp: Let_def map_sum_Inr split: option.split_asm prod.split_asm if_split_asm)
  from r(1) Cons.prems(2) have "n + int (length bytes) \<le> cap"
    by (auto simp: readCapped_def split: option.split_asm if_split_asm)
  from Cons.IH [OF r(2) this] r(3) show ?case by simp
qed simp

text \<open>
  The images of a result are all there or none is: with its limit, a result carries every image
  of the job, as base64 of the bytes the flock sent, and the bytes together stay within the limit.
\<close>

theorem attached_images_bounded:
  assumes "attachImageBytes net sc cap body = (Inr b, rqs)" and "0 \<le> cap"
    and "getp body ''images'' = Arr images" and "getp body ''done'' = Boolean True"
  shows "\<exists>out. b = Obj [(''done'', Boolean True), (''images'', Arr out)] \<and> length out = length images \<and>
    sum_list (map image_bytes out) \<le> cap"
proof -
  from assms obtain out where "attach_images net sc cap 0 images = (Inr out, rqs)" "b = Obj [(''done'', Boolean True), (''images'', Arr out)]"
    by (auto simp: attachImageBytes_def map_sum_Inr split: prod.split_asm)
  with attach_images_bounded [of net sc cap 0 images out rqs] assms(2) show ?thesis by auto
qed

theorem attached_images_bounded_witness:
  "\<exists>b rqs out. attachImageBytes (\<lambda>rq. Some \<lparr>hr_status = 200, hr_headers = [], hr_body = Some ''xy''\<rparr>)
     \<lparr>sc_key = demo_resolved, sc_paddock = demo_paddock\<rparr> 2
     (Obj [(''done'', Boolean True), (''images'', Arr [Obj [(''filename'', Str ''f'')]])]) = (Inr b, rqs) \<and>
     b = Obj [(''done'', Boolean True), (''images'', Arr out)] \<and> sum_list (map image_bytes out) \<le> 2"
proof -
  let ?net = "\<lambda>rq :: http_req. Some \<lparr>hr_status = 200, hr_headers = [], hr_body = Some ''xy''\<rparr>"
  let ?sc = "\<lparr>sc_key = demo_resolved, sc_paddock = demo_paddock\<rparr>"
  let ?b = "Obj [(''done'', Boolean True), (''images'', Arr [Obj [(''filename'', Str ''f'')]])]"
  obtain b rqs where a: "attachImageBytes ?net ?sc 2 ?b = (Inr b, rqs)"
    by (simp add: attachImageBytes_def resp_ok_def readCapped_def Number_def trim_def white_def decimal_number_def is_digit_def
        less_eq_char_def exponent_def digits_value_def radix_digit_def Let_def)
  from attached_images_bounded [OF a] a show ?thesis by force
qed

end
