(* ===== verification/App.thy ===== *)
theory App
  imports McpEndpoint
begin

text \<open>
  The data plane's application (apps/data-plane/src/app.ts): health and readiness, the scoped result
  route, the proxy route, the MCP routes before them, the body limit in front of everything under
  \<open>/p\<close> and the headers on every response. The framework's router is a parameter: it hands
  each request over as a \<open>routed\<close>.
\<close>

section \<open>Routes\<close>

datatype routed =
    Healthz
  | Readyz
  | McpMetadata string
  | McpPost string
  | McpOther string
  | McpBelow string
  | ResultRoute string string
  | ProxyRoute string
  | NoRoute

definition upstream_path :: "string \<Rightarrow> string" where
  "upstream_path path = ''/'' @ join_on ''/'' (drop 3 (split_on (CHR ''/'') path))"

text \<open>How the readiness probe ends: its answer, or \<open>None\<close> where it throws.\<close>

definition readyz :: "bool option option \<Rightarrow> response" where
  "readyz readiness =
     (case readiness of
        None \<Rightarrow> json_reply 200 [] (Obj [(''ready'', Boolean True)])
      | Some (Some True) \<Rightarrow> json_reply 200 [] (Obj [(''ready'', Boolean True)])
      | _ \<Rightarrow> json_reply 503 [] (Obj [(''ready'', Boolean False)]))"

definition content_type :: "http_in \<Rightarrow> string" where
  "content_type q = (case header q ''content-type'' of None \<Rightarrow> [] | Some t \<Rightarrow> t)"

definition request_body :: "('l, 'j) deps \<Rightarrow> int \<Rightarrow> http_in \<Rightarrow> response + js" where
  "request_body d maxSize q =
     (if hi_method q = ''GET'' \<or> hi_method q = ''HEAD'' then Inr Undef
      else case read_text maxSize q of
          None \<Rightarrow> Inl bodyTooLarge
        | Some t \<Rightarrow>
            Inr (if sublist ''application/json'' (content_type q) then (case d_parse d t of Some v \<Rightarrow> v | None \<Rightarrow> Undef)
                 else Str t))"

definition request_ctx :: "string \<Rightarrow> http_in \<Rightarrow> js \<Rightarrow> req_ctx" where
  "request_ctx slug q body =
     \<lparr>rq_method = hi_method q, rq_path = upstream_path (hi_path q),
      rq_headers = (if content_type q = [] then [] else [(''content-type'', content_type q)]),
      rq_body = body, rq_paddockSlug = slug\<rparr>"

definition result_route :: "('l, 'j) deps \<Rightarrow> string \<Rightarrow> string \<Rightarrow> http_in \<Rightarrow> ('l, 'j) plane \<Rightarrow> response option \<times> ('l, 'j) plane" where
  "result_route d slug jobId q s =
     (case liveKey d q of
        Inl r \<Rightarrow> (Some r, s)
      | Inr k \<Rightarrow>
          (case paddockScope d k slug of
             Inl r \<Rightarrow> (Some (refusal_reply r), s)
           | Inr sc \<Rightarrow> (let ((status, body), s') = jobResult d sc jobId s in (Some (json_reply status [] body), s'))))"

definition run_reply :: "outcome \<Rightarrow> response option" where
  "run_reply out =
     (case out of
        ORefused r \<Rightarrow> Some (refusal_reply r)
      | OHandled status body \<Rightarrow> Some (json_reply status [] body)
      | OProxied resp up \<Rightarrow> Some resp
      | RunThrows \<Rightarrow> None)"

definition proxy_route :: "('l, 'j) deps \<Rightarrow> int \<Rightarrow> string \<Rightarrow> http_in \<Rightarrow> ('l, 'j) plane \<Rightarrow> response option \<times> ('l, 'j) plane" where
  "proxy_route d maxSize slug q s =
     (case liveKey d q of
        Inl r \<Rightarrow> (Some r, s)
      | Inr k \<Rightarrow>
          (case paddockScope d k slug of
             Inl r \<Rightarrow> (Some (refusal_reply r), s)
           | Inr sc \<Rightarrow>
               (case limits d sc s of
                  (LimitNotValidated, s1) \<Rightarrow> (None, s1)
                | (Limited r, s1) \<Rightarrow> (Some (refusal_reply r), s1)
                | (Proceed, s1) \<Rightarrow>
                    (case request_body d maxSize q of
                       Inl r \<Rightarrow> (Some r, s1)
                     | Inr body \<Rightarrow> apfst run_reply (run d sc (request_ctx slug q body) s1)))))"

fun under_p :: "routed \<Rightarrow> bool" where
  "under_p (McpPost slug) = True"
| "under_p (McpOther slug) = True"
| "under_p (McpBelow slug) = True"
| "under_p (ResultRoute slug jobId) = True"
| "under_p (ProxyRoute slug) = True"
| "under_p _ = False"

definition handle :: "('l, 'j) deps \<Rightarrow> mcp_deps option \<Rightarrow> bool option option \<Rightarrow> int \<Rightarrow> routed \<Rightarrow> http_in \<Rightarrow>
    ('l, 'j) plane \<Rightarrow> response option \<times> ('l, 'j) plane" where
  "handle d mcp readiness maxSize route q s =
     (case route of
        Healthz \<Rightarrow> (Some (json_reply 200 [] (Obj [(''status'', Str ''ok'')])), s)
      | Readyz \<Rightarrow> (Some (readyz readiness), s)
      | McpMetadata slug \<Rightarrow> (Some (mcp_metadata d mcp slug), s)
      | McpPost slug \<Rightarrow> mcp_post d mcp maxSize slug q s
      | McpOther slug \<Rightarrow> (Some (mcp_other mcp), s)
      | McpBelow slug \<Rightarrow> (Some not_found, s)
      | ResultRoute slug jobId \<Rightarrow> result_route d slug jobId q s
      | ProxyRoute slug \<Rightarrow> proxy_route d maxSize slug q s
      | NoRoute \<Rightarrow> (Some \<lparr>rs_status = 404, rs_headers = [(''content-type'', ''text/plain'')], rs_body = TextBody ''404 Not Found''\<rparr>, s))"

definition serve :: "('l, 'j) deps \<Rightarrow> mcp_deps option \<Rightarrow> bool option option \<Rightarrow> int \<Rightarrow> routed \<Rightarrow> http_in \<Rightarrow>
    ('l, 'j) plane \<Rightarrow> response \<times> ('l, 'j) plane" where
  "serve d mcp readiness maxSize route q s =
     (let (r, s') = (if under_p route \<and> declared_too_large maxSize q then (Some bodyTooLarge, s)
            else handle d mcp readiness maxSize route q s)
      in (secured (case r of Some a \<Rightarrow> a | None \<Rightarrow> internal_error), s'))"

section \<open>Lemmas\<close>

lemma request_ctx_own: "own_headers (rq_headers (request_ctx slug q body))"
  by (simp add: request_ctx_def)

lemma proxy_route_effects:
  assumes "proxy_route d maxSize slug q s = (r, s')" and "s' \<noteq> s"
  shows "\<exists>k sc. liveKey d q = Inr k \<and> paddockScope d k slug = Inr sc \<and> grows_scoped sc s s'"
proof -
  from assms obtain k where k: "liveKey d q = Inr k" by (auto simp: proxy_route_def split: sum.split_asm)
  with assms obtain sc where sc: "paddockScope d k slug = Inr sc" by (auto simp: proxy_route_def split: sum.split_asm)
  obtain l s1 where l: "limits d sc s = (l, s1)" by fastforce
  with limits_grows [of sc s d sc] have g: "grows_scoped sc s s1" by simp
  have "grows_scoped sc s s'"
  proof (cases "l = Proceed")
    case True
    show ?thesis
    proof (cases "request_body d maxSize q")
      case (Inr body)
      with True assms k sc l have "s' = snd (run d sc (request_ctx slug q body) s1)"
        by (auto simp: proxy_route_def apfst_def map_prod_def split: prod.split_asm)
      with grows_trans [OF g run_grows [OF request_ctx_own]] show ?thesis by simp
    qed (use True assms k sc l g in \<open>auto simp: proxy_route_def\<close>)
  next
    case False
    with assms k sc l g show ?thesis by (cases l) (auto simp: proxy_route_def)
  qed
  with k sc show ?thesis by blast
qed

lemma result_route_effects:
  assumes "result_route d slug jobId q s = (r, s')" and "s' \<noteq> s"
  shows "\<exists>k sc. liveKey d q = Inr k \<and> paddockScope d k slug = Inr sc \<and> grows_scoped sc s s'"
proof -
  from assms obtain k where k: "liveKey d q = Inr k" by (auto simp: result_route_def split: sum.split_asm)
  with assms obtain sc where sc: "paddockScope d k slug = Inr sc" by (auto simp: result_route_def split: sum.split_asm)
  with assms k have "s' = snd (jobResult d sc jobId s)"
    by (auto simp: result_route_def split: prod.split_asm)
  with k sc jobResult_grows show ?thesis by blast
qed

text \<open>The key a request acts as: the one its header presents, or the one its token names.\<close>

fun acts_as :: "('l, 'j) deps \<Rightarrow> mcp_deps option \<Rightarrow> routed \<Rightarrow> http_in \<Rightarrow> string \<Rightarrow> resolved_key \<Rightarrow> bool" where
  "acts_as d mcp (McpPost slug) q slug' k =
     (slug' = slug \<and> (\<exists>mc. mcp = Some mc \<and> authenticateMcp d mc (header q ''authorization'') slug = Some (Inr k)))"
| "acts_as d mcp (ResultRoute slug jobId) q slug' k = (slug' = slug \<and> liveKey d q = Inr k)"
| "acts_as d mcp (ProxyRoute slug) q slug' k = (slug' = slug \<and> liveKey d q = Inr k)"
| "acts_as d mcp _ q slug' k = False"

lemma handle_effects:
  assumes "handle d mcp readiness maxSize route q s = (r, s')" and "s' \<noteq> s"
  shows "\<exists>slug k sc. acts_as d mcp route q slug k \<and> paddockScope d k slug = Inr sc \<and> grows_scoped sc s s'"
proof (cases route)
  case (McpPost slug)
  with assms mcp_post_effects [of d mcp maxSize slug q s r s'] show ?thesis by (auto simp: handle_def)
next
  case (ResultRoute slug jobId)
  with assms result_route_effects [of d slug jobId q s r s'] show ?thesis by (auto simp: handle_def)
next
  case (ProxyRoute slug)
  with assms proxy_route_effects [of d maxSize slug q s r s'] show ?thesis by (auto simp: handle_def)
qed (use assms in \<open>auto simp: handle_def\<close>)

section \<open>Properties\<close>

text \<open>
  C1. No request on any route leaves anything behind (a rate-limit slot, a meter event, a job, an
  upstream call) unless it acts as a key, presented in its header or named by its access token, that
  is scoped to the paddock of its path, and that paddock is active with a readable credential. What
  it then sends goes to that paddock's flock only, carrying a content type and the flock's own
  credential and never the caller's, and what it meters is metered to that key, paddock and
  organization.
\<close>

theorem effects_need_a_scoped_key:
  assumes "serve d mcp readiness maxSize route q s = (r, s')" and "s' \<noteq> s"
  shows "\<exists>slug k p. acts_as d mcp route q slug k \<and> d_getPaddock d slug = Some p \<and> rp_status p = ActivePaddock \<and>
    slug \<in> set (rk_paddockSlugs k) \<and> rp_upstreamAuthError p = None \<and> grows_scoped \<lparr>sc_key = k, sc_paddock = p\<rparr> s s'"
proof -
  obtain r0 s0 where h: "handle d mcp readiness maxSize route q s = (r0, s0)" by fastforce
  with assms have "s0 = s'" by (auto simp: serve_def split: if_split_asm prod.split_asm)
  with handle_effects [OF h] assms(2) obtain slug k sc where a: "acts_as d mcp route q slug k"
    "paddockScope d k slug = Inr sc" "grows_scoped sc s s'" by blast
  from a(2) obtain p where "d_getPaddock d slug = Some p" "rp_status p = ActivePaddock" "slug \<in> set (rk_paddockSlugs k)"
    "rp_upstreamAuthError p = None" "sc = \<lparr>sc_key = k, sc_paddock = p\<rparr>" by (auto simp: paddockScope_Inr)
  with a(1,3) show ?thesis by blast
qed

definition demo_get :: http_in where
  "demo_get = \<lparr>hi_method = ''GET'', hi_path = ''/p/pad/api/tags'', hi_headers = [(''x-api-key'', ''mm_live_x'')], hi_chunks = None\<rparr>"

lemma demo_get_spends:
  "pl_limiter (snd (serve (demo_deps id) None None 100 (ProxyRoute ''pad'') demo_get demo_plane)) = 1"
  by code_simp

theorem effects_need_a_scoped_key_witness:
  "\<exists>k. acts_as (demo_deps id) None (ProxyRoute ''pad'') demo_get ''pad'' k \<and> ''pad'' \<in> set (rk_paddockSlugs k)"
proof -
  obtain r s' where p: "serve (demo_deps id) None None 100 (ProxyRoute ''pad'') demo_get demo_plane = (r, s')" by fastforce
  with demo_get_spends have "s' \<noteq> demo_plane" by (auto simp: demo_plane_def)
  from effects_need_a_scoped_key [OF p this] show ?thesis by auto
qed

text \<open>
  Every response carries the security headers, with their own values: those of an
  error, of an unknown route, and of a relayed answer whose upstream sends others.
\<close>

theorem every_response_secured:
  assumes "(k, v) \<in> set SECURITY_HEADERS"
  shows "map_of (rs_headers (fst (serve d mcp readiness maxSize route q s))) (lower k) = Some v"
proof -
  have "map_of (set_headers h (map (\<lambda>(k, v). (lower k, v)) SECURITY_HEADERS)) (lower k) = Some v" for h
    unfolding map_of_set_headers_last using assms
    by (auto simp: SECURITY_HEADERS_def lower_char_def is_upper_def less_eq_char_def char_of_eq_iff take_bit_eq_mod)
  then show ?thesis by (simp add: serve_def secured_def split: prod.split)
qed

theorem every_response_secured_witness:
  "map_of (rs_headers (fst (serve (demo_deps id) None None 100 NoRoute demo_get demo_plane))) (lower ''X-Content-Type-Options'') =
     Some ''nosniff''"
  by (rule every_response_secured) (simp add: SECURITY_HEADERS_def)

definition presents_key :: "http_in \<Rightarrow> bool" where
  "presents_key q = (case extractKey (header q ''authorization'') (header q ''x-api-key'') of None \<Rightarrow> False | Some p \<Rightarrow> p \<noteq> [])"

text \<open>
  A 401 does not grade a guess: every refused key that was presented gets the same response,
  whether it is unknown or has expired, on any data plane.
\<close>

theorem refused_keys_alike:
  assumes "presents_key q" and "presents_key q'" and "liveKey d q = Inl r" and "liveKey d' q' = Inl r'"
  shows "r = r' \<and> rs_status r = 401"
  using assms by (auto simp: presents_key_def liveKey_def unauthorizedKey_def split: option.split_asm if_split_asm)

theorem refused_keys_alike_witness:
  "unauthorizedKey NoKeyMatches = unauthorizedKey KeyHasExpired"
proof -
  let ?q = "\<lparr>hi_method = ''GET'', hi_path = [], hi_headers = [(''x-api-key'', ''mm_live_y'')], hi_chunks = None\<rparr>"
  have "presents_key ?q" "liveKey (demo_deps id) ?q = Inl (unauthorizedKey NoKeyMatches)" by code_simp+
  moreover have "presents_key demo_get" "liveKey ((demo_deps id)\<lparr>d_now := 100\<rparr>) demo_get = Inl (unauthorizedKey KeyHasExpired)"
    by code_simp+
  ultimately show ?thesis using refused_keys_alike by blast
qed

text \<open>
  The body of a request is held only within the limit: a body the proxy hands on has at most the
  permitted bytes and is what was sent; the read fails as soon as a chunk crosses it.
\<close>

theorem body_within_limit:
  assumes "0 \<le> maxSize"
  shows "read_text maxSize q = Some t \<longleftrightarrow>
    t = concat (case hi_chunks q of None \<Rightarrow> [] | Some cs \<Rightarrow> cs) \<and> int (length t) \<le> maxSize"
  using read_counted_Some [of maxSize 0] assms by (auto simp: read_text_def split: option.split)

theorem body_within_limit_witness:
  "read_text 3 \<lparr>hi_method = ''POST'', hi_path = [], hi_headers = [], hi_chunks = Some [''ab'', ''c'']\<rparr> = Some ''abc''"
  by (subst body_within_limit) simp_all

text \<open>
  What the proxy asks of the upstream is the rest of the path behind the paddock's prefix, byte
  for byte.
\<close>

theorem upstream_path_rest:
  assumes "slug_valid slug"
  shows "upstream_path (''/p/'' @ slug @ ''/'' @ rest) = ''/'' @ rest"
proof -
  have "CHR ''/'' \<notin> set slug" using assms slug_no_slash by (simp add: slug_valid_def)
  then have "split_on (CHR ''/'') (''/p/'' @ slug @ ''/'' @ rest) = [] # ''p'' # slug # split_on (CHR ''/'') rest"
    using split_on_append [of "CHR ''/''" slug rest] by simp
  then show ?thesis using join_split_on [of "CHR ''/''" rest] by (simp add: upstream_path_def)
qed

theorem upstream_path_rest_witness: "upstream_path ''/p/pad/api/chat'' = ''/api/chat''"
  using upstream_path_rest [of "''pad''" "''api/chat''"]
  by (simp add: slug_valid_def PADDOCK_SLUG_MAX_def slug_alnum_def is_lower_def is_digit_def less_eq_char_def)

datatype job_event = Settled scope job_outcome | Submitted job_record

fun job_events :: "('l, 'j) deps \<Rightarrow> string \<Rightarrow> job_event list \<Rightarrow> ('l, 'j) plane \<Rightarrow> ('l, 'j) plane" where
  "job_events d jobId [] s = s"
| "job_events d jobId (Settled sc oc # evs) s = job_events d jobId evs (settle_job d sc jobId oc s)"
| "job_events d jobId (Submitted r # evs) s = job_events d jobId evs (s\<lparr>pl_jobs := d_create d (pl_jobs s) r\<rparr>)"

fun event_ops :: "string \<Rightarrow> job_event list \<Rightarrow> job_op list" where
  "event_ops jobId [] = []"
| "event_ops jobId (Settled sc oc # evs) = (if oc_done oc then [MarkMetered jobId] else []) @ event_ops jobId evs"
| "event_ops jobId (Submitted r # evs) = Create r # event_ops jobId evs"

lemma job_events_wins:
  "d_mark d = pg_markMetered \<Longrightarrow> d_create d = pg_create \<Longrightarrow>
     length (pl_meters (job_events d jobId evs s)) =
       length (pl_meters s) + 2 * wins pg_create pg_markMetered jobId (pl_jobs s) (event_ops jobId evs)"
proof (induction evs arbitrary: s)
  case (Cons e evs)
  show ?case
  proof (cases e)
    case (Settled sc oc)
    obtain won j' where m: "pg_markMetered (pl_jobs s) jobId = (won, j')" by fastforce
    with Cons.prems(1) have st: "settle_job d sc jobId oc s =
       (if oc_done oc then (if won then emitScoped sc [\<lparr>me_dim = Images, me_value = Fin (of_nat (length (oc_images oc))), me_at = d_now d\<rparr>,
             \<lparr>me_dim = GpuMs, me_value = oc_gpuMs oc, me_at = d_now d\<rparr>] (s\<lparr>pl_jobs := j'\<rparr>) else s\<lparr>pl_jobs := j'\<rparr>) else s)"
      by (simp add: settle_job_def Let_def)
    with Settled m Cons.IH [OF Cons.prems, of "settle_job d sc jobId oc s"] show ?thesis by (auto simp: frames)
  next
    case (Submitted r)
    with Cons.IH [OF Cons.prems, of "s\<lparr>pl_jobs := d_create d (pl_jobs s) r\<rparr>"] Cons.prems(2) show ?thesis by simp
  qed
qed simp


definition demo_outcome :: job_outcome where
  "demo_outcome = \<lparr>oc_done = True, oc_images = [], oc_gpuMs = Fin 5\<rparr>"


end
