(* ===== verification/Period.thy ===== *)
theory Period
  imports Schema
begin

text \<open>
  Usage periods (packages/schema/src/period.ts). \<open>Date\<close>'s UTC fields follow the ECMAScript
  definition: days since the epoch, the largest year whose first day is not later, and the
  month from the day in the year. The bucket of a time is the text \<open>YYYY-MM-DDTHH\<close>, and the
  quota windows are prefixes of it.
\<close>

section \<open>UTC calendar fields of a time in milliseconds\<close>

definition day_of :: "int \<Rightarrow> int" where
  "day_of t = t div 86400000"

definition hours_of :: "int \<Rightarrow> nat" where
  "hours_of t = nat ((t div 3600000) mod 24)"

definition day_from_year :: "int \<Rightarrow> int" where
  "day_from_year y = 365 * (y - 1970) + (y - 1969) div 4 - (y - 1901) div 100 + (y - 1601) div 400"

text \<open>The largest \<open>y\<close> with \<open>day_from_year y \<le> d\<close>; the guess is off by at most one.\<close>

definition year_of_day :: "int \<Rightarrow> int" where
  "year_of_day d =
     (let g = 1970 + (400 * d) div 146097 in
      if day_from_year (g + 1) \<le> d then g + 1
      else if d < day_from_year g then g - 1 else g)"

definition leap :: "int \<Rightarrow> bool" where
  "leap y = (y mod 4 = 0 \<and> (y mod 100 \<noteq> 0 \<or> y mod 400 = 0))"

definition month_lengths :: "bool \<Rightarrow> int list" where
  "month_lengths lp = [31, if lp then 29 else 28, 31, 30, 31, 30, 31, 31, 30, 31, 30, 31]"

text \<open>The month (from 1) and the day in it, of a day in the year (from 0).\<close>

fun month_day :: "nat \<Rightarrow> int list \<Rightarrow> int \<Rightarrow> nat \<times> nat" where
  "month_day m [] d = (m, Suc (nat d))"
| "month_day m [l] d = (m, Suc (nat d))"
| "month_day m (l # k # ls) d = (if d < l then (m, Suc (nat d)) else month_day (Suc m) (k # ls) (d - l))"

definition utc_date :: "int \<Rightarrow> int \<times> nat \<times> nat" where
  "utc_date d =
     (let y = year_of_day d in (y, month_day 1 (month_lengths (leap y)) (d - day_from_year y)))"

section \<open>Buckets and prefixes\<close>

definition periodBucket :: "int \<Rightarrow> string" where
  "periodBucket atMs =
     (let (y, mo, da) = utc_date (day_of atMs) in
      int_str y @ ''-'' @ pad2 mo @ ''-'' @ pad2 da @ ''T'' @ pad2 (hours_of atMs))"

definition periodPrefix :: "quota_window \<Rightarrow> int \<Rightarrow> string" where
  "periodPrefix win atMs =
     (let bucket = periodBucket atMs in
      case win of Hour \<Rightarrow> bucket | Day \<Rightarrow> slice bucket 0 10 | Month \<Rightarrow> slice bucket 0 7)"

section \<open>The calendar is right\<close>

lemma div_step:
  fixes n k :: int
  assumes "0 < k"
  shows "(n + 1) div k = n div k + (if (n + 1) mod k = 0 then 1 else 0)"
proof (cases "(n + 1) mod k = 0")
  case True
  then have e: "n = k * ((n + 1) div k - 1) + (k - 1)"
    using mult_div_mod_eq [of k "n + 1"] by (simp add: algebra_simps)
  have "n div k = (n + 1) div k - 1" using assms by (intro int_div_pos_eq [OF e]) auto
  with True show ?thesis by simp
next
  case False
  have e: "n = k * ((n + 1) div k) + ((n + 1) mod k - 1)"
    using mult_div_mod_eq [of k "n + 1"] by linarith
  have "0 \<le> (n + 1) mod k" "(n + 1) mod k < k" using assms by simp_all
  then have "n div k = (n + 1) div k" using False by (intro int_div_pos_eq [OF e]) auto
  with False show ?thesis by simp
qed

lemma mod_shift: "c mod k = 0 \<Longrightarrow> (y - c) mod k = (y :: int) mod k"
  by (metis diff_zero mod_diff_right_eq)

lemma leap_arith:
  fixes y a b c :: int
  assumes "R \<Longrightarrow> Q" and "Q \<Longrightarrow> P"
  shows "365 * (y + 1 - 1970) + (a + (if P then 1 else 0)) - (b + (if Q then 1 else 0)) +
      (c + (if R then 1 else 0)) =
    365 * (y - 1970) + a - b + c + (if P \<and> (\<not> Q \<or> R) then 366 else 365)"
  using assms by (cases P; cases Q; cases R) simp_all

lemma day_from_year_step:
  "day_from_year (y + 1) = day_from_year y + (if leap y then 366 else 365)"
proof -
  have shift: "(y + 1 - c) div k = (y - c) div k + (if y mod k = 0 then 1 else 0)"
    if "0 < k" and "(c - 1) mod k = 0" for c k :: int
  proof -
    have e: "y + 1 - c = y - c + 1" "y - c + 1 = y - (c - 1)" by simp_all
    show ?thesis unfolding e(1) div_step [OF that(1), of "y - c"] unfolding e(2) mod_shift [OF that(2)] ..
  qed
  have d: "(y + 1 - 1969) div 4 = (y - 1969) div 4 + (if y mod 4 = 0 then 1 else 0)"
    "(y + 1 - 1901) div 100 = (y - 1901) div 100 + (if y mod 100 = 0 then 1 else 0)"
    "(y + 1 - 1601) div 400 = (y - 1601) div 400 + (if y mod 400 = 0 then 1 else 0)"
    by (rule shift, simp, simp)+
  show ?thesis unfolding day_from_year_def leap_def d by (rule leap_arith; presburger)
qed

lemma day_from_year_less: "y < z \<Longrightarrow> day_from_year y < day_from_year z"
proof (induction "nat (z - y)" arbitrary: z)
  case (Suc n)
  have step: "day_from_year (z - 1) < day_from_year z"
    using day_from_year_step [of "z - 1"] by (auto split: if_splits)
  show ?case
  proof (cases "y = z - 1")
    case False
    with Suc.prems Suc.hyps(2) have "day_from_year y < day_from_year (z - 1)"
      by (intro Suc.hyps(1)) auto
    with step show ?thesis by simp
  qed (use step in simp)
qed simp

lemma day_from_year_bounds:
  "146097 * (y - 1970) - 700 \<le> 400 * day_from_year y \<and>
   400 * day_from_year y \<le> 146097 * (y - 1970) + 700"
proof -
  have b: "n - k < k * (n div k) \<and> k * (n div k) \<le> n" if "0 < k" for n k :: int
    using that mult_div_mod_eq [of k n] pos_mod_bound [of k n] pos_mod_sign [of k n] by linarith
  have bs: "y - 1969 - 4 < 4 * ((y - 1969) div 4)" "4 * ((y - 1969) div 4) \<le> y - 1969"
    "y - 1901 - 100 < 100 * ((y - 1901) div 100)" "100 * ((y - 1901) div 100) \<le> y - 1901"
    "y - 1601 - 400 < 400 * ((y - 1601) div 400)" "400 * ((y - 1601) div 400) \<le> y - 1601"
    using b [of 4 "y - 1969"] b [of 100 "y - 1901"] b [of 400 "y - 1601"] by auto
  define a where "a = (y - 1969) div 4"
  define b where "b = (y - 1901) div 100"
  define c where "c = (y - 1601) div 400"
  have "day_from_year y = 365 * (y - 1970) + a - b + c"
    by (simp add: day_from_year_def a_def b_def c_def)
  with bs [folded a_def b_def c_def] show ?thesis by auto
qed

lemma year_of_day_correct:
  "day_from_year (year_of_day d) \<le> d \<and> d < day_from_year (year_of_day d + 1)"
proof -
  define g where "g = 1970 + (400 * d) div 146097"
  have "146097 * (g - 1970) \<le> 400 * d" "400 * d < 146097 * (g - 1970) + 146097"
    by (simp_all add: g_def)
  then have "day_from_year (g - 1) \<le> d" "d < day_from_year (2 + g)"
    using day_from_year_bounds [of "g - 1"] day_from_year_bounds [of "2 + g"] by simp_all
  then show ?thesis unfolding year_of_day_def Let_def g_def [symmetric] by auto
qed

lemma year_of_day_unique:
  "day_from_year y \<le> d \<Longrightarrow> d < day_from_year (y + 1) \<Longrightarrow> year_of_day d = y"
  using year_of_day_correct [of d] day_from_year_less [of "y + 1" "year_of_day d"]
    day_from_year_less [of "year_of_day d + 1" y]
  by (cases "y + 1" "year_of_day d" rule: linorder_cases;
      cases "year_of_day d + 1" y rule: linorder_cases) auto

lemma month_day_eq:
  assumes "\<forall>l \<in> set ls. l \<le> 31" and "0 \<le> d" and "d < sum_list ls" and "month_day m ls d = (mo, da)"
  shows "m \<le> mo \<and> mo < m + length ls \<and> 1 \<le> da \<and> da \<le> 31 \<and>
    d = sum_list (take (mo - m) ls) + int da - 1"
  using assms
proof (induction m ls d rule: month_day.induct)
  case (3 m l k ls d)
  show ?case
  proof (cases "d < l")
    case False
    with "3.prems" have *: "Suc m \<le> mo \<and> mo < Suc m + length (k # ls) \<and> 1 \<le> da \<and> da \<le> 31 \<and>
        d - l = sum_list (take (mo - Suc m) (k # ls)) + int da - 1"
      by (intro "3.IH") auto
    then have "mo - m = Suc (mo - Suc m)" by linarith
    with * show ?thesis by simp
  qed (use "3.prems" in auto)
qed auto

lemma month_lengths_sum: "sum_list (month_lengths lp) = (if lp then 366 else 365)"
  by (simp add: month_lengths_def)

lemma utc_date_fields:
  assumes "utc_date d = (y, mo, da)"
  shows "y = year_of_day d \<and> 1 \<le> mo \<and> mo \<le> 12 \<and> 1 \<le> da \<and> da \<le> 31 \<and>
    d = day_from_year y + sum_list (take (mo - 1) (month_lengths (leap y))) + int da - 1"
proof -
  from assms have y: "y = year_of_day d"
    and md: "month_day 1 (month_lengths (leap y)) (d - day_from_year y) = (mo, da)"
    by (auto simp: utc_date_def Let_def)
  from year_of_day_correct [of d] y
  have "0 \<le> d - day_from_year y" "d - day_from_year y < sum_list (month_lengths (leap y))"
    by (auto simp: day_from_year_step month_lengths_sum)
  with md show ?thesis
    using month_day_eq [of "month_lengths (leap y)" "d - day_from_year y" 1 mo da] y
    by (auto simp: month_lengths_def)
qed

lemma utc_date_bounds:
  assumes "utc_date d = (y, mo, da)"
  shows "mo < 100 \<and> da < 100"
  using utc_date_fields [OF assms] by linarith

lemma utc_date_inj:
  assumes "utc_date d = utc_date e"
  shows "d = e"
proof -
  obtain y mo da where d: "utc_date d = (y, mo, da)" by (metis prod_cases3)
  with assms have e: "utc_date e = (y, mo, da)" by simp
  from utc_date_fields [OF d] utc_date_fields [OF e] show ?thesis by metis
qed

section \<open>The bucket text determines the hour\<close>

lemma int_str_no_T: "CHR ''T'' \<notin> set (int_str y)"
  by (auto simp: int_str_def dec_not_in)

lemma minus_char_code: "(of_char CHR ''-'' :: nat) < 48"
  by simp

lemma int_str_inj: "int_str x = int_str y \<Longrightarrow> x = y"
proof -
  have minus: "dec n \<noteq> CHR ''-'' # s" "CHR ''-'' # s \<noteq> dec n" for n s
    using dec_not_in [of "CHR ''-''" n] by (metis list.set_intros(1) minus_char_code)+
  assume "int_str x = int_str y"
  then have "(x < 0 \<longleftrightarrow> y < 0) \<and> nat \<bar>x\<bar> = nat \<bar>y\<bar>"
    using minus by (auto simp: int_str_def split: if_splits dest: dec_inj)
  then show ?thesis by linarith
qed

lemma hours_of_less: "hours_of t < 24"
  by (simp add: hours_of_def nat_less_iff)

lemma periodBucket_eq:
  assumes "utc_date (day_of t) = (y, mo, da)"
  shows "periodBucket t = int_str y @ ''-'' @ pad2 mo @ ''-'' @ pad2 da @ ''T'' @ pad2 (hours_of t)"
  using assms by (simp add: periodBucket_def)

lemma day_of_hour: "day_of t = t div 3600000 div 24"
  using zdiv_zmult2_eq [of 24 t 3600000] by (simp add: day_of_def)

lemma hour_of_parts: "day_of t * 24 + int (hours_of t) = t div 3600000"
  by (simp add: day_of_hour hours_of_def)

text \<open>
  Two times fall into the same usage bucket exactly when they lie in the same UTC hour:
  the text \<open>YYYY-MM-DDTHH\<close> never merges two hours (across day, month, leap-year or
  century boundaries, or before the epoch) and never splits one.
\<close>

theorem periodBucket_eq_iff:
  "periodBucket s = periodBucket t \<longleftrightarrow> s div 3600000 = t div 3600000"
proof
  obtain y mo da where s: "utc_date (day_of s) = (y, mo, da)" by (metis prod_cases3)
  obtain y' mo' da' where t: "utc_date (day_of t) = (y', mo', da')" by (metis prod_cases3)
  assume "periodBucket s = periodBucket t"
  then have eq: "int_str y @ (''-'' @ pad2 mo @ ''-'' @ pad2 da @ ''T'' @ pad2 (hours_of s)) =
      int_str y' @ (''-'' @ pad2 mo' @ ''-'' @ pad2 da' @ ''T'' @ pad2 (hours_of t))"
    by (simp add: periodBucket_eq [OF s] periodBucket_eq [OF t])
  have len: "length (pad2 mo) = 2" "length (pad2 da) = 2" "length (pad2 (hours_of s)) = 2"
    "length (pad2 mo') = 2" "length (pad2 da') = 2" "length (pad2 (hours_of t)) = 2"
    using utc_date_bounds [OF s] utc_date_bounds [OF t] hours_of_less [of s] hours_of_less [of t]
    by (simp_all add: length_pad2)
  from eq have "int_str y = int_str y' \<and> pad2 mo = pad2 mo' \<and> pad2 da = pad2 da' \<and>
      pad2 (hours_of s) = pad2 (hours_of t)"
    by (subst (asm) append_eq_append_conv) (auto simp: len)
  moreover have "mo < 100" "mo' < 100" "da < 100" "da' < 100" "hours_of s < 100" "hours_of t < 100"
    using utc_date_bounds [OF s] utc_date_bounds [OF t] hours_of_less [of s] hours_of_less [of t]
    by linarith+
  ultimately have "y = y'" "mo = mo'" "da = da'" "hours_of s = hours_of t"
    using int_str_inj pad2_inj by blast+
  with s t have "day_of s = day_of t" using utc_date_inj by metis
  with \<open>hours_of s = hours_of t\<close> show "s div 3600000 = t div 3600000"
    using hour_of_parts [of s] hour_of_parts [of t] by simp
next
  assume h: "s div 3600000 = t div 3600000"
  then have "day_of s = day_of t" "hours_of s = hours_of t"
    by (simp_all only: day_of_hour hours_of_def)
  then show "periodBucket s = periodBucket t" by (simp only: periodBucket_def)
qed

section \<open>The quota windows are prefixes\<close>

text \<open>What a quota window means, without reference to the text of a bucket.\<close>

fun same_window :: "quota_window \<Rightarrow> int \<Rightarrow> int \<Rightarrow> bool" where
  "same_window Hour s t = (s div 3600000 = t div 3600000)"
| "same_window Day s t = (day_of s = day_of t)"
| "same_window Month s t =
     (fst (utc_date (day_of s)) = fst (utc_date (day_of t)) \<and>
      fst (snd (utc_date (day_of s))) = fst (snd (utc_date (day_of t))))"

definition four_digit_year :: "int \<Rightarrow> bool" where
  "four_digit_year t = (1000 \<le> fst (utc_date (day_of t)) \<and> fst (utc_date (day_of t)) \<le> 9999)"

lemma length_dec_4: "1000 \<le> n \<Longrightarrow> n \<le> 9999 \<Longrightarrow> length (dec n) = 4"
  by (simp add: dec_big dec_small)

lemma prefix_append_same_length:
  "length a = length b \<Longrightarrow> prefix (a @ x) (b @ y) \<longleftrightarrow> a = b \<and> prefix x y"
  by (induction a b rule: list_induct2) auto

lemma prefix_of_append_same_length:
  "length a = length b \<Longrightarrow> prefix a (b @ y) \<longleftrightarrow> a = b"
  using prefix_append_same_length [of a b "[]" y] by simp

lemma bucket_shape:
  assumes "four_digit_year t" and "utc_date (day_of t) = (y, mo, da)"
  shows "length (int_str y) = 4" and "length (pad2 mo) = 2" and "length (pad2 da) = 2"
    and "length (pad2 (hours_of t)) = 2"
    and "periodBucket t = int_str y @ ''-'' @ pad2 mo @ ''-'' @ pad2 da @ ''T'' @ pad2 (hours_of t)"
proof -
  from assms have y: "1000 \<le> y" "y \<le> 9999" by (simp_all add: four_digit_year_def)
  then have "1000 \<le> nat y" "nat y \<le> 9999" by linarith+
  with y show "length (int_str y) = 4" by (simp add: int_str_def length_dec_4)
  show "length (pad2 mo) = 2" "length (pad2 da) = 2" "length (pad2 (hours_of t)) = 2"
    using utc_date_bounds [OF assms(2)] hours_of_less [of t] by (simp_all add: length_pad2)
qed (rule periodBucket_eq [OF assms(2)])

lemma bucket_parts_inj:
  assumes "utc_date (day_of s) = (y, mo, da)" and "utc_date (day_of t) = (y', mo', da')"
  shows "int_str y = int_str y' \<longleftrightarrow> y = y'" and "pad2 mo = pad2 mo' \<longleftrightarrow> mo = mo'"
    and "pad2 da = pad2 da' \<longleftrightarrow> da = da'"
proof -
  have "mo < 100" "mo' < 100" "da < 100" "da' < 100"
    using utc_date_bounds [OF assms(1)] utc_date_bounds [OF assms(2)] by simp_all
  then show "int_str y = int_str y' \<longleftrightarrow> y = y'" "pad2 mo = pad2 mo' \<longleftrightarrow> mo = mo'"
    "pad2 da = pad2 da' \<longleftrightarrow> da = da'"
    using int_str_inj pad2_inj by blast+
qed

text \<open>
  The quota reader's \<open>period LIKE prefix || '%'\<close> selects exactly the buckets of the
  current window: a bucket written at time \<open>t\<close> matches the prefix computed at \<open>now\<close>
  if and only if \<open>t\<close> is in the same UTC hour, day or month as \<open>now\<close> (for years of four
  digits, where the source's fixed slice positions apply).
\<close>

theorem periodPrefix_selects_window:
  assumes "four_digit_year now" and "four_digit_year t"
  shows "prefix (periodPrefix win now) (periodBucket t) \<longleftrightarrow> same_window win t now"
proof -
  obtain y mo da where n: "utc_date (day_of now) = (y, mo, da)" by (metis prod_cases3)
  obtain y' mo' da' where t: "utc_date (day_of t) = (y', mo', da')" by (metis prod_cases3)
  note bn = bucket_shape [OF assms(1) n] and bt = bucket_shape [OF assms(2) t]
  have ten: "take 10 (periodBucket now) = int_str y @ ''-'' @ pad2 mo @ ''-'' @ pad2 da"
    and seven: "take 7 (periodBucket now) = int_str y @ ''-'' @ pad2 mo"
    by (simp_all add: bn)
  show ?thesis
  proof (cases win)
    case Hour
    have "length (periodBucket now) = length (periodBucket t)" by (simp add: bn bt)
    then have "prefix (periodBucket now) (periodBucket t) \<longleftrightarrow> periodBucket t = periodBucket now"
      using prefix_append_same_length [of "periodBucket now" "periodBucket t" "[]" "[]"] by auto
    with Hour show ?thesis by (simp add: periodPrefix_def periodBucket_eq_iff)
  next
    case Day
    have "(da = da' \<and> mo = mo' \<and> y = y') = (day_of t = day_of now)"
      using n t utc_date_inj by (metis prod.inject)
    with Day show ?thesis
      by (simp add: periodPrefix_def Let_def ten bt(5) prefix_append_same_length
          prefix_of_append_same_length bn bt bucket_parts_inj [OF n t]) blast
  next
    case Month
    then show ?thesis
      by (simp add: periodPrefix_def Let_def seven bt(5) prefix_append_same_length
          prefix_of_append_same_length bn bt bucket_parts_inj [OF n t] n t) blast
  qed
qed

theorem periodPrefix_selects_window_witness:
  "four_digit_year 1785160000000 \<and> four_digit_year 1785110400000 \<and>
   prefix (periodPrefix Day 1785160000000) (periodBucket 1785110400000)"
proof -
  have f: "four_digit_year 1785160000000" "four_digit_year 1785110400000" by code_simp+
  moreover have "same_window Day 1785110400000 1785160000000" by code_simp
  ultimately show ?thesis using periodPrefix_selects_window [OF f, of Day] by simp
qed

end
