(* ===== verification/Worker.thy ===== *)
theory Worker
  imports Pipeline Period
begin

text \<open>
  The metering path behind the data plane (packages/schema/src/stream.ts, apps/worker/src,
  apps/data-plane/src/meter): meter events are written to a stream, a worker reads them in batches
  through a consumer group, adds them to the hourly rollup and acknowledges them, and the quota gate
  reads the rollup back. The stream service is a parameter; what the worker relies on is
  \<open>stream_laws\<close>.
\<close>

section \<open>Events on the stream (stream.ts)\<close>

definition event_js :: "meter_record \<Rightarrow> js" where
  "event_js e = Obj [(''orgId'', Str (mr_orgId e)), (''keyId'', Str (mr_keyId e)), (''paddockId'', Str (mr_paddockId e)),
     (''breedId'', Str (breed_str (mr_breedId e))), (''dim'', Str (dim_str (mr_dim e))), (''value'', Num (mr_value e)),
     (''at'', NumI (mr_at e))]"

definition encodeMeterEvent :: "(js \<Rightarrow> string) \<Rightarrow> meter_record \<Rightarrow> string list" where
  "encodeMeterEvent stringify e = [''data'', stringify (event_js e)]"

text \<open>The field list of an entry; \<open>None\<close> where decoding throws.\<close>

definition decodeMeterEvent :: "(string \<Rightarrow> js option) \<Rightarrow> string list \<Rightarrow> js option" where
  "decodeMeterEvent parse flat =
     (case dropWhile (\<lambda>f. f \<noteq> ''data'') flat of
        i # payload # _ \<Rightarrow> parse payload
      | _ \<Rightarrow> None)"

definition encodeConfigInvalidation :: "string \<Rightarrow> int \<Rightarrow> js" where
  "encodeConfigInvalidation reason now = Obj [(''reason'', Str reason), (''at'', NumI now)]"

definition decodeConfigInvalidation :: "(string \<Rightarrow> js option) \<Rightarrow> string \<Rightarrow> js option" where
  "decodeConfigInvalidation parse payload =
     (case parse payload of
        None \<Rightarrow> None
      | Some v \<Rightarrow>
          (case (getp v ''reason'', getp v ''at'') of (Str r, Num t) \<Rightarrow> Some v | _ \<Rightarrow> None))"

text \<open>\<open>handleInvalidationMessage\<close>: whether the store is flushed.\<close>

definition handleInvalidationMessage :: "(string \<Rightarrow> js option) \<Rightarrow> string \<Rightarrow> bool" where
  "handleInvalidationMessage parse payload = (decodeConfigInvalidation parse payload \<noteq> None)"

section \<open>The rollup (aggregator.ts)\<close>

record rollup_event =
  ru_orgId :: string
  ru_keyId :: string
  ru_paddockId :: string
  ru_dim :: string
  ru_value :: jnum
  ru_at :: rat

text \<open>An entry the sink did not write has no event; its insert fails.\<close>

definition rollup_of :: "js \<Rightarrow> rollup_event option" where
  "rollup_of v =
     (case (as_str (getp v ''orgId''), as_str (getp v ''keyId''), as_str (getp v ''paddockId''), as_str (getp v ''dim''),
         as_num (getp v ''value''), as_num (getp v ''at'')) of
        (Some og, Some ky, Some pad, Some dm, Some n, Some (Fin t)) \<Rightarrow>
          Some \<lparr>ru_orgId = og, ru_keyId = ky, ru_paddockId = pad, ru_dim = dm, ru_value = n, ru_at = t\<rparr>
      | _ \<Rightarrow> None)"

definition event_ms :: "rollup_event \<Rightarrow> int" where
  "event_ms e = (if 0 \<le> ru_at e then \<lfloor>ru_at e\<rfloor> else \<lceil>ru_at e\<rceil>)"

definition int4 :: "int \<Rightarrow> bool" where
  "int4 n = (- (2 ^ 31) \<le> n \<and> n < 2 ^ 31)"

text \<open>The parameter of an \<open>integer\<close> column: whole and in range.\<close>

definition int4_param :: "jnum \<Rightarrow> int option" where
  "int4_param n = (case n of Fin q \<Rightarrow> if of_int \<lfloor>q\<rfloor> = q \<and> int4 \<lfloor>q\<rfloor> then Some \<lfloor>q\<rfloor> else None | _ \<Rightarrow> None)"

definition rollup_key :: "usage_row \<Rightarrow> string \<times> string \<times> string \<times> string \<times> string" where
  "rollup_key r = (r_orgId r, r_keyId r, r_paddockId r, r_period r, r_dim r)"

definition event_key :: "rollup_event \<Rightarrow> string \<times> string \<times> string \<times> string \<times> string" where
  "event_key e = (ru_orgId e, ru_keyId e, ru_paddockId e, periodBucket (event_ms e), ru_dim e)"

definition event_row :: "rollup_event \<Rightarrow> int \<Rightarrow> usage_row" where
  "event_row e v = \<lparr>r_orgId = ru_orgId e, r_keyId = ru_keyId e, r_paddockId = ru_paddockId e,
     r_period = periodBucket (event_ms e), r_dim = ru_dim e, r_value = v\<rparr>"

text \<open>One upsert: \<open>None\<close> where a foreign key or the column's range refuses it.\<close>

definition apply_event :: "db \<Rightarrow> rollup_event \<Rightarrow> db option" where
  "apply_event d e =
     (case int4_param (ru_value e) of
        None \<Rightarrow> None
      | Some v \<Rightarrow>
          if ru_orgId e \<notin> o_id ` set (orgs d) \<or> ru_keyId e \<notin> k_id ` set (keys d) \<or> ru_paddockId e \<notin> p_id ` set (paddocks d)
          then None
          else (case sel1 (\<lambda>r. rollup_key r = event_key e) (usage d) of
              None \<Rightarrow> Some (d\<lparr>usage := usage d @ [event_row e v]\<rparr>)
            | Some r \<Rightarrow>
                if int4 (r_value r + v) then
                  Some (d\<lparr>usage := upd (\<lambda>r. rollup_key r = event_key e) (\<lambda>r. r\<lparr>r_value := r_value r + v\<rparr>) (usage d)\<rparr>)
                else None))"

text \<open>The transaction: all of the events or none of them.\<close>

fun applyEvents :: "db \<Rightarrow> rollup_event list \<Rightarrow> db option" where
  "applyEvents d [] = Some d"
| "applyEvents d (e # es) = (case apply_event d e of None \<Rightarrow> None | Some d' \<Rightarrow> applyEvents d' es)"

section \<open>The consumer group (consumer.ts)\<close>

type_synonym entry = "string \<times> string list"

text \<open>The stream's commands, and the entries no consumer of the group has been given.\<close>

record 'r stream_ops =
  so_add :: "'r \<Rightarrow> string list \<Rightarrow> 'r"
  so_read :: "'r \<Rightarrow> string \<Rightarrow> nat \<Rightarrow> entry list \<times> 'r"
  so_ack :: "'r \<Rightarrow> string list \<Rightarrow> 'r"
  so_unread :: "'r \<Rightarrow> entry list"

text \<open>What the documentation of \<open>XREADGROUP .. >\<close> and \<open>XACK\<close> promises: a read hands out the
  next undelivered entries, at most the count, in their order, once; an acknowledgement delivers nothing.\<close>

definition stream_laws :: "'r stream_ops \<Rightarrow> bool" where
  "stream_laws ops =
     ((\<forall>r c n. fst (so_read ops r c n) @ so_unread ops (snd (so_read ops r c n)) = so_unread ops r \<and>
         length (fst (so_read ops r c n)) \<le> n) \<and>
      (\<forall>r ids. so_unread ops (so_ack ops r ids) = so_unread ops r))"

definition emit_to_stream :: "'r stream_ops \<Rightarrow> (js \<Rightarrow> string) \<Rightarrow> meter_record list \<Rightarrow> 'r \<Rightarrow> 'r" where
  "emit_to_stream ops stringify events r = fold (\<lambda>e r. so_add ops r (encodeMeterEvent stringify e)) events r"

definition batch_events :: "(string \<Rightarrow> js option) \<Rightarrow> entry list \<Rightarrow> js list option" where
  "batch_events parse entries = those (map (\<lambda>(i, flat). decodeMeterEvent parse flat) entries)"

section \<open>One cycle (worker.ts)\<close>

record 'r worker =
  wk_stream :: 'r
  wk_db :: db

datatype cycle_end = Idle | Processed "entry list" | NotCommitted "entry list" | NotAcked "entry list"

definition ackBatch :: "'r stream_ops \<Rightarrow> 'r \<Rightarrow> string list \<Rightarrow> 'r" where
  "ackBatch ops r ids = (if ids = [] then r else so_ack ops r ids)"

text \<open>What can fail outside the code: the database (\<open>db_up\<close>) and the acknowledgement
  (\<open>ack_ok\<close>). A cycle that throws is logged and the loop goes on with the next one.\<close>

definition processOnce :: "'r stream_ops \<Rightarrow> (string \<Rightarrow> js option) \<Rightarrow> string \<Rightarrow> bool \<Rightarrow> bool \<Rightarrow> 'r worker \<Rightarrow>
    cycle_end \<times> 'r worker" where
  "processOnce ops parse consumer db_up ack_ok w =
     (let (entries, r') = so_read ops (wk_stream w) consumer 100; w' = w\<lparr>wk_stream := r'\<rparr> in
      case batch_events parse entries of
        None \<Rightarrow> (NotCommitted entries, w')
      | Some vs \<Rightarrow>
          if vs = [] then (Idle, w')
          else (case (if db_up then (case those (map rollup_of vs) of None \<Rightarrow> None | Some es \<Rightarrow> applyEvents (wk_db w) es) else None) of
              None \<Rightarrow> (NotCommitted entries, w')
            | Some d' \<Rightarrow>
                if ack_ok then (Processed entries, \<lparr>wk_stream = ackBatch ops r' (map fst entries), wk_db = d'\<rparr>)
                else (NotAcked entries, w'\<lparr>wk_db := d'\<rparr>)))"

text \<open>The loop over a sequence of outages, with the entries of the cycles that did not commit.\<close>

fun worker_run :: "'r stream_ops \<Rightarrow> (string \<Rightarrow> js option) \<Rightarrow> string \<Rightarrow> (bool \<times> bool) list \<Rightarrow> 'r worker \<Rightarrow> entry list \<times> 'r worker" where
  "worker_run ops parse consumer [] w = ([], w)"
| "worker_run ops parse consumer ((db_up, ack_ok) # fs) w =
     (let (c, w') = processOnce ops parse consumer db_up ack_ok w; (dropped, w'') = worker_run ops parse consumer fs w' in
      (case c of NotCommitted es \<Rightarrow> es @ dropped | _ \<Rightarrow> dropped, w''))"

section \<open>The quota gate's reader (usage-reader.ts)\<close>

definition periodUsage :: "db \<Rightarrow> string \<Rightarrow> string \<Rightarrow> string \<Rightarrow> quota_window \<Rightarrow> int \<Rightarrow> int" where
  "periodUsage d keyId paddockId dm win atMs =
     sum_list (map r_value (sel (\<lambda>r. r_keyId r = keyId \<and> r_paddockId r = paddockId \<and> r_dim r = dm \<and>
       starts_with (r_period r) (periodPrefix win atMs)) (usage d)))"

section \<open>Lemmas\<close>

lemma decode_encode:
  "parse (stringify (event_js e)) = Some (event_js e) \<Longrightarrow>
     decodeMeterEvent parse (encodeMeterEvent stringify e) = Some (event_js e)"
  by (simp add: decodeMeterEvent_def encodeMeterEvent_def)

lemma rollup_of_event_js:
  "rollup_of (event_js e) = Some \<lparr>ru_orgId = mr_orgId e, ru_keyId = mr_keyId e, ru_paddockId = mr_paddockId e,
     ru_dim = dim_str (mr_dim e), ru_value = mr_value e, ru_at = of_int (mr_at e)\<rparr>"
  by (simp add: rollup_of_def event_js_def)

text \<open>What is recorded under the keys \<open>Q\<close>, and what an event adds to it.\<close>

definition recorded :: "(string \<times> string \<times> string \<times> string \<times> string \<Rightarrow> bool) \<Rightarrow> db \<Rightarrow> int" where
  "recorded Q d = sum_list (map (\<lambda>r. if Q (rollup_key r) then r_value r else 0) (usage d))"

definition amount :: "(string \<times> string \<times> string \<times> string \<times> string \<Rightarrow> bool) \<Rightarrow> rollup_event \<Rightarrow> int" where
  "amount Q e = (case int4_param (ru_value e) of Some v \<Rightarrow> if Q (event_key e) then v else 0 | None \<Rightarrow> 0)"

lemma rollup_key_row [simp]: "rollup_key (event_row e v) = event_key e"
  by (simp add: rollup_key_def event_key_def event_row_def)

lemma event_row_value [simp]: "r_value (event_row e v) = v"
  by (simp add: event_row_def)

lemma rollup_key_value [simp]: "rollup_key (r\<lparr>r_value := v\<rparr>) = rollup_key r"
  by (simp add: rollup_key_def)

lemma recorded_upd:
  "distinct (map rollup_key t) \<Longrightarrow> r \<in> set t \<Longrightarrow> rollup_key r = k \<Longrightarrow>
     sum_list (map (\<lambda>r. if Q (rollup_key r) then r_value r else 0)
       (upd (\<lambda>r. rollup_key r = k) (\<lambda>r. r\<lparr>r_value := r_value r + v\<rparr>) t)) =
     sum_list (map (\<lambda>r. if Q (rollup_key r) then r_value r else 0) t) + (if Q k then v else 0)"
proof (induction t)
  case (Cons a t)
  show ?case
  proof (cases "rollup_key a = k")
    case True
    with Cons.prems have "upd (\<lambda>r. rollup_key r = k) (\<lambda>r. r\<lparr>r_value := r_value r + v\<rparr>) t = t"
      by (intro upd_none) (auto simp: image_iff)
    with True show ?thesis by (simp add: upd_def)
  next
    case False
    with Cons show ?thesis by (auto simp: upd_def)
  qed
qed simp

lemma apply_event_recorded:
  assumes "apply_event d e = Some d'" and "distinct (map rollup_key (usage d))"
  shows "recorded Q d' = recorded Q d + amount Q e \<and> distinct (map rollup_key (usage d'))"
proof -
  from assms(1) obtain v where v: "int4_param (ru_value e) = Some v"
    by (auto simp: apply_event_def split: option.split_asm)
  show ?thesis
  proof (cases "sel1 (\<lambda>r. rollup_key r = event_key e) (usage d)")
    case None
    with assms v have "d' = d\<lparr>usage := usage d @ [event_row e v]\<rparr>"
      by (auto simp: apply_event_def split: if_split_asm)
    with None assms(2) v show ?thesis by (auto simp: recorded_def amount_def sel1_None)
  next
    case (Some r)
    with assms v have d': "d' = d\<lparr>usage := upd (\<lambda>r. rollup_key r = event_key e) (\<lambda>r. r\<lparr>r_value := r_value r + v\<rparr>) (usage d)\<rparr>"
      by (auto simp: apply_event_def split: if_split_asm)
    from sel1_Some [OF Some] recorded_upd [OF assms(2), of r "event_key e" Q v] v assms(2) show ?thesis
      by (simp add: d' recorded_def amount_def map_upd_key)
  qed
qed

lemma applyEvents_recorded:
  "applyEvents d es = Some d' \<Longrightarrow> distinct (map rollup_key (usage d)) \<Longrightarrow>
     recorded Q d' = recorded Q d + sum_list (map (amount Q) es) \<and> distinct (map rollup_key (usage d'))"
proof (induction es arbitrary: d)
  case (Cons e es)
  from Cons.prems(1) obtain d1 where d1: "apply_event d e = Some d1" "applyEvents d1 es = Some d'"
    by (auto split: option.split_asm)
  from apply_event_recorded [OF d1(1) Cons.prems(2), of Q] Cons.IH [OF d1(2)] show ?case by simp
qed simp

definition entry_amount :: "(string \<Rightarrow> js option) \<Rightarrow> (string \<times> string \<times> string \<times> string \<times> string \<Rightarrow> bool) \<Rightarrow> entry \<Rightarrow> int" where
  "entry_amount parse Q en =
     (case decodeMeterEvent parse (snd en) of None \<Rightarrow> 0
      | Some v \<Rightarrow> (case rollup_of v of None \<Rightarrow> 0 | Some e \<Rightarrow> amount Q e))"

lemma those_Some_Cons: "those (x # xs) = Some ys \<longleftrightarrow> (\<exists>y zs. x = Some y \<and> those xs = Some zs \<and> ys = y # zs)"
  by (cases x) auto

lemma batch_amount:
  "batch_events parse entries = Some vs \<Longrightarrow> those (map rollup_of vs) = Some es \<Longrightarrow>
     sum_list (map (entry_amount parse Q) entries) = sum_list (map (amount Q) es)"
proof (induction entries arbitrary: vs es)
  case (Cons en entries)
  obtain i flat where en: "en = (i, flat)" by fastforce
  from Cons.prems(1) en obtain v vs' where v: "decodeMeterEvent parse flat = Some v" "batch_events parse entries = Some vs'" "vs = v # vs'"
    by (auto simp: batch_events_def those_Some_Cons simp del: those.simps(2))
  from Cons.prems(2) v(3) obtain e es' where e: "rollup_of v = Some e" "those (map rollup_of vs') = Some es'" "es = e # es'"
    by (auto simp: those_Some_Cons simp del: those.simps(2))
  from Cons.IH [OF v(2) e(2)] v(1) e(1,3) en show ?case by (simp add: entry_amount_def)
qed (simp add: batch_events_def)

lemma processOnce_conserves:
  assumes laws: "stream_laws ops" and step: "processOnce ops parse consumer db_up ack_ok w = (c, w')"
    and inv: "distinct (map rollup_key (usage (wk_db w)))"
  shows "recorded Q (wk_db w') + sum_list (map (entry_amount parse Q) (case c of NotCommitted es \<Rightarrow> es | _ \<Rightarrow> [])) +
      sum_list (map (entry_amount parse Q) (so_unread ops (wk_stream w'))) =
      recorded Q (wk_db w) + sum_list (map (entry_amount parse Q) (so_unread ops (wk_stream w))) \<and>
    distinct (map rollup_key (usage (wk_db w')))"
proof -
  obtain entries r' where r: "so_read ops (wk_stream w) consumer 100 = (entries, r')" by fastforce
  from laws have law: "fst (so_read ops (wk_stream w) consumer 100) @ so_unread ops (snd (so_read ops (wk_stream w) consumer 100)) =
      so_unread ops (wk_stream w)" and ack: "so_unread ops (so_ack ops r' ids) = so_unread ops r'" for ids
    unfolding stream_laws_def by blast+
  from law r have un: "so_unread ops (wk_stream w) = entries @ so_unread ops r'" by simp
  show ?thesis
  proof (cases "batch_events parse entries")
    case None
    with step r inv un show ?thesis by (auto simp: processOnce_def Let_def)
  next
    case (Some vs)
    show ?thesis
    proof (cases "vs = [] \<or> \<not> db_up \<or> those (map rollup_of vs) = None")
      case True
      have "vs = [] \<Longrightarrow> entries = []" using Some by (cases entries) (auto simp: batch_events_def split: option.split_asm)
      with True Some step r inv un show ?thesis by (auto simp: processOnce_def Let_def split: if_split_asm)
    next
      case False
      then obtain es where es: "those (map rollup_of vs) = Some es" by auto
      show ?thesis
      proof (cases "applyEvents (wk_db w) es")
        case None
        with False es Some step r inv un show ?thesis by (auto simp: processOnce_def Let_def)
      next
        case (Some d')
        from applyEvents_recorded [OF Some inv, of Q] batch_amount [OF \<open>batch_events parse entries = Some vs\<close> es, of Q]
        have "recorded Q d' = recorded Q (wk_db w) + sum_list (map (entry_amount parse Q) entries)"
          "distinct (map rollup_key (usage d'))" by simp_all
        with Some False es \<open>batch_events parse entries = Some vs\<close> step r un ack show ?thesis
          by (auto simp: processOnce_def Let_def ackBatch_def split: if_split_asm)
      qed
    qed
  qed
qed

section \<open>Properties\<close>


text \<open>A list stream, for the witnesses: the entries not yet delivered.\<close>

definition list_stream :: "entry list stream_ops" where
  "list_stream = \<lparr>so_add = (\<lambda>r flat. r @ [([], flat)]), so_read = (\<lambda>r c n. (take n r, drop n r)),
     so_ack = (\<lambda>r ids. r), so_unread = (\<lambda>r. r)\<rparr>"

lemma list_stream_laws: "stream_laws list_stream"
  by (simp add: stream_laws_def list_stream_def)


text \<open>
  A batch that is not committed is lost: its cycle leaves the database as it was and its entries
  delivered, so no later read of the group hands them out again. One event that cannot be stored (its
  paddock was deleted, its value is no whole number) takes the whole batch with it.
\<close>

theorem uncommitted_batch_lost:
  assumes "stream_laws ops" and "processOnce ops parse consumer db_up ack_ok w = (NotCommitted es, w')"
  shows "wk_db w' = wk_db w \<and> so_unread ops (wk_stream w) = es @ so_unread ops (wk_stream w')"
proof -
  obtain entries r' where r: "so_read ops (wk_stream w) consumer 100 = (entries, r')" by fastforce
  from assms(1) have "fst (so_read ops (wk_stream w) consumer 100) @ so_unread ops (snd (so_read ops (wk_stream w) consumer 100)) =
      so_unread ops (wk_stream w)" unfolding stream_laws_def by blast
  with r assms(2) show ?thesis
    by (auto simp: processOnce_def Let_def split: option.split_asm if_split_asm)
qed

theorem uncommitted_batch_lost_witness:
  "\<exists>w'. processOnce list_stream (\<lambda>s. None) ''w'' True True \<lparr>wk_stream = [(''1'', [''data'', ''{}''])], wk_db = empty_db\<rparr> =
     (NotCommitted [(''1'', [''data'', ''{}''])], w') \<and> wk_db w' = empty_db \<and> so_unread list_stream (wk_stream w') = []"
proof -
  let ?w = "\<lparr>wk_stream = [(''1'', [''data'', ''{}''])], wk_db = empty_db\<rparr>"
  obtain w' where p: "processOnce list_stream (\<lambda>s. None) ''w'' True True ?w = (NotCommitted [(''1'', [''data'', ''{}''])], w')"
    by (simp add: processOnce_def list_stream_def batch_events_def decodeMeterEvent_def Let_def)
  from uncommitted_batch_lost [OF list_stream_laws p] have "wk_db w' = empty_db" "so_unread list_stream (wk_stream w') = []"
    by (simp_all add: list_stream_def)
  with p show ?thesis by blast
qed

text \<open>
  The quota gate reads what was metered: over a rollup built from events, the usage of a key on a
  paddock in the window of \<open>now\<close> is the sum of that key's events of the dimension whose own time
  lies in the same hour, day or month.
\<close>

theorem quota_reads_metered_usage:
  assumes "applyEvents d es = Some d'" and "usage d = []"
    and "four_digit_year now" and "\<forall>e \<in> set es. four_digit_year (event_ms e)"
  shows "periodUsage d' ky pad dm win now =
    sum_list (map (\<lambda>e. if ru_keyId e = ky \<and> ru_paddockId e = pad \<and> ru_dim e = dm \<and> same_window win (event_ms e) now
      then (case int4_param (ru_value e) of Some v \<Rightarrow> v | None \<Rightarrow> 0) else 0) es)"
proof -
  let ?Q = "\<lambda>(org, k, p, per, dm'). k = ky \<and> p = pad \<and> dm' = dm \<and> prefix (periodPrefix win now) per"
  have "periodUsage d' ky pad dm win now = recorded ?Q d'"
    by (simp add: periodUsage_def recorded_def rollup_key_def sel_def sum_list_map_filter')
  also have "\<dots> = sum_list (map (amount ?Q) es)"
    using applyEvents_recorded [OF assms(1), of ?Q] assms(2) by (simp add: recorded_def)
  also have "\<dots> = sum_list (map (\<lambda>e. if ru_keyId e = ky \<and> ru_paddockId e = pad \<and> ru_dim e = dm \<and> same_window win (event_ms e) now
      then (case int4_param (ru_value e) of Some v \<Rightarrow> v | None \<Rightarrow> 0) else 0) es)"
    using assms(3,4) by (intro arg_cong [where f = sum_list] map_cong)
      (auto simp: amount_def event_key_def periodPrefix_selects_window split: option.split)
  finally show ?thesis .
qed

definition demo_usage_key :: key_row where
  "demo_usage_key = \<lparr>k_id = ''k'', k_orgId = ''o'', k_name = [], k_prefix = [], k_hash = [], k_status = ActiveKey,
     k_expiresAt = None, k_overrides = Null, k_kind = LiveKey, k_grantId = None, k_oauthClientId = None, k_userId = None\<rparr>"

definition demo_usage_db :: db where
  "demo_usage_db = empty_db\<lparr>orgs := [\<lparr>o_id = ''o'', o_name = [], o_createdAt = 0\<rparr>], keys := [demo_usage_key],
     paddocks := [\<lparr>p_id = ''p'', p_orgId = ''o'', p_flockId = [], p_slug = [], p_name = [], p_status = ActivePaddock, p_theme = []\<rparr>]\<rparr>"

definition demo_event :: rollup_event where
  "demo_event = \<lparr>ru_orgId = ''o'', ru_keyId = ''k'', ru_paddockId = ''p'', ru_dim = ''jobs'', ru_value = Fin 3, ru_at = 1785110400000\<rparr>"

theorem quota_reads_metered_usage_witness:
  "\<exists>d'. applyEvents demo_usage_db [demo_event, demo_event] = Some d' \<and> periodUsage d' ''k'' ''p'' ''jobs'' Day 1785160000000 = 6"
proof -
  have "applyEvents demo_usage_db [demo_event, demo_event] \<noteq> None" by code_simp
  then obtain d' where a: "applyEvents demo_usage_db [demo_event, demo_event] = Some d'" by auto
  have f: "four_digit_year 1785160000000" "event_ms demo_event = 1785110400000" "four_digit_year 1785110400000"
    "same_window Day 1785110400000 1785160000000" "usage demo_usage_db = []" "int4_param (ru_value demo_event) = Some 3" by code_simp+
  from quota_reads_metered_usage [OF a f(5) f(1), of "''k''" "''p''" "''jobs''" Day] f a show ?thesis
    by (simp add: demo_event_def)
qed

end
