(* ===== verification/Access.thy ===== *)
theory Access
  imports Sealed
begin

text \<open>
  Who acts on the control plane, and what they may do (apps/control-plane/src/auth/authorize.ts,
  server/actor.ts, server/audit.ts, server/guard.ts). A service is a function from the database to
  an error or an answer with the new database: an error is a transaction rolled back. Rows a
  statement creates get their ids from the argument \<open>fresh\<close>.
\<close>

section \<open>Actors and capabilities (authorize.ts)\<close>

record actor =
  ac_id :: string
  ac_orgId :: string
  ac_email :: string
  ac_role :: role
  ac_grants :: "capability list option"
  ac_credential :: string

fun MATRIX :: "role \<Rightarrow> capability \<Rightarrow> bool" where
  "MATRIX Admin c = True"
| "MATRIX Member c = (c = CapRead \<or> c = CapResourceWrite)"
| "MATRIX Viewer c = (c = CapRead)"

definition authorize :: "role \<Rightarrow> capability list option \<Rightarrow> capability \<Rightarrow> bool" where
  "authorize r grants c = (MATRIX r c \<and> (case grants of None \<Rightarrow> True | Some gs \<Rightarrow> c \<in> set gs))"

datatype invite_reason = InviteInvalid | InviteExpired | InviteAccepted

datatype svc_error =
    Forbidden capability
  | NotFound string
  | InvalidInput
  | SlugTaken string
  | CredentialRebind
  | LastAdmin
  | SelfAction
  | SeatLimit
  | DuplicateInvite string
  | InviteRefused invite_reason
  | WeakPassword
  | BadDraft
  | SealFailed seal_error
  | NotAdmin string
  | DbFailure

definition requireCapability :: "actor \<Rightarrow> capability \<Rightarrow> svc_error + unit" where
  "requireCapability a c = (if authorize (ac_role a) (ac_grants a) c then Inr () else Inl (Forbidden c))"

definition may :: "actor \<Rightarrow> capability \<Rightarrow> bool" where
  "may a c = authorize (ac_role a) (ac_grants a) c"

text \<open>A service that begins with \<open>requireCapability\<close>.\<close>

definition guarded :: "actor \<Rightarrow> capability \<Rightarrow> (svc_error + 'a) \<Rightarrow> svc_error + 'a" where
  "guarded a c body = (case requireCapability a c of Inl e \<Rightarrow> Inl e | Inr u \<Rightarrow> body)"

definition isRole :: "js \<Rightarrow> role option" where
  "isRole v = Option.bind (as_str v) role_of"

section \<open>Actors from the database (actor.ts)\<close>

text \<open>A row's role column is a role; the enumeration is closed in the model of the table.\<close>

definition loadActiveActor :: "db \<Rightarrow> string \<Rightarrow> string \<Rightarrow> actor option" where
  "loadActiveActor d uid cred =
     (if \<not> is_uuid uid then None
      else case sel1 (\<lambda>u. u_id u = lower uid) (users d) of
          None \<Rightarrow> None
        | Some u \<Rightarrow>
            if u_status u \<noteq> ActiveUser then None
            else Some \<lparr>ac_id = u_id u, ac_orgId = u_orgId u, ac_email = u_email u, ac_role = u_role u,
                ac_grants = None, ac_credential = cred\<rparr>)"

text \<open>The pages' guard (guard.ts): sign in, not found, or the actor.\<close>

datatype page_guard = ToLogin | PageNotFound | PageFor actor

definition requireCapabilityOr403 :: "actor option \<Rightarrow> capability \<Rightarrow> page_guard" where
  "requireCapabilityOr403 who c =
     (case who of
        None \<Rightarrow> ToLogin
      | Some a \<Rightarrow> if authorize (ac_role a) (ac_grants a) c then PageFor a else PageNotFound)"

section \<open>The audit log (audit.ts)\<close>

definition writeAudit :: "actor \<Rightarrow> string \<Rightarrow> string \<Rightarrow> js \<Rightarrow> db \<Rightarrow> db" where
  "writeAudit a action target detail d =
     d\<lparr>audit := audit d @ [\<lparr>a_orgId = ac_orgId a, a_actor = ac_email a, a_action = action, a_target = target,
       a_detail = (if detail = Undef then Null else detail), a_changedBy = Some (ac_credential a)\<rparr>]\<rparr>"

section \<open>Lemmas\<close>

named_theorems audit_frames "the tables writeAudit leaves alone"

lemma writeAudit_frames [simp, audit_frames]:
  "orgs (writeAudit a x t v d) = orgs d" "users (writeAudit a x t v d) = users d"
  "invites (writeAudit a x t v d) = invites d" "entitlements (writeAudit a x t v d) = entitlements d"
  "flocks (writeAudit a x t v d) = flocks d" "paddocks (writeAudit a x t v d) = paddocks d"
  "fences (writeAudit a x t v d) = fences d" "templates (writeAudit a x t v d) = templates d"
  "keys (writeAudit a x t v d) = keys d" "key_paddocks (writeAudit a x t v d) = key_paddocks d"
  "usage (writeAudit a x t v d) = usage d" "jobs (writeAudit a x t v d) = jobs d"
  by (simp_all add: writeAudit_def)

lemma guarded_Inr [simp]: "guarded a c body = Inr x \<longleftrightarrow> may a c \<and> body = Inr x"
  by (simp add: guarded_def requireCapability_def may_def)

lemma guarded_denied: "\<not> may a c \<Longrightarrow> guarded a c body = Inl (Forbidden c)"
  by (simp add: guarded_def requireCapability_def may_def)

text \<open>The rows an audited operation adds: all of the actor's organization, all in its name.\<close>

definition audited_by :: "actor \<Rightarrow> db \<Rightarrow> db \<Rightarrow> bool" where
  "audited_by a d d' =
     (\<exists>rows. audit d' = audit d @ rows \<and> rows \<noteq> [] \<and>
        list_all (\<lambda>r. a_orgId r = ac_orgId a \<and> a_actor r = ac_email a \<and> a_changedBy r = Some (ac_credential a)) rows)"

lemma writeAudit_audited [intro]:
  "audit d' = audit d \<Longrightarrow> audited_by a d (writeAudit a x t v d')"
  by (simp add: audited_by_def writeAudit_def)

lemma writeAudit_more:
  "audited_by a d d' \<Longrightarrow> audited_by a d (writeAudit a x t v d')"
  by (auto simp: audited_by_def writeAudit_def)

text \<open>What belongs to other organizations than \<open>o\<close>, in the tables that name their organization.\<close>

definition others_kept :: "string \<Rightarrow> db \<Rightarrow> db \<Rightarrow> bool" where
  "others_kept og d d' =
     (orgs d' = orgs d \<and>
      filter (\<lambda>r. u_orgId r \<noteq> og) (users d') = filter (\<lambda>r. u_orgId r \<noteq> og) (users d) \<and>
      filter (\<lambda>r. i_orgId r \<noteq> og) (invites d') = filter (\<lambda>r. i_orgId r \<noteq> og) (invites d) \<and>
      filter (\<lambda>r. e_orgId r \<noteq> og) (entitlements d') = filter (\<lambda>r. e_orgId r \<noteq> og) (entitlements d) \<and>
      filter (\<lambda>r. f_orgId r \<noteq> og) (flocks d') = filter (\<lambda>r. f_orgId r \<noteq> og) (flocks d) \<and>
      filter (\<lambda>r. p_orgId r \<noteq> og) (paddocks d') = filter (\<lambda>r. p_orgId r \<noteq> og) (paddocks d) \<and>
      filter (\<lambda>r. k_orgId r \<noteq> og) (keys d') = filter (\<lambda>r. k_orgId r \<noteq> og) (keys d) \<and>
      filter (\<lambda>r. a_orgId r \<noteq> og) (audit d') = filter (\<lambda>r. a_orgId r \<noteq> og) (audit d))"

lemma others_kept_refl [simp]: "others_kept og d d"
  by (simp add: others_kept_def)

lemma others_kept_trans: "others_kept og d d' \<Longrightarrow> others_kept og d' d'' \<Longrightarrow> others_kept og d d''"
  by (simp add: others_kept_def)

lemma others_kept_audit [simp]: "others_kept (ac_orgId a) d (writeAudit a x t v d')  = others_kept (ac_orgId a) d d'"
  by (simp add: others_kept_def writeAudit_def)

lemma filter_upd: "(\<And>r. P r \<Longrightarrow> \<not> Q r \<and> \<not> Q (f r)) \<Longrightarrow> filter Q (upd P f t) = filter Q t"
  by (induction t) (auto simp: upd_def)

lemma filter_del: "(\<And>r. P r \<Longrightarrow> \<not> Q r) \<Longrightarrow> filter Q (del P t) = filter Q t"
  by (induction t) (auto simp: del_def)

section \<open>Property\<close>

text \<open>
  A token's scopes only ever narrow: what an actor with scopes may do is what its role may do and
  its scopes name, so a token without scopes may do nothing, whatever the role; and
  an actor that may not do it is refused before anything is read or written.
\<close>

theorem grants_only_narrow:
  "(authorize r (Some gs) c \<longleftrightarrow> authorize r None c \<and> c \<in> set gs) \<and> \<not> authorize r (Some []) c \<and>
   (\<not> may a c \<longrightarrow> guarded a c body = Inl (Forbidden c))"
  by (simp add: authorize_def guarded_denied)

definition demo_actor :: actor where
  "demo_actor = \<lparr>ac_id = ''u'', ac_orgId = ''o'', ac_email = ''e'', ac_role = Admin, ac_grants = None, ac_credential = ''session''\<rparr>"

theorem grants_only_narrow_witness:
  "guarded (demo_actor\<lparr>ac_role := Viewer\<rparr>) CapResourceWrite (Inr ()) = Inl (Forbidden CapResourceWrite)"
  using grants_only_narrow [where a = "demo_actor\<lparr>ac_role := Viewer\<rparr>" and c = CapResourceWrite and body = "Inr ()"]
  by (simp add: may_def authorize_def demo_actor_def)

end
