(* ===== verification/Paging.thy ===== *)
theory Paging
  imports Access JsText
begin

text \<open>
  Pages of a collection (apps/control-plane/src/server/page.ts, path-id.ts, and the GET routes of
  app/api/admin/v1): the query's options, the opaque cursor, the page a service answers, the cursor of
  the next page. A query string is the list of its pairs; the first of a repeated key counts.
\<close>

section \<open>Options and cursors (page.ts, path-id.ts)\<close>

type_synonym page_opts = "nat \<times> string option"

definition DEFAULT_LIMIT :: nat where
  "DEFAULT_LIMIT = 50"

definition MAX_LIMIT :: nat where
  "MAX_LIMIT = 200"

text \<open>\<open>z.coerce.number().int().min(1).max(n)\<close>\<close>

definition int_param :: "nat \<Rightarrow> string \<Rightarrow> nat option" where
  "int_param most raw =
     (case Number raw of
        Fin q \<Rightarrow> if of_int \<lfloor>q\<rfloor> = q \<and> 1 \<le> q \<and> q \<le> of_nat most then Some (nat \<lfloor>q\<rfloor>) else None
      | _ \<Rightarrow> None)"

definition parsePageOpts :: "(string \<times> string) list \<Rightarrow> page_opts option" where
  "parsePageOpts q =
     map_option (\<lambda>n. (n, map_of q ''cursor''))
       (case map_of q ''limit'' of None \<Rightarrow> Some DEFAULT_LIMIT | Some raw \<Rightarrow> int_param MAX_LIMIT raw)"

definition encodeCursor :: "string \<Rightarrow> string" where
  "encodeCursor i = to_b64u i"

definition decodeCursor :: "string \<Rightarrow> string option" where
  "decodeCursor c =
     (if c = [] \<or> \<not> list_all b64_ok c then None
      else let u = of_b64u c in if is_uuid u then Some u else None)"

text \<open>A path segment that names a resource, or the validation error.\<close>

definition parsePathId :: "string \<Rightarrow> svc_error + string" where
  "parsePathId s = (if is_uuid s then Inr s else Inl InvalidInput)"

text \<open>The text of a uuid compared with a uuid column: the column prints in lower case.\<close>

abbreviation uuid_lit :: "string \<Rightarrow> string" where
  "uuid_lit s \<equiv> lower s"

section \<open>A page\<close>

text \<open>\<open>where .. and id > cursor order by id limit n\<close>; without options, every row.\<close>

definition page_of :: "('r \<Rightarrow> string) \<Rightarrow> page_opts option \<Rightarrow> 'r list \<Rightarrow> svc_error + 'r list" where
  "page_of rid opts rows =
     (case opts of
        None \<Rightarrow> Inr (sort_key rid rows)
      | Some (n, None) \<Rightarrow> Inr (take n (sort_key rid rows))
      | Some (n, Some c) \<Rightarrow>
          (case decodeCursor c of
             None \<Rightarrow> Inl InvalidInput
           | Some k \<Rightarrow> Inr (take n (sort_key rid (filter (\<lambda>r. uuid_lit k < rid r) rows)))))"

definition next_cursor :: "('r \<Rightarrow> string) \<Rightarrow> nat \<Rightarrow> 'r list \<Rightarrow> string option" where
  "next_cursor rid n rows = (if length rows = n then Some (encodeCursor (rid (last rows))) else None)"

text \<open>\<open>searchParams.set\<close>\<close>

fun set_param :: "(string \<times> string) list \<Rightarrow> string \<Rightarrow> string \<Rightarrow> (string \<times> string) list" where
  "set_param [] k v = [(k, v)]"
| "set_param ((k', v') # q) k v = (if k' = k then (k, v) # filter (\<lambda>(k', v'). k' \<noteq> k) q else (k', v') # set_param q k v)"

definition linkHeader :: "string \<Rightarrow> (string \<times> string) list \<Rightarrow> string option \<Rightarrow> (string \<times> string) list" where
  "linkHeader path q next =
     (case next of
        None \<Rightarrow> []
      | Some c \<Rightarrow>
          [(''Link'', ''<'' @ path @ ''?'' @
             form_encode (set_param q ''cursor'' c) @ ''>; rel='' @ [CHR 0x22] @ ''next'' @ [CHR 0x22])])"

text \<open>A client that follows every link; \<open>None\<close> when the fuel does not suffice.\<close>

fun walk :: "('r \<Rightarrow> string) \<Rightarrow> nat \<Rightarrow> 'r list \<Rightarrow> nat \<Rightarrow> string option \<Rightarrow> (svc_error + 'r list) option" where
  "walk rid n rows 0 cursor = None"
| "walk rid n rows (Suc fuel) cursor =
     (case page_of rid (Some (n, cursor)) rows of
        Inl e \<Rightarrow> Some (Inl e)
      | Inr page \<Rightarrow>
          (case next_cursor rid n page of
             None \<Rightarrow> Some (Inr page)
           | Some c \<Rightarrow> map_option (map_sum id ((@) page)) (walk rid n rows fuel (Some c))))"

section \<open>Lemmas\<close>

lemma is_uuid_nonempty: "is_uuid s \<Longrightarrow> s \<noteq> []"
  by (auto simp: is_uuid_def)

lemma decode_encodeCursor: "is_uuid i \<Longrightarrow> decodeCursor (encodeCursor i) = Some i"
proof -
  assume u: "is_uuid i"
  then obtain c cs where "i = c # cs" using is_uuid_nonempty by (cases i) auto
  then have "to_b64u i \<noteq> []" by (cases i rule: to_b64u.cases) auto
  with u to_b64u_ok [of i] show ?thesis by (simp add: decodeCursor_def encodeCursor_def Let_def)
qed

lemma strict_sort_key:
  assumes "distinct (map rid rows)"
  shows "sorted_wrt (\<lambda>a b. rid a < rid b) (sort_key rid rows)"
proof -
  have "sorted (map rid (sort_key rid rows))" by simp
  moreover have "distinct (map rid (sort_key rid rows))"
    using assms by (metis distinct_map distinct_sort set_sort)
  ultimately have "sorted_wrt (<) (map rid (sort_key rid rows))" by (simp add: strict_sorted_iff)
  then show ?thesis by (simp add: sorted_wrt_map)
qed

lemma filter_beyond:
  assumes "sorted_wrt (\<lambda>a b. rid a < (rid b :: string)) (ys @ zs)" and "ys \<noteq> []"
  shows "filter (\<lambda>r. rid (last ys) < rid r) (ys @ zs) = zs"
proof -
  from assms have le: "\<forall>r \<in> set ys. \<not> rid (last ys) < rid r"
    by (cases ys rule: rev_cases) (auto simp: sorted_wrt_append)
  from assms have gt: "\<forall>r \<in> set zs. rid (last ys) < rid r"
    by (cases ys rule: rev_cases) (auto simp: sorted_wrt_append)
  from le have "filter (\<lambda>r. rid (last ys) < rid r) ys = []" by (simp add: filter_empty_conv)
  moreover from gt have "filter (\<lambda>r. rid (last ys) < rid r) zs = zs" by (simp add: filter_id_conv)
  ultimately show ?thesis by simp
qed

lemma walk_from:
  assumes "sort_key rid rows = ys @ zs" and "distinct (map rid rows)"
    and "\<forall>r \<in> set rows. is_uuid (rid r) \<and> uuid_lit (rid r) = rid r" and "0 < n" and "length zs < fuel"
    and "cursor = (if ys = [] then None else Some (encodeCursor (rid (last ys))))"
  shows "walk rid n rows fuel cursor = Some (Inr zs)"
  using assms
proof (induction fuel arbitrary: ys zs cursor)
  case (Suc fuel)
  have strict: "sorted_wrt (\<lambda>a b. rid a < rid b) (ys @ zs)" using strict_sort_key [OF Suc.prems(2)] Suc.prems(1) by simp
  have page: "page_of rid (Some (n, cursor)) rows = Inr (take n zs)"
  proof (cases "ys = []")
    case True
    with Suc.prems(1,6) show ?thesis by (simp add: page_of_def)
  next
    case False
    then have "last ys \<in> set rows" using Suc.prems(1) by (metis Un_iff last_in_set set_append set_sort)
    with Suc.prems(3) have u: "is_uuid (rid (last ys))" "uuid_lit (rid (last ys)) = rid (last ys)" by auto
    have "filter (\<lambda>r. rid (last ys) < rid r) (sort_key rid rows) = zs"
      using filter_beyond [OF strict False] Suc.prems(1) by simp
    with False u Suc.prems(6) show ?thesis
      by (simp add: page_of_def decode_encodeCursor filter_sort [symmetric])
  qed
  show ?case
  proof (cases "n \<le> length zs")
    case False
    with page show ?thesis by (simp add: next_cursor_def)
  next
    case True
    with Suc.prems(4) have ne: "take n zs \<noteq> []" by auto
    have rest: "walk rid n rows fuel (Some (encodeCursor (rid (last (take n zs))))) = Some (Inr (drop n zs))"
      by (rule Suc.IH [of "ys @ take n zs"]) (use Suc.prems True ne in \<open>auto simp: last_append\<close>)
    from page True rest show ?thesis by (simp add: next_cursor_def)
  qed
qed simp

section \<open>Property\<close>

text \<open>
  Following the links visits every row exactly once: with any permitted page size, a client that
  starts without a cursor and follows each next link ends after at most one request more than there
  are rows, and has been given all the rows in the order of their ids.
\<close>

theorem pages_cover_collection:
  assumes "distinct (map rid rows)" and "\<forall>r \<in> set rows. is_uuid (rid r) \<and> uuid_lit (rid r) = rid r" and "0 < n"
  shows "walk rid n rows (Suc (length rows)) None = Some (Inr (sort_key rid rows))"
  by (rule walk_from [of rid rows "[]"]) (use assms in simp_all)

theorem pages_cover_collection_witness:
  "walk (\<lambda>r. r) 1 [''00000000-0000-0000-0000-00000000000b'', ''00000000-0000-0000-0000-00000000000a''] 3 None =
     Some (Inr [''00000000-0000-0000-0000-00000000000a'', ''00000000-0000-0000-0000-00000000000b''])"
proof -
  let ?rows = "[''00000000-0000-0000-0000-00000000000b'', ''00000000-0000-0000-0000-00000000000a'']"
  have "\<forall>r \<in> set ?rows. is_uuid r \<and> uuid_lit r = r" by code_simp
  moreover have "distinct (map (\<lambda>r. r) ?rows)" by simp
  moreover have "sort_key (\<lambda>r. r) ?rows = rev ?rows" by code_simp
  ultimately show ?thesis using pages_cover_collection [of "\<lambda>r. r" ?rows 1] by (simp add: numeral_3_eq_3)
qed

end
