(* ===== verification/KeysService.thy ===== *)
theory KeysService
  imports Paging ConfigStore
begin

text \<open>
  The keys of an organization (packages/schema/src/keys.ts, apps/control-plane/src/lib/key-schema.ts,
  server/keys-service.ts): live keys, whose secret is shown once, and oauth keys, minted when a user
  approves an MCP client. The random bytes, the digest and the ids of new rows are arguments; the
  per-organization lock makes each transaction one step.
\<close>

section \<open>Secrets (keys.ts)\<close>

record generated_key =
  gk_plaintext :: string
  gk_prefix :: string
  gk_hash :: string

definition generateApiKey :: "(string \<Rightarrow> string) \<Rightarrow> string \<Rightarrow> generated_key" where
  "generateApiKey sha256 random =
     (let plaintext = ''mm_live_'' @ to_b64u random in
      \<lparr>gk_plaintext = plaintext, gk_prefix = slice plaintext 0 12, gk_hash = sha256 plaintext\<rparr>)"

section \<open>Input (key-schema.ts)\<close>

record key_input =
  ki_name :: string
  ki_paddockIds :: "string list"
  ki_expiresAt :: "int option"
  ki_overrides :: js

definition rate_limit_js :: "rate_limit \<Rightarrow> js" where
  "rate_limit_js rl = Obj [(''windowSec'', NumI (windowSec rl)), (''max'', NumI (rl_max rl))]"

definition keyOverridesSchema :: "js \<Rightarrow> js option" where
  "keyOverridesSchema v =
     (case v of
        Obj kvs \<Rightarrow>
          (case getp v ''rateLimit'' of
             Undef \<Rightarrow> Some (Obj [])
           | r \<Rightarrow> map_option (\<lambda>rl. Obj [(''rateLimit'', rate_limit_js rl)]) (rateLimitSchema r))
      | _ \<Rightarrow> None)"

text \<open>\<open>z.string().min(..).max(..)\<close>: lengths are in UTF-16 code units, the bytes are UTF-8.\<close>

definition utf16_units :: "char \<Rightarrow> nat" where
  "utf16_units c = (let k = of_char c :: nat in if 128 \<le> k \<and> k < 192 then 0 else if 240 \<le> k then 2 else 1)"

definition utf16_length :: "string \<Rightarrow> nat" where
  "utf16_length s = sum_list (map utf16_units s)"

definition bounded_str :: "nat \<Rightarrow> nat \<Rightarrow> js \<Rightarrow> string option" where
  "bounded_str least most v =
     (case v of Str s \<Rightarrow> if least \<le> utf16_length s \<and> utf16_length s \<le> most then Some s else None | _ \<Rightarrow> None)"

definition uuid_of :: "js \<Rightarrow> string option" where
  "uuid_of v = (case v of Str s \<Rightarrow> if is_uuid s then Some s else None | _ \<Rightarrow> None)"

text \<open>\<open>datetime\<close> reads an ISO instant.\<close>

definition createKeyInput :: "(string \<Rightarrow> int option) \<Rightarrow> js \<Rightarrow> key_input option" where
  "createKeyInput datetime v =
     (case (bounded_str 1 120 (getp v ''name''),
        (case getp v ''paddockIds'' of Arr vs \<Rightarrow> if vs = [] then None else those (map uuid_of vs) | _ \<Rightarrow> None),
        (case getp v ''expiresAt'' of Undef \<Rightarrow> Some None | Str s \<Rightarrow> map_option Some (datetime s) | _ \<Rightarrow> None),
        (case getp v ''overrides'' of Undef \<Rightarrow> Some Null | x \<Rightarrow> keyOverridesSchema x)) of
        (Some name, Some ids, Some ex, Some ov) \<Rightarrow>
          Some \<lparr>ki_name = name, ki_paddockIds = ids, ki_expiresAt = ex, ki_overrides = ov\<rparr>
      | _ \<Rightarrow> None)"

section \<open>Listing and creating (keys-service.ts)\<close>

record key_view =
  kv_id :: string
  kv_name :: string
  kv_prefix :: string
  kv_status :: key_status
  kv_expiresAt :: "int option"
  kv_paddockSlugs :: "string list"
  kv_kind :: key_kind
  kv_oauthClientId :: "string option"

definition org_slugs :: "db \<Rightarrow> string \<Rightarrow> string \<Rightarrow> string list" where
  "org_slugs d og keyId =
     concat (map (\<lambda>l. map p_slug (sel (\<lambda>p. p_id p = kp_paddockId l \<and> p_orgId p = og) (paddocks d)))
       (sel (\<lambda>l. kp_keyId l = keyId) (key_paddocks d)))"

definition key_view_of :: "db \<Rightarrow> string \<Rightarrow> key_row \<Rightarrow> key_view" where
  "key_view_of d og k =
     \<lparr>kv_id = k_id k, kv_name = k_name k, kv_prefix = k_prefix k, kv_status = k_status k, kv_expiresAt = k_expiresAt k,
      kv_paddockSlugs = sort (org_slugs d og (k_id k)), kv_kind = k_kind k, kv_oauthClientId = k_oauthClientId k\<rparr>"

definition listKeys :: "db \<Rightarrow> actor \<Rightarrow> page_opts option \<Rightarrow> svc_error + key_view list" where
  "listKeys d a opts =
     guarded a CapRead
       (map_sum id (map (key_view_of d (ac_orgId a))) (page_of k_id opts (sel (\<lambda>k. k_orgId k = ac_orgId a) (keys d))))"

text \<open>An insert into the keys: \<open>DbFailure\<close> where a unique column clashes.\<close>

definition insert_key :: "key_row \<Rightarrow> db \<Rightarrow> svc_error + db" where
  "insert_key k d =
     (if k_id k \<in> k_id ` set (keys d) \<or> k_hash k \<in> k_hash ` set (keys d) then Inl DbFailure
      else Inr (d\<lparr>keys := keys d @ [k]\<rparr>))"

definition link_paddocks :: "string \<Rightarrow> string list \<Rightarrow> db \<Rightarrow> db" where
  "link_paddocks keyId ids d = d\<lparr>key_paddocks := key_paddocks d @ map (\<lambda>i. \<lparr>kp_keyId = keyId, kp_paddockId = i\<rparr>) ids\<rparr>"

definition live_key_row :: "actor \<Rightarrow> string \<Rightarrow> generated_key \<Rightarrow> key_input \<Rightarrow> key_row" where
  "live_key_row a newId sec inp =
     \<lparr>k_id = newId, k_orgId = ac_orgId a, k_name = ki_name inp, k_prefix = gk_prefix sec, k_hash = gk_hash sec,
      k_status = ActiveKey, k_expiresAt = ki_expiresAt inp, k_overrides = ki_overrides inp, k_kind = LiveKey,
      k_grantId = None, k_oauthClientId = None, k_userId = None\<rparr>"

record created_key =
  cr_id :: string
  cr_name :: string
  cr_prefix :: string
  cr_plaintext :: string

definition createKey :: "(string \<Rightarrow> int option) \<Rightarrow> (string \<Rightarrow> string) \<Rightarrow> string \<Rightarrow> string \<Rightarrow> db \<Rightarrow> actor \<Rightarrow> js \<Rightarrow>
    svc_error + created_key \<times> db" where
  "createKey datetime sha256 random newId d a input =
     guarded a CapResourceWrite
       (case createKeyInput datetime input of
          None \<Rightarrow> Inl InvalidInput
        | Some inp \<Rightarrow>
            (let ids = uniq (ki_paddockIds inp); sec = generateApiKey sha256 random;
                 owned = sel (\<lambda>p. p_orgId p = ac_orgId a \<and> p_id p \<in> uuid_lit ` set ids) (paddocks d) in
             if length owned \<noteq> length ids then Inl (NotFound ''paddock (cross-org or missing)'')
             else (case insert_key (live_key_row a newId sec inp) d of
                 Inl e \<Rightarrow> Inl e
               | Inr d1 \<Rightarrow>
                   Inr (\<lparr>cr_id = newId, cr_name = ki_name inp, cr_prefix = gk_prefix sec, cr_plaintext = gk_plaintext sec\<rparr>,
                     writeAudit a ''key.create'' (''key:'' @ newId)
                       (Obj [(''name'', Str (ki_name inp)), (''paddocks'', NumI (int (length ids)))])
                       (link_paddocks newId (map lower ids) d1)))))"

section \<open>Revoking (keys-service.ts)\<close>

definition revoke_where :: "(key_row \<Rightarrow> bool) \<Rightarrow> db \<Rightarrow> db" where
  "revoke_where P d = d\<lparr>keys := upd (\<lambda>k. P k \<and> k_status k = ActiveKey) (\<lambda>k. k\<lparr>k_status := RevokedKey\<rparr>) (keys d)\<rparr>"

definition revokeKey :: "db \<Rightarrow> actor \<Rightarrow> string \<Rightarrow> svc_error + db" where
  "revokeKey d a i =
     guarded a CapResourceWrite
       (let mine = (\<lambda>k. k_id k = uuid_lit i \<and> k_orgId k = ac_orgId a) in
        if sel (\<lambda>k. mine k \<and> k_status k = ActiveKey) (keys d) \<noteq> [] then
          Inr (writeAudit a ''key.revoke'' (''key:'' @ i) Undef (revoke_where mine d))
        else if sel mine (keys d) = [] then Inl (NotFound (''key '' @ i))
        else Inr d)"

definition oauth_keys_of :: "actor \<Rightarrow> string \<Rightarrow> key_row \<Rightarrow> bool" where
  "oauth_keys_of a userId k = (k_orgId k = ac_orgId a \<and> k_userId k = Some userId \<and> k_kind k = OauthKey)"

definition revokeOauthKeysForUser :: "db \<Rightarrow> actor \<Rightarrow> string \<Rightarrow> string \<Rightarrow> nat \<times> db" where
  "revokeOauthKeysForUser d a userId reason =
     (let hit = sel (\<lambda>k. oauth_keys_of a userId k \<and> k_status k = ActiveKey) (keys d) in
      (length hit,
       fold (\<lambda>k. writeAudit a ''key.revoke'' (''key:'' @ k_id k) (Obj [(''kind'', Str ''oauth''), (''reason'', Str reason)]))
         hit (revoke_where (oauth_keys_of a userId) d)))"

section \<open>The consent-time mint (keys-service.ts)\<close>

definition OAUTH_KEY_PREFIX :: string where
  "OAUTH_KEY_PREFIX = ''oauth''"

text \<open>\<open>s.slice(0, n)\<close> in UTF-16 code units, over UTF-8 bytes.\<close>

fun utf16_take :: "nat \<Rightarrow> string \<Rightarrow> string" where
  "utf16_take n [] = []"
| "utf16_take n (c # cs) = (if utf16_units c \<le> n then c # utf16_take (n - utf16_units c) cs else [])"

definition oauthKeyName :: "string \<Rightarrow> string \<Rightarrow> string" where
  "oauthKeyName clientName email = utf16_take 120 (clientName @ '' (MCP) '' @ [CHR 0xC2, CHR 0xB7] @ '' '' @ email)"

record mint_input =
  mi_clientId :: string
  mi_clientName :: string
  mi_paddockSlug :: string
  mi_grantId :: string

datatype mint_outcome = Created | Rebound

definition org_paddock :: "db \<Rightarrow> string \<Rightarrow> string \<Rightarrow> paddock_row option" where
  "org_paddock d og slug = sel1 (\<lambda>p. p_orgId p = og \<and> p_slug p = slug \<and> p_status p = ActivePaddock) (paddocks d)"

text \<open>An active oauth key of the user for the client, linked to the paddock.\<close>

definition bound_key :: "db \<Rightarrow> actor \<Rightarrow> string \<Rightarrow> string \<Rightarrow> key_row \<Rightarrow> bool" where
  "bound_key d a clientId paddockId k =
     (k_orgId k = ac_orgId a \<and> k_kind k = OauthKey \<and> k_status k = ActiveKey \<and> k_userId k = Some (ac_id a) \<and>
      k_oauthClientId k = Some clientId \<and>
      list_ex (\<lambda>l. kp_keyId l = k_id k \<and> kp_paddockId l = paddockId) (key_paddocks d))"

definition oauth_key_row :: "(string \<Rightarrow> string) \<Rightarrow> string \<Rightarrow> string \<Rightarrow> actor \<Rightarrow> mint_input \<Rightarrow> key_row" where
  "oauth_key_row sha256 random newId a inp =
     \<lparr>k_id = newId, k_orgId = ac_orgId a, k_name = oauthKeyName (mi_clientName inp) (ac_email a), k_prefix = OAUTH_KEY_PREFIX,
      k_hash = sha256 (to_b64u random), k_status = ActiveKey, k_expiresAt = None, k_overrides = Null, k_kind = OauthKey,
      k_grantId = Some (mi_grantId inp), k_oauthClientId = Some (mi_clientId inp), k_userId = Some (ac_id a)\<rparr>"

definition mint_detail :: "mint_input \<Rightarrow> js" where
  "mint_detail inp = Obj [(''kind'', Str ''oauth''), (''client_id'', Str (mi_clientId inp))]"

definition mintOauthKey :: "(string \<Rightarrow> string) \<Rightarrow> string \<Rightarrow> string \<Rightarrow> db \<Rightarrow> actor \<Rightarrow> mint_input \<Rightarrow>
    svc_error + (string \<times> mint_outcome) \<times> db" where
  "mintOauthKey sha256 random newId d a inp =
     guarded a CapResourceWrite
       (case org_paddock d (ac_orgId a) (mi_paddockSlug inp) of
          None \<Rightarrow> Inl (NotFound (''paddock '' @ mi_paddockSlug inp))
        | Some p \<Rightarrow>
            (case sel1 (bound_key d a (mi_clientId inp) (p_id p)) (keys d) of
               Some k \<Rightarrow>
                 Inr ((k_id k, Rebound), writeAudit a ''key.rebind'' (''key:'' @ k_id k) (mint_detail inp)
                   (d\<lparr>keys := upd (\<lambda>r. k_id r = k_id k) (\<lambda>r. r\<lparr>k_grantId := Some (mi_grantId inp)\<rparr>) (keys d)\<rparr>))
             | None \<Rightarrow>
                 (case insert_key (oauth_key_row sha256 random newId a inp) d of
                    Inl e \<Rightarrow> Inl e
                  | Inr d1 \<Rightarrow>
                      Inr ((newId, Created), writeAudit a ''key.create'' (''key:'' @ newId) (mint_detail inp)
                        (link_paddocks newId [p_id p] d1)))))"

datatype preflight = PreflightAllowed | NoCapability | NoPaddock

definition preflightOauthKey :: "db \<Rightarrow> actor \<Rightarrow> string option \<Rightarrow> preflight" where
  "preflightOauthKey d a slug =
     (if \<not> authorize (ac_role a) (ac_grants a) CapResourceWrite then NoCapability
      else case slug of
          None \<Rightarrow> NoPaddock
        | Some s \<Rightarrow> (case org_paddock d (ac_orgId a) s of Some p \<Rightarrow> PreflightAllowed | None \<Rightarrow> NoPaddock))"

section \<open>Lemmas\<close>

lemma insert_key_Inr:
  "insert_key k d = Inr d' \<longleftrightarrow>
     k_id k \<notin> k_id ` set (keys d) \<and> k_hash k \<notin> k_hash ` set (keys d) \<and> d' = d\<lparr>keys := keys d @ [k]\<rparr>"
  by (auto simp: insert_key_def)

lemma link_paddocks_frames [simp, frames]:
  "keys (link_paddocks i ids d) = keys d" "paddocks (link_paddocks i ids d) = paddocks d"
  "audit (link_paddocks i ids d) = audit d" "users (link_paddocks i ids d) = users d"
  "orgs (link_paddocks i ids d) = orgs d" "invites (link_paddocks i ids d) = invites d"
  "entitlements (link_paddocks i ids d) = entitlements d" "flocks (link_paddocks i ids d) = flocks d"
  "key_paddocks (link_paddocks i ids d) = key_paddocks d @ map (\<lambda>p. \<lparr>kp_keyId = i, kp_paddockId = p\<rparr>) ids"
  by (simp_all add: link_paddocks_def)

lemma audits_frames [simp]:
  "keys (fold (\<lambda>k. writeAudit a x (t k) (v k)) ks d) = keys d"
  "users (fold (\<lambda>k. writeAudit a x (t k) (v k)) ks d) = users d"
  "invites (fold (\<lambda>k. writeAudit a x (t k) (v k)) ks d) = invites d"
  "key_paddocks (fold (\<lambda>k. writeAudit a x (t k) (v k)) ks d) = key_paddocks d"
  "paddocks (fold (\<lambda>k. writeAudit a x (t k) (v k)) ks d) = paddocks d"
  "others_kept (ac_orgId a) d0 (fold (\<lambda>k. writeAudit a x (t k) (v k)) ks d) = others_kept (ac_orgId a) d0 d"
  by (induction ks arbitrary: d) auto

lemma audits_more: "audited_by a d0 d \<Longrightarrow> audited_by a d0 (fold (\<lambda>k. writeAudit a x (t k) (v k)) ks d)"
  by (induction ks arbitrary: d) (auto intro: writeAudit_more)

text \<open>The four operations that write keys, as the change they make to the key table.\<close>

lemma createKey_Inr:
  assumes "createKey datetime sha256 random newId d a input = Inr (c, d')"
  obtains inp where "may a CapResourceWrite" and "createKeyInput datetime input = Some inp"
    and "keys d' = keys d @ [live_key_row a newId (generateApiKey sha256 random) inp]"
    and "newId \<notin> k_id ` set (keys d)" and "gk_hash (generateApiKey sha256 random) \<notin> k_hash ` set (keys d)"
    and "key_paddocks d' = key_paddocks d @ map (\<lambda>i. \<lparr>kp_keyId = newId, kp_paddockId = i\<rparr>) (map lower (uniq (ki_paddockIds inp)))"
    and "paddocks d' = paddocks d" and "audited_by a d d'" and "others_kept (ac_orgId a) d d'"
    and "cr_id c = newId" and "cr_plaintext c = gk_plaintext (generateApiKey sha256 random)"
    and "length (sel (\<lambda>p. p_orgId p = ac_orgId a \<and> p_id p \<in> uuid_lit ` set (ki_paddockIds inp)) (paddocks d)) =
      length (uniq (ki_paddockIds inp))"
proof -
  from assms obtain inp where "may a CapResourceWrite" "createKeyInput datetime input = Some inp"
    by (auto simp: createKey_def split: option.split_asm)
  with assms show thesis
    by (intro that [of inp])
      (auto simp: createKey_def Let_def insert_key_Inr live_key_row_def audited_by_def writeAudit_def others_kept_def link_paddocks_def
        split: sum.split_asm if_split_asm)
qed

lemma mintOauthKey_Inr:
  assumes "mintOauthKey sha256 random newId d a inp = Inr ((i, oc), d')"
  obtains p where "may a CapResourceWrite" and "org_paddock d (ac_orgId a) (mi_paddockSlug inp) = Some p"
    and "paddocks d' = paddocks d" and "audited_by a d d'"
    and "oc = Rebound \<Longrightarrow> \<exists>k. sel1 (bound_key d a (mi_clientId inp) (p_id p)) (keys d) = Some k \<and> i = k_id k \<and>
      keys d' = upd (\<lambda>r. k_id r = i) (\<lambda>r. r\<lparr>k_grantId := Some (mi_grantId inp)\<rparr>) (keys d) \<and> key_paddocks d' = key_paddocks d"
    and "oc = Created \<Longrightarrow> sel1 (bound_key d a (mi_clientId inp) (p_id p)) (keys d) = None \<and> i = newId \<and>
      newId \<notin> k_id ` set (keys d) \<and> keys d' = keys d @ [oauth_key_row sha256 random newId a inp] \<and>
      key_paddocks d' = key_paddocks d @ [\<lparr>kp_keyId = newId, kp_paddockId = p_id p\<rparr>]"
proof -
  from assms obtain p where "may a CapResourceWrite" "org_paddock d (ac_orgId a) (mi_paddockSlug inp) = Some p"
    by (auto simp: mintOauthKey_def split: option.split_asm)
  with assms show thesis
    by (intro that [of p])
      (auto simp: mintOauthKey_def insert_key_Inr audited_by_def writeAudit_def link_paddocks_def oauth_key_row_def
        split: sum.split_asm option.split_asm)
qed

lemma revokeKey_Inr:
  assumes "revokeKey d a i = Inr d'"
  shows "may a CapResourceWrite \<and> (d' = d \<or>
    audited_by a d d' \<and> keys d' = keys (revoke_where (\<lambda>k. k_id k = uuid_lit i \<and> k_orgId k = ac_orgId a) d) \<and>
    key_paddocks d' = key_paddocks d \<and> paddocks d' = paddocks d)"
  using assms by (auto simp: revokeKey_def Let_def audited_by_def writeAudit_def revoke_where_def split: if_split_asm)

lemma revokeOauthKeysForUser_frames [simp]:
  "users (snd (revokeOauthKeysForUser d a u r)) = users d"
  "invites (snd (revokeOauthKeysForUser d a u r)) = invites d"
  "key_paddocks (snd (revokeOauthKeysForUser d a u r)) = key_paddocks d"
  "paddocks (snd (revokeOauthKeysForUser d a u r)) = paddocks d"
  "keys (snd (revokeOauthKeysForUser d a u r)) = keys (revoke_where (oauth_keys_of a u) d)"
  by (simp_all add: revokeOauthKeysForUser_def Let_def revoke_where_def)

lemma revoke_where_others:
  "(\<And>k. P k \<Longrightarrow> k_orgId k = og) \<Longrightarrow> others_kept og d (revoke_where P d)"
  by (auto simp: others_kept_def revoke_where_def intro!: filter_upd)

lemma revokeOauthKeysForUser_others: "others_kept (ac_orgId a) d (snd (revokeOauthKeysForUser d a u r))"
  by (auto simp: revokeOauthKeysForUser_def Let_def intro!: revoke_where_others simp: oauth_keys_of_def)

section \<open>Steps on the key table\<close>

inductive key_step :: "(string \<Rightarrow> int option) \<Rightarrow> (string \<Rightarrow> string) \<Rightarrow> db \<Rightarrow> db \<Rightarrow> bool"
  for datetime sha256 where
  create: "createKey datetime sha256 random newId d a input = Inr (c, d') \<Longrightarrow> key_step datetime sha256 d d'"
| revoke: "revokeKey d a i = Inr d' \<Longrightarrow> key_step datetime sha256 d d'"
| mint: "mintOauthKey sha256 random newId d a inp = Inr ((i, oc), d') \<Longrightarrow> key_step datetime sha256 d d'"
| revoke_user: "revokeOauthKeysForUser d a u r = (n, d') \<Longrightarrow> key_step datetime sha256 d d'"

definition keys_ok :: "db \<Rightarrow> bool" where
  "keys_ok d =
     (distinct (map k_id (keys d)) \<and> distinct (map k_hash (keys d)) \<and>
      (\<forall>l \<in> set (key_paddocks d). kp_keyId l \<in> k_id ` set (keys d)) \<and>
      (\<forall>k \<in> set (keys d). k_kind k = OauthKey \<longrightarrow> k_expiresAt k = None))"

definition one_key_each :: "db \<Rightarrow> bool" where
  "one_key_each d =
     (\<forall>k \<in> set (keys d). \<forall>k' \<in> set (keys d). \<forall>a c p. bound_key d a c p k \<longrightarrow> bound_key d a c p k' \<longrightarrow> k = k')"

definition revoked_kept :: "db \<Rightarrow> db \<Rightarrow> bool" where
  "revoked_kept d d' =
     (\<forall>k \<in> set (keys d). k_status k = RevokedKey \<longrightarrow> (\<exists>k' \<in> set (keys d'). k_id k' = k_id k \<and> k_status k' = RevokedKey))"

definition status_falls :: "(key_row \<Rightarrow> key_row) \<Rightarrow> bool" where
  "status_falls f =
     (\<forall>k. k_id (f k) = k_id k \<and> k_hash (f k) = k_hash k \<and> k_kind (f k) = k_kind k \<and> k_orgId (f k) = k_orgId k \<and>
        k_userId (f k) = k_userId k \<and> k_oauthClientId (f k) = k_oauthClientId k \<and> k_expiresAt (f k) = k_expiresAt k \<and>
        (k_status (f k) = ActiveKey \<longrightarrow> k_status k = ActiveKey))"

lemma status_falls_upd:
  assumes f: "status_falls f" and d': "keys d' = map f (keys d)" "key_paddocks d' = key_paddocks d"
  shows "keys_ok d \<Longrightarrow> keys_ok d'" and "one_key_each d \<Longrightarrow> one_key_each d'" and "revoked_kept d d'"
proof -
  show "keys_ok d \<Longrightarrow> keys_ok d'"
    using f d' by (auto simp: keys_ok_def status_falls_def o_def image_image)
  have b: "bound_key d' a c p (f k) \<Longrightarrow> bound_key d a c p k" for a c p k
    using f d' by (auto simp: bound_key_def status_falls_def)
  show "one_key_each d \<Longrightarrow> one_key_each d'"
  proof -
    assume one: "one_key_each d"
    have "f k = f k'" if "k \<in> set (keys d)" "k' \<in> set (keys d)" "bound_key d' a c p (f k)" "bound_key d' a c p (f k')" for k k' a c p
      using one that(1,2) b [OF that(3)] b [OF that(4)] unfolding one_key_each_def by blast
    then show "one_key_each d'" unfolding one_key_each_def d' by auto
  qed
  show "revoked_kept d d'"
    unfolding revoked_kept_def d' using f by (auto simp: status_falls_def) (metis key_status.exhaust key_status.distinct(1))
qed

lemma keys_append:
  assumes d': "keys d' = keys d @ [k]" "key_paddocks d' = key_paddocks d @ ls"
    and k: "k_id k \<notin> k_id ` set (keys d)" "k_hash k \<notin> k_hash ` set (keys d)"
      "k_kind k = OauthKey \<longrightarrow> k_expiresAt k = None"
    and ls: "\<forall>l \<in> set ls. kp_keyId l = k_id k"
  shows "keys_ok d \<Longrightarrow> keys_ok d'" and "revoked_kept d d'"
    and "keys_ok d \<Longrightarrow> one_key_each d \<Longrightarrow>
      (\<And>a c p k'. k' \<in> set (keys d) \<Longrightarrow> \<lparr>kp_keyId = k_id k, kp_paddockId = p\<rparr> \<in> set ls \<Longrightarrow> bound_key d a c p k' \<Longrightarrow>
         k_kind k = OauthKey \<Longrightarrow> k_userId k = Some (ac_id a) \<Longrightarrow> k_orgId k = ac_orgId a \<Longrightarrow> k_oauthClientId k = Some c \<Longrightarrow> False) \<Longrightarrow>
      one_key_each d'"
proof -
  show "keys_ok d \<Longrightarrow> keys_ok d'"
    using d' k ls by (auto simp: keys_ok_def)
  show "revoked_kept d d'"
    using d' by (auto simp: revoked_kept_def)
  assume ok: "keys_ok d" and one: "one_key_each d" and free: "\<And>a c p k'. k' \<in> set (keys d) \<Longrightarrow>
      \<lparr>kp_keyId = k_id k, kp_paddockId = p\<rparr> \<in> set ls \<Longrightarrow> bound_key d a c p k' \<Longrightarrow>
      k_kind k = OauthKey \<Longrightarrow> k_userId k = Some (ac_id a) \<Longrightarrow> k_orgId k = ac_orgId a \<Longrightarrow> k_oauthClientId k = Some c \<Longrightarrow> False"
  have old: "bound_key d' a c p k' \<longleftrightarrow> bound_key d a c p k'" if "k' \<in> set (keys d)" for a c p k'
    using that d' k(1) ls by (fastforce simp: bound_key_def list_ex_iff)
  have new: "\<lparr>kp_keyId = k_id k, kp_paddockId = p\<rparr> \<in> set ls" if "bound_key d' a c p k" for a c p
  proof -
    from that obtain l where l: "l \<in> set (key_paddocks d) \<or> l \<in> set ls" "kp_keyId l = k_id k" "kp_paddockId l = p"
      by (auto simp: bound_key_def list_ex_iff d')
    with ok k(1) have "l \<in> set ls" unfolding keys_ok_def by metis
    with l show ?thesis by (cases l) auto
  qed
  have "False" if "k' \<in> set (keys d)" "bound_key d' a c p k'" "bound_key d' a c p k" for a c p k'
    using free [OF that(1) new [OF that(3)]] old [OF that(1)] that by (auto simp: bound_key_def)
  with one old show "one_key_each d'"
    by (auto simp: one_key_each_def d') blast+
qed

lemma status_falls_revoke: "status_falls (\<lambda>k. if P k \<and> k_status k = ActiveKey then k\<lparr>k_status := RevokedKey\<rparr> else k)"
  by (auto simp: status_falls_def)

lemma revoke_where_map: "keys (revoke_where P d) = map (\<lambda>k. if P k \<and> k_status k = ActiveKey then k\<lparr>k_status := RevokedKey\<rparr> else k) (keys d)"
  by (simp add: revoke_where_def upd_def)

lemma revoked_kept_refl [simp]: "revoked_kept d d"
  by (auto simp: revoked_kept_def)

lemma revoked_kept_trans: "revoked_kept d d' \<Longrightarrow> revoked_kept d' d'' \<Longrightarrow> revoked_kept d d''"
  by (fastforce simp: revoked_kept_def)

lemma revoke_where_keeps:
  assumes "keys d' = keys (revoke_where P d)" and "key_paddocks d' = key_paddocks d"
  shows "keys_ok d \<Longrightarrow> keys_ok d'" and "one_key_each d \<Longrightarrow> one_key_each d'" and "revoked_kept d d'"
  using status_falls_upd [OF status_falls_revoke assms(1) [unfolded revoke_where_map] assms(2)] by simp_all

lemma live_not_oauth: "k_kind (live_key_row a i sec inp) = LiveKey" "k_id (live_key_row a i sec inp) = i"
  "k_hash (live_key_row a i sec inp) = gk_hash sec"
  by (simp_all add: live_key_row_def)

lemma key_step_keeps:
  assumes "key_step datetime sha256 d d'" and "keys_ok d" and "one_key_each d"
  shows "keys_ok d' \<and> one_key_each d' \<and> revoked_kept d d'"
  using assms
proof (cases rule: key_step.cases)
  case (create random newId a input c)
  then show ?thesis
  proof (rule createKey_Inr, goal_cases)
    case (1 inp)
    note A = keys_append [where d = d and d' = d', OF 1(3,6)]
    have "keys_ok d'" "revoked_kept d d'"
      by (rule A; use 1 assms in \<open>auto simp: live_not_oauth\<close>)+
    moreover have "one_key_each d'"
      by (rule A(3); use 1 assms in \<open>auto simp: live_not_oauth\<close>)
    ultimately show ?case by simp
  qed
next
  case (revoke a i)
  with revokeKey_Inr [OF this] assms show ?thesis by (auto intro: revoke_where_keeps)
next
  case (mint random newId a inp i oc)
  then show ?thesis
  proof (rule mintOauthKey_Inr, goal_cases)
    case (1 p)
    show ?case
    proof (cases oc)
      case Created
      note C = 1(6) [OF Created]
      let ?k = "oauth_key_row sha256 random newId a inp"
      have k: "k_id ?k = newId" "k_kind ?k = OauthKey" "k_expiresAt ?k = None" "k_orgId ?k = ac_orgId a"
        "k_userId ?k = Some (ac_id a)" "k_oauthClientId ?k = Some (mi_clientId inp)"
        by (simp_all add: oauth_key_row_def)
      have h: "k_hash ?k \<notin> k_hash ` set (keys d)"
        using mint C 1(2) by (auto simp: mintOauthKey_def insert_key_Inr split: option.split_asm sum.split_asm)
      note A = keys_append [where d = d and d' = d' and k = ?k and ls = "[\<lparr>kp_keyId = newId, kp_paddockId = p_id p\<rparr>]"]
      have "keys_ok d'" "revoked_kept d d'"
        by (rule A; use C assms k h in auto)+
      moreover have "one_key_each d'"
      proof (rule A(3), goal_cases)
        case (9 b c q k')
        with k C have "bound_key d a (mi_clientId inp) (p_id p) k'"
          by (auto simp: bound_key_def)
        with 9(1) C show ?case by (auto simp: sel1_None)
      qed (use C assms k h in auto)
      ultimately show ?thesis by simp
    next
      case Rebound
      have f: "status_falls (\<lambda>r. if k_id r = i then r\<lparr>k_grantId := Some (mi_grantId inp)\<rparr> else r)"
        by (auto simp: status_falls_def)
      from 1(5) [OF Rebound] show ?thesis
        using status_falls_upd [OF f, of d' d] assms by (auto simp: upd_def)
    qed
  qed
next
  case (revoke_user a u r n)
  then have "keys d' = keys (revoke_where (oauth_keys_of a u) d)" "key_paddocks d' = key_paddocks d"
    using revokeOauthKeysForUser_frames(3,5) [of d a u r] by simp_all
  with assms show ?thesis by (auto intro: revoke_where_keeps)
qed

lemma mintOauthKey_binds:
  assumes "mintOauthKey sha256 random newId d a inp = Inr ((i, oc), d')"
  shows "\<exists>p k. p \<in> set (paddocks d) \<and> p_orgId p = ac_orgId a \<and> p_slug p = mi_paddockSlug inp \<and> p_status p = ActivePaddock \<and>
      k \<in> set (keys d') \<and> k_id k = i \<and> bound_key d' a (mi_clientId inp) (p_id p) k \<and> k_grantId k = Some (mi_grantId inp)"
  using assms
proof (rule mintOauthKey_Inr, goal_cases)
  case (1 p)
  then have p: "p \<in> set (paddocks d)" "p_orgId p = ac_orgId a" "p_slug p = mi_paddockSlug inp" "p_status p = ActivePaddock"
    by (auto simp: org_paddock_def dest: sel1_Some)
  show ?case
  proof (cases oc)
    case Created
    let ?k = "oauth_key_row sha256 random newId a inp"
    have "?k \<in> set (keys d') \<and> k_id ?k = i \<and> bound_key d' a (mi_clientId inp) (p_id p) ?k \<and> k_grantId ?k = Some (mi_grantId inp)"
      using 1(6) [OF Created] by (simp add: oauth_key_row_def bound_key_def)
    with p show ?thesis by blast
  next
    case Rebound
    with 1(5) obtain k where "sel1 (bound_key d a (mi_clientId inp) (p_id p)) (keys d) = Some k" "i = k_id k"
      "keys d' = upd (\<lambda>r. k_id r = i) (\<lambda>r. r\<lparr>k_grantId := Some (mi_grantId inp)\<rparr>) (keys d)" "key_paddocks d' = key_paddocks d"
      by blast
    then have "k\<lparr>k_grantId := Some (mi_grantId inp)\<rparr> \<in> set (keys d') \<and> bound_key d' a (mi_clientId inp) (p_id p) (k\<lparr>k_grantId := Some (mi_grantId inp)\<rparr>)
       \<and> k_id k = i"
      by (auto simp: set_upd bound_key_def image_iff dest!: sel1_Some)
    with p show ?thesis by force
  qed
qed

lemma mintOauthKey_bound:
  assumes "mintOauthKey sha256 random newId d a inp = Inr ((i, oc), d')"
  shows "\<exists>p k. p \<in> set (paddocks d') \<and> p_slug p = mi_paddockSlug inp \<and> k \<in> set (keys d') \<and> k_id k = i \<and>
      bound_key d' a (mi_clientId inp) (p_id p) k \<and> k_grantId k = Some (mi_grantId inp)"
proof -
  have "paddocks d' = paddocks d" by (rule mintOauthKey_Inr [OF assms])
  with mintOauthKey_binds [OF assms] show ?thesis by auto
qed

section \<open>Properties\<close>


definition demo_paddock_row :: paddock_row where
  "demo_paddock_row = \<lparr>p_id = ''p'', p_orgId = ''o'', p_flockId = ''f'', p_slug = ''s'', p_name = ''S'', p_status = ActivePaddock,
     p_theme = ''light''\<rparr>"

definition demo_mint :: mint_input where
  "demo_mint = \<lparr>mi_clientId = ''https://c.test'', mi_clientName = ''C'', mi_paddockSlug = ''s'', mi_grantId = ''g''\<rparr>"

definition demo_key_id :: string where
  "demo_key_id = ''00000000-0000-4000-8000-000000000001''"

definition demo_keys_db :: db where
  "demo_keys_db = empty_db\<lparr>paddocks := [demo_paddock_row]\<rparr>"

definition demo_minted :: "svc_error + (string \<times> mint_outcome) \<times> db" where
  "demo_minted = mintOauthKey (\<lambda>s. ''h'' @ s) ''r'' demo_key_id demo_keys_db demo_actor demo_mint"

lemma demo_minted_created: "\<exists>d. demo_minted = Inr ((demo_key_id, Created), d)"
proof -
  have "case demo_minted of Inl e \<Rightarrow> False | Inr r \<Rightarrow> fst r = (demo_key_id, Created)" by code_simp
  then show ?thesis by (auto split: sum.split_asm)
qed

lemma demo_keys_ok: "keys_ok demo_keys_db" "one_key_each demo_keys_db"
  by (simp_all add: keys_ok_def one_key_each_def demo_keys_db_def empty_db_def)


text \<open>
  A consent that is accepted takes effect in the data plane: the key it names, new or rebound,
  resolves by its id at any time, for the approving user's organization and the client that asked, and
  reaches the paddock that was asked for; the row carries the new grant.
\<close>

theorem minted_key_resolves:
  assumes "mintOauthKey sha256 random newId d a inp = Inr ((i, oc), d')" and "keys_ok d" and "one_key_each d"
    and "is_uuid i" and "lower i = i"
  shows "\<exists>rk. resolveKeyById d' now i = Some rk \<and> rk_keyId rk = i \<and> rk_orgId rk = ac_orgId a \<and>
    rk_oauthClientId rk = Some (mi_clientId inp) \<and> mi_paddockSlug inp \<in> set (rk_paddockSlugs rk) \<and>
    (\<exists>k \<in> set (keys d'). k_id k = i \<and> k_grantId k = Some (mi_grantId inp) \<and> k_userId k = Some (ac_id a))"
proof -
  have "\<exists>p k. p \<in> set (paddocks d') \<and> p_slug p = mi_paddockSlug inp \<and> k \<in> set (keys d') \<and> k_id k = i \<and>
      bound_key d' a (mi_clientId inp) (p_id p) k \<and> k_grantId k = Some (mi_grantId inp)"
    using mintOauthKey_bound [OF assms(1)] .
  then obtain p k where p: "p \<in> set (paddocks d')" "p_slug p = mi_paddockSlug inp" and k: "k \<in> set (keys d')" "k_id k = i"
      "bound_key d' a (mi_clientId inp) (p_id p) k" "k_grantId k = Some (mi_grantId inp)" by blast
  have ok: "keys_ok d'" using key_step_keeps [OF key_step.mint [OF assms(1)] assms(2,3)] by simp
  with k have e: "k_expiresAt k = None" by (auto simp: keys_ok_def bound_key_def)
  have "sel1 (\<lambda>k. k_id k = i \<and> k_kind k = OauthKey \<and> usable now k) (keys d') = Some k"
    using ok k e by (intro sel1_only) (auto simp: keys_ok_def bound_key_def usable_def dest: distinct_key_eq)
  moreover have "mi_paddockSlug inp \<in> set (linked_slugs d' i)"
  proof -
    from k(2,3) obtain l where "l \<in> set (key_paddocks d')" "kp_keyId l = i" "kp_paddockId l = p_id p"
      by (auto simp: bound_key_def list_ex_iff)
    with p show ?thesis unfolding linked_slugs_def by (force intro!: bexI [of _ l])
  qed
  ultimately show ?thesis
    using k assms(4,5) by (auto simp: resolveKeyById_def resolve_def bound_key_def)
qed

theorem minted_key_resolves_witness:
  "\<exists>d' rk. demo_minted = Inr ((demo_key_id, Created), d') \<and> resolveKeyById d' 7 demo_key_id = Some rk \<and> rk_orgId rk = ''o''"
proof -
  obtain d where d: "demo_minted = Inr ((demo_key_id, Created), d)" using demo_minted_created ..
  have u: "is_uuid demo_key_id" "lower demo_key_id = demo_key_id" by code_simp+
  have "ac_orgId demo_actor = ''o''" by (simp add: demo_actor_def)
  with minted_key_resolves [OF d [unfolded demo_minted_def] demo_keys_ok u, of 7] d show ?thesis by auto
qed

text \<open>
  C30. The consent screen asks what the mint would answer: with unused random bytes and id, the mint
  succeeds exactly when the preflight allows it, is forbidden exactly when the preflight says the role
  may not approve, and finds no paddock exactly when the preflight says so.
\<close>

theorem preflight_predicts_mint:
  assumes "newId \<notin> k_id ` set (keys d)" and "sha256 (to_b64u random) \<notin> k_hash ` set (keys d)"
  shows "case preflightOauthKey d a (Some (mi_paddockSlug inp)) of
      PreflightAllowed \<Rightarrow> \<exists>r. mintOauthKey sha256 random newId d a inp = Inr r
    | NoCapability \<Rightarrow> mintOauthKey sha256 random newId d a inp = Inl (Forbidden CapResourceWrite)
    | NoPaddock \<Rightarrow> mintOauthKey sha256 random newId d a inp = Inl (NotFound (''paddock '' @ mi_paddockSlug inp))"
proof (cases "may a CapResourceWrite")
  case False
  then show ?thesis by (simp add: preflightOauthKey_def mintOauthKey_def guarded_denied may_def)
next
  case True
  with assms show ?thesis
    by (auto simp: preflightOauthKey_def mintOauthKey_def guarded_def requireCapability_def may_def insert_key_def
        oauth_key_row_def split: option.split)
qed

theorem preflight_predicts_mint_witness:
  "mintOauthKey (\<lambda>s. s) ''r'' ''i'' empty_db demo_actor demo_mint = Inl (NotFound ''paddock s'')"
proof -
  have "preflightOauthKey empty_db demo_actor (Some (mi_paddockSlug demo_mint)) = NoPaddock" by code_simp
  with preflight_predicts_mint [of "''i''" empty_db "\<lambda>s. s" "''r''" demo_actor demo_mint]
  show ?thesis by (simp add: empty_db_def demo_mint_def)
qed

text \<open>
  C29. Revoking is final and idempotent: the revoked key resolves neither by id nor by its secret, at
  any time, a second call succeeds and changes nothing, not even the audit log, and another
  organization's call for the key is answered as for a key that does not exist.
\<close>

theorem revoked_key_refused:
  assumes "revokeKey d a i = Inr d'" and "keys_ok d" and "k \<in> set (keys d)" and "k_id k = lower i"
  shows "resolveKeyById d' now i = None \<and> resolveKeyByHash d' now (k_hash k) = None \<and> revokeKey d' a i = Inr d' \<and>
    (ac_orgId b \<noteq> ac_orgId a \<longrightarrow> may b CapResourceWrite \<longrightarrow>
       revokeKey d b i = Inl (NotFound (''key '' @ i)) \<and> revokeKey d' b i = Inl (NotFound (''key '' @ i)))"
proof -
  let ?f = "\<lambda>r. if k_id r = lower i \<and> k_orgId r = ac_orgId a \<and> k_status r = ActiveKey then r\<lparr>k_status := RevokedKey\<rparr> else r"
  have only: "r = k" if "r \<in> set (keys d)" "k_id r = lower i \<or> k_hash r = k_hash k" for r
    using that assms(2,3,4) by (auto simp: keys_ok_def dest: distinct_key_eq)
  have org: "k_orgId k = ac_orgId a"
    using assms(1) only by (auto simp: revokeKey_def Let_def sel_def filter_empty_conv split: if_split_asm)
  have d': "keys d' = map ?f (keys d)" "may a CapResourceWrite"
    using assms(1) by (auto simp: revokeKey_def Let_def revoke_where_map sel_def filter_empty_conv split: if_split_asm intro!: map_idI [symmetric])
  have dead: "k_status r = RevokedKey \<and> k_orgId r = ac_orgId a" if "r \<in> set (keys d')" "k_id r = lower i \<or> k_hash r = k_hash k" for r
  proof -
    from that(1) d' obtain s where s: "s \<in> set (keys d)" "r = ?f s" by auto
    with that(2) have "k_id s = lower i \<or> k_hash s = k_hash k" by (auto split: if_split_asm)
    with only s(1) have "s = k" by blast
    with s org assms(4) show ?thesis by (auto intro: key_status.exhaust)
  qed
  have "resolveKeyById d' now i = None" "resolveKeyByHash d' now (k_hash k) = None"
  proof -
    have "sel1 (\<lambda>k. k_id k = lower i \<and> k_kind k = OauthKey \<and> usable now k) (keys d') = None"
      "sel1 (\<lambda>r. k_hash r = k_hash k \<and> k_kind r = LiveKey \<and> usable now r) (keys d') = None"
      unfolding sel1_None using dead by (auto simp: usable_def)
    then show "resolveKeyById d' now i = None" "resolveKeyByHash d' now (k_hash k) = None"
      by (simp_all add: resolveKeyById_def resolveKeyByHash_def resolve_def)
  qed
  moreover have "revokeKey d' a i = Inr d'"
  proof -
    have "?f k \<in> set (keys d')" "k_id (?f k) = lower i" "k_orgId (?f k) = ac_orgId a"
      using d' assms(3,4) org by auto
    with dead d'(2) show ?thesis
      by (auto simp: revokeKey_def guarded_def requireCapability_def may_def Let_def sel_def filter_empty_conv)
  qed
  moreover have "revokeKey e b i = Inl (NotFound (''key '' @ i))"
    if "ac_orgId b \<noteq> ac_orgId a" "may b CapResourceWrite" "\<And>r. r \<in> set (keys e) \<Longrightarrow> k_id r = lower i \<Longrightarrow> k_orgId r = ac_orgId a" for e
    using that by (auto simp: revokeKey_def guarded_def requireCapability_def may_def Let_def sel_def filter_empty_conv)
  ultimately show ?thesis using dead only org by blast
qed

theorem revoked_key_refused_witness:
  "\<exists>d'. revokeKey (empty_db\<lparr>keys := [demo_key]\<rparr>) demo_actor ''K'' = Inr d' \<and> resolveKeyByHash d' 5 ''h'' = None \<and>
     revokeKey d' demo_actor ''K'' = Inr d'"
proof -
  let ?d = "empty_db\<lparr>keys := [demo_key]\<rparr>"
  have l: "lower_char CHR ''K'' = CHR ''k''" by code_simp
  have "keys_ok ?d" by (simp add: keys_ok_def empty_db_def demo_key_def)
  moreover have "demo_key \<in> set (keys ?d)" "k_id demo_key = lower ''K''" "k_hash demo_key = ''h''"
    by (simp_all add: demo_key_def l)
  moreover obtain d' where "revokeKey ?d demo_actor ''K'' = Inr d'"
    by (simp add: revokeKey_def l demo_actor_def may_def authorize_def sel_def demo_key_def guarded_def requireCapability_def)
  ultimately show ?thesis using revoked_key_refused [of ?d demo_actor "''K''" d' demo_key 5] by metis
qed

text \<open>
  A key that was created works with the secret that was shown, until it expires, on exactly the
  paddocks that were chosen, and every one of them belongs to the creator's organization.
\<close>

theorem created_key_resolves:
  assumes "createKey datetime sha256 random newId d a input = Inr (c, d')" and "createKeyInput datetime input = Some inp"
    and "keys_ok d" and "distinct (map p_id (paddocks d))" and "\<not> keyExpired (ki_expiresAt inp) now"
  shows "\<exists>rk. resolveKeyByHash d' now (sha256 (cr_plaintext c)) = Some rk \<and> rk_keyId rk = cr_id c \<and> rk_orgId rk = ac_orgId a \<and>
    rk_expiresAt rk = ki_expiresAt inp \<and>
    set (rk_paddockSlugs rk) = p_slug ` {p \<in> set (paddocks d). p_id p \<in> lower ` set (ki_paddockIds inp)} \<and>
    (\<forall>p \<in> set (paddocks d). p_id p \<in> lower ` set (ki_paddockIds inp) \<longrightarrow> p_orgId p = ac_orgId a)"
  using assms(1)
proof (rule createKey_Inr, goal_cases)
  case (1 inp')
  with assms(2) have [simp]: "inp' = inp" by simp
  let ?k = "live_key_row a newId (generateApiKey sha256 random) inp"
  let ?ids = "uniq (ki_paddockIds inp)"
  let ?owned = "sel (\<lambda>p. p_orgId p = ac_orgId a \<and> p_id p \<in> lower ` set (ki_paddockIds inp)) (paddocks d)"
  have h: "k_hash ?k = sha256 (cr_plaintext c)" "k_id ?k = newId" "k_kind ?k = LiveKey" "k_status ?k = ActiveKey"
      "k_expiresAt ?k = ki_expiresAt inp" "k_orgId ?k = ac_orgId a"
    using 1(11) by (simp_all add: live_key_row_def generateApiKey_def Let_def)
  have row: "sel1 (\<lambda>k. k_hash k = sha256 (cr_plaintext c) \<and> k_kind k = LiveKey \<and> usable now k) (keys d') = Some ?k"
    using 1(3,5) h assms(5) by (intro sel1_only) (auto simp: usable_iff live_not_oauth image_iff)
  have "set (linked_slugs d' newId) = p_slug ` {p \<in> set (paddocks d). p_id p \<in> lower ` set (ki_paddockIds inp)}"
  proof -
    have "\<forall>l \<in> set (key_paddocks d). kp_keyId l \<noteq> newId" using assms(3) 1(4) by (auto simp: keys_ok_def)
    then have "sel (\<lambda>l. kp_keyId l = newId) (key_paddocks d') =
        map (\<lambda>i. \<lparr>kp_keyId = newId, kp_paddockId = i\<rparr>) (map lower ?ids)"
      by (simp add: sel_def 1(6) o_def filter_empty_conv)
    then have "linked_slugs d' newId = concat (map (\<lambda>i. map p_slug (sel (\<lambda>p. p_id p = lower i) (paddocks d))) ?ids)"
      by (simp add: linked_slugs_def 1(7) o_def)
    then show ?thesis by auto
  qed
  moreover have "p_orgId p = ac_orgId a" if p: "p \<in> set (paddocks d)" "p_id p \<in> lower ` set (ki_paddockIds inp)" for p
  proof -
    have "distinct (map p_id ?owned)"
      unfolding sel_def by (rule distinct_map_sub [OF assms(4)])
    from distinct_card [OF this] have "card (p_id ` set ?owned) = length ?owned" by simp
    moreover have "card (lower ` set (ki_paddockIds inp)) \<le> length ?ids"
      using card_image_le [of "set ?ids" lower] card_length [of ?ids] by simp
    moreover have "p_id ` set ?owned \<subseteq> lower ` set (ki_paddockIds inp)" by auto
    ultimately have "p_id ` set ?owned = lower ` set (ki_paddockIds inp)"
      using 1(12) by (intro card_seteq) simp_all
    with p(2) have "p_id p \<in> p_id ` set ?owned" by simp
    then obtain q where q: "q \<in> set ?owned" "p_id q = p_id p" by fastforce
    then have "q = p" using distinct_key_eq [OF assms(4) _ p(1) q(2)] by simp
    with q show ?thesis by simp
  qed
  ultimately show ?case
    using h 1(10) row by (auto simp: resolveKeyByHash_def resolve_def)
qed

definition demo_create :: js where
  "demo_create = Obj [(''name'', Str ''n''), (''paddockIds'', Arr [Str demo_key_id])]"

definition demo_create_db :: db where
  "demo_create_db = empty_db\<lparr>paddocks := [demo_paddock_row\<lparr>p_id := demo_key_id\<rparr>]\<rparr>"

theorem created_key_resolves_witness:
  "\<exists>c d' rk. createKey (\<lambda>_. None) (\<lambda>s. ''h'' @ s) ''r'' ''i'' demo_create_db demo_actor demo_create = Inr (c, d') \<and>
     resolveKeyByHash d' 5 (''h'' @ cr_plaintext c) = Some rk \<and> set (rk_paddockSlugs rk) = {''s''}"
proof -
  let ?r = "createKey (\<lambda>_. None) (\<lambda>s. ''h'' @ s) ''r'' ''i'' demo_create_db demo_actor demo_create"
  have "case ?r of Inl e \<Rightarrow> False | Inr r \<Rightarrow> True" by code_simp
  then obtain c d' where r: "?r = Inr (c, d')" by (cases ?r) auto
  have i: "createKeyInput (\<lambda>_. None) demo_create = Some \<lparr>ki_name = ''n'', ki_paddockIds = [demo_key_id], ki_expiresAt = None, ki_overrides = Null\<rparr>"
    by code_simp
  have u: "lower demo_key_id = demo_key_id" by code_simp
  have "keys_ok demo_create_db" "distinct (map p_id (paddocks demo_create_db))"
    by (simp_all add: demo_create_db_def keys_ok_def empty_db_def)
  from created_key_resolves [OF r i this, of 5] r u show ?thesis
    by (auto simp: keyExpired_def demo_create_db_def demo_paddock_row_def cong: conj_cong)
qed

end
