(* ===== verification/Members.thy ===== *)
theory Members
  imports KeysService
begin

text \<open>
  The members of an organization (apps/control-plane/src/server/users-service.ts, invites-service.ts,
  seats.ts): roles, deactivation, seats, invites, and what a change of standing does to the apps a user
  approved. Each service is one transaction under the organization's lock, hence one step. Digests,
  random bytes, the email syntax check and the ids of new rows are arguments.
\<close>

section \<open>Seats (seats.ts, entitlement-service.ts)\<close>

definition BASE_SEATS :: int where
  "BASE_SEATS = 1"

definition resolveEntitlementSeats :: "string \<Rightarrow> int \<Rightarrow> int option \<Rightarrow> int \<Rightarrow> int" where
  "resolveEntitlementSeats status seats graceUntil now =
     (if status = ''active'' then seats
      else case graceUntil of
          Some g \<Rightarrow> if g > now then seats else BASE_SEATS
        | None \<Rightarrow> BASE_SEATS)"

definition getEntitlement :: "db \<Rightarrow> string \<Rightarrow> entitlement_row option" where
  "getEntitlement d og = sel1 (\<lambda>e. e_orgId e = og) (entitlements d)"

definition getSeatLimit :: "db \<Rightarrow> string \<Rightarrow> int \<Rightarrow> int" where
  "getSeatLimit d og now =
     (case getEntitlement d og of
        None \<Rightarrow> BASE_SEATS
      | Some e \<Rightarrow> resolveEntitlementSeats (e_status e) (e_seats e) (e_graceUntil e) now)"

definition active_in :: "string \<Rightarrow> user_row \<Rightarrow> bool" where
  "active_in og u = (u_orgId u = og \<and> u_status u = ActiveUser)"

definition pending_in :: "string \<Rightarrow> int \<Rightarrow> invite_row \<Rightarrow> bool" where
  "pending_in og now i = (i_orgId i = og \<and> i_acceptedAt i = None \<and> now < i_expiresAt i)"

definition countActiveUsers :: "db \<Rightarrow> string \<Rightarrow> nat" where
  "countActiveUsers d og = length (sel (active_in og) (users d))"

definition countPendingInvites :: "db \<Rightarrow> string \<Rightarrow> int \<Rightarrow> nat" where
  "countPendingInvites d og now = length (sel (pending_in og now) (invites d))"

definition seats_used :: "db \<Rightarrow> string \<Rightarrow> int \<Rightarrow> int" where
  "seats_used d og now = int (countActiveUsers d og + countPendingInvites d og now)"

record seat_usage =
  su_used :: int
  su_limit :: int
  su_free :: int

definition seatUsage :: "db \<Rightarrow> actor \<Rightarrow> int \<Rightarrow> int \<Rightarrow> svc_error + seat_usage" where
  "seatUsage d a limit now =
     guarded a CapUserManage
       (let used = seats_used d (ac_orgId a) now in Inr \<lparr>su_used = used, su_limit = limit, su_free = max 0 (limit - used)\<rparr>)"

section \<open>Users (users-service.ts)\<close>

definition listUsers :: "db \<Rightarrow> actor \<Rightarrow> svc_error + user_row list" where
  "listUsers d a = guarded a CapUserManage (Inr (sort_key u_createdAt (sel (\<lambda>u. u_orgId u = ac_orgId a) (users d))))"

definition otherActiveAdmins :: "db \<Rightarrow> string \<Rightarrow> string \<Rightarrow> nat" where
  "otherActiveAdmins d og except =
     length (sel (\<lambda>u. u_orgId u = og \<and> u_role u = Admin \<and> u_status u = ActiveUser \<and> u_id u \<noteq> uuid_lit except) (users d))"

definition org_user :: "db \<Rightarrow> actor \<Rightarrow> string \<Rightarrow> user_row option" where
  "org_user d a userId = sel1 (\<lambda>u. u_id u = uuid_lit userId \<and> u_orgId u = ac_orgId a) (users d)"

definition set_user :: "actor \<Rightarrow> string \<Rightarrow> (user_row \<Rightarrow> user_row) \<Rightarrow> db \<Rightarrow> db" where
  "set_user a userId f d = d\<lparr>users := upd (\<lambda>u. u_id u = uuid_lit userId \<and> u_orgId u = ac_orgId a) f (users d)\<rparr>"

definition changeUserRole :: "db \<Rightarrow> actor \<Rightarrow> string \<Rightarrow> role \<Rightarrow> svc_error + db" where
  "changeUserRole d a userId role =
     guarded a CapUserManage
       (case org_user d a userId of
          None \<Rightarrow> Inl (NotFound (''user '' @ userId))
        | Some target \<Rightarrow>
            if u_role target = Admin \<and> role \<noteq> Admin \<and> u_status target = ActiveUser \<and>
               otherActiveAdmins d (ac_orgId a) userId = 0 then Inl LastAdmin
            else
              (let d1 = writeAudit a ''user.role'' (''user:'' @ userId) (Obj [(''role'', Str (role_str role))])
                     (set_user a userId (\<lambda>u. u\<lparr>u_role := role\<rparr>) d) in
               Inr (if role = Viewer then snd (revokeOauthKeysForUser d1 a (uuid_lit userId) ''user.role'') else d1)))"

definition setUserStatus :: "db \<Rightarrow> actor \<Rightarrow> string \<Rightarrow> user_status \<Rightarrow> int \<Rightarrow> int \<Rightarrow> svc_error + db" where
  "setUserStatus d a userId status seatLimit now =
     guarded a CapUserManage
       (if status = Deactivated \<and> userId = ac_id a then Inl SelfAction
        else case org_user d a (ac_id a) of
            None \<Rightarrow> Inl (NotFound (''user '' @ userId))
          | Some self \<Rightarrow>
              if u_status self \<noteq> ActiveUser then Inl (NotFound (''user '' @ userId))
              else (case org_user d a userId of
                  None \<Rightarrow> Inl (NotFound (''user '' @ userId))
                | Some target \<Rightarrow>
                    if status = Deactivated \<and> u_role target = Admin \<and> u_status target = ActiveUser \<and>
                       otherActiveAdmins d (ac_orgId a) userId = 0 then Inl LastAdmin
                    else if status = ActiveUser \<and> u_status target \<noteq> ActiveUser \<and>
                       seatLimit \<le> seats_used d (ac_orgId a) now then Inl SeatLimit
                    else
                      (let d1 = writeAudit a (if status = ActiveUser then ''user.reactivate'' else ''user.deactivate'')
                             (''user:'' @ userId) Undef (set_user a userId (\<lambda>u. u\<lparr>u_status := status\<rparr>) d) in
                       Inr (if status = Deactivated
                            then snd (revokeOauthKeysForUser d1 a (uuid_lit userId) ''user.deactivate'') else d1))))"

section \<open>Invites (invites-service.ts)\<close>

definition INVITE_TTL_MS :: int where
  "INVITE_TTL_MS = 7 * 24 * 60 * 60 * 1000"

definition MIN_PASSWORD_LEN :: nat where
  "MIN_PASSWORD_LEN = 8"

definition inviteInput :: "(string \<Rightarrow> bool) \<Rightarrow> js \<Rightarrow> (string \<times> role) option" where
  "inviteInput email_ok v =
     (case (getp v ''email'', isRole (getp v ''role'')) of
        (Str s, Some r) \<Rightarrow> if email_ok s then Some (lower (trim s), r) else None
      | _ \<Rightarrow> None)"

record created_invite =
  ci_id :: string
  ci_email :: string
  ci_role :: role
  ci_token :: string

definition invite_row_of :: "(string \<Rightarrow> string) \<Rightarrow> string \<Rightarrow> string \<Rightarrow> actor \<Rightarrow> string \<Rightarrow> role \<Rightarrow> int \<Rightarrow> invite_row" where
  "invite_row_of sha256 random newId a email role now =
     \<lparr>i_id = newId, i_orgId = ac_orgId a, i_email = email, i_role = role, i_tokenHash = sha256 (to_b64u random),
      i_expiresAt = now + INVITE_TTL_MS, i_acceptedAt = None, i_createdAt = now\<rparr>"

definition inviteUser :: "(string \<Rightarrow> bool) \<Rightarrow> (string \<Rightarrow> string) \<Rightarrow> string \<Rightarrow> string \<Rightarrow> db \<Rightarrow> actor \<Rightarrow> js \<Rightarrow> int \<Rightarrow> int \<Rightarrow>
    svc_error + created_invite \<times> db" where
  "inviteUser email_ok sha256 random newId d a input seatLimit now =
     guarded a CapUserManage
       (case inviteInput email_ok input of
          None \<Rightarrow> Inl InvalidInput
        | Some (email, role) \<Rightarrow>
            (let row = invite_row_of sha256 random newId a email role now in
             if seatLimit \<le> seats_used d (ac_orgId a) now then Inl SeatLimit
             else if list_ex (\<lambda>u. active_in (ac_orgId a) u \<and> u_email u = email) (users d) \<or>
                     list_ex (\<lambda>i. pending_in (ac_orgId a) now i \<and> i_email i = email) (invites d) then Inl (DuplicateInvite email)
             else if i_id row \<in> i_id ` set (invites d) \<or> i_tokenHash row \<in> i_tokenHash ` set (invites d) then Inl DbFailure
             else Inr (\<lparr>ci_id = newId, ci_email = email, ci_role = role, ci_token = to_b64u random\<rparr>,
                 writeAudit a ''user.invite'' (''invite:'' @ newId)
                   (Obj [(''email'', Str email), (''role'', Str (role_str role))]) (d\<lparr>invites := invites d @ [row]\<rparr>))))"

definition listPendingInvites :: "db \<Rightarrow> actor \<Rightarrow> int \<Rightarrow> svc_error + invite_row list" where
  "listPendingInvites d a now =
     guarded a CapUserManage (Inr (sort_key i_createdAt (sel (pending_in (ac_orgId a) now) (invites d))))"

definition revokeInvite :: "db \<Rightarrow> actor \<Rightarrow> string \<Rightarrow> svc_error + db" where
  "revokeInvite d a i =
     guarded a CapUserManage
       (let mine = (\<lambda>r. i_id r = uuid_lit i \<and> i_orgId r = ac_orgId a \<and> i_acceptedAt r = None) in
        if sel mine (invites d) = [] then Inl (NotFound (''invite '' @ i))
        else Inr (writeAudit a ''invite.revoke'' (''invite:'' @ i) Undef (d\<lparr>invites := del mine (invites d)\<rparr>)))"

text \<open>The user row of an accepted invite; email addresses are unique over all organizations.\<close>

definition insert_user :: "user_row \<Rightarrow> db \<Rightarrow> svc_error + db" where
  "insert_user u d =
     (if u_id u \<in> u_id ` set (users d) \<or> u_email u \<in> u_email ` set (users d) then Inl DbFailure
      else Inr (d\<lparr>users := users d @ [u]\<rparr>))"

definition acceptInvite :: "(string \<Rightarrow> string) \<Rightarrow> (string \<Rightarrow> string) \<Rightarrow> string \<Rightarrow> db \<Rightarrow> string \<Rightarrow> string \<Rightarrow> int \<Rightarrow>
    svc_error + actor \<times> db" where
  "acceptInvite sha256 hashPassword newId d token password now =
     (if utf16_length password < MIN_PASSWORD_LEN then Inl WeakPassword
      else case sel1 (\<lambda>i. i_tokenHash i = sha256 token) (invites d) of
          None \<Rightarrow> Inl (InviteRefused InviteInvalid)
        | Some iv \<Rightarrow>
            if i_acceptedAt iv \<noteq> None then Inl (InviteRefused InviteAccepted)
            else if i_expiresAt iv \<le> now then Inl (InviteRefused InviteExpired)
            else
              (case insert_user \<lparr>u_id = newId, u_orgId = i_orgId iv, u_email = i_email iv, u_passwordHash = hashPassword password,
                   u_role = i_role iv, u_status = ActiveUser, u_createdAt = now\<rparr> d of
                 Inl e \<Rightarrow> Inl e
               | Inr d1 \<Rightarrow>
                   (let a = \<lparr>ac_id = newId, ac_orgId = i_orgId iv, ac_email = i_email iv, ac_role = i_role iv,
                       ac_grants = None, ac_credential = ''session''\<rparr> in
                    Inr (a, writeAudit a ''user.accept'' (''user:'' @ newId)
                      (Obj [(''role'', Str (role_str (i_role iv))), (''invite'', Str (i_id iv))])
                      (d1\<lparr>invites := upd (\<lambda>r. i_id r = i_id iv) (\<lambda>r. r\<lparr>i_acceptedAt := Some now\<rparr>) (invites d1)\<rparr>)))))"

section \<open>Steps\<close>

text \<open>
  The actor of a request is its user's row, read at the start of the request. It is current in a step
  when the row still says the same.
\<close>

definition current_actor :: "db \<Rightarrow> actor \<Rightarrow> bool" where
  "current_actor d a =
     (\<exists>u \<in> set (users d). u_id u = ac_id a \<and> u_orgId u = ac_orgId a \<and> u_role u = ac_role a \<and> u_status u = ActiveUser)"

text \<open>A step of the members or their keys at a time, under a seat limit for each organization.\<close>

inductive member_step :: "(string \<Rightarrow> int) \<Rightarrow> int \<Rightarrow> db \<Rightarrow> db \<Rightarrow> bool" for limit :: "string \<Rightarrow> int" and now :: int where
  change_role: "changeUserRole d a uid r = Inr d' \<Longrightarrow> member_step limit now d d'"
| set_status: "setUserStatus d a uid st (limit (ac_orgId a)) now = Inr d' \<Longrightarrow> member_step limit now d d'"
| invite: "inviteUser email_ok sha256 random newId d a input (limit (ac_orgId a)) now = Inr (c, d') \<Longrightarrow> member_step limit now d d'"
| revoke_invite: "revokeInvite d a i = Inr d' \<Longrightarrow> member_step limit now d d'"
| accept: "acceptInvite sha256 hashPassword newId d token password now = Inr (b, d') \<Longrightarrow> member_step limit now d d'"
| create_key: "createKey datetime sha256 random newId d a input = Inr (c', d') \<Longrightarrow> member_step limit now d d'"
| revoke_key: "revokeKey d a i = Inr d' \<Longrightarrow> member_step limit now d d'"
| mint_key: "current_actor d a \<Longrightarrow> mintOauthKey sha256 random newId d a inp = Inr ((i, oc), d') \<Longrightarrow> member_step limit now d d'"

inductive member_run :: "(string \<Rightarrow> int) \<Rightarrow> int \<Rightarrow> db \<Rightarrow> int \<Rightarrow> db \<Rightarrow> bool" for limit :: "string \<Rightarrow> int" and t0 :: int and d0 :: db where
  start: "member_run limit t0 d0 t0 d0"
| snoc: "member_run limit t0 d0 t d \<Longrightarrow> t \<le> now \<Longrightarrow> member_step limit now d d' \<Longrightarrow> member_run limit t0 d0 now d'"

definition members_ok :: "db \<Rightarrow> bool" where
  "members_ok d = (distinct (map u_id (users d)) \<and> distinct (map i_id (invites d)))"

definition has_admin :: "db \<Rightarrow> string \<Rightarrow> bool" where
  "has_admin d og = (\<exists>u \<in> set (users d). u_orgId u = og \<and> u_role u = Admin \<and> u_status u = ActiveUser)"

text \<open>Whoever approved an app that still works may still approve apps.\<close>

definition approvals_ok :: "db \<Rightarrow> bool" where
  "approvals_ok d =
     (\<forall>k \<in> set (keys d). k_kind k = OauthKey \<and> k_status k = ActiveKey \<longrightarrow>
        (\<exists>u \<in> set (users d). k_userId k = Some (u_id u) \<and> k_orgId k = u_orgId u \<and> u_status u = ActiveUser \<and> u_role u \<noteq> Viewer))"

section \<open>What each step changes\<close>

lemma audited_cong: "audit d = audit d' \<Longrightarrow> audited_by a d0 d \<longleftrightarrow> audited_by a d0 d'"
  by (simp add: audited_by_def)

lemma revokeOauthKeysForUser_audited:
  "audited_by a d0 d \<Longrightarrow> audited_by a d0 (snd (revokeOauthKeysForUser d a u r))"
  using audited_cong [of "revoke_where (oauth_keys_of a u) d" d a d0]
  by (simp add: revokeOauthKeysForUser_def Let_def revoke_where_def audits_more)

lemma set_user_frames [simp]:
  "invites (set_user a i f d) = invites d" "keys (set_user a i f d) = keys d" "audit (set_user a i f d) = audit d"
  "key_paddocks (set_user a i f d) = key_paddocks d"
  by (simp_all add: set_user_def)

lemma keys_revoke_where_cong: "keys d = keys d' \<Longrightarrow> keys (revoke_where P d) = keys (revoke_where P d')"
  by (simp add: revoke_where_def)

lemma changeUserRole_Inr:
  assumes "changeUserRole d a uid r = Inr d'"
  obtains u where "org_user d a uid = Some u" and "users d' = users (set_user a uid (\<lambda>u. u\<lparr>u_role := r\<rparr>) d)"
    and "u_role u = Admin \<Longrightarrow> r \<noteq> Admin \<Longrightarrow> u_status u = ActiveUser \<Longrightarrow> otherActiveAdmins d (ac_orgId a) uid \<noteq> 0"
    and "invites d' = invites d" and "may a CapUserManage" and "audited_by a d d'"
    and "keys d' = (if r = Viewer then keys (revoke_where (oauth_keys_of a (uuid_lit uid)) d) else keys d)"
proof -
  let ?d1 = "writeAudit a ''user.role'' (''user:'' @ uid) (Obj [(''role'', Str (role_str r))]) (set_user a uid (\<lambda>u. u\<lparr>u_role := r\<rparr>) d)"
  from assms obtain u where u: "org_user d a uid = Some u" "may a CapUserManage"
    "\<not> (u_role u = Admin \<and> r \<noteq> Admin \<and> u_status u = ActiveUser \<and> otherActiveAdmins d (ac_orgId a) uid = 0)"
    and d': "d' = (if r = Viewer then snd (revokeOauthKeysForUser ?d1 a (uuid_lit uid) ''user.role'') else ?d1)"
    by (auto simp: changeUserRole_def Let_def split: option.split_asm if_split_asm)
  have "audited_by a d ?d1" by (rule writeAudit_audited) simp
  then have "audited_by a d d'" by (simp only: d' revokeOauthKeysForUser_audited split: if_split) simp
  with u show thesis
    by (intro that [of u]) (auto simp: d' intro: keys_revoke_where_cong)
qed

lemma setUserStatus_Inr:
  assumes "setUserStatus d a uid st seatLimit now = Inr d'"
  obtains u where "org_user d a uid = Some u" and "users d' = users (set_user a uid (\<lambda>u. u\<lparr>u_status := st\<rparr>) d)"
    and "u_role u = Admin \<Longrightarrow> st = Deactivated \<Longrightarrow> u_status u = ActiveUser \<Longrightarrow> otherActiveAdmins d (ac_orgId a) uid \<noteq> 0"
    and "st = ActiveUser \<Longrightarrow> u_status u \<noteq> ActiveUser \<Longrightarrow> seats_used d (ac_orgId a) now < seatLimit"
    and "invites d' = invites d" and "may a CapUserManage" and "audited_by a d d'"
    and "keys d' = (if st = Deactivated then keys (revoke_where (oauth_keys_of a (uuid_lit uid)) d) else keys d)"
proof -
  let ?d1 = "writeAudit a (if st = ActiveUser then ''user.reactivate'' else ''user.deactivate'') (''user:'' @ uid) Undef
    (set_user a uid (\<lambda>u. u\<lparr>u_status := st\<rparr>) d)"
  from assms obtain u where u: "org_user d a uid = Some u" "may a CapUserManage"
    "\<not> (st = Deactivated \<and> u_role u = Admin \<and> u_status u = ActiveUser \<and> otherActiveAdmins d (ac_orgId a) uid = 0)"
    "\<not> (st = ActiveUser \<and> u_status u \<noteq> ActiveUser \<and> seatLimit \<le> seats_used d (ac_orgId a) now)"
    and d': "d' = (if st = Deactivated then snd (revokeOauthKeysForUser ?d1 a (uuid_lit uid) ''user.deactivate'') else ?d1)"
    by (auto simp: setUserStatus_def Let_def split: option.split_asm if_split_asm)
  have "audited_by a d ?d1" by (rule writeAudit_audited) simp
  then have "audited_by a d d'" by (simp only: d' revokeOauthKeysForUser_audited split: if_split) simp
  with u show thesis
    by (intro that [of u]) (auto simp: d' intro: keys_revoke_where_cong)
qed

lemma inviteUser_Inr:
  assumes "inviteUser email_ok sha256 random newId d a input seatLimit now = Inr (c, d')"
  obtains email role where "inviteInput email_ok input = Some (email, role)" and "seats_used d (ac_orgId a) now < seatLimit"
    and "invites d' = invites d @ [invite_row_of sha256 random newId a email role now]" and "users d' = users d" and "keys d' = keys d"
    and "newId \<notin> i_id ` set (invites d)" and "sha256 (to_b64u random) \<notin> i_tokenHash ` set (invites d)"
    and "may a CapUserManage" and "audited_by a d d'" and "ci_token c = to_b64u random" and "ci_email c = email"
    and "\<not> list_ex (\<lambda>i. pending_in (ac_orgId a) now i \<and> i_email i = email) (invites d)"
    and "\<not> list_ex (\<lambda>u. active_in (ac_orgId a) u \<and> u_email u = email) (users d)"
  using assms
  by (auto simp: inviteUser_def Let_def invite_row_of_def split: option.split_asm if_split_asm prod.split_asm
      intro!: that writeAudit_audited)

lemma revokeInvite_Inr:
  assumes "revokeInvite d a i = Inr d'"
  shows "users d' = users d \<and> keys d' = keys d \<and> may a CapUserManage \<and> audited_by a d d' \<and>
    invites d' = del (\<lambda>r. i_id r = uuid_lit i \<and> i_orgId r = ac_orgId a \<and> i_acceptedAt r = None) (invites d)"
  using assms by (auto simp: revokeInvite_def Let_def split: if_split_asm intro!: writeAudit_audited)

lemma acceptInvite_Inr:
  assumes "acceptInvite sha256 hashPassword newId d token password now = Inr (b, d')"
  obtains iv where "sel1 (\<lambda>i. i_tokenHash i = sha256 token) (invites d) = Some iv" and "i_acceptedAt iv = None" and "now < i_expiresAt iv"
    and "users d' = users d @ [\<lparr>u_id = newId, u_orgId = i_orgId iv, u_email = i_email iv, u_passwordHash = hashPassword password,
                   u_role = i_role iv, u_status = ActiveUser, u_createdAt = now\<rparr>]"
    and "newId \<notin> u_id ` set (users d)" and "i_email iv \<notin> u_email ` set (users d)" and "keys d' = keys d"
    and "invites d' = upd (\<lambda>r. i_id r = i_id iv) (\<lambda>r. r\<lparr>i_acceptedAt := Some now\<rparr>) (invites d)"
    and "audited_by b d d'" and "current_actor d' b"
proof -
  from assms obtain iv where iv: "sel1 (\<lambda>i. i_tokenHash i = sha256 token) (invites d) = Some iv"
    "i_acceptedAt iv = None" "now < i_expiresAt iv"
    by (auto simp: acceptInvite_def split: if_split_asm option.split_asm)
  with assms show thesis
    by (intro that [of iv])
      (auto simp: acceptInvite_def Let_def insert_user_def current_actor_def split: if_split_asm intro!: writeAudit_audited)
qed

section \<open>One step keeps the invariants\<close>

lemma org_user_Some: "org_user d a uid = Some u \<Longrightarrow> u \<in> set (users d) \<and> u_id u = uuid_lit uid \<and> u_orgId u = ac_orgId a"
  unfolding org_user_def by (drule sel1_Some) simp

lemma users_set_user:
  "users (set_user a uid f d) = map (\<lambda>u. if u_id u = uuid_lit uid \<and> u_orgId u = ac_orgId a then f u else u) (users d)"
  by (simp add: set_user_def upd_def)

lemma set_user_ids: "(\<And>u. u_id (f u) = u_id u) \<Longrightarrow> map u_id (users (set_user a uid f d)) = map u_id (users d)"
  by (simp add: users_set_user)

lemma set_user_admin:
  assumes "members_ok d" and u: "org_user d a uid = Some u" and admin: "has_admin d og"
    and f: "\<And>u. u_orgId (f u) = u_orgId u"
    and safe: "u_role u = Admin \<Longrightarrow> u_status u = ActiveUser \<Longrightarrow>
      (u_role (f u) = Admin \<and> u_status (f u) = ActiveUser) \<or> otherActiveAdmins d (ac_orgId a) uid \<noteq> 0"
    and d': "users d' = users (set_user a uid f d)"
  shows "has_admin d' og"
proof -
  from admin obtain w where w: "w \<in> set (users d)" "u_orgId w = og" "u_role w = Admin" "u_status w = ActiveUser"
    by (auto simp: has_admin_def)
  have keep: "has_admin d' og" if "v \<in> set (users d)" "u_orgId v = og" "u_role v = Admin" "u_status v = ActiveUser"
    "\<not> (u_id v = uuid_lit uid \<and> u_orgId v = ac_orgId a)" for v
  proof -
    have "v = (if u_id v = uuid_lit uid \<and> u_orgId v = ac_orgId a then f v else v)" by (simp only: that(5) if_False)
    then have "v \<in> set (users d')" unfolding d' users_set_user set_map using that(1) by (rule image_eqI)
    with that(2-4) show ?thesis unfolding has_admin_def by blast
  qed
  show ?thesis
  proof (cases "u_id w = uuid_lit uid \<and> u_orgId w = ac_orgId a")
    case False
    then show ?thesis using w by (intro keep [of w]) auto
  next
    case True
    with org_user_Some [OF u] w(1) assms(1) have "u = w" by (auto simp: members_ok_def dest: distinct_key_eq)
    with safe w consider "u_role (f u) = Admin" "u_status (f u) = ActiveUser" | "otherActiveAdmins d (ac_orgId a) uid \<noteq> 0" by blast
    then show ?thesis
    proof cases
      case 1
      have "f w = (if u_id w = uuid_lit uid \<and> u_orgId w = ac_orgId a then f w else w)" using True by simp
      then have "f w \<in> set (users d')" unfolding d' users_set_user set_map using w(1) by (rule image_eqI)
      moreover have "u_orgId (f w) = og" using f w(2) by simp
      ultimately show ?thesis
        using 1 \<open>u = w\<close> unfolding has_admin_def by (intro bexI [of _ "f w"] conjI) simp_all
    next
      case 2
      then obtain v where "v \<in> set (users d)" "u_orgId v = ac_orgId a" "u_role v = Admin" "u_status v = ActiveUser"
        "u_id v \<noteq> uuid_lit uid"
        by (auto simp: otherActiveAdmins_def sel_def filter_empty_conv)
      then show ?thesis using True w(2) by (intro keep [of v]) auto
    qed
  qed
qed

lemma has_admin_same: "users d' = users d @ us \<Longrightarrow> has_admin d og \<Longrightarrow> has_admin d' og"
  by (auto simp: has_admin_def)

lemma createKey_users: "createKey datetime sha256 random newId d a input = Inr (c, d') \<Longrightarrow> users d' = users d \<and> invites d' = invites d"
  by (auto simp: createKey_def Let_def insert_key_def link_paddocks_def split: option.split_asm sum.split_asm if_split_asm)

lemma revokeKey_users: "revokeKey d a i = Inr d' \<Longrightarrow> users d' = users d \<and> invites d' = invites d"
  by (auto simp: revokeKey_def Let_def revoke_where_def split: if_split_asm)

lemma mintOauthKey_users: "mintOauthKey sha256 random newId d a inp = Inr (r, d') \<Longrightarrow> users d' = users d \<and> invites d' = invites d"
  by (auto simp: mintOauthKey_def insert_key_def link_paddocks_def split: option.split_asm sum.split_asm if_split_asm)

lemma distinct_invites_upd: "distinct (map i_id t) \<Longrightarrow> distinct (map i_id (upd P (\<lambda>r. r\<lparr>i_acceptedAt := x\<rparr>) t))"
  by (subst map_upd_key) simp_all

lemma member_step_ok:
  assumes "member_step limit now d d'" and "members_ok d"
  shows "members_ok d'"
  using assms
proof (cases rule: member_step.cases)
  case (change_role a uid r)
  then show ?thesis by (rule changeUserRole_Inr) (use assms in \<open>simp add: members_ok_def set_user_ids\<close>)
next
  case (set_status a uid st)
  then show ?thesis by (rule setUserStatus_Inr) (use assms in \<open>simp add: members_ok_def set_user_ids\<close>)
next
  case (invite email_ok sha256 random newId a input c)
  then show ?thesis by (rule inviteUser_Inr) (use assms in \<open>simp add: members_ok_def invite_row_of_def\<close>)
next
  case (revoke_invite a i)
  from revokeInvite_Inr [OF this] assms show ?thesis by (simp add: members_ok_def distinct_del)
next
  case (accept sha256 hashPassword newId token password b)
  then show ?thesis by (rule acceptInvite_Inr) (use assms in \<open>simp add: members_ok_def distinct_invites_upd\<close>)
next
  case (create_key datetime sha256 random newId a input c')
  from createKey_users [OF this] assms show ?thesis by (simp add: members_ok_def)
next
  case (revoke_key a i)
  from revokeKey_users [OF this] assms show ?thesis by (simp add: members_ok_def)
next
  case (mint_key a sha256 random newId inp i oc)
  from mintOauthKey_users [OF this(2)] assms show ?thesis by (simp add: members_ok_def)
qed

lemma member_step_admin:
  assumes "member_step limit now d d'" and "members_ok d" and "has_admin d og"
  shows "has_admin d' og"
  using assms(1)
proof (cases rule: member_step.cases)
  case (change_role a uid r)
  then show ?thesis
  proof (rule changeUserRole_Inr, goal_cases)
    case (1 u)
    show ?case by (rule set_user_admin [OF assms(2) 1(1) assms(3) _ _ 1(2)]) (simp, use 1(3) in \<open>simp, blast\<close>)
  qed
next
  case (set_status a uid st)
  then show ?thesis
  proof (rule setUserStatus_Inr, goal_cases)
    case (1 u)
    show ?case by (rule set_user_admin [OF assms(2) 1(1) assms(3) _ _ 1(2)]) (simp, use 1(3) in \<open>cases st; simp\<close>)
  qed
next
  case (invite email_ok sha256 random newId a input c)
  then show ?thesis by (rule inviteUser_Inr) (use assms in \<open>simp add: has_admin_def\<close>)
next
  case (revoke_invite a i)
  from revokeInvite_Inr [OF this] assms show ?thesis by (simp add: has_admin_def)
next
  case (accept sha256 hashPassword newId token password b)
  then show ?thesis by (rule acceptInvite_Inr) (use assms in \<open>auto simp: has_admin_def\<close>)
next
  case (create_key datetime sha256 random newId a input c')
  from createKey_users [OF this] assms show ?thesis by (simp add: has_admin_def)
next
  case (revoke_key a i)
  from revokeKey_users [OF this] assms show ?thesis by (simp add: has_admin_def)
next
  case (mint_key a sha256 random newId inp i oc)
  from mintOauthKey_users [OF this(2)] assms show ?thesis by (simp add: has_admin_def)
qed

lemma set_user_mem:
  "u \<in> set (users d) \<Longrightarrow> (if u_id u = uuid_lit uid \<and> u_orgId u = ac_orgId a then f u else u) \<in> set (users (set_user a uid f d))"
  unfolding users_set_user set_map by (rule image_eqI [OF refl])

lemma revoke_where_active:
  "k \<in> set (keys (revoke_where P d)) \<Longrightarrow> k_status k = ActiveKey \<Longrightarrow> k \<in> set (keys d) \<and> \<not> P k"
  by (auto simp: revoke_where_map split: if_split_asm)

lemma approvals_okD:
  "approvals_ok d \<Longrightarrow> k \<in> set (keys d) \<Longrightarrow> k_kind k = OauthKey \<Longrightarrow> k_status k = ActiveKey \<Longrightarrow>
     \<exists>u \<in> set (users d). k_userId k = Some (u_id u) \<and> k_orgId k = u_orgId u \<and> u_status u = ActiveUser \<and> u_role u \<noteq> Viewer"
  by (simp add: approvals_ok_def)

lemma set_user_approvals:
  assumes ok: "approvals_ok d" and f: "\<And>u. u_id (f u) = u_id u \<and> u_orgId (f u) = u_orgId u"
    and d': "users d' = users (set_user a uid f d)"
    and ks: "keys d' = keys (revoke_where (oauth_keys_of a (uuid_lit uid)) d) \<or>
      keys d' = keys d \<and> (\<forall>u. u_status u = ActiveUser \<and> u_role u \<noteq> Viewer \<longrightarrow> u_status (f u) = ActiveUser \<and> u_role (f u) \<noteq> Viewer)"
  shows "approvals_ok d'"
  unfolding approvals_ok_def
proof (intro ballI impI, elim conjE)
  fix k assume k: "k \<in> set (keys d')" "k_kind k = OauthKey" "k_status k = ActiveKey"
  have old: "k \<in> set (keys d) \<and> (keys d' = keys d \<or> \<not> oauth_keys_of a (uuid_lit uid) k)"
    using ks k(1) revoke_where_active [OF _ k(3)] by metis
  from approvals_okD [OF ok _ k(2,3)] old obtain u where u: "u \<in> set (users d)" "k_userId k = Some (u_id u)" "k_orgId k = u_orgId u"
    "u_status u = ActiveUser" "u_role u \<noteq> Viewer" by blast
  let ?u = "if u_id u = uuid_lit uid \<and> u_orgId u = ac_orgId a then f u else u"
  have "?u \<in> set (users d')" using set_user_mem [OF u(1)] d' by simp
  moreover have "k_userId k = Some (u_id ?u) \<and> k_orgId k = u_orgId ?u" using f u by auto
  moreover have "u_status ?u = ActiveUser \<and> u_role ?u \<noteq> Viewer"
  proof (cases "oauth_keys_of a (uuid_lit uid) k")
    case True
    with old ks k(1) revoke_where_active [OF _ k(3)] have
      "\<forall>u. u_status u = ActiveUser \<and> u_role u \<noteq> Viewer \<longrightarrow> u_status (f u) = ActiveUser \<and> u_role (f u) \<noteq> Viewer" by metis
    with u show ?thesis by simp
  next
    case False
    with k(2) u have "\<not> (u_id u = uuid_lit uid \<and> u_orgId u = ac_orgId a)" by (auto simp: oauth_keys_of_def)
    with u show ?thesis by auto
  qed
  ultimately show "\<exists>u \<in> set (users d'). k_userId k = Some (u_id u) \<and> k_orgId k = u_orgId u \<and> u_status u = ActiveUser \<and> u_role u \<noteq> Viewer"
    by blast
qed

lemma approvals_more_users: "approvals_ok d \<Longrightarrow> users d' = users d @ us \<Longrightarrow> keys d' = keys d \<Longrightarrow> approvals_ok d'"
  unfolding approvals_ok_def by auto

lemma approvals_keys_fall:
  "approvals_ok d \<Longrightarrow> users d' = users d \<Longrightarrow> keys d' = map f (keys d) \<Longrightarrow> status_falls f \<Longrightarrow> approvals_ok d'"
  unfolding approvals_ok_def status_falls_def by auto

lemma approvals_revoked:
  "approvals_ok d \<Longrightarrow> users d' = users d \<Longrightarrow> keys d' = keys (revoke_where P d) \<or> d' = d \<Longrightarrow> approvals_ok d'"
proof -
  assume "approvals_ok d" "users d' = users d" "keys d' = keys (revoke_where P d) \<or> d' = d"
  then consider "d' = d" | "keys d' = keys (revoke_where P d)" by blast
  then show ?thesis
  proof cases
    case 2
    with approvals_keys_fall [OF \<open>approvals_ok d\<close> \<open>users d' = users d\<close> _ status_falls_revoke [of P]]
    show ?thesis by (simp only: revoke_where_map)
  qed (use \<open>approvals_ok d\<close> in simp)
qed

lemma approvals_more_keys:
  "approvals_ok d \<Longrightarrow> users d' = users d \<Longrightarrow> keys d' = keys d @ [k] \<Longrightarrow>
   (k_kind k = OauthKey \<Longrightarrow> \<exists>u \<in> set (users d). k_userId k = Some (u_id u) \<and> k_orgId k = u_orgId u \<and> u_status u = ActiveUser \<and> u_role u \<noteq> Viewer) \<Longrightarrow>
   approvals_ok d'"
  unfolding approvals_ok_def by auto

lemma may_write_not_viewer: "may a CapResourceWrite \<Longrightarrow> ac_role a \<noteq> Viewer"
  by (auto simp: may_def authorize_def)

lemma member_step_approvals:
  assumes "member_step limit now d d'" and "approvals_ok d"
  shows "approvals_ok d'"
  using assms(1)
proof (cases rule: member_step.cases)
  case (change_role a uid r)
  then show ?thesis
  proof (rule changeUserRole_Inr, goal_cases)
    case (1 u)
    show ?case by (rule set_user_approvals [OF assms(2) _ 1(2)]) (use 1(7) in \<open>auto split: if_split_asm\<close>)
  qed
next
  case (set_status a uid st)
  then show ?thesis
  proof (rule setUserStatus_Inr, goal_cases)
    case (1 u)
    show ?case by (rule set_user_approvals [OF assms(2) _ 1(2)]) (use 1(8) in \<open>cases st; auto\<close>)+
  qed
next
  case (invite email_ok sha256 random newId a input c)
  then show ?thesis by (rule inviteUser_Inr) (use approvals_more_users [OF assms(2), of d' "[]"] in simp)
next
  case (revoke_invite a i)
  from revokeInvite_Inr [OF this] show ?thesis using approvals_more_users [OF assms(2), of d' "[]"] by simp
next
  case (accept sha256 hashPassword newId token password b)
  then show ?thesis by (rule acceptInvite_Inr) (rule approvals_more_users [OF assms(2)])
next
  case (create_key datetime sha256 random newId a input c')
  with createKey_users [OF this] show ?thesis
    by (auto elim!: createKey_Inr intro: approvals_more_keys [OF assms(2)] simp: live_not_oauth)
next
  case (revoke_key a i)
  from revokeKey_users [OF this] revokeKey_Inr [OF this] show ?thesis
    using approvals_revoked [OF assms(2)] by metis
next
  case (mint_key a sha256 random newId inp i oc)
  note us = mintOauthKey_users [OF mint_key(2)]
  from mint_key(2) show ?thesis
  proof (rule mintOauthKey_Inr, goal_cases)
    case (1 p)
    show ?case
    proof (cases oc)
      case Created
      with 1(6) have ks: "keys d' = keys d @ [oauth_key_row sha256 random newId a inp]" by blast
      from mint_key(1) obtain u where "u \<in> set (users d)" "u_id u = ac_id a" "u_orgId u = ac_orgId a" "u_role u = ac_role a" "u_status u = ActiveUser"
        by (auto simp: current_actor_def)
      then show ?thesis
        using us may_write_not_viewer [OF 1(1)]
        by (intro approvals_more_keys [OF assms(2) _ ks]) (auto simp: oauth_key_row_def intro: bexI [of _ u])
    next
      case Rebound
      have f: "status_falls (\<lambda>r. if k_id r = i then r\<lparr>k_grantId := Some (mi_grantId inp)\<rparr> else r)"
        by (auto simp: status_falls_def)
      from 1(5) [OF Rebound] us show ?thesis
        using approvals_keys_fall [OF assms(2) _ _ f, of d'] by (auto simp: upd_def)
    qed
  qed
qed

section \<open>Seats\<close>

lemma count_upd1:
  "distinct (map g t) \<Longrightarrow> length (filter P (upd (\<lambda>r. g r = x \<and> Q r) f t)) \<le> Suc (length (filter P t))"
proof (induction t)
  case Nil
  then show ?case by (simp add: upd_def)
next
  case (Cons r t)
  show ?case
  proof (cases "g r = x")
    case True
    with Cons.prems have "upd (\<lambda>r. g r = x \<and> Q r) f t = t" by (intro upd_none) (auto simp: image_iff)
    with True show ?thesis by (auto simp: upd_def)
  next
    case False
    with Cons show ?thesis by (auto simp: upd_def)
  qed
qed

lemma count_upd_less:
  "distinct (map g t) \<Longrightarrow> r \<in> set t \<Longrightarrow> P r \<Longrightarrow> (\<And>s. \<not> P (f s)) \<Longrightarrow>
     Suc (length (filter P (upd (\<lambda>s. g s = g r) f t))) = length (filter P t)"
proof (induction t)
  case Nil
  then show ?case by simp
next
  case (Cons s t)
  show ?case
  proof (cases "s = r")
    case True
    with Cons.prems have "upd (\<lambda>s. g s = g r) f t = t" by (intro upd_none) (auto simp: image_iff)
    with True Cons.prems show ?thesis by (auto simp: upd_def)
  next
    case False
    with Cons.prems have "g s \<noteq> g r" by (auto simp: image_iff)
    with False Cons show ?thesis by (auto simp: upd_def)
  qed
qed

lemma count_upd_weak:
  "(\<And>r. r \<in> set t \<Longrightarrow> P (if Q r then f r else r) \<Longrightarrow> P r) \<Longrightarrow> length (filter P (upd Q f t)) \<le> length (filter P t)"
proof (induction t)
  case Nil
  then show ?case by (simp add: upd_def)
next
  case (Cons r t)
  have "length (filter P (upd Q f t)) \<le> length (filter P t)"
    by (rule Cons.IH, rule Cons.prems) simp_all
  moreover have "P (if Q r then f r else r) \<longrightarrow> P r" by (rule impI, rule Cons.prems) simp_all
  ultimately show ?case by (cases "P r") (simp_all add: upd_def)
qed

lemma count_sub: "(\<And>r. P r \<Longrightarrow> Q r) \<Longrightarrow> length (filter P t) \<le> length (filter Q t)"
  by (induction t) (simp_all add: le_SucI)

lemma seats_used_time: "t \<le> now \<Longrightarrow> seats_used d og now \<le> seats_used d og t"
  unfolding seats_used_def countPendingInvites_def sel_def
  using count_sub [of "pending_in og now" "pending_in og t" "invites d"] by (force simp: pending_in_def)

lemma seats_same: "users d' = users d \<Longrightarrow> invites d' = invites d \<Longrightarrow> seats_used d' og now = seats_used d og now"
  by (simp add: seats_used_def countActiveUsers_def countPendingInvites_def)

lemma set_user_seats:
  assumes ok: "members_ok d" and u: "org_user d a uid = Some u" and f: "\<And>u. u_orgId (f u) = u_orgId u"
    and d': "users d' = users (set_user a uid f d)" "invites d' = invites d"
    and st: "u_status (f u) = ActiveUser \<Longrightarrow> u_status u = ActiveUser \<or> seats_used d (ac_orgId a) now < L (ac_orgId a)"
  shows "seats_used d' og now \<le> max (L og) (seats_used d og now)"
proof -
  let ?P = "\<lambda>u. u_id u = uuid_lit uid \<and> u_orgId u = ac_orgId a"
  have us: "users d' = upd ?P f (users d)" by (simp add: d' set_user_def)
  have only: "v = u" if "v \<in> set (users d)" "?P v" for v
    using that org_user_Some [OF u] ok by (auto simp: members_ok_def dest: distinct_key_eq)
  show ?thesis
  proof (cases "u_status (f u) = ActiveUser \<longrightarrow> u_status u = ActiveUser \<or> og \<noteq> ac_orgId a")
    case True
    have "length (filter (active_in og) (upd ?P f (users d))) \<le> length (filter (active_in og) (users d))"
    proof (rule count_upd_weak)
      fix v assume v: "v \<in> set (users d)" "active_in og (if ?P v then f v else v)"
      show "active_in og v"
      proof (cases "?P v")
        case True
        with only v have "v = u" by blast
        with v True \<open>u_status (f u) = ActiveUser \<longrightarrow> _\<close> f show ?thesis by (auto simp: active_in_def)
      qed (use v in auto)
    qed
    then show ?thesis by (simp add: seats_used_def countActiveUsers_def countPendingInvites_def sel_def us d')
  next
    case False
    with st have less: "seats_used d og now < L og" by auto
    have "length (filter (active_in og) (upd ?P f (users d))) \<le> Suc (length (filter (active_in og) (users d)))"
      by (rule count_upd1) (use ok in \<open>simp add: members_ok_def\<close>)
    with less show ?thesis by (simp add: seats_used_def countActiveUsers_def countPendingInvites_def sel_def us d')
  qed
qed

lemma member_step_seats:
  assumes "member_step limit now d d'" and ok: "members_ok d"
  shows "seats_used d' og now \<le> max (limit og) (seats_used d og now)"
  using assms(1)
proof (cases rule: member_step.cases)
  case (change_role a uid r)
  then show ?thesis
  proof (rule changeUserRole_Inr, goal_cases)
    case (1 u)
    show ?case by (rule set_user_seats [OF ok 1(1) _ 1(2,4)]) auto
  qed
next
  case (set_status a uid st)
  then show ?thesis
  proof (rule setUserStatus_Inr, goal_cases)
    case (1 u)
    show ?case by (rule set_user_seats [OF ok 1(1) _ 1(2,5)]) (use 1(4) in \<open>simp, simp, blast\<close>)
  qed
next
  case (invite email_ok sha256 random newId a input c)
  then show ?thesis
  proof (rule inviteUser_Inr, goal_cases)
    case (1 email role)
    then show ?case
      by (auto simp: seats_used_def countActiveUsers_def countPendingInvites_def sel_def invite_row_of_def pending_in_def)
  qed
next
  case (revoke_invite a i)
  have "length (filter (pending_in og now) (invites d')) \<le> length (filter (pending_in og now) (invites d))"
    using revokeInvite_Inr [OF revoke_invite] by (simp add: del_def) (rule count_sub, simp)
  with revokeInvite_Inr [OF revoke_invite] show ?thesis
    by (simp add: seats_used_def countActiveUsers_def countPendingInvites_def sel_def max_def)
next
  case (accept sha256 hashPassword newId token password b)
  then show ?thesis
  proof (rule acceptInvite_Inr, goal_cases)
    case (1 iv)
    have iv: "iv \<in> set (invites d)" using sel1_Some [OF 1(1)] by simp
    let ?n = "\<lambda>t. length (filter (pending_in og now) t)"
    have "Suc (?n (invites d')) = ?n (invites d)" if "og = i_orgId iv"
      unfolding 1(8) using ok iv 1(2,3) that
      by (intro count_upd_less) (auto simp: members_ok_def pending_in_def)
    moreover have "?n (invites d') \<le> ?n (invites d)"
      unfolding 1(8) by (rule count_upd_weak) (auto simp: pending_in_def split: if_split_asm)
    ultimately show ?case
      by (auto simp: seats_used_def countActiveUsers_def countPendingInvites_def sel_def 1(4) active_in_def max_def)
  qed
next
  case (create_key datetime sha256 random newId a input c')
  with createKey_users [OF create_key] seats_same show ?thesis by (metis max.cobounded2)
next
  case (revoke_key a i)
  with revokeKey_users [OF revoke_key] seats_same show ?thesis by (metis max.cobounded2)
next
  case (mint_key a sha256 random newId inp i oc)
  with mintOauthKey_users [OF mint_key(2)] seats_same show ?thesis by (metis max.cobounded2)
qed

section \<open>Properties\<close>

definition demo_user :: "string \<Rightarrow> role \<Rightarrow> user_row" where
  "demo_user i r = \<lparr>u_id = i, u_orgId = ''o'', u_email = i @ ''@x.io'', u_passwordHash = ''h'', u_role = r, u_status = ActiveUser, u_createdAt = 0\<rparr>"

definition demo_members_db :: db where
  "demo_members_db = empty_db\<lparr>users := [demo_user ''u'' Admin, demo_user ''m'' Member], paddocks := [demo_paddock_row]\<rparr>"

definition demo_demoted :: db where
  "demo_demoted = projr (changeUserRole demo_members_db demo_actor ''m'' Viewer)"

lemma demo_demoted_Inr: "changeUserRole demo_members_db demo_actor ''m'' Viewer = Inr demo_demoted"
proof -
  have "case changeUserRole demo_members_db demo_actor ''m'' Viewer of Inl e \<Rightarrow> False | Inr d \<Rightarrow> True" by code_simp
  then show ?thesis by (auto simp: demo_demoted_def split: sum.split_asm)
qed

lemma demo_member_run: "member_run limit 0 demo_members_db 5 demo_demoted"
  by (rule member_run.snoc [OF member_run.start _ member_step.change_role [OF demo_demoted_Inr]]) simp

lemma demo_members_ok: "members_ok demo_members_db" "has_admin demo_members_db ''o''" "approvals_ok demo_members_db"
  by (simp_all add: members_ok_def has_admin_def approvals_ok_def demo_members_db_def empty_db_def demo_user_def)

text \<open>
  C12. An organization that has an active admin keeps one, whatever its members do: no sequence of role
  changes, deactivations, invites and approvals strands it.
\<close>

theorem an_admin_remains:
  assumes "member_run limit t0 d0 t d" and "members_ok d0" and "has_admin d0 og"
  shows "has_admin d og"
proof -
  have "members_ok d \<and> has_admin d og"
    using assms by (induction rule: member_run.induct) (auto intro: member_step_ok member_step_admin)
  then show ?thesis ..
qed

theorem an_admin_remains_witness: "has_admin demo_demoted ''o''"
  by (rule an_admin_remains [OF demo_member_run demo_members_ok(1,2)])

text \<open>
  C14. An app keeps working only while the user who approved it could still approve it: after any
  sequence of steps every active oauth key belongs to an active user of its organization who is not a
  viewer, provided each approval is decided on the user's current row.
\<close>

theorem approvals_follow_standing:
  assumes "member_run limit t0 d0 t d" and "approvals_ok d0"
  shows "approvals_ok d"
  using assms by (induction rule: member_run.induct) (auto intro: member_step_approvals)

theorem approvals_follow_standing_witness: "approvals_ok demo_demoted"
  by (rule approvals_follow_standing [OF demo_member_run demo_members_ok(3)])



text \<open>
  An invite is good for one account, unless its address is taken: within its week, the token that was
  shown opens an account with the invited address, role and organization, after which the token is spent;
  but where any user of any organization, deactivated ones included, has the address, the invite that was
  issued and holds a seat can never be accepted.
\<close>

theorem invite_opens_unless_email_taken:
  assumes "inviteUser email_ok sha256 random i d a input seatLimit now = Inr (c, d')"
    and "MIN_PASSWORD_LEN \<le> utf16_length pw" and "now' < now + INVITE_TTL_MS" and "newId \<notin> u_id ` set (users d)"
  shows "if ci_email c \<in> u_email ` set (users d)
    then acceptInvite sha256 hashPassword newId d' (ci_token c) pw now' = Inl DbFailure
    else (\<exists>b d''. acceptInvite sha256 hashPassword newId d' (ci_token c) pw now' = Inr (b, d'') \<and>
      ac_orgId b = ac_orgId a \<and> ac_email b = ci_email c \<and> isRole (getp input ''role'') = Some (ac_role b) \<and> current_actor d'' b \<and>
      acceptInvite sha256 hashPassword j d'' (ci_token c) pw now' = Inl (InviteRefused InviteAccepted))"
proof -
  from assms(1) obtain email role where i: "inviteInput email_ok input = Some (email, role)"
    and iv: "invites d' = invites d @ [invite_row_of sha256 random i a email role now]" and us: "users d' = users d"
    and fresh: "sha256 (ci_token c) \<notin> i_tokenHash ` set (invites d)" and tok: "ci_token c = to_b64u random" and em: "ci_email c = email"
    by (rule inviteUser_Inr) auto
  let ?row = "invite_row_of sha256 random i a email role now"
  have row: "sel1 (\<lambda>i. i_tokenHash i = sha256 (ci_token c)) (invites d') = Some ?row"
    unfolding iv using fresh tok by (intro sel1_only) (auto simp: invite_row_of_def image_iff)
  have f: "i_acceptedAt ?row = None" "\<not> i_expiresAt ?row \<le> now'" "i_orgId ?row = ac_orgId a" "i_email ?row = email" "i_role ?row = role"
    using assms(3) by (simp_all add: invite_row_of_def)
  have r: "isRole (getp input ''role'') = Some role"
    using i by (auto simp: inviteInput_def split: js.split_asm option.split_asm if_split_asm)
  show ?thesis
  proof (cases "email \<in> u_email ` set (users d)")
    case True
    then show ?thesis using assms(2) row f us by (simp add: acceptInvite_def insert_user_def em)
  next
    case False
    let ?iv = "upd (\<lambda>r. i_id r = i_id ?row) (\<lambda>r. r\<lparr>i_acceptedAt := Some now'\<rparr>) (invites d')"
    have "sel1 (\<lambda>i. i_tokenHash i = sha256 (ci_token c)) ?iv = Some (?row\<lparr>i_acceptedAt := Some now'\<rparr>)"
      unfolding iv using fresh tok by (intro sel1_only) (auto simp: set_upd invite_row_of_def image_iff)
    with False assms(2,4) row f us r show ?thesis
      by (auto simp: acceptInvite_def insert_user_def em Let_def current_actor_def)
  qed
qed

theorem invite_opens_unless_email_taken_witness:
  "\<exists>c d'. inviteUser (\<lambda>_. True) (\<lambda>s. ''h'' @ s) ''r'' ''i'' (demo_members_db\<lparr>users := [demo_user ''u'' Admin, (demo_user ''m'' Member)\<lparr>u_status := Deactivated\<rparr>]\<rparr>)
     demo_actor (Obj [(''email'', Str ''m@x.io''), (''role'', Str ''member'')]) 5 0 = Inr (c, d') \<and>
     acceptInvite (\<lambda>s. ''h'' @ s) (\<lambda>p. p) ''n'' d' (ci_token c) ''password'' 1 = Inl DbFailure"
proof -
  let ?d = "demo_members_db\<lparr>users := [demo_user ''u'' Admin, (demo_user ''m'' Member)\<lparr>u_status := Deactivated\<rparr>]\<rparr>"
  let ?r = "inviteUser (\<lambda>_. True) (\<lambda>s. ''h'' @ s) ''r'' ''i'' ?d demo_actor (Obj [(''email'', Str ''m@x.io''), (''role'', Str ''member'')]) 5 0"
  have "case ?r of Inl e \<Rightarrow> False | Inr r \<Rightarrow> ci_email (fst r) = ''m@x.io''" by code_simp
  then obtain c d' where r: "?r = Inr (c, d')" "ci_email c = ''m@x.io''" by (auto split: sum.split_asm)
  have "MIN_PASSWORD_LEN \<le> utf16_length ''password''" "1 < 0 + INVITE_TTL_MS" by code_simp+
  moreover have "''n'' \<notin> u_id ` set (users ?d)" "''m@x.io'' \<in> u_email ` set (users ?d)" by (simp_all add: demo_user_def)
  ultimately show ?thesis using invite_opens_unless_email_taken [OF r(1)] r by (metis (no_types, lifting))
qed

text \<open>
  The lock does not make an approval current: a request that read its user's row before a demotion
  and mints after it creates an active key for a user who may no longer approve apps, which the
  demotion's revocation did not see and which resolves in the data plane.
\<close>

theorem stale_approval_outlives_demotion:
  assumes "changeUserRole d adm uid Viewer = Inr d1" and "members_ok d" and "ac_id a = uuid_lit uid" and "ac_orgId a = ac_orgId adm"
    and "mintOauthKey sha256 random newId d1 a inp = Inr ((i, Created), d2)"
  shows "\<not> approvals_ok d2 \<and> (\<exists>k \<in> set (keys d2). k_id k = i \<and> k_status k = ActiveKey \<and> k_userId k = Some (ac_id a))"
proof -
  have ok1: "members_ok d1"
    by (rule member_step_ok [OF member_step.change_role [OF assms(1)] assms(2)])
  from assms(1) obtain u where u: "org_user d adm uid = Some u" "users d1 = users (set_user adm uid (\<lambda>u. u\<lparr>u_role := Viewer\<rparr>) d)"
    by (rule changeUserRole_Inr) auto
  from org_user_Some [OF u(1)] set_user_mem [of u d uid adm "\<lambda>u. u\<lparr>u_role := Viewer\<rparr>"] u(2)
  have v: "u\<lparr>u_role := Viewer\<rparr> \<in> set (users d1)" "u_id u = uuid_lit uid" by auto
  let ?k = "oauth_key_row sha256 random newId a inp"
  from assms(5) have k: "?k \<in> set (keys d2)" "i = newId" by (rule mintOauthKey_Inr; auto)+
  have us: "users d2 = users d1" using mintOauthKey_users [OF assms(5)] by simp
  have "\<not> approvals_ok d2"
  proof
    assume "approvals_ok d2"
    from approvals_okD [OF this k(1)] obtain w where "w \<in> set (users d1)" "u_id w = ac_id a" "u_role w \<noteq> Viewer"
      by (auto simp: oauth_key_row_def us)
    with v ok1 assms(3) show False
      by (auto simp: members_ok_def dest!: distinct_key_eq [of u_id _ w "u\<lparr>u_role := Viewer\<rparr>"])
  qed
  moreover have "k_id ?k = i" "k_status ?k = ActiveKey" "k_userId ?k = Some (ac_id a)" using k(2) by (simp_all add: oauth_key_row_def)
  ultimately show ?thesis using k(1) by blast
qed

definition demo_stale :: actor where
  "demo_stale = \<lparr>ac_id = ''m'', ac_orgId = ''o'', ac_email = ''m@x.io'', ac_role = Member, ac_grants = None, ac_credential = ''consent''\<rparr>"

theorem stale_approval_outlives_demotion_witness:
  "current_actor demo_members_db demo_stale \<and>
   (\<exists>d2. mintOauthKey (\<lambda>s. s) ''r'' ''k'' demo_demoted demo_stale demo_mint = Inr ((''k'', Created), d2) \<and> \<not> approvals_ok d2)"
proof -
  have "case mintOauthKey (\<lambda>s. s) ''r'' ''k'' demo_demoted demo_stale demo_mint of Inl e \<Rightarrow> False | Inr r \<Rightarrow> fst r = (''k'', Created)"
    by code_simp
  then obtain d2 where m: "mintOauthKey (\<lambda>s. s) ''r'' ''k'' demo_demoted demo_stale demo_mint = Inr ((''k'', Created), d2)"
    by (auto split: sum.split_asm)
  have "ac_id demo_stale = lower ''m''" "ac_orgId demo_stale = ac_orgId demo_actor" by code_simp+
  from stale_approval_outlives_demotion [OF demo_demoted_Inr demo_members_ok(1) this m] m
  show ?thesis by (auto simp: current_actor_def demo_members_db_def demo_stale_def demo_user_def)
qed

end
