(* ===== verification/Flocks.thy ===== *)
theory Flocks
  imports KeysService
begin

text \<open>
  The flocks of an organization (apps/control-plane/src/server/flocks-service.ts, lib/flock-schema.ts,
  lib/flock-form.ts): the upstreams and their write-only credentials. The cipher, the random initial
  vector, the id of a new row and the URL syntax check of the schema library are arguments. An
  identifier compared with a uuid column is compared without case; the columns print in lower case.
\<close>

section \<open>The request (flock-schema.ts, flock-form.ts)\<close>

record flock_input =
  fi_id :: "string option"
  fi_breed :: breed_id
  fi_name :: string
  fi_baseUrl :: string
  fi_auth :: "string option option"
  fi_tlsTrust :: bool

definition breed_of :: "js \<Rightarrow> breed_id option" where
  "breed_of v = (case v of Str s \<Rightarrow> find (\<lambda>b. breed_str b = s) [Ollama, Comfyui] | _ \<Rightarrow> None)"

definition trimmed_str :: "nat \<Rightarrow> nat \<Rightarrow> js \<Rightarrow> string option" where
  "trimmed_str least most v = (case v of Str s \<Rightarrow> bounded_str least most (Str (trim s)) | _ \<Rightarrow> None)"

definition optional_uuid :: "js \<Rightarrow> string option option" where
  "optional_uuid v = (if v = Undef then Some None else map_option Some (uuid_of v))"

text \<open>\<open>UPSTREAM_AUTH_PATTERN\<close>: no white space and no control character.\<close>

definition token_char :: "char \<Rightarrow> bool" where
  "token_char c = (\<not> white c \<and> 32 \<le> (of_char c :: nat) \<and> (of_char c :: nat) \<noteq> 127)"

definition upstream_auth :: "js \<Rightarrow> string option option option" where
  "upstream_auth v =
     (case v of
        Undef \<Rightarrow> Some None
      | Null \<Rightarrow> Some (Some None)
      | Str s \<Rightarrow> (let t = trim s in if t \<noteq> [] \<and> list_all token_char t then Some (Some (Some t)) else None)
      | _ \<Rightarrow> None)"

definition saveFlockInput :: "(string \<Rightarrow> bool) \<Rightarrow> js \<Rightarrow> flock_input option" where
  "saveFlockInput url_ok v =
     (case (optional_uuid (getp v ''id''), breed_of (getp v ''breed''), trimmed_str 1 120 (getp v ''name''),
        getp v ''baseUrl'', upstream_auth (getp v ''upstreamAuth''), getp v ''tlsTrust'') of
        (Some i, Some b, Some n, Str u, Some au, Boolean tls) \<Rightarrow>
          if url_ok u then Some \<lparr>fi_id = i, fi_breed = b, fi_name = n, fi_baseUrl = u, fi_auth = au, fi_tlsTrust = tls\<rparr> else None
      | _ \<Rightarrow> None)"

text \<open>
  The console's form: a form is the list of its fields. \<open>None\<close> where the credential choice is not one
  of the three.
\<close>

definition form_get :: "(string \<times> string) list \<Rightarrow> string \<Rightarrow> string" where
  "form_get fd k = (case map_of fd k of None \<Rightarrow> '''' | Some s \<Rightarrow> s)"

definition form_credential :: "(string \<times> string) list \<Rightarrow> js option" where
  "form_credential fd =
     (let typed = trim (form_get fd ''upstreamAuth'') in
      case map_of fd ''credential'' of
        None \<Rightarrow> Some (if typed \<noteq> [] then Str typed else Undef)
      | Some c \<Rightarrow>
          if c = ''remove'' then Some Null
          else if c = ''replace'' then Some (Str typed)
          else if c = ''keep'' then Some Undef
          else None)"

definition flockFormToInput :: "(string \<times> string) list \<Rightarrow> js option" where
  "flockFormToInput fd =
     map_option (\<lambda>au. Obj
       ([(''id'', if form_get fd ''id'' = [] then Undef else Str (form_get fd ''id'')),
         (''breed'', Str (form_get fd ''breed'')), (''name'', Str (trim (form_get fd ''name''))),
         (''baseUrl'', Str (trim (form_get fd ''baseUrl'')))] @
        (if au = Undef then [] else [(''upstreamAuth'', au)]) @
        [(''tlsTrust'', Boolean (form_get fd ''tlsTrust'' = ''true''))]))
       (form_credential fd)"

definition movesCredential :: "flock_row \<Rightarrow> flock_input \<Rightarrow> bool" where
  "movesCredential stored next =
     (f_baseUrl stored \<noteq> fi_baseUrl next \<or> \<not> f_tlsTrust stored \<and> fi_tlsTrust next)"

section \<open>Reads (flocks-service.ts)\<close>

record flock_view =
  fv_id :: string
  fv_orgId :: string
  fv_breed :: breed_id
  fv_name :: string
  fv_baseUrl :: string
  fv_tlsTrust :: bool
  fv_healthOk :: "bool option"
  fv_hasUpstreamAuth :: bool

definition flockView :: "flock_row \<Rightarrow> flock_view" where
  "flockView f = \<lparr>fv_id = f_id f, fv_orgId = f_orgId f, fv_breed = f_breed f, fv_name = f_name f, fv_baseUrl = f_baseUrl f,
     fv_tlsTrust = f_tlsTrust f, fv_healthOk = f_healthOk f, fv_hasUpstreamAuth = (f_upstreamAuthEnc f \<noteq> None)\<rparr>"

definition own_flock :: "actor \<Rightarrow> string \<Rightarrow> flock_row \<Rightarrow> bool" where
  "own_flock a i f = (f_id f = uuid_lit i \<and> f_orgId f = ac_orgId a)"

definition listFlocks :: "db \<Rightarrow> actor \<Rightarrow> page_opts option \<Rightarrow> svc_error + flock_view list" where
  "listFlocks d a opts =
     guarded a CapRead (map_sum id (map flockView) (page_of f_id opts (sel (\<lambda>f. f_orgId f = ac_orgId a) (flocks d))))"

definition getFlock :: "db \<Rightarrow> actor \<Rightarrow> string \<Rightarrow> svc_error + flock_view" where
  "getFlock d a i =
     guarded a CapRead
       (case sel1 (own_flock a i) (flocks d) of
          None \<Rightarrow> Inl (NotFound (''flock '' @ i))
        | Some f \<Rightarrow> Inr (flockView f))"

record flock_conn =
  fc_breed :: breed_id
  fc_baseUrl :: string
  fc_tlsTrust :: bool
  fc_upstreamAuth :: "string option"
  fc_upstreamAuthError :: "unseal_reason option"

definition openConnection :: "crypto \<Rightarrow> seal_keyring \<Rightarrow> flock_row \<Rightarrow> string \<Rightarrow> string \<Rightarrow> svc_error + flock_conn" where
  "openConnection c ring f og i =
     (let conn = (\<lambda>au e. \<lparr>fc_breed = f_breed f, fc_baseUrl = f_baseUrl f, fc_tlsTrust = f_tlsTrust f,
            fc_upstreamAuth = au, fc_upstreamAuthError = e\<rparr>) in
      case f_upstreamAuthEnc f of
        None \<Rightarrow> Inr (conn None None)
      | Some v \<Rightarrow>
          (case openSealed c v ring \<lparr>b_orgId = og, b_flockId = i\<rparr> of
             Inr p \<Rightarrow> Inr (conn (Some p) None)
           | Inl (Unseal r) \<Rightarrow> Inr (conn None (Some r))
           | Inl e \<Rightarrow> Inl (SealFailed e)))"

definition getFlockConnection :: "crypto \<Rightarrow> seal_keyring \<Rightarrow> db \<Rightarrow> actor \<Rightarrow> string \<Rightarrow> svc_error + flock_conn" where
  "getFlockConnection c ring d a i =
     guarded a CapRead
       (case sel1 (own_flock a i) (flocks d) of
          None \<Rightarrow> Inl (NotFound (''flock '' @ i))
        | Some f \<Rightarrow> openConnection c ring f (ac_orgId a) i)"

text \<open>Every flock of every organization, for the health pass; one that throws fails the pass.\<close>

definition probe_row :: "crypto \<Rightarrow> seal_keyring \<Rightarrow> flock_row \<Rightarrow> svc_error + string \<times> string \<times> flock_conn" where
  "probe_row c ring f =
     (case openConnection c ring f (f_orgId f) (f_id f) of Inl e \<Rightarrow> Inl e | Inr conn \<Rightarrow> Inr (f_orgId f, f_id f, conn))"

fun collect :: "('e + 'a) list \<Rightarrow> 'e + 'a list" where
  "collect [] = Inr []"
| "collect (Inl e # xs) = Inl e"
| "collect (Inr x # xs) = (case collect xs of Inl e \<Rightarrow> Inl e | Inr ys \<Rightarrow> Inr (x # ys))"

definition listFlockConnectionsForProbe :: "crypto \<Rightarrow> seal_keyring \<Rightarrow> db \<Rightarrow> svc_error + (string \<times> string \<times> flock_conn) list" where
  "listFlockConnectionsForProbe c ring d = collect (map (probe_row c ring) (sort_key f_id (flocks d)))"

definition recordFlockHealth :: "db \<Rightarrow> string \<Rightarrow> string \<Rightarrow> bool \<Rightarrow> db" where
  "recordFlockHealth d og i ok =
     d\<lparr>flocks := upd (\<lambda>f. f_id f = i \<and> f_orgId f = og) (\<lambda>f. f\<lparr>f_healthOk := Some ok\<rparr>) (flocks d)\<rparr>"

section \<open>Writes (flocks-service.ts)\<close>

text \<open>The sealed credential of the request: absent, cleared or replaced.\<close>

definition seal_input :: "crypto \<Rightarrow> seal_keyring \<Rightarrow> string \<Rightarrow> actor \<Rightarrow> string \<Rightarrow> flock_input \<Rightarrow> svc_error + string option option" where
  "seal_input c ring iv a i inp =
     (case fi_auth inp of
        None \<Rightarrow> Inr None
      | Some None \<Rightarrow> Inr (Some None)
      | Some (Some p) \<Rightarrow>
          (case seal c iv p ring \<lparr>b_orgId = ac_orgId a, b_flockId = i\<rparr> of
             Inl e \<Rightarrow> Inl (SealFailed e)
           | Inr v \<Rightarrow> Inr (Some (Some v))))"

definition update_flock :: "flock_input \<Rightarrow> string option option \<Rightarrow> flock_row \<Rightarrow> flock_row" where
  "update_flock inp enc f =
     f\<lparr>f_breed := fi_breed inp, f_name := fi_name inp, f_baseUrl := fi_baseUrl inp, f_tlsTrust := fi_tlsTrust inp,
       f_upstreamAuthEnc := (case enc of None \<Rightarrow> f_upstreamAuthEnc f | Some e \<Rightarrow> e),
       f_healthOk := (if fi_auth inp \<noteq> None then None
         else if f_breed f = fi_breed inp \<and> f_baseUrl f = fi_baseUrl inp \<and> f_tlsTrust f = fi_tlsTrust inp then f_healthOk f
         else None)\<rparr>"

definition new_flock :: "actor \<Rightarrow> string \<Rightarrow> flock_input \<Rightarrow> string option option \<Rightarrow> flock_row" where
  "new_flock a i inp enc =
     \<lparr>f_id = i, f_orgId = ac_orgId a, f_breed = fi_breed inp, f_name = fi_name inp, f_baseUrl = fi_baseUrl inp,
      f_upstreamAuthEnc = (case enc of None \<Rightarrow> None | Some e \<Rightarrow> e), f_tlsTrust = fi_tlsTrust inp, f_healthOk = None\<rparr>"

definition credential_audit :: "flock_input \<Rightarrow> (string \<times> js) list" where
  "credential_audit inp =
     (case fi_auth inp of
        None \<Rightarrow> []
      | Some None \<Rightarrow> [(''upstreamAuth'', Str ''cleared'')]
      | Some (Some p) \<Rightarrow> [(''upstreamAuth'', Str ''set'')])"

definition refuses_rebind :: "db \<Rightarrow> actor \<Rightarrow> string \<Rightarrow> flock_input \<Rightarrow> bool" where
  "refuses_rebind d a i inp =
     (fi_auth inp = None \<and>
      (case sel1 (own_flock a i) (flocks d) of
         None \<Rightarrow> False
       | Some f \<Rightarrow> f_upstreamAuthEnc f \<noteq> None \<and> movesCredential f inp))"

definition saveFlock :: "(string \<Rightarrow> bool) \<Rightarrow> crypto \<Rightarrow> seal_keyring \<Rightarrow> string \<Rightarrow> string \<Rightarrow> db \<Rightarrow> actor \<Rightarrow> js \<Rightarrow>
    svc_error + flock_view \<times> db" where
  "saveFlock url_ok c ring iv newId d a input =
     guarded a CapResourceWrite
       (case saveFlockInput url_ok input of
          None \<Rightarrow> Inl InvalidInput
        | Some inp \<Rightarrow>
            (case seal_input c ring iv a (case fi_id inp of Some i \<Rightarrow> i | None \<Rightarrow> newId) inp of
               Inl e \<Rightarrow> Inl e
             | Inr enc \<Rightarrow>
                 (case fi_id inp of
                    Some i \<Rightarrow>
                      if refuses_rebind d a i inp then Inl CredentialRebind
                      else (case sel1 (own_flock a i) (flocks d) of
                          None \<Rightarrow> Inl (NotFound (''flock '' @ i))
                        | Some f \<Rightarrow>
                            Inr (flockView (update_flock inp enc f),
                              writeAudit a ''flock.update'' (''flock:'' @ f_id f)
                                (Obj ((''name'', Str (fi_name inp)) # credential_audit inp))
                                (d\<lparr>flocks := upd (own_flock a i) (update_flock inp enc) (flocks d)\<rparr>)))
                  | None \<Rightarrow>
                      if newId \<in> f_id ` set (flocks d) then Inl DbFailure
                      else (let f = new_flock a newId inp enc in
                        Inr (flockView f,
                          writeAudit a ''flock.create'' (''flock:'' @ newId)
                            (Obj ((''name'', Str (fi_name inp)) # (''breed'', Str (breed_str (fi_breed inp))) # credential_audit inp))
                            (d\<lparr>flocks := flocks d @ [f]\<rparr>))))))"

definition deleteFlock :: "db \<Rightarrow> actor \<Rightarrow> string \<Rightarrow> svc_error + db" where
  "deleteFlock d a i =
     guarded a CapResourceWrite
       (case sel1 (own_flock a i) (flocks d) of
          None \<Rightarrow> Inl (NotFound (''flock '' @ i))
        | Some f \<Rightarrow> Inr (writeAudit a ''flock.delete'' (''flock:'' @ i) Undef (delete_flock_cascade (f_id f) d)))"

section \<open>Lemmas\<close>

lemma own_flock_Some: "sel1 (own_flock a i) (flocks d) = Some f \<Longrightarrow> f \<in> set (flocks d) \<and> f_id f = uuid_lit i \<and> f_orgId f = ac_orgId a"
  by (drule sel1_Some) (simp add: own_flock_def)

lemma update_flock_frames [simp]: "f_id (update_flock inp enc f) = f_id f" "f_orgId (update_flock inp enc f) = f_orgId f"
  by (simp_all add: update_flock_def)

text \<open>A saved flock: an update of one row of the organization, or a new row.\<close>

lemma saveFlock_Inr:
  assumes "saveFlock url_ok c ring iv newId d a input = Inr (v, d')"
  obtains (update) inp i enc f where "may a CapResourceWrite" and "saveFlockInput url_ok input = Some inp" and "fi_id inp = Some i"
      and "seal_input c ring iv a i inp = Inr enc" and "\<not> refuses_rebind d a i inp" and "sel1 (own_flock a i) (flocks d) = Some f"
      and "flocks d' = upd (own_flock a i) (update_flock inp enc) (flocks d)" and "v = flockView (update_flock inp enc f)"
      and "audited_by a d d'" and "d' = d\<lparr>flocks := flocks d', audit := audit d'\<rparr>"
  | (create) inp enc where "may a CapResourceWrite" and "saveFlockInput url_ok input = Some inp" and "fi_id inp = None"
      and "seal_input c ring iv a newId inp = Inr enc" and "newId \<notin> f_id ` set (flocks d)"
      and "flocks d' = flocks d @ [new_flock a newId inp enc]" and "v = flockView (new_flock a newId inp enc)"
      and "audited_by a d d'" and "d' = d\<lparr>flocks := flocks d', audit := audit d'\<rparr>"
proof -
  from assms obtain inp where inp: "may a CapResourceWrite" "saveFlockInput url_ok input = Some inp"
    by (auto simp: saveFlock_def split: option.split_asm)
  show thesis
  proof (cases "fi_id inp")
    case None
    with assms inp obtain enc where "seal_input c ring iv a newId inp = Inr enc"
      by (auto simp: saveFlock_def split: sum.split_asm)
    with assms inp None show thesis
      by (intro create [of inp enc]) (auto simp: saveFlock_def Let_def writeAudit_def audited_by_def split: if_split_asm)
  next
    case (Some i)
    with assms inp obtain enc f where "seal_input c ring iv a i inp = Inr enc" "sel1 (own_flock a i) (flocks d) = Some f"
      by (auto simp: saveFlock_def split: sum.split_asm if_split_asm option.split_asm)
    with assms inp Some show thesis
      by (intro update [of inp i enc f]) (auto simp: saveFlock_def writeAudit_def audited_by_def split: if_split_asm)
  qed
qed

lemma credential_cases:
  assumes "saveFlock url_ok c ring iv newId d a input = Inr (v, d')" and "f' \<in> set (flocks d')"
  obtains (same) "f' \<in> set (flocks d)"
  | (updated) inp i enc f where "saveFlockInput url_ok input = Some inp" and "fi_id inp = Some i" and "f \<in> set (flocks d)"
      and "f_id f = uuid_lit i" and "f_orgId f = ac_orgId a" and "f' = update_flock inp enc f"
      and "seal_input c ring iv a i inp = Inr enc" and "\<not> refuses_rebind d a i inp"
  | (created) inp enc where "saveFlockInput url_ok input = Some inp" and "fi_id inp = None" and "f' = new_flock a newId inp enc"
      and "seal_input c ring iv a newId inp = Inr enc"
  using assms(1)
proof (cases rule: saveFlock_Inr)
  case (update inp i enc f)
  from assms(2) consider "f' \<in> set (flocks d)" | g where "g \<in> set (flocks d)" "own_flock a i g" "f' = update_flock inp enc g"
    unfolding update(7) set_upd by auto
  then show thesis
  proof cases
    case 2
    with update show thesis by (intro updated [of inp i g enc]) (auto simp: own_flock_def)
  qed (rule same)
next
  case (create inp enc)
  with assms(2) show thesis by (auto intro: same created)
qed

section \<open>Properties\<close>

text \<open>
  C13. A stored credential never goes anywhere its owner did not send it: after any save, a flock with a
  credential either has the very value, address and at most the TLS trust it had before, or it is the
  flock that was named and the request itself carried the credential.
\<close>

theorem credential_stays_put:
  assumes "saveFlock url_ok c ring iv newId d a input = Inr (v, d')" and "distinct (map f_id (flocks d))"
    and "f' \<in> set (flocks d')" and "f_upstreamAuthEnc f' = Some enc"
  shows "(\<exists>f \<in> set (flocks d). f_id f = f_id f' \<and> f_upstreamAuthEnc f = Some enc \<and> f_baseUrl f = f_baseUrl f' \<and>
            (f_tlsTrust f' \<longrightarrow> f_tlsTrust f)) \<or>
         (\<exists>t i. upstream_auth (getp input ''upstreamAuth'') = Some (Some (Some t)) \<and> f_id f' = uuid_lit i \<and> f_orgId f' = ac_orgId a \<and>
            seal c iv t ring \<lparr>b_orgId = ac_orgId a, b_flockId = i\<rparr> = Inr enc) \<or>
         (\<exists>t. upstream_auth (getp input ''upstreamAuth'') = Some (Some (Some t)) \<and> f_id f' = newId \<and> f_orgId f' = ac_orgId a \<and>
            seal c iv t ring \<lparr>b_orgId = ac_orgId a, b_flockId = newId\<rparr> = Inr enc)"
  using assms(1,3)
proof (cases rule: credential_cases)
  case same
  with assms(4) show ?thesis by blast
next
  case (updated inp i e f)
  have au: "upstream_auth (getp input ''upstreamAuth'') = Some (fi_auth inp)"
    using updated(1) by (auto simp: saveFlockInput_def split: option.split_asm js.split_asm if_split_asm)
  show ?thesis
  proof (cases "fi_auth inp")
    case None
    with updated(7) have e: "e = None" by (simp add: seal_input_def)
    then have "f_upstreamAuthEnc f = Some enc" using assms(4) updated(6) by (simp add: update_flock_def)
    moreover have "sel1 (own_flock a i) (flocks d) = Some f"
      using updated(3-5) assms(2) by (intro sel1_only) (auto simp: own_flock_def dest: distinct_key_eq)
    ultimately have "\<not> movesCredential f inp" using updated(8) None by (simp add: refuses_rebind_def)
    with \<open>f_upstreamAuthEnc f = Some enc\<close> updated(3,6) show ?thesis
      by (intro disjI1 bexI [of _ f]) (auto simp: movesCredential_def update_flock_def)
  next
    case (Some ot)
    then obtain t where "ot = Some t" "seal c iv t ring \<lparr>b_orgId = ac_orgId a, b_flockId = i\<rparr> = Inr enc"
      using updated(6,7) assms(4) by (auto simp: seal_input_def update_flock_def split: option.split_asm sum.split_asm)
    with Some au updated(4-6) show ?thesis by (intro disjI2 disjI1) auto
  qed
next
  case (created inp e)
  have au: "upstream_auth (getp input ''upstreamAuth'') = Some (fi_auth inp)"
    using created(1) by (auto simp: saveFlockInput_def split: option.split_asm js.split_asm if_split_asm)
  from created(3,4) assms(4) obtain t where "fi_auth inp = Some (Some t)" "seal c iv t ring \<lparr>b_orgId = ac_orgId a, b_flockId = newId\<rparr> = Inr enc"
    by (auto simp: seal_input_def new_flock_def split: option.split_asm sum.split_asm)
  with au created(3) show ?thesis by (intro disjI2) (auto simp: new_flock_def)
qed

definition demo_owner :: actor where
  "demo_owner = demo_actor\<lparr>ac_orgId := demo_uuid\<rparr>"

definition stored_flock :: "string option \<Rightarrow> flock_row" where
  "stored_flock enc = \<lparr>f_id = demo_uuid, f_orgId = demo_uuid, f_breed = Ollama, f_name = ''old'', f_baseUrl = ''http://o'',
     f_upstreamAuthEnc = enc, f_tlsTrust = False, f_healthOk = Some True\<rparr>"

definition demo_save :: "(string \<times> js) list \<Rightarrow> svc_error + flock_view \<times> db" where
  "demo_save extra = saveFlock (\<lambda>_. True) demo_crypto demo_ring (replicate 12 CHR ''i'') demo_uuid
     (empty_db\<lparr>flocks := [stored_flock (Some ''s'')]\<rparr>) demo_owner
     (Obj ([(''id'', Str demo_uuid), (''breed'', Str ''ollama''), (''name'', Str '' box ''), (''baseUrl'', Str ''http://o''),
       (''tlsTrust'', Boolean False)] @ extra))"

lemma demo_renamed:
  obtains v d' f where "demo_save [] = Inr (v, d')" and "flocks d' = [f]" and "f_name f = ''box''"
    and "f_upstreamAuthEnc f = Some ''s''" and "f_healthOk f = Some True"
proof -
  have "case demo_save [] of Inl e \<Rightarrow> False | Inr r \<Rightarrow>
      (case flocks (snd r) of [f] \<Rightarrow> f_name f = ''box'' \<and> f_upstreamAuthEnc f = Some ''s'' \<and> f_healthOk f = Some True | _ \<Rightarrow> False)"
    by code_simp
  with that show thesis by (auto split: sum.split_asm list.split_asm)
qed

theorem credential_stays_put_witness:
  "\<exists>v d' f. demo_save [] = Inr (v, d') \<and> flocks d' = [f] \<and> f_name f = ''box'' \<and> f_upstreamAuthEnc f = Some ''s'' \<and> f_baseUrl f = ''http://o''"
proof -
  obtain v d' f where r: "demo_save [] = Inr (v, d')" "flocks d' = [f]" "f_name f = ''box''" "f_upstreamAuthEnc f = Some ''s''"
    by (rule demo_renamed)
  from credential_stays_put [OF r(1) [unfolded demo_save_def] _ _ r(4)] r(2) have "f_baseUrl f = ''http://o''"
    by (simp add: upstream_auth_def stored_flock_def)
  with r show ?thesis by blast
qed

text \<open>
  A recorded health describes the connection it was recorded for: after any save, a flock whose
  health is known is a flock of before with the same health, breed, address, TLS trust and credential.
\<close>

theorem health_describes_connection:
  assumes "saveFlock url_ok c ring iv newId d a input = Inr (v, d')" and "f' \<in> set (flocks d')" and "f_healthOk f' = Some ok"
  shows "\<exists>f \<in> set (flocks d). f_id f = f_id f' \<and> f_healthOk f = Some ok \<and> f_breed f = f_breed f' \<and> f_baseUrl f = f_baseUrl f' \<and>
    f_tlsTrust f = f_tlsTrust f' \<and> f_upstreamAuthEnc f = f_upstreamAuthEnc f'"
  using assms(1,2)
proof (cases rule: credential_cases)
  case same
  with assms(3) show ?thesis by blast
next
  case (updated inp i e f)
  with assms(3) have "fi_auth inp = None" by (auto simp: update_flock_def split: if_split_asm)
  with updated(7) have "e = None" by (simp add: seal_input_def)
  with updated(3,6) assms(3) \<open>fi_auth inp = None\<close> show ?thesis
    by (intro bexI [of _ f]) (auto simp: update_flock_def split: if_split_asm)
next
  case (created inp e)
  with assms(3) show ?thesis by (simp add: new_flock_def)
qed

theorem health_describes_connection_witness:
  "\<exists>v d'. demo_save [] = Inr (v, d') \<and> map f_upstreamAuthEnc (flocks d') = map f_upstreamAuthEnc [stored_flock (Some ''s'')]"
proof -
  obtain v d' f where r: "demo_save [] = Inr (v, d')" "flocks d' = [f]" "f_healthOk f = Some True"
    by (rule demo_renamed)
  from health_describes_connection [OF r(1) [unfolded demo_save_def] _ r(3)] r(2) have "f_upstreamAuthEnc f = Some ''s''"
    by (simp add: stored_flock_def)
  with r show ?thesis by (simp add: stored_flock_def)
qed

text \<open>
  C28. A credential that was saved is the one the server sends: reading the connection of the flock that
  was created or updated opens exactly the trimmed token of the request, whichever keyring that still
  holds the sealing key reads it.
\<close>

theorem saved_credential_opens:
  assumes "saveFlock url_ok c ring iv newId d a input = Inr (v, d')" and "distinct (map f_id (flocks d))"
    and "upstream_auth (getp input ''upstreamAuth'') = Some (Some (Some t))"
    and "gcm_ok c" and "ring_ok ring" and "length iv = 12" and "lower newId = newId"
    and "map_of (byKid ring') (kid (current ring)) = Some (current ring)" and "may a CapRead"
  shows "fv_hasUpstreamAuth v \<and> (\<exists>conn i. getFlockConnection c ring' d' a i = Inr conn \<and> fv_id v = lower i \<and>
    fc_upstreamAuth conn = Some t \<and> fc_baseUrl conn = fv_baseUrl v)"
  using assms(1)
proof (cases rule: saveFlock_Inr)
  case (update inp i enc f)
  have au: "fi_auth inp = Some (Some t)"
    using update(2) assms(3) by (auto simp: saveFlockInput_def split: option.split_asm js.split_asm if_split_asm)
  with update(4) obtain s where s: "seal c iv t ring \<lparr>b_orgId = ac_orgId a, b_flockId = i\<rparr> = Inr s" "enc = Some (Some s)"
    by (auto simp: seal_input_def split: sum.split_asm)
  let ?g = "update_flock inp enc f"
  have f: "f \<in> set (flocks d)" "f_id f = lower i" "f_orgId f = ac_orgId a" using own_flock_Some [OF update(6)] by auto
  have row: "sel1 (own_flock a i) (flocks d') = Some ?g"
  proof (rule sel1_only)
    show "?g \<in> set (flocks d')" using f unfolding update(7) set_upd by (force simp: own_flock_def)
    show "own_flock a i ?g" using f by (simp add: own_flock_def)
    fix g assume "g \<in> set (flocks d')" "own_flock a i g"
    then obtain h where "h \<in> set (flocks d)" "g = (if own_flock a i h then update_flock inp enc h else h)" "f_id h = lower i" "own_flock a i h"
      unfolding update(7) set_upd by (auto simp: own_flock_def split: if_split_asm)
    with f assms(2) show "g = ?g" by (auto dest: distinct_key_eq)
  qed
  have "openSealed c s ring' \<lparr>b_orgId = ac_orgId a, b_flockId = i\<rparr> = Inr t"
    by (rule open_sealed [OF assms(4,5,6) s(1) assms(8)])
  with row s(2) f assms(9) have "getFlockConnection c ring' d' a i = Inr \<lparr>fc_breed = f_breed ?g, fc_baseUrl = f_baseUrl ?g,
      fc_tlsTrust = f_tlsTrust ?g, fc_upstreamAuth = Some t, fc_upstreamAuthError = None\<rparr>"
    by (auto simp: getFlockConnection_def openConnection_def Let_def update_flock_def)
  with update(8) s(2) f show ?thesis by (auto simp: flockView_def update_flock_def intro!: exI [of _ i])
next
  case (create inp enc)
  have au: "fi_auth inp = Some (Some t)"
    using create(2) assms(3) by (auto simp: saveFlockInput_def split: option.split_asm js.split_asm if_split_asm)
  with create(4) obtain s where s: "seal c iv t ring \<lparr>b_orgId = ac_orgId a, b_flockId = newId\<rparr> = Inr s" "enc = Some (Some s)"
    by (auto simp: seal_input_def split: sum.split_asm)
  let ?g = "new_flock a newId inp enc"
  have row: "sel1 (own_flock a newId) (flocks d') = Some ?g"
    using create(5) assms(7) unfolding create(6) by (intro sel1_only) (auto simp: own_flock_def new_flock_def)
  have "openSealed c s ring' \<lparr>b_orgId = ac_orgId a, b_flockId = newId\<rparr> = Inr t"
    by (rule open_sealed [OF assms(4,5,6) s(1) assms(8)])
  with row s(2) assms(9) have "getFlockConnection c ring' d' a newId = Inr \<lparr>fc_breed = f_breed ?g, fc_baseUrl = f_baseUrl ?g,
      fc_tlsTrust = f_tlsTrust ?g, fc_upstreamAuth = Some t, fc_upstreamAuthError = None\<rparr>"
    by (auto simp: getFlockConnection_def openConnection_def Let_def new_flock_def)
  with create(7) s(2) assms(7) show ?thesis by (auto simp: flockView_def new_flock_def intro!: exI [of _ newId])
qed

theorem saved_credential_opens_witness:
  "\<exists>v d' conn i. demo_save [(''upstreamAuth'', Str '' tok '')] = Inr (v, d') \<and>
     getFlockConnection demo_crypto demo_ring d' demo_owner i = Inr conn \<and> fc_upstreamAuth conn = Some ''tok''"
proof -
  let ?x = "[(''upstreamAuth'', Str '' tok '')]"
  have "case demo_save ?x of Inl e \<Rightarrow> False | Inr r \<Rightarrow> True" by code_simp
  then obtain v d' where r: "demo_save ?x = Inr (v, d')" by (auto split: sum.split_asm)
  have t: "upstream_auth (Str '' tok '') = Some (Some (Some ''tok''))" "lower demo_uuid = demo_uuid" "may demo_owner CapRead"
    "map_of (byKid demo_ring) (kid (current demo_ring)) = Some (current demo_ring)" by code_simp+
  from saved_credential_opens [OF r [unfolded demo_save_def] _ _ demo_crypto_ok(1) demo_ring_ok _ t(2,4,3)] t(1) r
  show ?thesis by auto
qed

end
