(* ===== verification/Paddocks.thy ===== *)
theory Paddocks
  imports Flocks Ollama ComfyTemplate
begin

text \<open>
  The paddocks and their fences (apps/control-plane/src/server/paddocks-service.ts, fences-service.ts,
  fence-validation.ts, blast-radius.ts, lib/paddock-schema.ts, lib/fence-schema.ts, lib/model-allowlist.ts).
  A fence is stored as the breed's own schema prints it, so that the data plane reads back what was
  validated.
\<close>

section \<open>Paddocks (paddock-schema.ts, paddocks-service.ts)\<close>

record paddock_input =
  pi_id :: "string option"
  pi_flockId :: string
  pi_name :: string
  pi_slug :: string
  pi_status :: "paddock_status option"
  pi_theme :: string

definition PADDOCK_THEMES :: "string list" where
  "PADDOCK_THEMES = [''plain'', ''metaboy'']"

definition paddock_status_of :: "js \<Rightarrow> paddock_status option" where
  "paddock_status_of v =
     (case v of Str s \<Rightarrow> if s = ''active'' then Some ActivePaddock else if s = ''disabled'' then Some DisabledPaddock else None | _ \<Rightarrow> None)"

definition paddock_slug :: "js \<Rightarrow> string option" where
  "paddock_slug v = (case v of Str s \<Rightarrow> let t = trim s in if slug_valid t then Some t else None | _ \<Rightarrow> None)"

definition savePaddockInput :: "js \<Rightarrow> paddock_input option" where
  "savePaddockInput v =
     (case (optional_uuid (getp v ''id''), uuid_of (getp v ''flockId''), trimmed_str 1 120 (getp v ''name''), paddock_slug (getp v ''slug''),
        (if getp v ''status'' = Undef then Some None else map_option Some (paddock_status_of (getp v ''status''))),
        (case getp v ''theme'' of Undef \<Rightarrow> Some ''plain'' | Str s \<Rightarrow> if s \<in> set PADDOCK_THEMES then Some s else None | _ \<Rightarrow> None)) of
        (Some i, Some f, Some n, Some s, Some st, Some th) \<Rightarrow>
          Some \<lparr>pi_id = i, pi_flockId = f, pi_name = n, pi_slug = s, pi_status = st, pi_theme = th\<rparr>
      | _ \<Rightarrow> None)"

definition own_paddock :: "actor \<Rightarrow> string \<Rightarrow> paddock_row \<Rightarrow> bool" where
  "own_paddock a i p = (p_id p = uuid_lit i \<and> p_orgId p = ac_orgId a)"

definition listPaddocks :: "db \<Rightarrow> actor \<Rightarrow> page_opts option \<Rightarrow> svc_error + paddock_row list" where
  "listPaddocks d a opts = guarded a CapRead (page_of p_id opts (sel (\<lambda>p. p_orgId p = ac_orgId a) (paddocks d)))"

definition getPaddock :: "db \<Rightarrow> actor \<Rightarrow> string \<Rightarrow> svc_error + paddock_row" where
  "getPaddock d a i =
     guarded a CapRead
       (case sel1 (own_paddock a i) (paddocks d) of None \<Rightarrow> Inl (NotFound (''paddock '' @ i)) | Some p \<Rightarrow> Inr p)"

definition update_paddock :: "paddock_input \<Rightarrow> paddock_row \<Rightarrow> paddock_row" where
  "update_paddock inp p =
     p\<lparr>p_flockId := lower (pi_flockId inp), p_name := pi_name inp, p_slug := pi_slug inp, p_theme := pi_theme inp,
       p_status := (case pi_status inp of None \<Rightarrow> p_status p | Some st \<Rightarrow> st)\<rparr>"

definition new_paddock :: "actor \<Rightarrow> string \<Rightarrow> paddock_input \<Rightarrow> paddock_row" where
  "new_paddock a i inp =
     \<lparr>p_id = i, p_orgId = ac_orgId a, p_flockId = lower (pi_flockId inp), p_slug = pi_slug inp, p_name = pi_name inp,
      p_status = (case pi_status inp of None \<Rightarrow> ActivePaddock | Some st \<Rightarrow> st), p_theme = pi_theme inp\<rparr>"

text \<open>The clash is judged on the text of the id that was sent.\<close>

definition savePaddock :: "string \<Rightarrow> db \<Rightarrow> actor \<Rightarrow> js \<Rightarrow> svc_error + paddock_row \<times> db" where
  "savePaddock newId d a input =
     guarded a CapResourceWrite
       (case savePaddockInput input of
          None \<Rightarrow> Inl InvalidInput
        | Some inp \<Rightarrow>
            if sel1 (own_flock a (pi_flockId inp)) (flocks d) = None then Inl (NotFound (''flock '' @ pi_flockId inp))
            else if (case sel1 (\<lambda>p. p_slug p = pi_slug inp) (paddocks d) of
                None \<Rightarrow> False | Some clash \<Rightarrow> Some (p_id clash) \<noteq> pi_id inp) then Inl (SlugTaken (pi_slug inp))
            else (case pi_id inp of
                Some i \<Rightarrow>
                  (case sel1 (own_paddock a i) (paddocks d) of
                     None \<Rightarrow> Inl (NotFound (''paddock '' @ i))
                   | Some p \<Rightarrow>
                       Inr (update_paddock inp p,
                         writeAudit a ''paddock.update'' (''paddock:'' @ p_id p) (Obj [(''slug'', Str (pi_slug inp))])
                           (d\<lparr>paddocks := upd (own_paddock a i) (update_paddock inp) (paddocks d)\<rparr>)))
              | None \<Rightarrow>
                  if newId \<in> p_id ` set (paddocks d) then Inl DbFailure
                  else Inr (new_paddock a newId inp,
                    writeAudit a ''paddock.create'' (''paddock:'' @ newId)
                      (Obj [(''slug'', Str (pi_slug inp)), (''flockId'', Str (lower (pi_flockId inp)))])
                      (d\<lparr>paddocks := paddocks d @ [new_paddock a newId inp]\<rparr>))))"

fun paddock_status_str :: "paddock_status \<Rightarrow> string" where
  "paddock_status_str ActivePaddock = ''active''"
| "paddock_status_str DisabledPaddock = ''disabled''"

definition setPaddockStatus :: "db \<Rightarrow> actor \<Rightarrow> string \<Rightarrow> paddock_status \<Rightarrow> svc_error + paddock_row \<times> db" where
  "setPaddockStatus d a i st =
     guarded a CapResourceWrite
       (case sel1 (own_paddock a i) (paddocks d) of
          None \<Rightarrow> Inl (NotFound (''paddock '' @ i))
        | Some p \<Rightarrow>
            Inr (p\<lparr>p_status := st\<rparr>,
              writeAudit a ''paddock.status'' (''paddock:'' @ i) (Obj [(''status'', Str (paddock_status_str st))])
                (d\<lparr>paddocks := upd (own_paddock a i) (\<lambda>p. p\<lparr>p_status := st\<rparr>) (paddocks d)\<rparr>)))"

definition deletePaddock :: "db \<Rightarrow> actor \<Rightarrow> string \<Rightarrow> svc_error + db" where
  "deletePaddock d a i =
     guarded a CapResourceWrite
       (case sel1 (own_paddock a i) (paddocks d) of
          None \<Rightarrow> Inl (NotFound (''paddock '' @ i))
        | Some p \<Rightarrow> Inr (writeAudit a ''paddock.delete'' (''paddock:'' @ i) Undef (delete_paddock_cascade (p_id p) d)))"

section \<open>A breed's constraint, parsed and printed (fence-validation.ts)\<close>

definition opt_js :: "('a \<Rightarrow> js) \<Rightarrow> 'a option \<Rightarrow> js" where
  "opt_js f x = (case x of None \<Rightarrow> Null | Some y \<Rightarrow> f y)"

definition strs_js :: "string list \<Rightarrow> js" where
  "strs_js ss = Arr (map Str ss)"

definition ollama_constraint_js :: "ollama_fence \<Rightarrow> js" where
  "ollama_constraint_js f =
     Obj [(''allowedRoutes'', strs_js (map group_str (allowedRoutes f))), (''allowedModels'', opt_js strs_js (allowedModels f))]"

definition target_js :: "target \<Rightarrow> js" where
  "target_js t = Obj [(''node'', Str (tg_node t)), (''input'', Str (tg_input t))]"

fun bound_js :: "string \<Rightarrow> jnum option \<Rightarrow> (string \<times> js) list" where
  "bound_js k None = []"
| "bound_js k (Some n) = [(k, Num n)]"

fun param_js :: "param_spec \<Rightarrow> js" where
  "param_js (TextParam n t) = Obj [(''name'', Str n), (''type'', Str ''text''), (''target'', target_js t)]"
| "param_js (SeedParam n ts) = Obj [(''name'', Str n), (''type'', Str ''seed''), (''targets'', Arr (map target_js ts))]"
| "param_js (NumberParam n t mn mx) =
     Obj ([(''name'', Str n), (''type'', Str ''number''), (''target'', target_js t)] @ bound_js ''min'' mn @ bound_js ''max'' mx)"
| "param_js (ImageParam n t) = Obj [(''name'', Str n), (''type'', Str ''image''), (''target'', target_js t)]"

definition node_js :: "graph_node \<Rightarrow> js" where
  "node_js n = Obj [(''class_type'', Str (class_type n)), (''inputs'', Obj (inputs n))]"

definition template_js :: "template \<Rightarrow> js" where
  "template_js t =
     Obj [(''id'', Str (tp_id t)), (''graph'', Obj (map (\<lambda>(k, n). (k, node_js n)) (tp_graph t))),
       (''params'', Arr (map param_js (tp_params t))), (''cost'', Num (tp_cost t))]"

definition comfy_constraint_js :: "comfy_fence \<Rightarrow> js" where
  "comfy_constraint_js ts = Obj [(''templates'', Arr (map template_js ts))]"

definition validateConstraintForBreed :: "breed_id \<Rightarrow> js \<Rightarrow> js option" where
  "validateConstraintForBreed b v =
     (case b of
        Ollama \<Rightarrow> map_option ollama_constraint_js (ollamaConstraint v)
      | Comfyui \<Rightarrow> map_option comfy_constraint_js (comfyuiConstraint v))"

section \<open>Fences (fence-schema.ts, fences-service.ts)\<close>

record fence_input =
  ni_paddockId :: string
  ni_constraintJson :: js
  ni_rateLimit :: js
  ni_quota :: js

fun window_str :: "quota_window \<Rightarrow> string" where
  "window_str Hour = ''hour''"
| "window_str Day = ''day''"
| "window_str Month = ''month''"

definition quota_rule_js :: "quota_rule \<Rightarrow> js" where
  "quota_rule_js q = Obj [(''dim'', Str (dim_str (q_dim q))), (''max'', NumI (q_max q)), (''period'', Str (window_str (q_period q)))]"

text \<open>\<open>.nullish()\<close>: what is stored is null where the field is absent or null.\<close>

definition nullish :: "(js \<Rightarrow> js option) \<Rightarrow> js \<Rightarrow> js option" where
  "nullish parse v = (if v = Undef \<or> v = Null then Some Null else parse v)"

definition saveFenceInput :: "js \<Rightarrow> fence_input option" where
  "saveFenceInput v =
     (case (uuid_of (getp v ''paddockId''), nullish (map_option rate_limit_js \<circ> rateLimitSchema) (getp v ''rateLimit''),
        nullish (map_option (Arr \<circ> map quota_rule_js) \<circ> quotaSchema) (getp v ''quota'')) of
        (Some p, Some rl, Some q) \<Rightarrow>
          Some \<lparr>ni_paddockId = p, ni_constraintJson = getp v ''constraintJson'', ni_rateLimit = rl, ni_quota = q\<rparr>
      | _ \<Rightarrow> None)"

definition paddockBreedInOrg :: "db \<Rightarrow> actor \<Rightarrow> string \<Rightarrow> svc_error + breed_id" where
  "paddockBreedInOrg d a i =
     (case [f_breed f. p \<leftarrow> sel (own_paddock a i) (paddocks d), f \<leftarrow> sel (\<lambda>f. f_id f = p_flockId p) (flocks d)] of
        [] \<Rightarrow> Inl (NotFound (''paddock '' @ i))
      | b # _ \<Rightarrow> Inr b)"

definition fence_of :: "db \<Rightarrow> string \<Rightarrow> fence_row option" where
  "fence_of d i = sel1 (\<lambda>n. n_paddockId n = uuid_lit i) (fences d)"

definition getFence :: "db \<Rightarrow> actor \<Rightarrow> string \<Rightarrow> svc_error + fence_row option" where
  "getFence d a i =
     guarded a CapRead (case paddockBreedInOrg d a i of Inl e \<Rightarrow> Inl e | Inr b \<Rightarrow> Inr (fence_of d i))"

text \<open>\<open>insert .. on conflict (paddock_id) do update set ..\<close>\<close>

definition upsert_fence :: "fence_row \<Rightarrow> (fence_row \<Rightarrow> fence_row) \<Rightarrow> db \<Rightarrow> db" where
  "upsert_fence row f d =
     (if n_paddockId row \<in> n_paddockId ` set (fences d)
      then d\<lparr>fences := upd (\<lambda>n. n_paddockId n = n_paddockId row) f (fences d)\<rparr>
      else d\<lparr>fences := fences d @ [row]\<rparr>)"

definition insert_constraint :: "db \<Rightarrow> breed_id \<Rightarrow> fence_input \<Rightarrow> js option" where
  "insert_constraint d b inp =
     (if ni_constraintJson inp \<noteq> Undef then validateConstraintForBreed b (ni_constraintJson inp)
      else case fence_of d (ni_paddockId inp) of
          Some n \<Rightarrow> Some (n_constraintJson n)
        | None \<Rightarrow> validateConstraintForBreed b (Obj []))"

definition saveFence :: "db \<Rightarrow> actor \<Rightarrow> js \<Rightarrow> svc_error + fence_row option \<times> db" where
  "saveFence d a input =
     guarded a CapResourceWrite
       (case saveFenceInput input of
          None \<Rightarrow> Inl InvalidInput
        | Some inp \<Rightarrow>
            (case paddockBreedInOrg d a (ni_paddockId inp) of
               Inl e \<Rightarrow> Inl e
             | Inr b \<Rightarrow>
                 (case insert_constraint d b inp of
                    None \<Rightarrow> Inl InvalidInput
                  | Some cj \<Rightarrow>
                      (let row = \<lparr>n_orgId = ac_orgId a, n_paddockId = lower (ni_paddockId inp), n_constraintJson = cj,
                             n_rateLimit = ni_rateLimit inp, n_quota = ni_quota inp\<rparr>;
                           d1 = upsert_fence row (\<lambda>n. n\<lparr>n_rateLimit := ni_rateLimit inp, n_quota := ni_quota inp,
                             n_constraintJson := (if ni_constraintJson inp \<noteq> Undef then cj else n_constraintJson n)\<rparr>) d in
                       Inr (fence_of d1 (ni_paddockId inp),
                         writeAudit a ''fence.save'' (''paddock:'' @ ni_paddockId inp) (Obj [(''breed'', Str (breed_str b))]) d1)))))"

section \<open>What a fence exposes (blast-radius.ts, model-allowlist.ts)\<close>

record blast_radius =
  br_breedId :: string
  br_exposed :: "string list"
  br_models :: "string list option"
  br_templateCount :: "nat option"
  br_rateLimit :: "(jnum \<times> jnum) option"
  br_quota :: "js list"

text \<open>\<open>to_str\<close> is \<open>String(v)\<close>; \<open>None\<close> for the models is any model.\<close>

definition computeBlastRadius :: "(js \<Rightarrow> string) \<Rightarrow> string \<Rightarrow> js \<Rightarrow> js \<Rightarrow> js \<Rightarrow> blast_radius" where
  "computeBlastRadius to_str breedId c rl quota =
     \<lparr>br_breedId = breedId,
      br_exposed =
        (if breedId = ''comfyui'' then
           (case getp c ''templates'' of
              Arr ts \<Rightarrow> filter (\<lambda>s. s \<noteq> []) (map (\<lambda>t. case getp t ''id'' of Undef \<Rightarrow> [] | Null \<Rightarrow> [] | i \<Rightarrow> to_str i) ts)
            | _ \<Rightarrow> [])
         else (case getp c ''allowedRoutes'' of Arr rs \<Rightarrow> map to_str rs | _ \<Rightarrow> [])),
      br_models =
        (if breedId = ''comfyui'' then None
         else (case getp c ''allowedModels'' of Arr ms \<Rightarrow> Some (map to_str ms) | _ \<Rightarrow> None)),
      br_templateCount =
        (if breedId = ''comfyui'' then Some (case getp c ''templates'' of Arr ts \<Rightarrow> length ts | _ \<Rightarrow> 0) else None),
      br_rateLimit = (case (getp rl ''windowSec'', getp rl ''max'') of (Num w, Num m) \<Rightarrow> Some (w, m) | _ \<Rightarrow> None),
      br_quota = (case quota of Arr qs \<Rightarrow> qs | _ \<Rightarrow> [])\<rparr>"

definition partitionAllowlist :: "string list \<Rightarrow> string list \<Rightarrow> string list \<times> string list" where
  "partitionAllowlist saved live = (filter (\<lambda>m. m \<in> set live) saved, filter (\<lambda>m. m \<notin> set live) saved)"

definition serializeAllowlist :: "string list \<Rightarrow> string" where
  "serializeAllowlist selected = join_on '', '' (uniq (filter (\<lambda>s. s \<noteq> []) (map trim selected)))"

section \<open>Printing and parsing agree\<close>

lemma those_map: "(\<And>x. x \<in> set xs \<Longrightarrow> f (g x) = Some x) \<Longrightarrow> those (map f (map g xs)) = Some xs"
  by (induction xs) auto

lemma fence_route_str: "fence_route v = Some g \<Longrightarrow> v = Str (group_str g)"
  by (cases v) (auto split: if_split_asm)

lemma route_group_printed: "fence_route v = Some g \<Longrightarrow> fence_route (Str (group_str g)) = Some g"
  using fence_route_str by fastforce

lemma those_mem: "those xs = Some ys \<Longrightarrow> y \<in> set ys \<Longrightarrow> Some y \<in> set xs"
  by (simp add: those_Some_set)

lemma those_mapD: "those (map f xs) = Some ys \<Longrightarrow> y \<in> set ys \<Longrightarrow> \<exists>x \<in> set xs. f x = Some y"
  by (drule (1) those_mem) auto

lemma fence_routes_print:
  assumes "fence_routes v = Some rs"
  shows "fence_routes (strs_js (map group_str rs)) = Some rs \<and> GMutate \<notin> set rs"
proof -
  have "rs \<noteq> [] \<and> (\<forall>g \<in> set rs. \<exists>w. fence_route w = Some g)"
  proof (cases v)
    case (Arr vs)
    then have vs: "vs \<noteq> []" "those (map fence_route vs) = Some rs" using assms by (auto split: if_split_asm)
    then have "rs \<noteq> []" by (cases vs) (auto split: option.split_asm)
    with those_mapD [OF vs(2)] show ?thesis by blast
  qed (use assms in \<open>auto intro: exI [of _ "Str ''chat''"]\<close>)
  then have ne: "rs \<noteq> []" and g: "\<And>g. g \<in> set rs \<Longrightarrow> fence_route (Str (group_str g)) = Some g"
    using route_group_printed by blast+
  have "GMutate \<notin> set rs" using g [of GMutate] by auto
  with ne those_map [of rs fence_route "Str \<circ> group_str"] g show ?thesis by (simp add: strs_js_def)
qed

lemma fence_models_print:
  assumes "fence_models v = Some ms"
  shows "fence_models (opt_js strs_js ms) = Some ms"
proof (cases ms)
  case None
  then show ?thesis by (simp add: opt_js_def)
next
  case (Some ss)
  have "those (map as_str (map Str ss)) = Some ss" by (rule those_map) simp
  with Some show ?thesis by (simp add: opt_js_def strs_js_def)
qed

lemma ollama_print:
  assumes "ollamaConstraint v = Some f"
  shows "ollamaConstraint (ollama_constraint_js f) = Some f \<and> GMutate \<notin> set (allowedRoutes f)"
proof -
  from assms have "fence_routes (getp v ''allowedRoutes'') = Some (allowedRoutes f)" "fence_models (getp v ''allowedModels'') = Some (allowedModels f)"
    by (auto simp: ollamaConstraint_def split: js.split_asm option.split_asm)
  with fence_routes_print fence_models_print show ?thesis
    by (auto simp: ollamaConstraint_def ollama_constraint_js_def)
qed

lemma target_print [simp]: "targetSchema (target_js t) = Some t"
  by (simp add: targetSchema_def target_js_def)

definition spec_wf :: "param_spec \<Rightarrow> bool" where
  "spec_wf sp = (case sp of NumberParam n t mn mx \<Rightarrow> mn \<noteq> Some NaN \<and> mx \<noteq> Some NaN | _ \<Rightarrow> True)"

lemma optional_number_wf: "optional_number v = Some m \<Longrightarrow> m \<noteq> Some NaN"
  by (cases v) (auto split: if_split_asm)

lemma paramSpec_wf: "paramSpecSchema v = Some sp \<Longrightarrow> spec_wf sp"
  by (auto simp: paramSpecSchema_def spec_wf_def split: option.split_asm if_split_asm js.split_asm dest: optional_number_wf)

lemma param_print: "spec_wf sp \<Longrightarrow> paramSpecSchema (param_js sp) = Some sp"
proof (induction sp)
  case (SeedParam n ts)
  then show ?case using those_map [of ts targetSchema target_js] by (simp add: paramSpecSchema_def)
next
  case (NumberParam n t mn mx)
  then show ?case by (cases mn; cases mx) (simp_all add: paramSpecSchema_def spec_wf_def)
qed (simp_all add: paramSpecSchema_def)

lemma node_print [simp]: "nodeSchema (k, node_js n) = Some (k, n)"
  by (simp add: nodeSchema_def node_js_def)

definition template_wf :: "template \<Rightarrow> bool" where
  "template_wf t = (tp_cost t \<noteq> NaN \<and> (\<forall>sp \<in> set (tp_params t). spec_wf sp))"

lemma template_print:
  assumes "template_wf t"
  shows "workflowTemplateSchema (template_js t) = Some t"
proof -
  have "those (map nodeSchema (map (\<lambda>(k, n). (k, node_js n)) (tp_graph t))) = Some (tp_graph t)"
    by (rule those_map) auto
  moreover have "those (map paramSpecSchema (map param_js (tp_params t))) = Some (tp_params t)"
    by (rule those_map) (use assms in \<open>simp add: template_wf_def param_print\<close>)
  ultimately show ?thesis using assms by (simp add: workflowTemplateSchema_def template_js_def template_wf_def)
qed

lemma workflowTemplate_wf: "workflowTemplateSchema v = Some t \<Longrightarrow> template_wf t"
  by (auto simp: workflowTemplateSchema_def template_wf_def split: option.split_asm if_split_asm dest: those_mapD paramSpec_wf)

lemma comfyuiConstraint_wf: "comfyuiConstraint v = Some ts \<Longrightarrow> t \<in> set ts \<Longrightarrow> template_wf t"
  by (auto simp: comfyuiConstraint_def split: js.split_asm dest: those_mapD workflowTemplate_wf)

lemma comfy_print: "(\<And>t. t \<in> set ts \<Longrightarrow> template_wf t) \<Longrightarrow> comfyuiConstraint (comfy_constraint_js ts) = Some ts"
  using those_map [of ts workflowTemplateSchema template_js] by (simp add: comfyuiConstraint_def comfy_constraint_js_def template_print)

lemma validate_idem: "validateConstraintForBreed b v = Some w \<Longrightarrow> validateConstraintForBreed b w = Some w"
proof (cases b)
  case Ollama
  then show "validateConstraintForBreed b v = Some w \<Longrightarrow> ?thesis"
    by (auto simp: validateConstraintForBreed_def ollama_print)
next
  case Comfyui
  then show "validateConstraintForBreed b v = Some w \<Longrightarrow> ?thesis"
    using comfy_print comfyuiConstraint_wf by (auto simp: validateConstraintForBreed_def)
qed

section \<open>Paddocks: what a save keeps\<close>

definition paddocks_ok :: "db \<Rightarrow> bool" where
  "paddocks_ok d =
     (distinct (map p_id (paddocks d)) \<and> distinct (map p_slug (paddocks d)) \<and> distinct (map f_id (flocks d)) \<and>
      (\<forall>p \<in> set (paddocks d). lower (p_id p) = p_id p \<and> (\<exists>f \<in> set (flocks d). f_id f = p_flockId p \<and> f_orgId f = p_orgId p)))"

lemma own_paddock_Some: "sel1 (own_paddock a i) (paddocks d) = Some p \<Longrightarrow> p \<in> set (paddocks d) \<and> p_id p = uuid_lit i \<and> p_orgId p = ac_orgId a"
  by (drule sel1_Some) (simp add: own_paddock_def)

lemma update_paddock_frames [simp]: "p_id (update_paddock inp p) = p_id p" "p_orgId (update_paddock inp p) = p_orgId p"
  "p_slug (update_paddock inp p) = pi_slug inp" "p_flockId (update_paddock inp p) = lower (pi_flockId inp)"
  by (simp_all add: update_paddock_def)

lemma savePaddock_Inr:
  assumes "savePaddock newId d a input = Inr (q, d')"
  obtains (update) inp i p f where "may a CapResourceWrite" and "savePaddockInput input = Some inp" and "pi_id inp = Some i"
      and "sel1 (own_flock a (pi_flockId inp)) (flocks d) = Some f" and "sel1 (own_paddock a i) (paddocks d) = Some p"
      and "\<And>r. sel1 (\<lambda>p. p_slug p = pi_slug inp) (paddocks d) = Some r \<Longrightarrow> p_id r = i"
      and "paddocks d' = upd (own_paddock a i) (update_paddock inp) (paddocks d)" and "q = update_paddock inp p"
      and "audited_by a d d'" and "d' = d\<lparr>paddocks := paddocks d', audit := audit d'\<rparr>"
  | (create) inp f where "may a CapResourceWrite" and "savePaddockInput input = Some inp" and "pi_id inp = None"
      and "sel1 (own_flock a (pi_flockId inp)) (flocks d) = Some f" and "newId \<notin> p_id ` set (paddocks d)"
      and "pi_slug inp \<notin> p_slug ` set (paddocks d)" and "paddocks d' = paddocks d @ [new_paddock a newId inp]"
      and "q = new_paddock a newId inp" and "audited_by a d d'" and "d' = d\<lparr>paddocks := paddocks d', audit := audit d'\<rparr>"
proof -
  from assms obtain inp f where inp: "may a CapResourceWrite" "savePaddockInput input = Some inp"
      "sel1 (own_flock a (pi_flockId inp)) (flocks d) = Some f"
    by (auto simp: savePaddock_def split: option.split_asm if_split_asm)
  show thesis
  proof (cases "pi_id inp")
    case None
    with assms inp have "sel1 (\<lambda>p. p_slug p = pi_slug inp) (paddocks d) = None"
      by (auto simp: savePaddock_def split: option.split_asm if_split_asm)
    then have "pi_slug inp \<notin> p_slug ` set (paddocks d)" by (auto simp: sel1_None)
    with assms inp None show thesis
      by (intro create [of inp f]) (auto simp: savePaddock_def writeAudit_def audited_by_def split: if_split_asm option.split_asm)
  next
    case (Some i)
    with assms inp obtain p where "sel1 (own_paddock a i) (paddocks d) = Some p"
      by (auto simp: savePaddock_def split: option.split_asm if_split_asm)
    with assms inp Some show thesis
      by (intro update [of inp i f p]) (auto simp: savePaddock_def writeAudit_def audited_by_def split: if_split_asm option.split_asm)
  qed
qed

lemma distinct_upd_slug:
  assumes "distinct (map p_id t)" and "distinct (map p_slug t)" and "\<And>r. r \<in> set t \<Longrightarrow> p_slug r = s \<Longrightarrow> own_paddock a i r"
    and "\<And>p. p_slug (f p) = s"
  shows "distinct (map p_slug (upd (own_paddock a i) f t))"
  using assms(1-3)
proof (induction t)
  case Nil
  then show ?case by (simp add: upd_def)
next
  case (Cons r t)
  then have IH: "distinct (map p_slug (upd (own_paddock a i) f t))" by simp
  show ?case
  proof (cases "own_paddock a i r")
    case True
    with Cons.prems(1) have none: "\<And>q. q \<in> set t \<Longrightarrow> \<not> own_paddock a i q" by (auto simp: own_paddock_def image_iff)
    with Cons.prems(3) have "s \<notin> p_slug ` set t" by fastforce
    with upd_none [of t "own_paddock a i" f] none Cons.prems(2) assms(4) True show ?thesis by (simp add: upd_def)
  next
    case False
    with Cons.prems have "p_slug r \<noteq> s" "p_slug r \<notin> p_slug ` set t" by auto
    then have new: "p_slug r \<notin> set (map p_slug (upd (own_paddock a i) f t))" using assms(4) by (auto simp: set_upd)
    have "upd (own_paddock a i) f (r # t) = r # upd (own_paddock a i) f t" using False by (simp add: upd_def)
    with IH new show ?thesis by simp
  qed
qed

lemma upd_keeps:
  "(\<And>n. R n n) \<Longrightarrow> (\<And>n. R n (f n)) \<Longrightarrow> \<forall>n \<in> set t. \<exists>n' \<in> set (upd P f t). R n n'"
proof
  fix n assume R: "\<And>n. R n n" "\<And>n. R n (f n)" and "n \<in> set t"
  then have "(if P n then f n else n) \<in> set (upd P f t)" unfolding set_upd by (intro imageI)
  with R show "\<exists>n' \<in> set (upd P f t). R n n'" by (intro bexI [of _ "if P n then f n else n"]) simp_all
qed

lemma savePaddock_ok:
  assumes "savePaddock newId d a input = Inr (q, d')" and "paddocks_ok d" and "lower newId = newId"
  shows "paddocks_ok d' \<and> filter (\<lambda>p. p_orgId p \<noteq> ac_orgId a) (paddocks d') = filter (\<lambda>p. p_orgId p \<noteq> ac_orgId a) (paddocks d)"
  using assms(1)
proof (cases rule: savePaddock_Inr)
  case (update inp i p f)
  have f: "f \<in> set (flocks d)" "f_id f = lower (pi_flockId inp)" "f_orgId f = ac_orgId a" using own_flock_Some [OF update(4)] by auto
  have p: "p \<in> set (paddocks d)" "own_paddock a i p" using own_paddock_Some [OF update(5)] by (auto simp: own_paddock_def)
  have slug: "own_paddock a i r" if r: "r \<in> set (paddocks d)" "p_slug r = pi_slug inp" for r
  proof -
    have "sel1 (\<lambda>p. p_slug p = pi_slug inp) (paddocks d) = Some r"
      using r assms(2) by (intro sel1_only) (auto simp: paddocks_ok_def dest: distinct_key_eq)
    then have "p_id r = i" by (rule update(6))
    with r(1) assms(2) have "p_id r = p_id p" using p by (auto simp: paddocks_ok_def own_paddock_def)
    with r(1) p(1) assms(2) have "r = p" by (auto simp: paddocks_ok_def dest: distinct_key_eq)
    with p(2) show ?thesis by simp
  qed
  have ids: "map p_id (paddocks d') = map p_id (paddocks d)" unfolding update(7) by (rule map_upd_key) simp
  have slugs: "distinct (map p_slug (paddocks d'))"
    unfolding update(7) by (rule distinct_upd_slug) (use assms(2) slug in \<open>auto simp: paddocks_ok_def\<close>)
  have fl: "flocks d' = flocks d" by (subst update(10)) simp
  have ok: "lower (p_id r) = p_id r \<and> (\<exists>f \<in> set (flocks d). f_id f = p_flockId r \<and> f_orgId f = p_orgId r)" if "r \<in> set (paddocks d')" for r
  proof -
    from that obtain r0 where r0: "r0 \<in> set (paddocks d)" "r = (if own_paddock a i r0 then update_paddock inp r0 else r0)"
      unfolding update(7) set_upd by blast
    from r0(1) assms(2) have "lower (p_id r0) = p_id r0" "\<exists>f \<in> set (flocks d). f_id f = p_flockId r0 \<and> f_orgId f = p_orgId r0"
      by (simp_all add: paddocks_ok_def)
    with r0(2) f show ?thesis by (auto simp: own_paddock_def)
  qed
  have "paddocks_ok d'" using ids slugs ok assms(2) by (simp add: paddocks_ok_def fl)
  moreover have "filter (\<lambda>p. p_orgId p \<noteq> ac_orgId a) (paddocks d') = filter (\<lambda>p. p_orgId p \<noteq> ac_orgId a) (paddocks d)"
    unfolding update(7) by (rule filter_upd) (simp add: own_paddock_def)
  ultimately show ?thesis by blast
next
  case (create inp f)
  have f: "f \<in> set (flocks d)" "f_id f = lower (pi_flockId inp)" "f_orgId f = ac_orgId a" using own_flock_Some [OF create(4)] by auto
  have fl: "flocks d' = flocks d" by (subst create(10)) simp
  have "paddocks_ok d'"
    using assms(2,3) create(5,6) f unfolding paddocks_ok_def fl create(7) by (auto simp: new_paddock_def)
  then show ?thesis by (auto simp: create(7) new_paddock_def)
qed

lemma savePaddock_status:
  assumes "savePaddock newId d a input = Inr (q, d')" and "getp input ''status'' = Undef" and "p \<in> set (paddocks d)"
  shows "\<exists>p' \<in> set (paddocks d'). p_id p' = p_id p \<and> p_status p' = p_status p"
  using assms(1)
proof (cases rule: savePaddock_Inr)
  case (update inp i p0 f)
  from assms(2) update(2) have "pi_status inp = None" by (auto simp: savePaddockInput_def split: option.split_asm)
  moreover have "(if own_paddock a i p then update_paddock inp p else p) \<in> set (paddocks d')"
    unfolding update(7) set_upd using assms(3) by (rule imageI)
  ultimately show ?thesis by (intro bexI [of _ "if own_paddock a i p then update_paddock inp p else p"]) (auto simp: update_paddock_def)
next
  case (create inp f)
  with assms(3) show ?thesis by auto
qed

section \<open>Properties\<close>

text \<open>
  Saving a paddock keeps ids and public slugs unique and every paddock on a flock of its own
  organization, touches no other organization's paddock, and a request that does not mention the status
  leaves every paddock's status as it was: an edit never enables what was disabled.
\<close>

theorem paddock_save_keeps:
  assumes "savePaddock newId d a input = Inr (q, d')" and "paddocks_ok d" and "lower newId = newId"
  shows "paddocks_ok d' \<and> filter (\<lambda>p. p_orgId p \<noteq> ac_orgId a) (paddocks d') = filter (\<lambda>p. p_orgId p \<noteq> ac_orgId a) (paddocks d) \<and>
    (getp input ''status'' = Undef \<longrightarrow>
       (\<forall>p \<in> set (paddocks d). \<exists>p' \<in> set (paddocks d'). p_id p' = p_id p \<and> p_status p' = p_status p))"
  using savePaddock_ok [OF assms] savePaddock_status [OF assms(1)] by blast

definition demo_paddock_db :: db where
  "demo_paddock_db = empty_db\<lparr>flocks := [stored_flock None],
     paddocks := [\<lparr>p_id = demo_uuid, p_orgId = demo_uuid, p_flockId = demo_uuid, p_slug = ''pad'', p_name = ''Pad'',
       p_status = DisabledPaddock, p_theme = ''plain''\<rparr>]\<rparr>"

definition demo_put :: "string \<Rightarrow> js" where
  "demo_put i = Obj [(''id'', Str i), (''flockId'', Str demo_uuid), (''name'', Str ''Pad 2''), (''slug'', Str ''pad'')]"

lemma demo_paddocks_ok: "paddocks_ok demo_paddock_db"
proof -
  have "lower demo_uuid = demo_uuid" by code_simp
  then show ?thesis by (simp add: paddocks_ok_def demo_paddock_db_def empty_db_def stored_flock_def)
qed

theorem paddock_save_keeps_witness:
  "\<exists>q d'. savePaddock [] demo_paddock_db demo_owner (demo_put demo_uuid) = Inr (q, d') \<and> p_status q = DisabledPaddock \<and> paddocks_ok d'"
proof -
  have "case savePaddock [] demo_paddock_db demo_owner (demo_put demo_uuid) of Inl e \<Rightarrow> False | Inr r \<Rightarrow> p_status (fst r) = DisabledPaddock"
    by code_simp
  then obtain q d' where r: "savePaddock [] demo_paddock_db demo_owner (demo_put demo_uuid) = Inr (q, d')" "p_status q = DisabledPaddock"
    by (auto split: sum.split_asm)
  with paddock_save_keeps [OF r(1) demo_paddocks_ok] show ?thesis by auto
qed

text \<open>
  The clash test compares identifiers as text: a request that names a paddock of its own
  organization by an id in another case, keeping the slug, is refused as if the slug belonged to another
  paddock, though every statement after the test would have matched the row.
\<close>

theorem own_slug_clashes_in_other_case:
  assumes "paddocks_ok d" and "may a CapResourceWrite" and "savePaddockInput input = Some inp" and "pi_id inp = Some i" and "lower i \<noteq> i"
    and "sel1 (own_flock a (pi_flockId inp)) (flocks d) \<noteq> None" and "sel1 (own_paddock a i) (paddocks d) = Some p" and "p_slug p = pi_slug inp"
  shows "savePaddock newId d a input = Inl (SlugTaken (pi_slug inp))"
proof -
  have "sel1 (\<lambda>p. p_slug p = pi_slug inp) (paddocks d) = Some p"
    using assms(1,8) own_paddock_Some [OF assms(7)] by (intro sel1_only) (auto simp: paddocks_ok_def dest: distinct_key_eq)
  moreover have "p_id p \<noteq> i" using own_paddock_Some [OF assms(7)] assms(5) by simp
  ultimately show ?thesis
    using assms(2,3,4,6) by (auto simp: savePaddock_def guarded_def requireCapability_def may_def)
qed

theorem own_slug_clashes_in_other_case_witness:
  "savePaddock [] demo_paddock_db demo_owner (demo_put demo_uuid_upper) = Inl (SlugTaken ''pad'')"
proof -
  let ?inp = "\<lparr>pi_id = Some demo_uuid_upper, pi_flockId = demo_uuid, pi_name = ''Pad 2'', pi_slug = ''pad'', pi_status = None, pi_theme = ''plain''\<rparr>"
  have "savePaddockInput (demo_put demo_uuid_upper) = Some ?inp" "lower demo_uuid_upper \<noteq> demo_uuid_upper" "may demo_owner CapResourceWrite"
    "sel1 (own_flock demo_owner demo_uuid) (flocks demo_paddock_db) \<noteq> None"
    "sel1 (own_paddock demo_owner demo_uuid_upper) (paddocks demo_paddock_db) = Some (hd (paddocks demo_paddock_db))"
    "p_slug (hd (paddocks demo_paddock_db)) = ''pad''"
    by code_simp+
  with own_slug_clashes_in_other_case [OF demo_paddocks_ok, of demo_owner "demo_put demo_uuid_upper" ?inp demo_uuid_upper] show ?thesis by simp
qed



end
