(* ===== verification/TemplatesService.thy ===== *)
theory TemplatesService
  imports Paddocks
begin

text \<open>
  Workflow templates on their way into a fence (packages/schema/src/graph.ts,
  apps/control-plane/src/lib/template-schema.ts, lib/template-builder.ts, server/templates-service.ts): the
  draft an operator edits, its dry run, and the fence it is stored in. \<open>parse\<close> is \<open>JSON.parse\<close>.
\<close>

section \<open>The draft (graph.ts, template-schema.ts)\<close>

definition nonempty :: "js \<Rightarrow> string option" where
  "nonempty v = (case v of Str s \<Rightarrow> if s = [] then None else Some s | _ \<Rightarrow> None)"

definition graph_node_strict :: "string \<times> js \<Rightarrow> (string \<times> graph_node) option" where
  "graph_node_strict kv =
     (case (nonempty (getp (snd kv) ''class_type''), as_obj (getp (snd kv) ''inputs'')) of
        (Some c, Some i) \<Rightarrow> Some (fst kv, \<lparr>class_type = c, inputs = i\<rparr>)
      | _ \<Rightarrow> None)"

definition graphSchema :: "js \<Rightarrow> graph option" where
  "graphSchema v = (case v of Obj kvs \<Rightarrow> those (map graph_node_strict kvs) | _ \<Rightarrow> None)"

datatype draft_error =
    InvalidDraft
  | GraphNotJson
  | GraphInvalid
  | DuplicateParam string
  | TemplateInvalid
  | DryRunFailed build_error

definition parseGraphText :: "(string \<Rightarrow> js option) \<Rightarrow> string \<Rightarrow> draft_error + graph" where
  "parseGraphText parse t =
     (case parse t of
        None \<Rightarrow> Inl GraphNotJson
      | Some v \<Rightarrow> (case graphSchema v of None \<Rightarrow> Inl GraphInvalid | Some g \<Rightarrow> Inr g))"

definition graphTargets :: "graph \<Rightarrow> (string \<times> string list) list" where
  "graphTargets g = map (\<lambda>k. (k, case map_of g k of None \<Rightarrow> [] | Some n \<Rightarrow> sort (map fst (inputs n)))) (sort (map fst g))"

definition target_strict :: "js \<Rightarrow> target option" where
  "target_strict v =
     (case (as_obj v, nonempty (getp v ''node''), nonempty (getp v ''input'')) of
        (Some _, Some n, Some i) \<Rightarrow> Some \<lparr>tg_node = n, tg_input = i\<rparr>
      | _ \<Rightarrow> None)"

definition param_strict :: "js \<Rightarrow> param_spec option" where
  "param_strict v =
     (case (nonempty (getp v ''name''), as_str (getp v ''type'')) of
        (Some nm, Some ty) \<Rightarrow>
          if ty = ''text'' then map_option (TextParam nm) (target_strict (getp v ''target''))
          else if ty = ''seed'' then
            (case getp v ''targets'' of
               Arr ts \<Rightarrow> if ts = [] then None else map_option (SeedParam nm) (those (map target_strict ts))
             | _ \<Rightarrow> None)
          else if ty = ''number'' then
            (case (target_strict (getp v ''target''), optional_number (getp v ''min''), optional_number (getp v ''max'')) of
               (Some t, Some mn, Some mx) \<Rightarrow> Some (NumberParam nm t mn mx)
             | _ \<Rightarrow> None)
          else if ty = ''image'' then map_option (ImageParam nm) (target_strict (getp v ''target''))
          else None
      | _ \<Rightarrow> None)"

record draft =
  dr_id :: string
  dr_graphText :: string
  dr_params :: "param_spec list"
  dr_cost :: jnum

definition templateDraftSchema :: "js \<Rightarrow> draft option" where
  "templateDraftSchema v =
     (case (nonempty (getp v ''id''), as_str (getp v ''graphText''), getp v ''params'', as_num (getp v ''cost'')) of
        (Some i, Some g, Arr ps, Some c) \<Rightarrow>
          if c = NaN \<or> jnum_less c (Fin 0) then None
          else map_option (\<lambda>ps. \<lparr>dr_id = i, dr_graphText = g, dr_params = ps, dr_cost = c\<rparr>) (those (map param_strict ps))
      | _ \<Rightarrow> None)"

section \<open>Building and the dry run (template-builder.ts)\<close>

fun first_dup :: "'a list \<Rightarrow> 'a list \<Rightarrow> 'a option" where
  "first_dup seen [] = None"
| "first_dup seen (n # ns) = (if n \<in> set seen then Some n else first_dup (n # seen) ns)"

definition buildTemplate :: "(string \<Rightarrow> js option) \<Rightarrow> draft \<Rightarrow> draft_error + template" where
  "buildTemplate parse dr =
     (case parseGraphText parse (dr_graphText dr) of
        Inl e \<Rightarrow> Inl e
      | Inr g \<Rightarrow>
          (case first_dup [] (map spec_name (dr_params dr)) of
             Some n \<Rightarrow> Inl (DuplicateParam n)
           | None \<Rightarrow>
               (case comfyuiConstraint (comfy_constraint_js [\<lparr>tp_id = dr_id dr, tp_graph = g, tp_params = dr_params dr, tp_cost = dr_cost dr\<rparr>]) of
                  Some (t # _) \<Rightarrow> Inr t
                | _ \<Rightarrow> Inl TemplateInvalid)))"

fun sampleParam :: "param_spec \<Rightarrow> (string \<times> js) list \<times> (string \<times> string) list \<Rightarrow> (string \<times> js) list \<times> (string \<times> string) list" where
  "sampleParam (SeedParam n ts) (ps, us) = (ps, us)"
| "sampleParam (TextParam n t) (ps, us) = (assoc_set ps n (Str ''sample''), us)"
| "sampleParam (NumberParam n t mn mx) (ps, us) = (assoc_set ps n (Num (case mn of None \<Rightarrow> Fin 0 | Some m \<Rightarrow> m)), us)"
| "sampleParam (ImageParam n t) (ps, us) = (assoc_set ps n (Str ''sample''), assoc_set us n ''dry-run.png'')"

definition dryRunTemplate :: "template \<Rightarrow> draft_error + graph" where
  "dryRunTemplate t =
     (case fold sampleParam (tp_params t) ([], []) of
        (ps, us) \<Rightarrow> (case reconstructGraph t ps us (\<lambda>_. 1 / 2) of Inl e \<Rightarrow> Inl (DryRunFailed e) | Inr g \<Rightarrow> Inr g))"

definition validateDraft :: "(string \<Rightarrow> js option) \<Rightarrow> js \<Rightarrow> draft_error + template" where
  "validateDraft parse v =
     (case templateDraftSchema v of
        None \<Rightarrow> Inl InvalidDraft
      | Some dr \<Rightarrow>
          (case buildTemplate parse dr of
             Inl e \<Rightarrow> Inl e
           | Inr t \<Rightarrow> (case dryRunTemplate t of Inl e \<Rightarrow> Inl e | Inr g \<Rightarrow> Inr t)))"

section \<open>The service (templates-service.ts)\<close>

definition currentTemplates :: "db \<Rightarrow> actor \<Rightarrow> string \<Rightarrow> svc_error + template list" where
  "currentTemplates d a i =
     (case paddockBreedInOrg d a i of
        Inl e \<Rightarrow> Inl e
      | Inr b \<Rightarrow>
          if b \<noteq> Comfyui then Inl (NotFound (''comfyui paddock '' @ i))
          else (case fence_of d i of
              None \<Rightarrow> Inr []
            | Some n \<Rightarrow> (case comfyuiConstraint (n_constraintJson n) of None \<Rightarrow> Inl InvalidInput | Some ts \<Rightarrow> Inr ts)))"

definition writeTemplates :: "db \<Rightarrow> actor \<Rightarrow> string \<Rightarrow> template list \<Rightarrow> svc_error + db" where
  "writeTemplates d a i ts =
     (case comfyuiConstraint (comfy_constraint_js ts) of
        None \<Rightarrow> Inl InvalidInput
      | Some ts' \<Rightarrow>
          (let cj = comfy_constraint_js ts' in
           Inr (upsert_fence \<lparr>n_orgId = ac_orgId a, n_paddockId = lower i, n_constraintJson = cj, n_rateLimit = Null, n_quota = Null\<rparr>
             (\<lambda>n. n\<lparr>n_constraintJson := cj\<rparr>) d)))"

definition listTemplates :: "db \<Rightarrow> actor \<Rightarrow> string \<Rightarrow> svc_error + template list" where
  "listTemplates d a i = guarded a CapRead (currentTemplates d a i)"

definition put_template :: "template \<Rightarrow> template list \<Rightarrow> template list" where
  "put_template t ts =
     (if list_ex (\<lambda>u. tp_id u = tp_id t) ts then map (\<lambda>u. if tp_id u = tp_id t then t else u) ts else ts @ [t])"

definition saveTemplate :: "(string \<Rightarrow> js option) \<Rightarrow> db \<Rightarrow> actor \<Rightarrow> string \<Rightarrow> js \<Rightarrow> svc_error + template list \<times> db" where
  "saveTemplate parse d a i draft =
     guarded a CapResourceWrite
       (case validateDraft parse draft of
          Inl e \<Rightarrow> Inl BadDraft
        | Inr t \<Rightarrow>
            (case currentTemplates d a i of
               Inl e \<Rightarrow> Inl e
             | Inr ts \<Rightarrow>
                 (case writeTemplates d a i (put_template t ts) of
                    Inl e \<Rightarrow> Inl e
                  | Inr d1 \<Rightarrow>
                      Inr (put_template t ts,
                        writeAudit a ''template.save'' (''paddock:'' @ i) (Obj [(''templateId'', Str (tp_id t))]) d1))))"

definition deleteTemplate :: "db \<Rightarrow> actor \<Rightarrow> string \<Rightarrow> string \<Rightarrow> svc_error + template list \<times> db" where
  "deleteTemplate d a i templateId =
     guarded a CapResourceWrite
       (case currentTemplates d a i of
          Inl e \<Rightarrow> Inl e
        | Inr ts \<Rightarrow>
            (let ts' = filter (\<lambda>t. tp_id t \<noteq> templateId) ts in
             case writeTemplates d a i ts' of
               Inl e \<Rightarrow> Inl e
             | Inr d1 \<Rightarrow>
                 Inr (ts', writeAudit a ''template.delete'' (''paddock:'' @ i) (Obj [(''templateId'', Str templateId)]) d1)))"

section \<open>What a dry run proves\<close>

fun targets_of :: "param_spec \<Rightarrow> target list" where
  "targets_of (TextParam n t) = [t]"
| "targets_of (SeedParam n ts) = ts"
| "targets_of (NumberParam n t mn mx) = [t]"
| "targets_of (ImageParam n t) = [t]"

definition resolves :: "graph \<Rightarrow> param_spec \<Rightarrow> bool" where
  "resolves g s = (\<forall>t \<in> set (targets_of s). map_of g (tg_node t) \<noteq> None)"

definition is_seed :: "param_spec \<Rightarrow> bool" where
  "is_seed s = (case s of SeedParam n ts \<Rightarrow> True | _ \<Rightarrow> False)"

definition same_nodes :: "graph \<Rightarrow> graph \<Rightarrow> bool" where
  "same_nodes g g' = (\<forall>k. map_of g' k = None \<longleftrightarrow> map_of g k = None)"

lemma put_seeds_nodes: "put_seeds n ts v g = Inr g' \<Longrightarrow> same_nodes g g' \<and> (\<forall>t \<in> set ts. map_of g (tg_node t) \<noteq> None)"
proof (induction ts arbitrary: g)
  case (Cons t ts)
  then obtain g1 where "map_of g (tg_node t) \<noteq> None" "g1 = set_input t v g" "put_seeds n ts v g1 = Inr g'"
    by (auto simp: put_input_Inr split: sum.split_asm)
  with Cons.IH [of g1] show ?case by (auto simp: same_nodes_def)
qed (simp add: same_nodes_def)

lemma put_seeds_ok: "(\<forall>t \<in> set ts. map_of g (tg_node t) \<noteq> None) \<Longrightarrow> \<exists>g'. put_seeds n ts v g = Inr g'"
proof (induction ts arbitrary: g)
  case (Cons t ts)
  then have "\<forall>u \<in> set ts. map_of (set_input t v g) (tg_node u) \<noteq> None" by simp
  from Cons.IH [OF this] Cons.prems show ?case by (simp add: put_input_def)
qed simp

lemma apply_spec_nodes:
  assumes "apply_spec ps us rng s (n, g) = Inr (n', g')"
  shows "same_nodes g g' \<and> (is_seed s \<or> map_of ps (spec_name s) \<noteq> None \<longrightarrow> resolves g s)"
  using assms
  by (cases s) (auto simp: put_input_Inr same_nodes_def resolves_def is_seed_def dest: put_seeds_nodes
      split: sum.split_asm option.split_asm js.split_asm jnum.split_asm)

lemma apply_spec_resolved:
  assumes "resolves g s" shows "apply_spec ps us rng s (n, g) \<noteq> Inl (MissingNode x y)"
proof (cases s)
  case (SeedParam nm ts)
  with assms put_seeds_ok [of ts g nm "NumI (seed_value (rng n))"] show ?thesis by (auto simp: resolves_def)
qed (use assms in \<open>auto simp: resolves_def put_input_def number_problem_def split: option.split js.split jnum.split\<close>)

lemma resolves_same: "same_nodes g g' \<Longrightarrow> resolves g' s = resolves g s"
  by (simp add: resolves_def same_nodes_def)

lemma apply_specs_nodes:
  assumes "apply_specs ps us rng ss (n, g) = Inr r" and "\<forall>s \<in> set ss. is_seed s \<or> map_of ps (spec_name s) \<noteq> None"
  shows "\<forall>s \<in> set ss. resolves g s"
  using assms
proof (induction ss arbitrary: n g)
  case (Cons s ss)
  then obtain n1 g1 where 1: "apply_spec ps us rng s (n, g) = Inr (n1, g1)" "apply_specs ps us rng ss (n1, g1) = Inr r"
    by (auto split: sum.split_asm)
  from apply_spec_nodes [OF 1(1)] Cons.prems(2) have "same_nodes g g1" "resolves g s" by auto
  with Cons.IH [OF 1(2)] Cons.prems(2) show ?case by (auto simp: resolves_same)
qed simp

lemma apply_specs_resolved:
  assumes "\<forall>s \<in> set ss. resolves g s" shows "apply_specs ps us rng ss (n, g) \<noteq> Inl (MissingNode x y)"
  using assms
proof (induction ss arbitrary: n g)
  case (Cons s ss)
  show ?case
  proof (cases "apply_spec ps us rng s (n, g)")
    case (Inl e)
    with apply_spec_resolved [of g s] Cons.prems show ?thesis by auto
  next
    case (Inr st)
    then obtain n1 g1 where st: "apply_spec ps us rng s (n, g) = Inr (n1, g1)" by (cases st) auto
    with apply_spec_nodes [OF st] Cons.prems have "\<forall>s \<in> set ss. resolves g1 s" by (auto simp: resolves_same)
    with Cons.IH st show ?thesis by simp
  qed
qed simp

lemma sample_keeps: "map_of ps k \<noteq> None \<Longrightarrow> map_of (fst (fold sampleParam ss (ps, us))) k \<noteq> None"
proof (induction ss arbitrary: ps us)
  case (Cons s ss)
  have "map_of (fst (sampleParam s (ps, us))) k \<noteq> None" using Cons.prems by (cases s) auto
  with Cons.IH show ?case by (cases "sampleParam s (ps, us)") auto
qed simp

lemma sample_all: "s \<in> set ss \<Longrightarrow> is_seed s \<or> map_of (fst (fold sampleParam ss (ps, us))) (spec_name s) \<noteq> None"
proof (induction ss arbitrary: ps us)
  case (Cons r ss)
  obtain ps1 us1 where r: "sampleParam r (ps, us) = (ps1, us1)" by fastforce
  show ?case
  proof (cases "s = r")
    case True
    then have "is_seed s \<or> map_of ps1 (spec_name s) \<noteq> None" using r by (cases r) (auto simp: is_seed_def)
    with sample_keeps [of ps1 _ ss us1] r show ?thesis by auto
  qed (use Cons r in auto)
qed simp

section \<open>Properties\<close>


definition demo_draft :: "js list \<Rightarrow> js" where
  "demo_draft ps = Obj [(''id'', Str ''t''), (''graphText'', Str ''g''), (''params'', Arr ps), (''cost'', NumI 1)]"

definition demo_parse :: "string \<Rightarrow> js option" where
  "demo_parse s = Some (Obj [(''6'', Obj [(''class_type'', Str ''K''), (''inputs'', Obj [(''seed'', NumI 1)])])])"

definition demo_target :: js where
  "demo_target = Obj [(''node'', Str ''6''), (''input'', Str ''seed'')]"


text \<open>
  The dry run samples a number without a minimum as zero, so a template whose parameter has only a
  negative maximum is refused, though it would work for every number the parameter allows.
\<close>

theorem negative_maximum_refused:
  assumes "tp_params t = [NumberParam n tg None (Some (Fin m))]" and "m < 0" and "map_of (tp_graph t) (tg_node tg) \<noteq> None"
  shows "dryRunTemplate t = Inl (DryRunFailed (AboveMax n (Fin m))) \<and>
    (\<exists>g. reconstructGraph t [(n, Num (Fin (m - 1)))] us rng = Inr g)"
proof -
  obtain nd where "map_of (tp_graph t) (tg_node tg) = Some nd" using assms(3) by auto
  with assms(1,2) show ?thesis
    by (simp add: dryRunTemplate_def reconstructGraph_def number_problem_def put_input_def)
qed

theorem negative_maximum_refused_witness:
  "validateDraft demo_parse (demo_draft [Obj [(''name'', Str ''n''), (''type'', Str ''number''), (''target'', demo_target), (''max'', NumI (- 1))]]) =
     Inl (DryRunFailed (AboveMax ''n'' (Fin (- 1))))"
proof -
  let ?t = "\<lparr>tp_id = ''t'', tp_graph = [(''6'', \<lparr>class_type = ''K'', inputs = [(''seed'', NumI 1)]\<rparr>)],
     tp_params = [NumberParam ''n'' \<lparr>tg_node = ''6'', tg_input = ''seed''\<rparr> None (Some (Fin (- 1)))], tp_cost = Fin 1\<rparr>"
  let ?v = "demo_draft [Obj [(''name'', Str ''n''), (''type'', Str ''number''), (''target'', demo_target), (''max'', NumI (- 1))]]"
  have "case templateDraftSchema ?v of None \<Rightarrow> False | Some dr \<Rightarrow> buildTemplate demo_parse dr = Inr ?t" by code_simp
  moreover have "dryRunTemplate ?t = Inl (DryRunFailed (AboveMax ''n'' (Fin (- 1))))"
    using negative_maximum_refused [of ?t "''n''" "\<lparr>tg_node = ''6'', tg_input = ''seed''\<rparr>" "- 1"] by simp
  ultimately show ?thesis by (auto simp: validateDraft_def split: option.split_asm)
qed

end
