(* ===== verification/Tenancy.thy ===== *)
theory Tenancy
  imports TemplatesService
begin

text \<open>
  Tenancy: the invariant of the flocks, paddocks and fences of all organizations, and what every write of
  the resource services (flocks-service.ts, paddocks-service.ts, fences-service.ts, templates-service.ts,
  keys-service.ts) does to it: the write needs the capability, leaves an audit row in the actor's name, and
  keeps every row of every other organization.
\<close>

section \<open>The invariant and the frame\<close>

text \<open>Every paddock is on a flock of its organization, every fence on a paddock of its organization.\<close>

definition tenants_ok :: "db \<Rightarrow> bool" where
  "tenants_ok d =
     (paddocks_ok d \<and> distinct (map n_paddockId (fences d)) \<and>
      (\<forall>n \<in> set (fences d). \<exists>p \<in> set (paddocks d). p_id p = n_paddockId n \<and> p_orgId p = n_orgId n))"

definition org_only :: "string \<Rightarrow> db \<Rightarrow> db \<Rightarrow> bool" where
  "org_only og d d' = (others_kept og d d' \<and> filter (\<lambda>n. n_orgId n \<noteq> og) (fences d') = filter (\<lambda>n. n_orgId n \<noteq> og) (fences d))"

definition svc_change :: "actor \<Rightarrow> db \<Rightarrow> db \<Rightarrow> bool" where
  "svc_change a d d' =
     (may a CapResourceWrite \<and> (d' = d \<or> audited_by a d d') \<and> (tenants_ok d \<longrightarrow> tenants_ok d' \<and> org_only (ac_orgId a) d d'))"

lemma org_only_refl [simp]: "org_only og d d"
  by (simp add: org_only_def)

lemma audited_others: "audited_by a d d' \<Longrightarrow> filter (\<lambda>r. a_orgId r \<noteq> ac_orgId a) (audit d') = filter (\<lambda>r. a_orgId r \<noteq> ac_orgId a) (audit d)"
  by (auto simp: audited_by_def list_all_iff filter_empty_conv)

lemma tenants_same: "paddocks d' = paddocks d \<Longrightarrow> flocks d' = flocks d \<Longrightarrow> fences d' = fences d \<Longrightarrow> tenants_ok d' = tenants_ok d"
  by (simp add: tenants_ok_def paddocks_ok_def)

section \<open>Flocks\<close>

lemma saveFlock_change:
  assumes "saveFlock url_ok c ring iv newId d a input = Inr (v, d')"
  shows "svc_change a d d'"
  using assms
proof (cases rule: saveFlock_Inr)
  case (update inp i enc f)
  have fr: "orgs d' = orgs d" "users d' = users d" "invites d' = invites d" "entitlements d' = entitlements d"
    "paddocks d' = paddocks d" "fences d' = fences d" "keys d' = keys d" by (subst update(10), simp)+
  have ids: "map f_id (flocks d') = map f_id (flocks d)" unfolding update(7) by (rule map_upd_key) simp
  have "filter (\<lambda>r. f_orgId r \<noteq> ac_orgId a) (flocks d') = filter (\<lambda>r. f_orgId r \<noteq> ac_orgId a) (flocks d)"
    unfolding update(7) by (rule filter_upd) (simp add: own_flock_def)
  then have "org_only (ac_orgId a) d d'" by (simp add: org_only_def others_kept_def fr audited_others [OF update(9)])
  moreover have "tenants_ok d \<longrightarrow> tenants_ok d'"
  proof
    assume t: "tenants_ok d"
    have "\<exists>f' \<in> set (flocks d'). f_id f' = f_id g \<and> f_orgId f' = f_orgId g" if "g \<in> set (flocks d)" for g
      unfolding update(7) set_upd using that by (intro bexI [of _ "if own_flock a i g then update_flock inp enc g else g"] imageI) simp_all
    with t ids show "tenants_ok d'" unfolding tenants_ok_def paddocks_ok_def fr by metis
  qed
  ultimately show ?thesis using update(1,9) by (simp add: svc_change_def)
next
  case (create inp enc)
  have fr: "orgs d' = orgs d" "users d' = users d" "invites d' = invites d" "entitlements d' = entitlements d"
    "paddocks d' = paddocks d" "fences d' = fences d" "keys d' = keys d" by (subst create(9), simp)+
  have "org_only (ac_orgId a) d d'" by (simp add: org_only_def others_kept_def fr audited_others [OF create(8)] create(6) new_flock_def)
  moreover have "tenants_ok d \<longrightarrow> tenants_ok d'"
    using create(5) unfolding tenants_ok_def paddocks_ok_def fr create(6) by (auto simp: new_flock_def)
  ultimately show ?thesis using create(1,8) by (simp add: svc_change_def)
qed

lemma paddock_cascade [simp]:
  "orgs (delete_paddock_cascade i d) = orgs d" "users (delete_paddock_cascade i d) = users d"
  "invites (delete_paddock_cascade i d) = invites d" "entitlements (delete_paddock_cascade i d) = entitlements d"
  "flocks (delete_paddock_cascade i d) = flocks d" "keys (delete_paddock_cascade i d) = keys d" "audit (delete_paddock_cascade i d) = audit d"
  "paddocks (delete_paddock_cascade i d) = filter (\<lambda>p. p_id p \<noteq> i) (paddocks d)"
  "fences (delete_paddock_cascade i d) = filter (\<lambda>n. n_paddockId n \<noteq> i) (fences d)"
  by (simp_all add: delete_paddock_cascade_def del_def)

lemma fold_cascade:
  "orgs (fold delete_paddock_cascade ids d) = orgs d \<and> users (fold delete_paddock_cascade ids d) = users d \<and>
   invites (fold delete_paddock_cascade ids d) = invites d \<and> entitlements (fold delete_paddock_cascade ids d) = entitlements d \<and>
   flocks (fold delete_paddock_cascade ids d) = flocks d \<and> keys (fold delete_paddock_cascade ids d) = keys d \<and>
   audit (fold delete_paddock_cascade ids d) = audit d \<and>
   paddocks (fold delete_paddock_cascade ids d) = filter (\<lambda>p. p_id p \<notin> set ids) (paddocks d) \<and>
   fences (fold delete_paddock_cascade ids d) = filter (\<lambda>n. n_paddockId n \<notin> set ids) (fences d)"
  by (induction ids arbitrary: d) simp_all

text \<open>Removing some paddocks with their fences, and no flock that a remaining paddock is on.\<close>

lemma tenants_removed:
  assumes "tenants_ok d" and "paddocks d' = filter (\<lambda>p. p_id p \<notin> S) (paddocks d)" and "fences d' = filter (\<lambda>n. n_paddockId n \<notin> S) (fences d)"
    and "flocks d' = filter Q (flocks d)" and "\<And>p f. p \<in> set (paddocks d) \<Longrightarrow> p_id p \<notin> S \<Longrightarrow> f \<in> set (flocks d) \<Longrightarrow> f_id f = p_flockId p \<Longrightarrow> Q f"
  shows "tenants_ok d'"
proof -
  have "paddocks_ok d'"
    using assms(1) assms(5) unfolding tenants_ok_def paddocks_ok_def assms(2,4) by (auto simp: distinct_map_sub) metis
  with assms(1) show ?thesis unfolding tenants_ok_def assms(2,3) by (auto simp: distinct_map_sub) metis
qed

lemma kept_without:
  assumes "\<And>x. x \<in> set t \<Longrightarrow> R x \<Longrightarrow> P x"
  shows "filter R (filter P t) = filter R t"
  using assms by (auto intro: filter_cong)

lemma deleteFlock_change:
  assumes "deleteFlock d a i = Inr d'"
  shows "svc_change a d d'"
proof -
  from assms obtain f where m: "may a CapResourceWrite" and f: "sel1 (own_flock a i) (flocks d) = Some f"
    and d': "d' = writeAudit a ''flock.delete'' (''flock:'' @ i) Undef (delete_flock_cascade (f_id f) d)"
    by (auto simp: deleteFlock_def split: option.split_asm)
  let ?ids = "map p_id (sel (\<lambda>p. p_flockId p = f_id f) (paddocks d))"
  note fc = fold_cascade [of ?ids d]
  have fl: "flocks d' = filter (\<lambda>g. f_id g \<noteq> f_id f) (flocks d)"
    and pd: "paddocks d' = filter (\<lambda>p. p_id p \<notin> set ?ids) (paddocks d)" and fe: "fences d' = filter (\<lambda>n. n_paddockId n \<notin> set ?ids) (fences d)"
    and rest: "orgs d' = orgs d" "users d' = users d" "invites d' = invites d" "entitlements d' = entitlements d" "keys d' = keys d"
    using fc by (simp_all add: d' delete_flock_cascade_def Let_def del_def)
  have au: "audited_by a d d'" unfolding d' by (rule writeAudit_audited) (use fc in \<open>simp add: delete_flock_cascade_def Let_def\<close>)
  have "tenants_ok d' \<and> org_only (ac_orgId a) d d'" if t: "tenants_ok d"
  proof
    note own_f = own_flock_Some [OF f]
    have own: "p_orgId p = ac_orgId a" if "p \<in> set (paddocks d)" "p_flockId p = f_id f" for p
    proof -
      from t that(1) obtain g where "g \<in> set (flocks d)" "f_id g = p_flockId p" "f_orgId g = p_orgId p"
        by (auto simp: tenants_ok_def paddocks_ok_def)
      with t that(2) own_f show ?thesis by (auto simp: tenants_ok_def paddocks_ok_def dest!: distinct_key_eq [of f_id _ g f])
    qed
    have same: "p_orgId p = ac_orgId a" if "p \<in> set (paddocks d)" "p_id p \<in> set ?ids" for p
    proof -
      from that(2) obtain q where "q \<in> set (paddocks d)" "p_flockId q = f_id f" "p_id q = p_id p" by auto
      with own that(1) t show ?thesis by (auto simp: tenants_ok_def paddocks_ok_def dest: distinct_key_eq)
    qed
    show "tenants_ok d'" by (rule tenants_removed [OF t pd fe fl]) auto
    have "filter (\<lambda>r. f_orgId r \<noteq> ac_orgId a) (flocks d') = filter (\<lambda>r. f_orgId r \<noteq> ac_orgId a) (flocks d)"
      unfolding fl using t own_f by (intro kept_without) (auto simp: tenants_ok_def paddocks_ok_def dest: distinct_key_eq)
    moreover have "filter (\<lambda>r. p_orgId r \<noteq> ac_orgId a) (paddocks d') = filter (\<lambda>r. p_orgId r \<noteq> ac_orgId a) (paddocks d)"
      unfolding pd using same by (intro kept_without) blast
    moreover have "filter (\<lambda>n. n_orgId n \<noteq> ac_orgId a) (fences d') = filter (\<lambda>n. n_orgId n \<noteq> ac_orgId a) (fences d)"
      unfolding fe using same t by (intro kept_without) (metis tenants_ok_def)
    ultimately show "org_only (ac_orgId a) d d'" by (simp add: org_only_def others_kept_def rest audited_others [OF au])
  qed
  with m au show ?thesis by (simp add: svc_change_def)
qed

section \<open>Paddocks\<close>

lemma savePaddock_change:
  assumes "savePaddock newId d a input = Inr (q, d')" and "lower newId = newId"
  shows "svc_change a d d'"
proof -
  have "d' = d\<lparr>paddocks := paddocks d', audit := audit d'\<rparr> \<and> may a CapResourceWrite \<and> audited_by a d d'"
    using assms(1)
  proof (cases rule: savePaddock_Inr)
    case (update inp i p0 f)
    show ?thesis by (intro conjI update(10) update(1) update(9))
  next
    case (create inp f)
    show ?thesis by (intro conjI create(10) create(1) create(9))
  qed
  then have d': "d' = d\<lparr>paddocks := paddocks d', audit := audit d'\<rparr>" and m: "may a CapResourceWrite" and au: "audited_by a d d'" by blast+
  have fr: "orgs d' = orgs d" "users d' = users d" "invites d' = invites d" "entitlements d' = entitlements d"
    "flocks d' = flocks d" "fences d' = fences d" "keys d' = keys d" by (subst d', simp)+
  have keep: "\<exists>p' \<in> set (paddocks d'). p_id p' = p_id p \<and> p_orgId p' = p_orgId p" if p: "p \<in> set (paddocks d)" for p
    using assms(1)
  proof (cases rule: savePaddock_Inr)
    case (update inp i p0 f)
    show ?thesis unfolding update(7) set_upd using p
      by (intro bexI [of _ "if own_paddock a i p then update_paddock inp p else p"] imageI) simp_all
  next
    case (create inp f)
    with p show ?thesis by auto
  qed
  have "tenants_ok d' \<and> org_only (ac_orgId a) d d'" if t: "tenants_ok d"
  proof -
    from t have "paddocks_ok d" by (simp add: tenants_ok_def)
    from savePaddock_ok [OF assms(1) this assms(2)] have ok: "paddocks_ok d'"
      and pk: "filter (\<lambda>p. p_orgId p \<noteq> ac_orgId a) (paddocks d') = filter (\<lambda>p. p_orgId p \<noteq> ac_orgId a) (paddocks d)" by blast+
    have "tenants_ok d'" using t ok keep unfolding tenants_ok_def fr by metis
    with pk show ?thesis by (simp add: org_only_def others_kept_def fr audited_others [OF au])
  qed
  with m au show ?thesis by (simp add: svc_change_def)
qed

lemma setPaddockStatus_change:
  assumes "setPaddockStatus d a i st = Inr (q, d')"
  shows "svc_change a d d'"
proof -
  let ?f = "\<lambda>p. p\<lparr>p_status := st\<rparr>"
  from assms obtain x v where m: "may a CapResourceWrite"
    and d': "d' = writeAudit a x (''paddock:'' @ i) v (d\<lparr>paddocks := upd (own_paddock a i) ?f (paddocks d)\<rparr>)"
    by (auto simp: setPaddockStatus_def split: option.split_asm)
  have pd: "paddocks d' = upd (own_paddock a i) ?f (paddocks d)" by (simp add: d')
  have au: "audited_by a d d'" unfolding d' by (rule writeAudit_audited) simp
  have maps: "map p_id (paddocks d') = map p_id (paddocks d)" "map p_slug (paddocks d') = map p_slug (paddocks d)"
    unfolding pd by (rule map_upd_key, simp)+
  have prev: "\<exists>p \<in> set (paddocks d). p_id p = p_id r \<and> p_flockId p = p_flockId r \<and> p_orgId p = p_orgId r" if "r \<in> set (paddocks d')" for r
    using that unfolding pd set_upd by (auto split: if_splits)
  have forth: "\<exists>p' \<in> set (paddocks d'). p_id p' = p_id p \<and> p_orgId p' = p_orgId p" if "p \<in> set (paddocks d)" for p
    unfolding pd set_upd using that by (intro bexI [of _ "if own_paddock a i p then ?f p else p"] imageI) simp_all
  have fr: "flocks d' = flocks d" "fences d' = fences d" by (simp_all add: d')
  have "tenants_ok d \<longrightarrow> tenants_ok d'"
    using prev forth maps unfolding tenants_ok_def paddocks_ok_def fr by metis
  moreover have "filter (\<lambda>r. p_orgId r \<noteq> ac_orgId a) (paddocks d') = filter (\<lambda>r. p_orgId r \<noteq> ac_orgId a) (paddocks d)"
    unfolding pd by (rule filter_upd) (simp add: own_paddock_def)
  then have "org_only (ac_orgId a) d d'"
    using audited_others [OF au] by (simp add: org_only_def others_kept_def pd [symmetric]) (simp add: d')
  ultimately show ?thesis using m au by (simp add: svc_change_def)
qed

lemma deletePaddock_change:
  assumes "deletePaddock d a i = Inr d'"
  shows "svc_change a d d'"
proof -
  from assms obtain p where m: "may a CapResourceWrite" and p: "sel1 (own_paddock a i) (paddocks d) = Some p"
    and d': "d' = writeAudit a ''paddock.delete'' (''paddock:'' @ i) Undef (delete_paddock_cascade (p_id p) d)"
    by (auto simp: deletePaddock_def split: option.split_asm)
  have pd: "paddocks d' = filter (\<lambda>q. p_id q \<notin> {p_id p}) (paddocks d)" and fe: "fences d' = filter (\<lambda>n. n_paddockId n \<notin> {p_id p}) (fences d)"
    and fl: "flocks d' = filter (\<lambda>f. True) (flocks d)"
    and rest: "orgs d' = orgs d" "users d' = users d" "invites d' = invites d" "entitlements d' = entitlements d" "flocks d' = flocks d" "keys d' = keys d"
    by (simp_all add: d')
  have au: "audited_by a d d'" unfolding d' by (rule writeAudit_audited) simp
  have "tenants_ok d' \<and> org_only (ac_orgId a) d d'" if t: "tenants_ok d"
  proof
    note op = own_paddock_Some [OF p]
    have same: "q = p" if "q \<in> set (paddocks d)" "p_id q = p_id p" for q
      using that op t by (auto simp: tenants_ok_def paddocks_ok_def dest: distinct_key_eq)
    show "tenants_ok d'" by (rule tenants_removed [OF t pd fe fl]) simp
    have "filter (\<lambda>r. p_orgId r \<noteq> ac_orgId a) (paddocks d') = filter (\<lambda>r. p_orgId r \<noteq> ac_orgId a) (paddocks d)"
      unfolding pd using same op by (intro kept_without) blast
    moreover have "filter (\<lambda>n. n_orgId n \<noteq> ac_orgId a) (fences d') = filter (\<lambda>n. n_orgId n \<noteq> ac_orgId a) (fences d)"
      unfolding fe using same op t by (intro kept_without) (metis singletonD tenants_ok_def)
    ultimately show "org_only (ac_orgId a) d d'" by (simp add: org_only_def others_kept_def rest audited_others [OF au])
  qed
  with m au show ?thesis by (simp add: svc_change_def)
qed

section \<open>Fences and templates\<close>

lemma paddockBreed_own: "paddockBreedInOrg d a i = Inr b \<Longrightarrow> \<exists>p \<in> set (paddocks d). p_id p = lower i \<and> p_orgId p = ac_orgId a"
proof -
  assume r: "paddockBreedInOrg d a i = Inr b"
  then have "sel (own_paddock a i) (paddocks d) \<noteq> []" by (auto simp: paddockBreedInOrg_def)
  then show ?thesis by (auto simp: sel_def filter_empty_conv own_paddock_def)
qed

lemma upsert_change:
  assumes "\<exists>p \<in> set (paddocks d). p_id p = n_paddockId row \<and> p_orgId p = ac_orgId a" and "n_orgId row = ac_orgId a"
    and "\<And>n. n_paddockId (f n) = n_paddockId n" and "\<And>n. n_orgId (f n) = n_orgId n"
    and m: "may a CapResourceWrite" and d': "d' = writeAudit a x t v (upsert_fence row f d)"
  shows "svc_change a d d'"
proof -
  have au: "audited_by a d d'" unfolding d' by (rule writeAudit_audited) (simp add: upsert_fence_def)
  have fr: "orgs d' = orgs d" "users d' = users d" "invites d' = invites d" "entitlements d' = entitlements d"
    "flocks d' = flocks d" "paddocks d' = paddocks d" "keys d' = keys d" by (simp_all add: d' upsert_fence_def)
  have fe: "fences d' = (if n_paddockId row \<in> n_paddockId ` set (fences d) then upd (\<lambda>n. n_paddockId n = n_paddockId row) f (fences d)
      else fences d @ [row])" by (simp add: d' upsert_fence_def)
  have "tenants_ok d' \<and> org_only (ac_orgId a) d d'" if t: "tenants_ok d"
  proof
    have own: "n_orgId n = ac_orgId a" if "n \<in> set (fences d)" "n_paddockId n = n_paddockId row" for n
    proof -
      from t that(1) obtain q where "q \<in> set (paddocks d)" "p_id q = n_paddockId n" "p_orgId q = n_orgId n" by (auto simp: tenants_ok_def)
      with assms(1) that(2) t show ?thesis by (auto simp: tenants_ok_def paddocks_ok_def dest: distinct_key_eq)
    qed
    show "tenants_ok d'"
    proof (cases "n_paddockId row \<in> n_paddockId ` set (fences d)")
      case True
      then have u: "fences d' = upd (\<lambda>n. n_paddockId n = n_paddockId row) f (fences d)" by (simp add: fe)
      have "map n_paddockId (fences d') = map n_paddockId (fences d)" unfolding u by (rule map_upd_key) (simp add: assms(3))
      moreover have "\<exists>m \<in> set (fences d). n_paddockId m = n_paddockId n \<and> n_orgId m = n_orgId n" if "n \<in> set (fences d')" for n
        using that assms(3,4) unfolding u set_upd by (auto split: if_splits)
      ultimately show ?thesis using t unfolding tenants_ok_def paddocks_ok_def fr by metis
    next
      case False
      with t assms(1,2) show ?thesis unfolding tenants_ok_def paddocks_ok_def fr fe by auto
    qed
    have "filter (\<lambda>n. n_orgId n \<noteq> ac_orgId a) (upd (\<lambda>n. n_paddockId n = n_paddockId row) f ns) = filter (\<lambda>n. n_orgId n \<noteq> ac_orgId a) ns"
      if "set ns \<subseteq> set (fences d)" for ns
      using that own assms(4) by (induction ns) (auto simp: upd_def)
    then have "filter (\<lambda>n. n_orgId n \<noteq> ac_orgId a) (fences d') = filter (\<lambda>n. n_orgId n \<noteq> ac_orgId a) (fences d)"
      by (simp add: fe assms(2))
    then show "org_only (ac_orgId a) d d'" by (simp add: org_only_def others_kept_def fr audited_others [OF au])
  qed
  with m au show ?thesis by (simp add: svc_change_def)
qed

lemma saveFence_change:
  assumes "saveFence d a input = Inr (q, d')"
  shows "svc_change a d d'"
proof -
  from assms obtain inp b cj where m: "may a CapResourceWrite" and b: "paddockBreedInOrg d a (ni_paddockId inp) = Inr b"
    and i: "saveFenceInput input = Some inp" "insert_constraint d b inp = Some cj"
    by (auto simp: saveFence_def Let_def split: option.split_asm sum.split_asm)
  have d': "d' = writeAudit a ''fence.save'' (''paddock:'' @ ni_paddockId inp) (Obj [(''breed'', Str (breed_str b))])
      (upsert_fence \<lparr>n_orgId = ac_orgId a, n_paddockId = lower (ni_paddockId inp), n_constraintJson = cj,
        n_rateLimit = ni_rateLimit inp, n_quota = ni_quota inp\<rparr> (\<lambda>n. n\<lparr>n_rateLimit := ni_rateLimit inp, n_quota := ni_quota inp,
        n_constraintJson := (if ni_constraintJson inp \<noteq> Undef then cj else n_constraintJson n)\<rparr>) d)"
    using assms m b i by (simp add: saveFence_def Let_def)
  show ?thesis by (rule upsert_change [OF _ _ _ _ m d']) (use paddockBreed_own [OF b] in simp_all)
qed

lemma writeTemplates_change:
  assumes "currentTemplates d a i = Inr ts" and "writeTemplates d a i ts' = Inr d1" and "may a CapResourceWrite"
  shows "svc_change a d (writeAudit a x t v d1)"
proof -
  from assms(1) obtain b where b: "paddockBreedInOrg d a i = Inr b" by (auto simp: currentTemplates_def split: sum.split_asm)
  from assms(2) obtain cj where "d1 = upsert_fence \<lparr>n_orgId = ac_orgId a, n_paddockId = lower i, n_constraintJson = cj, n_rateLimit = Null, n_quota = Null\<rparr>
      (\<lambda>n. n\<lparr>n_constraintJson := cj\<rparr>) d"
    by (auto simp: writeTemplates_def Let_def split: option.split_asm)
  then show ?thesis
    by (intro upsert_change [OF _ _ _ _ assms(3), where row = "\<lparr>n_orgId = ac_orgId a, n_paddockId = lower i, n_constraintJson = cj, n_rateLimit = Null, n_quota = Null\<rparr>"
        and f = "\<lambda>n. n\<lparr>n_constraintJson := cj\<rparr>"]) (use paddockBreed_own [OF b] in simp_all)
qed

lemma saveTemplate_change:
  assumes "saveTemplate parse d a i draft = Inr (q, d')"
  shows "svc_change a d d'"
proof -
  from assms obtain t ts d1 where "may a CapResourceWrite" "currentTemplates d a i = Inr ts" "writeTemplates d a i (put_template t ts) = Inr d1"
    and "d' = writeAudit a ''template.save'' (''paddock:'' @ i) (Obj [(''templateId'', Str (tp_id t))]) d1"
    by (auto simp: saveTemplate_def split: sum.split_asm)
  then show ?thesis by (auto intro: writeTemplates_change)
qed

lemma deleteTemplate_change:
  assumes "deleteTemplate d a i templateId = Inr (q, d')"
  shows "svc_change a d d'"
proof -
  from assms obtain ts ts' d1 where "may a CapResourceWrite" "currentTemplates d a i = Inr ts" "writeTemplates d a i ts' = Inr d1"
    and "d' = writeAudit a ''template.delete'' (''paddock:'' @ i) (Obj [(''templateId'', Str templateId)]) d1"
    by (auto simp: deleteTemplate_def Let_def split: sum.split_asm)
  then show ?thesis by (auto intro: writeTemplates_change)
qed

section \<open>Keys\<close>

lemma createKey_change:
  assumes "createKey datetime sha256 random newId d a input = Inr (c, d')"
  shows "svc_change a d d'"
proof -
  have "flocks d' = flocks d" "fences d' = fences d"
    using assms by (auto simp: createKey_def Let_def insert_key_Inr link_paddocks_def split: option.split_asm if_split_asm sum.split_asm)
  moreover from assms have "may a CapResourceWrite \<and> audited_by a d d' \<and> others_kept (ac_orgId a) d d' \<and> paddocks d' = paddocks d"
    by (rule createKey_Inr) blast
  ultimately show ?thesis using tenants_same [of d' d] by (auto simp: svc_change_def org_only_def)
qed

lemma revokeKey_change:
  assumes "revokeKey d a i = Inr d'"
  shows "svc_change a d d'"
proof (cases "d' = d")
  case True
  with revokeKey_Inr [OF assms] show ?thesis by (simp add: svc_change_def)
next
  case False
  have "d' = writeAudit a ''key.revoke'' (''key:'' @ i) Undef (revoke_where (\<lambda>k. k_id k = uuid_lit i \<and> k_orgId k = ac_orgId a) d)"
    using assms False by (auto simp: revokeKey_def Let_def split: if_split_asm)
  moreover have "filter (\<lambda>k. k_orgId k \<noteq> ac_orgId a) (upd (\<lambda>k. (k_id k = uuid_lit i \<and> k_orgId k = ac_orgId a) \<and> k_status k = ActiveKey)
      (\<lambda>k. k\<lparr>k_status := RevokedKey\<rparr>) (keys d)) = filter (\<lambda>k. k_orgId k \<noteq> ac_orgId a) (keys d)" by (rule filter_upd) simp
  ultimately have "others_kept (ac_orgId a) d d'" "paddocks d' = paddocks d" "flocks d' = flocks d" "fences d' = fences d"
    by (simp_all add: others_kept_def revoke_where_def) (simp add: writeAudit_def)
  moreover have "may a CapResourceWrite" "audited_by a d d'" using revokeKey_Inr [OF assms] False by blast+
  ultimately show ?thesis using tenants_same [of d' d] by (simp add: svc_change_def org_only_def)
qed

end
