(* ===== verification/Sessions.thy ===== *)
theory Sessions
  imports Paging AccessToken
begin

text \<open>
  Signing in to the console (apps/control-plane/src/auth/session.ts, auth/oidc-client.ts,
  server/sign-in.ts, server/current-user.ts, server/oidc-session.ts, app/login/route.ts,
  app/auth/callback/route.ts). The HMAC, the JSON codec, the URL parser and the JOSE library are
  arguments; a browser is the pair of cookies the console gave it.
\<close>

section \<open>Sealed cookies (session.ts)\<close>

definition SESSION_COOKIE :: string where
  "SESSION_COOKIE = ''mm_session''"

record session_payload =
  se_uid :: string
  se_oid :: string
  se_role :: role
  se_exp :: jnum

text \<open>The codec of a cookie: \<open>createHmac\<close>, \<open>JSON.stringify\<close> and \<open>JSON.parse\<close>.\<close>

record cookie_codec =
  cc_hmac :: "string \<Rightarrow> string \<Rightarrow> string"
  cc_print :: "js \<Rightarrow> string"
  cc_parse :: "string \<Rightarrow> js option"

definition sign_body :: "cookie_codec \<Rightarrow> string \<Rightarrow> string \<Rightarrow> string" where
  "sign_body c body secret = to_b64u (cc_hmac c secret body)"

definition with_exp :: "(string \<times> js) list \<Rightarrow> int \<Rightarrow> (string \<times> js) list" where
  "with_exp payload t = assoc_set payload ''exp'' (NumI t)"

definition sealJson :: "cookie_codec \<Rightarrow> (string \<times> js) list \<Rightarrow> string \<Rightarrow> int \<Rightarrow> int \<Rightarrow> string" where
  "sealJson c payload secret ttlMs nowMs =
     (let body = to_b64u (cc_print c (Obj (with_exp payload (nowMs + ttlMs)))) in
      body @ ''.'' @ sign_body c body secret)"

definition openJson :: "cookie_codec \<Rightarrow> string \<Rightarrow> string \<Rightarrow> int \<Rightarrow> (string \<times> js) list option" where
  "openJson c token secret nowMs =
     (let body = takeWhile (\<lambda>x. x \<noteq> CHR ''.'') token in
      if body = [] \<or> length body = length token then None
      else if drop (Suc (length body)) token \<noteq> sign_body c body secret then None
      else case cc_parse c (from_base64 body) of
          Some (Obj p) \<Rightarrow>
            (case getp (Obj p) ''exp'' of
               Num e \<Rightarrow> if jnum_le e (Fin (of_int nowMs)) then None else Some p
             | _ \<Rightarrow> None)
        | _ \<Rightarrow> None)"

definition session_fields :: "string \<Rightarrow> string \<Rightarrow> role \<Rightarrow> (string \<times> js) list" where
  "session_fields uid oid r = [(''uid'', Str uid), (''oid'', Str oid), (''role'', Str (role_str r))]"

definition signSession :: "cookie_codec \<Rightarrow> string \<Rightarrow> string \<Rightarrow> role \<Rightarrow> string \<Rightarrow> int \<Rightarrow> int \<Rightarrow> string" where
  "signSession c uid oid r secret ttlMs nowMs = sealJson c (session_fields uid oid r) secret ttlMs nowMs"

definition verifySession :: "cookie_codec \<Rightarrow> string \<Rightarrow> string \<Rightarrow> int \<Rightarrow> session_payload option" where
  "verifySession c token secret nowMs =
     (case openJson c token secret nowMs of
        None \<Rightarrow> None
      | Some p \<Rightarrow>
          (case (getp (Obj p) ''uid'', getp (Obj p) ''oid'', isRole (getp (Obj p) ''role''), getp (Obj p) ''exp'') of
             (Str u, Str og, Some r, Num e) \<Rightarrow> Some \<lparr>se_uid = u, se_oid = og, se_role = r, se_exp = e\<rparr>
           | _ \<Rightarrow> None))"

section \<open>The console's settings (oidc-client.ts, current-user.ts)\<close>

record oidc_config =
  oc_issuer :: string
  oc_internalUrl :: string
  oc_consoleUrl :: string
  oc_clientSecret :: string

datatype oidc_error =
    SettingRequired string
  | SettingNotAbsolute string
  | SettingNotOrigin string
  | ClientSecretShort
  | DiscoveryFailed
  | IssuerMismatch
  | DiscoveryLacks string
  | TokenExchangeFailed
  | IdTokenRejected
  | NonceMismatch
  | NoSubject

definition originOf :: "(string \<Rightarrow> url option) \<Rightarrow> string \<Rightarrow> string option \<Rightarrow> oidc_error + string" where
  "originOf parse_url name val =
     (case val of
        None \<Rightarrow> Inl (SettingRequired name)
      | Some v \<Rightarrow>
          if trim v = [] then Inl (SettingRequired name)
          else case parse_url v of
              None \<Rightarrow> Inl (SettingNotAbsolute name)
            | Some u \<Rightarrow> if u_pathname u \<noteq> ''/'' \<or> u_search u \<noteq> [] \<or> u_hash u \<noteq> [] then Inl (SettingNotOrigin name)
                else Inr (u_origin u))"

definition set_nonblank :: "string option \<Rightarrow> bool" where
  "set_nonblank v = (case v of None \<Rightarrow> False | Some s \<Rightarrow> trim s \<noteq> [])"

definition loadOidcClientConfig :: "(string \<Rightarrow> url option) \<Rightarrow> (string \<Rightarrow> string option) \<Rightarrow> oidc_error + oidc_config" where
  "loadOidcClientConfig parse_url env =
     (case originOf parse_url ''OIDC_ISSUER'' (env ''OIDC_ISSUER'') of
        Inl e \<Rightarrow> Inl e
      | Inr issuer \<Rightarrow>
          (let sec = (case env ''CONSOLE_CLIENT_SECRET'' of None \<Rightarrow> [] | Some s \<Rightarrow> s) in
           if length sec < 16 then Inl ClientSecretShort
           else case (if set_nonblank (env ''OIDC_INTERNAL_URL'')
                   then originOf parse_url ''OIDC_INTERNAL_URL'' (env ''OIDC_INTERNAL_URL'') else Inr issuer) of
               Inl e \<Rightarrow> Inl e
             | Inr internal \<Rightarrow>
                 (case originOf parse_url ''CONSOLE_URL'' (env ''CONSOLE_URL'') of
                    Inl e \<Rightarrow> Inl e
                  | Inr console \<Rightarrow> Inr \<lparr>oc_issuer = issuer, oc_internalUrl = internal, oc_consoleUrl = console, oc_clientSecret = sec\<rparr>)))"

definition sessionSecret :: "(string \<Rightarrow> string option) \<Rightarrow> string option" where
  "sessionSecret env = (case env ''SESSION_SECRET'' of None \<Rightarrow> None | Some s \<Rightarrow> if length s < 16 then None else Some s)"

section \<open>Transactions and the provider's answers (oidc-client.ts)\<close>

record auth_tx =
  tx_state :: string
  tx_nonce :: string
  tx_codeVerifier :: string

text \<open>\<open>random\<close> is the 32 bytes of each of the three values.\<close>

definition newTransaction :: "string \<times> string \<times> string \<Rightarrow> auth_tx" where
  "newTransaction random =
     (case random of (a, b, c) \<Rightarrow> \<lparr>tx_state = to_b64u a, tx_nonce = to_b64u b, tx_codeVerifier = to_b64u c\<rparr>)"

definition usable_str :: "js \<Rightarrow> string option" where
  "usable_str v = (case v of Str s \<Rightarrow> if s = [] then None else Some s | _ \<Rightarrow> None)"

definition parseTransaction :: "(string \<times> js) list option \<Rightarrow> auth_tx option" where
  "parseTransaction p =
     (case p of
        None \<Rightarrow> None
      | Some kvs \<Rightarrow>
          (case (usable_str (getp (Obj kvs) ''state''), usable_str (getp (Obj kvs) ''nonce''), usable_str (getp (Obj kvs) ''codeVerifier'')) of
             (Some st, Some n, Some v) \<Rightarrow> Some \<lparr>tx_state = st, tx_nonce = n, tx_codeVerifier = v\<rparr>
           | _ \<Rightarrow> None))"

definition codeChallenge :: "(string \<Rightarrow> string) \<Rightarrow> string \<Rightarrow> string" where
  "codeChallenge sha256 verifier = to_b64u (sha256 verifier)"

definition METADATA_TTL_MS :: int where
  "METADATA_TTL_MS = 5 * 60 * 1000"

record oidc_metadata =
  om_authorization :: string
  om_token :: string
  om_jwks :: string
  om_endSession :: string

text \<open>\<open>fetched\<close> is the discovery document, or nothing where the request failed; \<open>onOrigin\<close>
  moves a URL to another origin.\<close>

definition read_metadata :: "(string \<Rightarrow> string \<Rightarrow> string) \<Rightarrow> oidc_config \<Rightarrow> js option \<Rightarrow> oidc_error + oidc_metadata" where
  "read_metadata onOrigin cfg fetched =
     (case fetched of
        None \<Rightarrow> Inl DiscoveryFailed
      | Some m \<Rightarrow>
          if getp m ''issuer'' \<noteq> Str (oc_issuer cfg) then Inl IssuerMismatch
          else (case (getp m ''authorization_endpoint'', getp m ''token_endpoint'', getp m ''jwks_uri'', getp m ''end_session_endpoint'') of
              (Str a, Str t, Str j, Str e) \<Rightarrow>
                Inr \<lparr>om_authorization = onOrigin a (oc_issuer cfg), om_token = t, om_jwks = j, om_endSession = onOrigin e (oc_issuer cfg)\<rparr>
            | (a, t, j, e) \<Rightarrow>
                Inl (DiscoveryLacks (if \<not> is_str a then ''authorization_endpoint'' else if \<not> is_str t then ''token_endpoint''
                  else if \<not> is_str j then ''jwks_uri'' else ''end_session_endpoint''))))"

type_synonym meta_cache = "(oidc_metadata \<times> int) option"

definition metadata :: "(string \<Rightarrow> string \<Rightarrow> string) \<Rightarrow> oidc_config \<Rightarrow> js option \<Rightarrow> int \<Rightarrow> meta_cache \<Rightarrow> (oidc_error + oidc_metadata) \<times> meta_cache" where
  "metadata onOrigin cfg fetched now cache =
     (case cache of
        Some (m, fetchedAt) \<Rightarrow>
          if now - fetchedAt < METADATA_TTL_MS then (Inr m, cache)
          else (case read_metadata onOrigin cfg fetched of Inl e \<Rightarrow> (Inl e, cache) | Inr v \<Rightarrow> (Inr v, Some (v, now)))
      | None \<Rightarrow> (case read_metadata onOrigin cfg fetched of Inl e \<Rightarrow> (Inl e, cache) | Inr v \<Rightarrow> (Inr v, Some (v, now))))"

definition redirectUri :: "oidc_config \<Rightarrow> string" where
  "redirectUri cfg = oc_consoleUrl cfg @ ''/auth/callback''"

text \<open>The query of the authorization URL.\<close>

definition authorizationQuery :: "(string \<Rightarrow> string) \<Rightarrow> oidc_config \<Rightarrow> auth_tx \<Rightarrow> string option \<Rightarrow> (string \<times> string) list" where
  "authorizationQuery sha256 cfg tx hint =
     [(''client_id'', CONSOLE_CLIENT_ID), (''response_type'', ''code''), (''scope'', ''openid''),
      (''redirect_uri'', redirectUri cfg), (''state'', tx_state tx), (''nonce'', tx_nonce tx),
      (''code_challenge'', codeChallenge sha256 (tx_codeVerifier tx)), (''code_challenge_method'', ''S256'')] @
     (case hint of None \<Rightarrow> [] | Some h \<Rightarrow> if h = [] then [] else [(''login_hint'', h), (''prompt'', ''login'')])"

definition tokenRequestBody :: "oidc_config \<Rightarrow> string \<Rightarrow> auth_tx \<Rightarrow> (string \<times> string) list" where
  "tokenRequestBody cfg code tx =
     [(''grant_type'', ''authorization_code''), (''code'', code), (''redirect_uri'', redirectUri cfg),
      (''code_verifier'', tx_codeVerifier tx)]"

text \<open>The provider's token endpoint (its answer to a form, and whether the status was ok), and \<open>jwtVerify\<close> of an ID token for this issuer and client.\<close>

record provider =
  pv_token :: "(string \<times> string) list \<Rightarrow> bool \<times> js"
  pv_verify :: "string \<Rightarrow> js option"

definition exchangeCode :: "provider \<Rightarrow> (oidc_error + oidc_metadata) \<Rightarrow> oidc_config \<Rightarrow> string \<Rightarrow> auth_tx \<Rightarrow> oidc_error + string" where
  "exchangeCode pv discovered cfg code tx =
     (case discovered of Inl e \<Rightarrow> Inl e | Inr meta \<Rightarrow>
      case pv_token pv (tokenRequestBody cfg code tx) of (ok, json) \<Rightarrow>
        (case (ok, getp json ''id_token'') of
           (True, Str t) \<Rightarrow>
             (case pv_verify pv t of
                None \<Rightarrow> Inl IdTokenRejected
              | Some payload \<Rightarrow>
                  if tx_nonce tx = [] \<or> getp payload ''nonce'' \<noteq> Str (tx_nonce tx) then Inl NonceMismatch
                  else (case usable_str (getp payload ''sub'') of None \<Rightarrow> Inl NoSubject | Some s \<Rightarrow> Inr s))
         | _ \<Rightarrow> Inl TokenExchangeFailed))"

section \<open>The callback (sign-in.ts)\<close>

datatype sign_in_failure =
    AccessDenied
  | ProviderError
  | StateMismatch
  | WrongIssuer
  | MissingCode
  | ExchangeFailed
  | AccountUnavailable
  | Misconfigured

datatype sign_in_result = SignedIn actor | SignInRefused sign_in_failure

text \<open>The second component counts the requests to the token endpoint.\<close>

definition completeSignIn :: "(string \<times> string) list \<Rightarrow> auth_tx option \<Rightarrow> string \<Rightarrow> (string \<Rightarrow> auth_tx \<Rightarrow> oidc_error + string) \<Rightarrow>
    (string \<Rightarrow> actor option) \<Rightarrow> sign_in_result \<times> nat" where
  "completeSignIn params tx issuer exchange loadActor =
     (case map_of params ''error'' of
        Some (x # xs) \<Rightarrow> (SignInRefused (if x # xs = ''access_denied'' then AccessDenied else ProviderError), 0)
      | _ \<Rightarrow>
          (case tx of
             None \<Rightarrow> (SignInRefused StateMismatch, 0)
           | Some t \<Rightarrow>
               if map_of params ''state'' \<noteq> Some (tx_state t) then (SignInRefused StateMismatch, 0)
               else if map_of params ''iss'' \<noteq> Some issuer then (SignInRefused WrongIssuer, 0)
               else (case map_of params ''code'' of
                   Some (x # xs) \<Rightarrow>
                     (case exchange (x # xs) t of
                        Inl e \<Rightarrow> (SignInRefused ExchangeFailed, 1)
                      | Inr sub \<Rightarrow>
                          (case loadActor sub of None \<Rightarrow> (SignInRefused AccountUnavailable, 1) | Some a \<Rightarrow> (SignedIn a, 1)))
                 | _ \<Rightarrow> (SignInRefused MissingCode, 0))))"

definition one_line :: "string \<Rightarrow> string" where
  "one_line s = map (\<lambda>c. if c = CHR 0x0D \<or> c = CHR 0x0A then CHR '' '' else c) s"

section \<open>Cookies and the two routes (oidc-session.ts, current-user.ts, login, auth/callback)\<close>

definition TX_TTL_MS :: int where
  "TX_TTL_MS = 10 * 60 * 1000"

definition OPERATOR_SESSION_TTL_MS :: int where
  "OPERATOR_SESSION_TTL_MS = 12 * 60 * 60 * 1000"

record jar =
  jar_session :: "string option"
  jar_tx :: "string option"

definition tx_fields :: "auth_tx \<Rightarrow> (string \<times> js) list" where
  "tx_fields tx = [(''state'', Str (tx_state tx)), (''nonce'', Str (tx_nonce tx)), (''codeVerifier'', Str (tx_codeVerifier tx))]"

definition setTransactionCookie :: "cookie_codec \<Rightarrow> string \<Rightarrow> int \<Rightarrow> auth_tx \<Rightarrow> jar \<Rightarrow> jar" where
  "setTransactionCookie c secret now tx j = j\<lparr>jar_tx := Some (sealJson c (tx_fields tx) secret TX_TTL_MS now)\<rparr>"

definition takeTransactionCookie :: "cookie_codec \<Rightarrow> string \<Rightarrow> int \<Rightarrow> jar \<Rightarrow> auth_tx option \<times> jar" where
  "takeTransactionCookie c secret now j =
     ((case jar_tx j of None \<Rightarrow> None | Some raw \<Rightarrow> parseTransaction (openJson c raw secret now)), j\<lparr>jar_tx := None\<rparr>)"

definition setSessionCookie :: "cookie_codec \<Rightarrow> string \<Rightarrow> int \<Rightarrow> actor \<Rightarrow> jar \<Rightarrow> jar" where
  "setSessionCookie c secret now a j =
     j\<lparr>jar_session := Some (signSession c (ac_id a) (ac_orgId a) (ac_role a) secret OPERATOR_SESSION_TTL_MS now)\<rparr>"

definition clearSessionCookie :: "jar \<Rightarrow> jar" where
  "clearSessionCookie j = j\<lparr>jar_session := None\<rparr>"

definition getCurrentActor :: "cookie_codec \<Rightarrow> string \<Rightarrow> int \<Rightarrow> db \<Rightarrow> jar \<Rightarrow> actor option" where
  "getCurrentActor c secret now d j =
     (case jar_session j of
        None \<Rightarrow> None
      | Some token \<Rightarrow>
          (case verifySession c token secret now of
             None \<Rightarrow> None
           | Some p \<Rightarrow> loadActiveActor d (se_uid p) ''session''))"

datatype redirect = ToProvider "(string \<times> string) list" | ToSignInError string | ToHome

text \<open>\<open>GET /login\<close>: \<open>discovered\<close> is what the metadata request gives.\<close>

definition login_route :: "cookie_codec \<Rightarrow> (string \<Rightarrow> string) \<Rightarrow> (string option \<times> (oidc_error + oidc_config)) \<Rightarrow> (oidc_error + oidc_metadata) \<Rightarrow>
    string \<times> string \<times> string \<Rightarrow> int \<Rightarrow> string option \<Rightarrow> jar \<Rightarrow> redirect \<times> jar" where
  "login_route c sha256 settings discovered random now hint j =
     (case settings of
        (Some secret, Inr cfg) \<Rightarrow>
          (let tx = newTransaction random in
           case discovered of
             Inl e \<Rightarrow> (ToSignInError ''unavailable'', j)
           | Inr m \<Rightarrow> (ToProvider (authorizationQuery sha256 cfg tx hint), setTransactionCookie c secret now tx j))
      | _ \<Rightarrow> (ToSignInError ''misconfigured'', j))"

fun failure_str :: "sign_in_failure \<Rightarrow> string" where
  "failure_str AccessDenied = ''access_denied''"
| "failure_str ProviderError = ''provider_error''"
| "failure_str StateMismatch = ''state_mismatch''"
| "failure_str WrongIssuer = ''issuer_mismatch''"
| "failure_str MissingCode = ''missing_code''"
| "failure_str ExchangeFailed = ''token_exchange_failed''"
| "failure_str AccountUnavailable = ''account_unavailable''"
| "failure_str Misconfigured = ''misconfigured''"

text \<open>\<open>GET /auth/callback\<close>\<close>

definition callback_route :: "cookie_codec \<Rightarrow> (string option \<times> (oidc_error + oidc_config)) \<Rightarrow> (oidc_error + oidc_metadata) \<Rightarrow> provider \<Rightarrow> (string \<times> string) list \<Rightarrow>
    int \<Rightarrow> db \<Rightarrow> jar \<Rightarrow> redirect \<times> jar" where
  "callback_route c settings discovered pv params now d j =
     (case settings of
        (Some secret, Inr cfg) \<Rightarrow>
          (let (tx, j1) = takeTransactionCookie c secret now j in
           case fst (completeSignIn params tx (oc_issuer cfg) (exchangeCode pv discovered cfg) (\<lambda>s. loadActiveActor d s ''session'')) of
             SignInRefused f \<Rightarrow> (ToSignInError (failure_str f), j1)
           | SignedIn a \<Rightarrow> (ToHome, setSessionCookie c secret now a j1))
      | _ \<Rightarrow> (ToSignInError (failure_str Misconfigured), j))"

section \<open>Lemmas\<close>

lemma to_b64u_sextets: "to_b64u s = map Sealed.b64_char (sextets (map of_char s))"
  by (induction s rule: to_b64u.induct) simp_all

lemma b64_value_url: "i < 64 \<Longrightarrow> b64_value (Sealed.b64_char i) = Some i \<and> Sealed.b64_char i \<noteq> CHR ''='' \<and> Sealed.b64_char i \<noteq> CHR ''.''"
  by (auto simp: b64_value_def Sealed.b64_char_def Let_def is_upper_def is_lower_def is_digit_def less_eq_char_def
      char_of_eq_iff take_bit_eq_mod)

lemma url_chars:
  "\<forall>x \<in> set xs. x < 64 \<Longrightarrow> takeWhile (\<lambda>c. c \<noteq> CHR ''='') (map Sealed.b64_char xs) = map Sealed.b64_char xs \<and>
     List.map_filter b64_value (map Sealed.b64_char xs) = xs \<and> CHR ''.'' \<notin> set (map Sealed.b64_char xs)"
  using b64_value_url by (induction xs) (simp_all, metis)

lemma b64u_sextets_less: "\<forall>y \<in> set (sextets (map of_char s)). y < 64"
  using sextets_less [of "map of_char s"] by auto

lemma from_base64_to_b64u [simp]: "from_base64 (to_b64u s) = s"
proof -
  have bytes: "\<forall>x \<in> set (map of_char s :: nat list). x < 256" by auto
  from url_chars [OF b64u_sextets_less [of s]]
  have tw: "takeWhile (\<lambda>c. c \<noteq> CHR ''='') (to_b64u s) = to_b64u s" "List.map_filter b64_value (to_b64u s) = sextets (map of_char s)"
    unfolding to_b64u_sextets by blast+
  show ?thesis unfolding from_base64_def tw octets_sextets [OF bytes] by (simp add: comp_def)
qed

lemma dot_not_b64u: "CHR ''.'' \<notin> set (to_b64u s)"
  using url_chars [OF b64u_sextets_less [of s]] by (simp add: to_b64u_sextets)

lemma takeWhile_no_dot: "takeWhile (\<lambda>x. x \<noteq> CHR ''.'') (to_b64u s @ CHR ''.'' # r) = to_b64u s"
  using dot_not_b64u [of s] by (auto simp: takeWhile_append)

lemma to_b64u_nonempty: "s \<noteq> [] \<Longrightarrow> to_b64u s \<noteq> []"
  by (cases s rule: to_b64u.cases) auto

text \<open>The codec on one object: \<open>JSON.stringify\<close> gives a text that \<open>JSON.parse\<close> reads back.\<close>

definition codec_ok :: "cookie_codec \<Rightarrow> (string \<times> js) list \<Rightarrow> bool" where
  "codec_ok c kvs = (cc_print c (Obj kvs) \<noteq> [] \<and> cc_parse c (cc_print c (Obj kvs)) = Some (Obj kvs))"

lemma map_of_with_exp [simp]: "map_of (with_exp p t) = (map_of p)(''exp'' \<mapsto> NumI t)"
  by (simp add: with_exp_def)

lemma open_sealJson:
  assumes "codec_ok c (with_exp p (now + ttl))"
  shows "openJson c (sealJson c p secret ttl now) secret now' = (if now' < now + ttl then Some (with_exp p (now + ttl)) else None)"
proof -
  let ?b = "to_b64u (cc_print c (Obj (with_exp p (now + ttl))))"
  have "takeWhile (\<lambda>x. x \<noteq> CHR ''.'') (sealJson c p secret ttl now) = ?b"
    unfolding sealJson_def Let_def by (simp add: takeWhile_no_dot)
  moreover have "length ?b \<noteq> length (sealJson c p secret ttl now)" "drop (Suc (length ?b)) (sealJson c p secret ttl now) = sign_body c ?b secret"
    by (simp_all add: sealJson_def Let_def)
  moreover have "?b \<noteq> []" and "cc_parse c (from_base64 ?b) = Some (Obj (with_exp p (now + ttl)))"
    using assms to_b64u_nonempty by (simp_all add: codec_ok_def)
  moreover have "drop (Suc (length ?b)) (sealJson c p secret ttl now) = sign_body c ?b secret" by (simp add: sealJson_def Let_def)
  ultimately show ?thesis
    unfolding openJson_def Let_def by (simp del: of_int_add)
qed

lemma verify_signSession:
  assumes "codec_ok c (with_exp (session_fields uid oid r) (now + ttl))"
  shows "verifySession c (signSession c uid oid r secret ttl now) secret now' =
    (if now' < now + ttl then Some \<lparr>se_uid = uid, se_oid = oid, se_role = r, se_exp = Fin (of_int (now + ttl))\<rparr> else None)"
  using open_sealJson [OF assms, of secret now'] by (simp add: verifySession_def signSession_def isRole_def session_fields_def del: of_int_add)

lemma parse_tx_fields: "tx_state tx \<noteq> [] \<Longrightarrow> tx_nonce tx \<noteq> [] \<Longrightarrow> tx_codeVerifier tx \<noteq> [] \<Longrightarrow>
    parseTransaction (Some (with_exp (tx_fields tx) t)) = Some tx"
  by (simp add: parseTransaction_def tx_fields_def usable_str_def)

lemma completeSignIn_SignedIn:
  assumes "completeSignIn params tx issuer exchange loadActor = (SignedIn a, n)"
  obtains t code sub where "tx = Some t" and "map_of params ''state'' = Some (tx_state t)" and "map_of params ''iss'' = Some issuer"
    and "map_of params ''code'' = Some code" and "exchange code t = Inr sub" and "loadActor sub = Some a"
  using assms by (auto simp: completeSignIn_def split: option.split_asm list.split_asm if_split_asm sum.split_asm)

lemma exchangeCode_Inr:
  assumes "exchangeCode pv discovered cfg code tx = Inr sub"
  obtains json t payload where "pv_token pv (tokenRequestBody cfg code tx) = (True, json)" and "getp json ''id_token'' = Str t"
    and "pv_verify pv t = Some payload" and "getp payload ''nonce'' = Str (tx_nonce tx)" and "getp payload ''sub'' = Str sub" and "sub \<noteq> []"
  using assms by (auto simp: exchangeCode_def usable_str_def split: sum.split_asm prod.split_asm js.split_asm bool.split_asm option.split_asm if_split_asm)

lemma callback_home:
  assumes "callback_route c (Some secret, Inr cfg) discovered pv params now d j = (ToHome, j')"
  obtains a n where "completeSignIn params (fst (takeTransactionCookie c secret now j)) (oc_issuer cfg) (exchangeCode pv discovered cfg)
      (\<lambda>s. loadActiveActor d s ''session'') = (SignedIn a, n)" and "j' = setSessionCookie c secret now a (j\<lparr>jar_tx := None\<rparr>)"
  using assms by (cases "completeSignIn params (fst (takeTransactionCookie c secret now j)) (oc_issuer cfg) (exchangeCode pv discovered cfg)
      (\<lambda>s. loadActiveActor d s ''session'')")
    (auto simp: callback_route_def Let_def takeTransactionCookie_def split: sign_in_result.split_asm)

text \<open>A cookie of one kind opens as nothing of the other, though one secret seals both.\<close>

lemma cookies_not_interchangeable:
  "codec_ok c (with_exp (tx_fields tx) (now + ttl)) \<Longrightarrow> verifySession c (sealJson c (tx_fields tx) secret ttl now) secret now' = None"
  "codec_ok c (with_exp (session_fields uid oid r) (now + ttl)) \<Longrightarrow>
     parseTransaction (openJson c (signSession c uid oid r secret ttl now) secret now') = None"
  by (simp_all add: verifySession_def open_sealJson tx_fields_def signSession_def parseTransaction_def session_fields_def usable_str_def)

section \<open>Properties\<close>

text \<open>
  C36. A signed-in browser is its user, no more and no longer: for twelve hours after the callback the
  cookie stands for whatever the user's row says at each request (a deactivated or deleted user is nobody
  at once, a changed role applies at once), and from then on for nobody.
\<close>

theorem session_follows_user:
  assumes "codec_ok c (with_exp (session_fields (ac_id a) (ac_orgId a) (ac_role a)) (now + OPERATOR_SESSION_TTL_MS))"
  shows "getCurrentActor c secret now' d (setSessionCookie c secret now a j) =
    (if now' < now + OPERATOR_SESSION_TTL_MS then loadActiveActor d (ac_id a) ''session'' else None)"
  using verify_signSession [OF assms, of secret now'] by (simp add: getCurrentActor_def setSessionCookie_def)

definition demo_codec :: cookie_codec where
  "demo_codec = \<lparr>cc_hmac = (\<lambda>k b. k @ b),
     cc_print = (\<lambda>v. if getp v ''uid'' = Undef then ''t'' else ''s''),
     cc_parse = (\<lambda>s. if s = ''t'' then Some (Obj (with_exp (tx_fields (newTransaction (''a'', ''b'', ''c''))) TX_TTL_MS))
       else Some (Obj (with_exp (session_fields ''u'' ''o'' Admin) OPERATOR_SESSION_TTL_MS)))\<rparr>"

theorem session_follows_user_witness:
  "getCurrentActor demo_codec ''k'' 43199999 empty_db (setSessionCookie demo_codec ''k'' 0 demo_actor \<lparr>jar_session = None, jar_tx = None\<rparr>) =
     loadActiveActor empty_db ''u'' ''session''"
  by (subst session_follows_user) (simp_all add: codec_ok_def demo_codec_def demo_actor_def session_fields_def with_exp_def OPERATOR_SESSION_TTL_MS_def)

text \<open>
  C35. A callback signs in only the browser that began: after a login that sent the browser to the
  provider, a callback that reaches the console within ten minutes carries the state and the issuer
  of that login, redeems its code with the verifier whose challenge the login sent, and gets an ID token
  with the login's nonce whose subject is an active user; and the attempt is spent, so no later callback of that
  browser signs in without a new login.
\<close>

theorem callback_bound_to_login:
  assumes "login_route c sha256 (Some secret, Inr cfg) (Inr m) random t0 hint j0 = (ToProvider q, j)"
    and "fst random \<noteq> []" and "fst (snd random) \<noteq> []" and "snd (snd random) \<noteq> []"
    and "codec_ok c (with_exp (tx_fields (newTransaction random)) (t0 + TX_TTL_MS))"
    and "callback_route c (Some secret, Inr cfg) discovered pv params now d j = (ToHome, j')"
  shows "now < t0 + TX_TTL_MS \<and> map_of params ''state'' = map_of q ''state'' \<and> map_of params ''iss'' = Some (oc_issuer cfg) \<and>
    (\<exists>code tx json t payload sub a. map_of params ''code'' = Some code \<and> pv_token pv (tokenRequestBody cfg code tx) = (True, json) \<and>
       map_of q ''code_challenge'' = Some (codeChallenge sha256 (tx_codeVerifier tx)) \<and> getp json ''id_token'' = Str t \<and>
       pv_verify pv t = Some payload \<and> map_option Str (map_of q ''nonce'') = Some (getp payload ''nonce'') \<and> getp payload ''sub'' = Str sub \<and>
       loadActiveActor d sub ''session'' = Some a) \<and>
    fst (callback_route c (Some secret, Inr cfg) discovered' pv' params' now' d' j') \<noteq> ToHome"
proof -
  let ?tx = "newTransaction random"
  have q: "q = authorizationQuery sha256 cfg ?tx hint" and j: "j = setTransactionCookie c secret t0 ?tx j0"
    using assms(1) by (simp_all add: login_route_def Let_def)
  have parts: "tx_state ?tx \<noteq> []" "tx_nonce ?tx \<noteq> []" "tx_codeVerifier ?tx \<noteq> []"
    using assms(2-4) to_b64u_nonempty by (cases random; simp add: newTransaction_def)+
  have open1: "fst (takeTransactionCookie c secret now j) = (if now < t0 + TX_TTL_MS then Some ?tx else None)"
    by (simp add: j takeTransactionCookie_def setTransactionCookie_def open_sealJson [OF assms(5)] parse_tx_fields [OF parts])
      (simp add: parseTransaction_def)
  from callback_home [OF assms(6)] obtain a n where r: "completeSignIn params (fst (takeTransactionCookie c secret now j)) (oc_issuer cfg)
      (exchangeCode pv discovered cfg) (\<lambda>s. loadActiveActor d s ''session'') = (SignedIn a, n)"
    and j': "j' = setSessionCookie c secret now a (j\<lparr>jar_tx := None\<rparr>)" by blast
  from completeSignIn_SignedIn [OF r] obtain t code sub where s: "fst (takeTransactionCookie c secret now j) = Some t"
    "map_of params ''state'' = Some (tx_state t)" "map_of params ''iss'' = Some (oc_issuer cfg)" "map_of params ''code'' = Some code"
    "exchangeCode pv discovered cfg code t = Inr sub" "loadActiveActor d sub ''session'' = Some a" by metis
  from s(1) open1 have t: "t = ?tx" "now < t0 + TX_TTL_MS" by (auto split: if_split_asm)
  from exchangeCode_Inr [OF s(5)] obtain json idt payload where e: "pv_token pv (tokenRequestBody cfg code t) = (True, json)"
    "getp json ''id_token'' = Str idt" "pv_verify pv idt = Some payload" "getp payload ''nonce'' = Str (tx_nonce t)" "getp payload ''sub'' = Str sub" by metis
  have "fst (takeTransactionCookie c secret now' j') = None" by (simp add: j' setSessionCookie_def takeTransactionCookie_def)
  then have "fst (callback_route c (Some secret, Inr cfg) discovered' pv' params' now' d' j') \<noteq> ToHome"
    using callback_home [of c secret cfg discovered' pv' params' now' d' j'] completeSignIn_SignedIn
    by (metis option.distinct(1) prod.collapse)
  moreover have "map_of q ''state'' = Some (tx_state ?tx)" "map_of q ''nonce'' = Some (tx_nonce ?tx)"
    "map_of q ''code_challenge'' = Some (codeChallenge sha256 (tx_codeVerifier ?tx))"
    by (simp_all add: q authorizationQuery_def)
  ultimately show ?thesis using s e t(2) unfolding t(1)
    by (intro conjI exI [of _ code] exI [of _ ?tx] exI [of _ json] exI [of _ idt] exI [of _ payload] exI [of _ sub] exI [of _ a]) simp_all
qed

definition demo_provider :: provider where
  "demo_provider = \<lparr>pv_token = (\<lambda>b. (True, Obj [(''id_token'', Str ''j'')])),
     pv_verify = (\<lambda>t. Some (Obj [(''nonce'', Str (to_b64u ''b'')), (''sub'', Str ''00000000-0000-4000-8000-000000000001'')]))\<rparr>"

definition demo_oidc :: oidc_config where
  "demo_oidc = \<lparr>oc_issuer = ''https://i'', oc_internalUrl = ''https://i'', oc_consoleUrl = ''https://c'', oc_clientSecret = ''0123456789abcdef''\<rparr>"

definition demo_signin_db :: db where
  "demo_signin_db = empty_db\<lparr>users := [\<lparr>u_id = ''00000000-0000-4000-8000-000000000001'', u_orgId = ''o'', u_email = ''e'',
     u_passwordHash = ''h'', u_role = Admin, u_status = ActiveUser, u_createdAt = 0\<rparr>]\<rparr>"

theorem callback_bound_to_login_witness:
  "\<exists>q j j'. login_route demo_codec id (Some ''k'', Inr demo_oidc) (Inr \<lparr>om_authorization = '''', om_token = '''', om_jwks = '''', om_endSession = ''''\<rparr>)
       (''a'', ''b'', ''c'') 0 None \<lparr>jar_session = None, jar_tx = None\<rparr> = (ToProvider q, j) \<and>
     callback_route demo_codec (Some ''k'', Inr demo_oidc) (Inr \<lparr>om_authorization = '''', om_token = '''', om_jwks = '''', om_endSession = ''''\<rparr>) demo_provider
       [(''state'', to_b64u ''a''), (''iss'', ''https://i''), (''code'', ''x'')] 5 demo_signin_db j = (ToHome, j') \<and> map_of q ''state'' = Some (to_b64u ''a'')"
proof -
  let ?m = "Inr \<lparr>om_authorization = '''', om_token = '''', om_jwks = '''', om_endSession = ''''\<rparr>"
  let ?l = "login_route demo_codec id (Some ''k'', Inr demo_oidc) ?m (''a'', ''b'', ''c'') 0 None \<lparr>jar_session = None, jar_tx = None\<rparr>"
  let ?ps = "[(''state'', to_b64u ''a''), (''iss'', ''https://i''), (''code'', ''x'')]"
  let ?cb = "\<lambda>j. callback_route demo_codec (Some ''k'', Inr demo_oidc) ?m demo_provider ?ps 5 demo_signin_db j"
  have "case ?l of (ToProvider q, j) \<Rightarrow> fst (?cb j) = ToHome | _ \<Rightarrow> False" by code_simp
  then obtain q j j' where r: "?l = (ToProvider q, j)" "?cb j = (ToHome, j')"
    by (auto split: prod.split_asm redirect.split_asm) (metis prod.collapse)
  have "codec_ok demo_codec (with_exp (tx_fields (newTransaction (''a'', ''b'', ''c''))) (0 + TX_TTL_MS))" by code_simp
  from callback_bound_to_login [OF r(1) _ _ _ this r(2)] have "map_of q ''state'' = Some (to_b64u ''a'')" by auto
  with r show ?thesis by blast
qed

end
