(* ===== verification/Usage.thy ===== *)
theory Usage
  imports Paging Period ConfigStore
begin

text \<open>
  The usage reports and the audit log's readers (apps/control-plane/src/lib/usage-range.ts,
  server/usage-query.ts, server/usage-service.ts, server/audit-service.ts). SQL groups come in the
  order of their first row where the statement does not order them; \<open>localeCompare\<close> is an argument.
\<close>

section \<open>Hour buckets (usage-range.ts)\<close>

definition num_of :: "string \<Rightarrow> nat" where
  "num_of s = foldl (\<lambda>n c. 10 * n + (of_char c - 48)) 0 s"

text \<open>\<open>Date.UTC(y, m, d, h)\<close> of whole numbers, with the month from 0: a year below 100 counts from
  1900, a month past December carries into the year.\<close>

definition date_utc :: "int \<Rightarrow> int \<Rightarrow> int \<Rightarrow> int \<Rightarrow> int" where
  "date_utc y m d h =
     (let full = (if 0 \<le> y \<and> y \<le> 99 then 1900 + y else y); ym = full + m div 12;
          day = day_from_year ym + sum_list (take (nat (m mod 12)) (month_lengths (leap ym))) + d - 1 in
      day * 86400000 + h * 3600000)"

definition bucket_fields :: "string \<Rightarrow> (nat \<times> nat \<times> nat \<times> nat) option" where
  "bucket_fields v =
     (case v of
        [a, b, c, d, x, e, f, y, g, h, t, i, j] \<Rightarrow>
          if list_all is_digit [a, b, c, d, e, f, g, h, i, j] \<and> x = CHR ''-'' \<and> y = CHR ''-'' \<and> t = CHR ''T''
          then Some (num_of [a, b, c, d], num_of [e, f], num_of [g, h], num_of [i, j]) else None
      | _ \<Rightarrow> None)"

definition isBucket :: "string \<Rightarrow> bool" where
  "isBucket v =
     (case bucket_fields v of
        None \<Rightarrow> False
      | Some (y, mo, da, h) \<Rightarrow> periodBucket (date_utc (int y) (int mo - 1) (int da) (int h)) = v)"

datatype usage_range = Range24h | Range7d | Range30d

definition isUsageRange :: "string \<Rightarrow> usage_range option" where
  "isUsageRange v = map_of [(''24h'', Range24h), (''7d'', Range7d), (''30d'', Range30d)] v"

fun range_days :: "usage_range \<Rightarrow> nat" where
  "range_days Range24h = 1"
| "range_days Range7d = 7"
| "range_days Range30d = 30"

definition DAY_MS :: int where
  "DAY_MS = 24 * 60 * 60 * 1000"

definition dayPrefix :: "int \<Rightarrow> string" where
  "dayPrefix atMs = slice (periodBucket atMs) 0 10"

record resolved_range =
  rr_startBucket :: string
  rr_endBucket :: string
  rr_days :: "string list"

definition resolveRange :: "usage_range \<Rightarrow> int \<Rightarrow> resolved_range" where
  "resolveRange win nowMs =
     (let days = map (\<lambda>i. dayPrefix (nowMs - int i * DAY_MS)) (rev [0 ..< range_days win]) in
      \<lparr>rr_startBucket = hd days @ ''T00'', rr_endBucket = periodBucket nowMs, rr_days = days\<rparr>)"

section \<open>Queries (usage-query.ts)\<close>

record usage_query =
  uq_start :: string
  uq_end :: string
  uq_keyId :: "string option"
  uq_paddockId :: "string option"

definition bucket_param :: "(string \<times> string) list \<Rightarrow> string \<Rightarrow> string option" where
  "bucket_param q k = (case map_of q k of Some v \<Rightarrow> if isBucket v then Some v else None | None \<Rightarrow> None)"

definition uuid_param :: "(string \<times> string) list \<Rightarrow> string \<Rightarrow> string option option" where
  "uuid_param q k = (case map_of q k of None \<Rightarrow> Some None | Some v \<Rightarrow> if is_uuid v then Some (Some v) else None)"

definition dim_param :: "(string \<times> string) list \<Rightarrow> meter_dim option" where
  "dim_param q = Option.bind (map_of q ''dim'') dim_of"

definition matrixQuery :: "(string \<times> string) list \<Rightarrow> usage_query option" where
  "matrixQuery q =
     (case (bucket_param q ''startBucket'', bucket_param q ''endBucket'', uuid_param q ''keyId'', uuid_param q ''paddockId'') of
        (Some s, Some e, Some k, Some p) \<Rightarrow> if s \<le> e then Some \<lparr>uq_start = s, uq_end = e, uq_keyId = k, uq_paddockId = p\<rparr> else None
      | _ \<Rightarrow> None)"

definition dailyQuery :: "(string \<times> string) list \<Rightarrow> (usage_query \<times> meter_dim) option" where
  "dailyQuery q = (case (matrixQuery q, dim_param q) of (Some u, Some d) \<Rightarrow> Some (u, d) | _ \<Rightarrow> None)"

definition topKeysQuery :: "(string \<times> string) list \<Rightarrow> (usage_query \<times> meter_dim \<times> nat) option" where
  "topKeysQuery q =
     (case (bucket_param q ''startBucket'', bucket_param q ''endBucket'', dim_param q,
        (case map_of q ''limit'' of None \<Rightarrow> Some 10 | Some raw \<Rightarrow> int_param 100 raw)) of
        (Some s, Some e, Some d, Some n) \<Rightarrow>
          if s \<le> e then Some (\<lparr>uq_start = s, uq_end = e, uq_keyId = None, uq_paddockId = None\<rparr>, d, n) else None
      | _ \<Rightarrow> None)"

section \<open>Reports (usage-service.ts)\<close>

text \<open>The rows a report reads.\<close>

definition in_report :: "actor \<Rightarrow> usage_query \<Rightarrow> usage_row \<Rightarrow> bool" where
  "in_report a u r =
     (r_orgId r = ac_orgId a \<and> uq_start u \<le> r_period r \<and> r_period r \<le> uq_end u \<and>
      (case uq_keyId u of None \<Rightarrow> True | Some k \<Rightarrow> k = [] \<or> r_keyId r = uuid_lit k) \<and>
      (case uq_paddockId u of None \<Rightarrow> True | Some p \<Rightarrow> p = [] \<or> r_paddockId r = uuid_lit p))"

text \<open>\<open>select g, sum(v) .. group by g\<close>\<close>

definition group_sum :: "('a \<Rightarrow> 'g) \<Rightarrow> ('a \<Rightarrow> int) \<Rightarrow> 'a list \<Rightarrow> ('g \<times> int) list" where
  "group_sum g v xs = map (\<lambda>k. (k, sum_list (map v (filter (\<lambda>x. g x = k) xs)))) (uniq (map g xs))"

record matrix_row =
  mx_keyId :: string
  mx_keyName :: string
  mx_keyPrefix :: string
  mx_paddockId :: string
  mx_paddockSlug :: string
  mx_dims :: "(meter_dim \<times> int) list"

definition zeroDims :: "(meter_dim \<times> int) list" where
  "zeroDims = map (\<lambda>d. (d, 0)) METER_DIMS"

definition usage_join :: "db \<Rightarrow> usage_row list \<Rightarrow> (usage_row \<times> key_row \<times> paddock_row) list" where
  "usage_join d rows =
     [(r, k, p). r \<leftarrow> rows, k \<leftarrow> sel (\<lambda>k. k_id k = r_keyId r) (keys d), p \<leftarrow> sel (\<lambda>p. p_id p = r_paddockId r) (paddocks d)]"

type_synonym matrix_group = "string \<times> string \<times> string \<times> string \<times> string \<times> string"

definition matrix_group_of :: "usage_row \<times> key_row \<times> paddock_row \<Rightarrow> matrix_group" where
  "matrix_group_of x = (case x of (r, k, p) \<Rightarrow> (r_keyId r, k_name k, k_prefix k, r_paddockId r, p_slug p, r_dim r))"

definition pair_key :: "matrix_group \<Rightarrow> string" where
  "pair_key g = (case g of (ki, kn, kp, pa, sl, dm) \<Rightarrow> ki @ ''|'' @ pa)"

definition pivot_row :: "matrix_group \<times> int \<Rightarrow> (string \<times> matrix_row) list \<Rightarrow> (string \<times> matrix_row) list" where
  "pivot_row x m =
     (case x of ((ki, kn, kp, pa, sl, dm), v) \<Rightarrow>
        (let k = pair_key (fst x);
             row = (case map_of m k of Some row \<Rightarrow> row
               | None \<Rightarrow> \<lparr>mx_keyId = ki, mx_keyName = kn, mx_keyPrefix = kp, mx_paddockId = pa, mx_paddockSlug = sl, mx_dims = zeroDims\<rparr>) in
         assoc_set m k (case dim_of dm of None \<Rightarrow> row | Some dd \<Rightarrow> row\<lparr>mx_dims := assoc_set (mx_dims row) dd v\<rparr>)))"

text \<open>\<open>sort\<close> with a comparator: stable.\<close>

fun insert_by :: "('a \<Rightarrow> 'a \<Rightarrow> int) \<Rightarrow> 'a \<Rightarrow> 'a list \<Rightarrow> 'a list" where
  "insert_by cmp x [] = [x]"
| "insert_by cmp x (y # ys) = (if cmp x y \<le> 0 then x # y # ys else y # insert_by cmp x ys)"

definition sort_by :: "('a \<Rightarrow> 'a \<Rightarrow> int) \<Rightarrow> 'a list \<Rightarrow> 'a list" where
  "sort_by cmp xs = foldr (insert_by cmp) xs []"

definition matrix_cmp :: "(string \<Rightarrow> string \<Rightarrow> int) \<Rightarrow> matrix_row \<Rightarrow> matrix_row \<Rightarrow> int" where
  "matrix_cmp localeCompare x y =
     (let c = localeCompare (mx_keyName x) (mx_keyName y) in
      if c \<noteq> 0 then c else localeCompare (mx_paddockSlug x) (mx_paddockSlug y))"

definition usageMatrix :: "(string \<Rightarrow> string \<Rightarrow> int) \<Rightarrow> db \<Rightarrow> actor \<Rightarrow> usage_query \<Rightarrow> svc_error + matrix_row list" where
  "usageMatrix localeCompare d a u =
     guarded a CapRead
       (let groups = group_sum matrix_group_of (r_value \<circ> fst) (usage_join d (sel (in_report a u) (usage d))) in
        Inr (sort_by (matrix_cmp localeCompare) (map snd (fold pivot_row groups []))))"

definition dailySeries :: "db \<Rightarrow> actor \<Rightarrow> usage_query \<Rightarrow> meter_dim \<Rightarrow> svc_error + (string \<times> int) list" where
  "dailySeries d a u dm =
     guarded a CapRead
       (Inr (sort_key fst (group_sum (\<lambda>r. take 10 (r_period r)) r_value
          (sel (\<lambda>r. in_report a u r \<and> r_dim r = dim_str dm) (usage d)))))"

definition topKeys :: "db \<Rightarrow> actor \<Rightarrow> usage_query \<Rightarrow> meter_dim \<Rightarrow> nat \<Rightarrow> svc_error + ((string \<times> string \<times> string) \<times> int) list" where
  "topKeys d a u dm n =
     guarded a CapRead
       (Inr (take n (sort_key (\<lambda>x. - snd x) (group_sum (\<lambda>(r, k). (r_keyId r, k_name k, k_prefix k)) (r_value \<circ> fst)
          [(r, k). r \<leftarrow> sel (\<lambda>r. in_report a u r \<and> r_dim r = dim_str dm) (usage d), k \<leftarrow> sel (\<lambda>k. k_id k = r_keyId r) (keys d)]))))"

definition sumDimSince :: "db \<Rightarrow> actor \<Rightarrow> meter_dim \<Rightarrow> string \<Rightarrow> svc_error + int" where
  "sumDimSince d a dm since =
     guarded a CapRead
       (Inr (sum_list (map r_value (sel (\<lambda>r. r_orgId r = ac_orgId a \<and> r_dim r = dim_str dm \<and> since \<le> r_period r) (usage d)))))"

section \<open>The audit log's readers (audit-service.ts)\<close>

text \<open>The rows are in the order they were written, newest last.\<close>

definition listAudit :: "db \<Rightarrow> actor \<Rightarrow> string option \<Rightarrow> string option \<Rightarrow> nat \<Rightarrow> svc_error + audit_row list" where
  "listAudit d a act who n =
     guarded a CapRead
       (Inr (take n (rev (sel (\<lambda>r. a_orgId r = ac_orgId a \<and> (case act of None \<Rightarrow> True | Some x \<Rightarrow> x = [] \<or> a_action r = x) \<and>
          (case who of None \<Rightarrow> True | Some x \<Rightarrow> x = [] \<or> a_actor r = x)) (audit d)))))"

definition auditFilterOptions :: "db \<Rightarrow> actor \<Rightarrow> svc_error + string list \<times> string list" where
  "auditFilterOptions d a =
     guarded a CapRead
       (let rows = sel (\<lambda>r. a_orgId r = ac_orgId a) (audit d) in
        Inr (sort (uniq (map a_action rows)), sort (uniq (map a_actor rows))))"

section \<open>Digits and dates in order\<close>

lemma digit_chars: "i < 10 \<Longrightarrow> is_digit (digit i) \<and> of_char (digit i) = 48 + i"
  by (simp add: digit_def is_digit_def less_eq_char_def)

lemma num_of_snoc: "num_of (s @ [c]) = 10 * num_of s + (of_char c - 48)"
  by (simp add: num_of_def)

lemma foldl_digits: "foldl (\<lambda>n c. 10 * n + (of_char c - 48)) k s = k * 10 ^ length s + num_of s"
proof (induction s rule: rev_induct)
  case (snoc c s)
  then show ?case by (simp add: num_of_snoc)
qed (simp add: num_of_def)

lemma num_of_Cons: "num_of (c # s) = (of_char c - 48) * 10 ^ length s + num_of s"
  using foldl_digits [of "of_char c - 48" s] by (simp add: num_of_def)

lemma num_of_dec: "num_of (dec n) = n"
proof (induction n rule: dec.induct)
  case (1 n)
  show ?case
  proof (cases "n < 10")
    case True
    then show ?thesis using digit_chars [of n] by (simp add: dec_small num_of_Cons) (simp add: num_of_def)
  next
    case False
    with 1 have "num_of (dec (n div 10)) = n div 10" by blast
    with False show ?thesis using digit_chars [of "n mod 10"] by (simp add: dec_big num_of_snoc)
  qed
qed

lemma num_of_pad2: "num_of (pad2 n) = n"
  by (simp add: pad2_def num_of_dec num_of_Cons)

lemma dec_all_digits: "list_all is_digit (dec n)"
  using dec_digits digit_chars by (fastforce simp: list_all_iff)

lemma pad2_all_digits: "list_all is_digit (pad2 n)"
  using dec_all_digits [of n] digit_chars [of 0] by (simp add: pad2_def digit_0)

lemma num_of_less: "list_all is_digit s \<Longrightarrow> num_of s < 10 ^ length s"
proof (induction s)
  case (Cons c s)
  then have "of_char c - 48 \<le> (9 :: nat)" by (auto simp: is_digit_def less_eq_char_def)
  then have "(of_char c - 48) * 10 ^ length s \<le> 9 * (10 :: nat) ^ length s" by (rule mult_right_mono) simp
  moreover have "num_of s < 10 ^ length s" using Cons by simp
  ultimately have "(of_char c - 48) * 10 ^ length s + num_of s < 10 * 10 ^ length s" by linarith
  then show ?case by (simp add: num_of_Cons)
qed (simp add: num_of_def)

lemma digits_order:
  "length s = length t \<Longrightarrow> list_all is_digit s \<Longrightarrow> list_all is_digit t \<Longrightarrow> s < t \<longleftrightarrow> num_of s < num_of t"
proof (induction s t rule: list_induct2)
  case (Cons c s d t)
  let ?c = "of_char c - 48 :: nat" and ?d = "of_char d - 48 :: nat" and ?w = "10 ^ length t :: nat"
  have "48 \<le> (of_char c :: nat)" "48 \<le> (of_char d :: nat)" using Cons.prems by (simp_all add: is_digit_def less_eq_char_def)
  moreover have "c < d \<longleftrightarrow> (of_char c :: nat) < of_char d" "c = d \<longleftrightarrow> (of_char c :: nat) = of_char d" by (simp_all add: less_char_def)
  ultimately have cd: "c < d \<longleftrightarrow> ?c < ?d" "c = d \<longleftrightarrow> ?c = ?d" by linarith+
  have b: "num_of s < ?w" "num_of t < ?w" using Cons.prems Cons.hyps num_of_less [of s] num_of_less [of t] by simp_all
  have up: "x * ?w + ?w \<le> y * ?w" if "x < y" for x y :: nat
    using that by (metis Suc_leI add.commute mult_Suc mult_le_mono1)
  show ?case
  proof (cases ?c ?d rule: linorder_cases)
    case less
    with b up [OF less] cd Cons.hyps show ?thesis by (simp add: num_of_Cons)
  next
    case equal
    then have "c = d" using cd by simp
    with Cons show ?thesis by (simp add: num_of_Cons)
  next
    case greater
    have "\<not> c < d \<and> c \<noteq> d" using cd greater by linarith
    moreover have "num_of (d # t) < num_of (c # s)" using b up [OF greater] Cons.hyps by (simp add: num_of_Cons)
    ultimately show ?thesis by simp
  qed
qed (simp add: num_of_def)

lemma append_less: "length a = length b \<Longrightarrow> a @ x < b @ y \<longleftrightarrow> a < b \<or> a = b \<and> x < (y :: 'a :: order list)"
  by (induction a b rule: list_induct2) auto

lemma month_day_length:
  "ls \<noteq> [] \<Longrightarrow> 0 \<le> d \<Longrightarrow> d < sum_list ls \<Longrightarrow> month_day m ls d = (mo, da) \<Longrightarrow> m \<le> mo \<and> int da \<le> ls ! (mo - m)"
proof (induction m ls d rule: month_day.induct)
  case (3 m l k ls d)
  show ?case
  proof (cases "d < l")
    case False
    with 3 have "Suc m \<le> mo \<and> int da \<le> (k # ls) ! (mo - Suc m)" by (intro "3.IH") auto
    moreover from this have "mo - m = Suc (mo - Suc m)" by linarith
    ultimately show ?thesis by simp
  qed (use 3 in auto)
qed auto

lemma utc_date_day:
  assumes "utc_date d = (y, mo, da)"
  shows "int da \<le> month_lengths (leap y) ! (mo - 1)"
proof -
  from assms have y: "y = year_of_day d" and md: "month_day 1 (month_lengths (leap y)) (d - day_from_year y) = (mo, da)"
    by (auto simp: utc_date_def Let_def)
  from year_of_day_correct [of d] y have "0 \<le> d - day_from_year y" "d - day_from_year y < sum_list (month_lengths (leap y))"
    by (auto simp: day_from_year_step month_lengths_sum)
  from month_day_length [OF _ this md] show ?thesis by (simp add: month_lengths_def)
qed

lemma months_before:
  assumes "mo < mo'" and "mo' \<le> 12" and "1 \<le> mo"
  shows "sum_list (take (mo - 1) (month_lengths lp)) + month_lengths lp ! (mo - 1) \<le> sum_list (take (mo' - 1) (month_lengths lp))"
proof -
  let ?l = "month_lengths lp"
  have len: "length ?l = 12" and pos: "\<forall>x \<in> set ?l. 0 \<le> x" by (simp_all add: month_lengths_def)
  define r where "r = take (mo' - 1 - mo) (drop mo ?l)"
  have "mo' - 1 = mo + (mo' - 1 - mo)" using assms(1) by simp
  then have r: "take (mo' - 1) ?l = take mo ?l @ r" unfolding r_def by (metis take_add)
  have "set r \<subseteq> set ?l" unfolding r_def by (meson set_drop_subset set_take_subset subset_trans)
  then have "0 \<le> sum_list r" using pos by (intro sum_list_nonneg) auto
  moreover have "take mo ?l = take (mo - 1) ?l @ [?l ! (mo - 1)]"
    using assms len take_Suc_conv_app_nth [of "mo - 1" ?l] by simp
  ultimately show ?thesis using r by simp
qed

lemma utc_date_mono:
  assumes d: "utc_date d = (y, mo, da)" and e: "utc_date e = (y', mo', da')" and "d < e"
  shows "y < y' \<or> y = y' \<and> (mo < mo' \<or> mo = mo' \<and> da < da')"
proof -
  note fd = utc_date_fields [OF d] and fe = utc_date_fields [OF e]
  have years: "year_of_day d = y" "year_of_day e = y'" using fd fe by blast+
  have "y \<le> y'"
  proof (rule ccontr)
    assume "\<not> y \<le> y'"
    then have "day_from_year (y' + 1) \<le> day_from_year y" using day_from_year_less [of "y' + 1" y] by (cases "y' + 1 = y") auto
    moreover have "day_from_year y \<le> d" "e < day_from_year (y' + 1)" using year_of_day_correct [of d] year_of_day_correct [of e] by (simp_all add: years)
    ultimately show False using assms(3) by linarith
  qed
  moreover have "mo < mo' \<or> mo = mo' \<and> da < da'" if eq: "y = y'"
  proof (rule ccontr)
    assume n: "\<not> ?thesis"
    have "e \<le> d"
    proof (cases "mo = mo'")
      case True
      with n have "int da' \<le> int da" by simp
      moreover have "sum_list (take (mo' - 1) (month_lengths (leap y'))) = sum_list (take (mo - 1) (month_lengths (leap y)))" using True eq by simp
      moreover have "day_from_year y = day_from_year y'" using eq by simp
      ultimately show ?thesis using fd fe by linarith
    next
      case False
      with n have "mo' < mo" by simp
      then have "sum_list (take (mo' - 1) (month_lengths (leap y'))) + month_lengths (leap y') ! (mo' - 1) \<le> sum_list (take (mo - 1) (month_lengths (leap y)))"
        using months_before [of mo' mo "leap y'"] fd fe eq by blast
      moreover have "day_from_year y = day_from_year y'" using eq by simp
      ultimately show ?thesis using fd fe utc_date_day [OF e] by linarith
    qed
    with assms(3) show False by simp
  qed
  ultimately show ?thesis by force
qed

section \<open>Buckets in order\<close>

lemma bucket_less_hours:
  assumes "four_digit_year s" and "four_digit_year t" and "s div 3600000 < t div 3600000"
  shows "periodBucket s < periodBucket t"
proof -
  obtain y mo da where s: "utc_date (day_of s) = (y, mo, da)" by (metis prod_cases3)
  obtain y' mo' da' where t: "utc_date (day_of t) = (y', mo', da')" by (metis prod_cases3)
  note bs = bucket_shape [OF assms(1) s] and bt = bucket_shape [OF assms(2) t]
  have y: "1000 \<le> y" "1000 \<le> y'" using assms(1,2) s t by (simp_all add: four_digit_year_def)
  have ord: "int_str y < int_str y' \<longleftrightarrow> y < y'" "pad2 mo < pad2 mo' \<longleftrightarrow> mo < mo'" "pad2 da < pad2 da' \<longleftrightarrow> da < da'"
    "pad2 (hours_of s) < pad2 (hours_of t) \<longleftrightarrow> hours_of s < hours_of t"
    using y bs bt by (simp_all add: digits_order pad2_all_digits num_of_pad2 int_str_def dec_all_digits num_of_dec nat_less_iff)
  have "day_of s < day_of t \<or> day_of s = day_of t \<and> hours_of s < hours_of t"
    using assms(3) hour_of_parts [of s] hour_of_parts [of t] hours_of_less [of s] hours_of_less [of t] by linarith
  then have "y < y' \<or> y = y' \<and> (mo < mo' \<or> mo = mo' \<and> (da < da' \<or> da = da' \<and> hours_of s < hours_of t))"
    using utc_date_mono [OF s t] s t by auto
  then show ?thesis by (auto simp: bs(5) bt(5) append_less bs(1-4) bt(1-4) ord)
qed

lemma bucket_le:
  assumes "four_digit_year s" and "four_digit_year t"
  shows "periodBucket s \<le> periodBucket t \<longleftrightarrow> s div 3600000 \<le> t div 3600000"
  using bucket_less_hours [OF assms] bucket_less_hours [OF assms(2,1)] periodBucket_eq_iff [of s t]
  by (cases "s div 3600000" "t div 3600000" rule: linorder_cases) auto

lemma date_utc_fields:
  assumes "utc_date (day_of t) = (y, mo, da)" and "100 \<le> y"
  shows "date_utc y (int mo - 1) (int da) (int (hours_of t)) div 3600000 = t div 3600000"
proof -
  note f = utc_date_fields [OF assms(1)]
  then have mo: "1 \<le> mo" "mo \<le> 12" and day: "day_of t = day_from_year y + sum_list (take (mo - 1) (month_lengths (leap y))) + int da - 1" by blast+
  from mo have m: "(int mo - 1) div 12 = 0" "(int mo - 1) mod 12 = int mo - 1" "nat (int mo - 1) = mo - 1" by auto
  have "date_utc y (int mo - 1) (int da) (int (hours_of t)) = (day_of t * 24 + int (hours_of t)) * 3600000"
    unfolding day using assms(2) by (simp add: date_utc_def Let_def m algebra_simps)
  then show ?thesis unfolding hour_of_parts by simp
qed

lemma length_dec_digits: "length (dec n) = 4 \<Longrightarrow> 1000 \<le> n \<and> n \<le> 9999"
proof -
  assume l: "length (dec n) = 4"
  have "n < 10 ^ 4" using num_of_less [OF dec_all_digits [of n]] by (simp add: l num_of_dec)
  moreover have "1000 \<le> n"
  proof (rule ccontr)
    assume "\<not> 1000 \<le> n"
    then have "length (dec n) \<le> 3"
      by (cases "n < 10"; cases "n < 100") (simp_all add: dec_small dec_big)
    with l show False by simp
  qed
  ultimately show ?thesis by simp
qed

lemma bucket_fields_Some:
  assumes "bucket_fields v = Some fs"
  obtains b x where "v = b @ CHR ''-'' # x" and "length b = 4" and "list_all is_digit b"
  using assms by (auto simp: bucket_fields_def split: list.split_asm if_split_asm intro!: that [of "[_, _, _, _]"])

lemma isBucket_iff: "isBucket v \<longleftrightarrow> (\<exists>t. four_digit_year t \<and> v = periodBucket t)"
proof
  assume "isBucket v"
  then obtain y mo da h where f: "bucket_fields v = Some (y, mo, da, h)"
    and v: "periodBucket (date_utc (int y) (int mo - 1) (int da) (int h)) = v"
    by (auto simp: isBucket_def split: option.split_asm)
  let ?t = "date_utc (int y) (int mo - 1) (int da) (int h)"
  obtain y' mo' da' where t: "utc_date (day_of ?t) = (y', mo', da')" by (metis prod_cases3)
  from bucket_fields_Some [OF f] obtain b x where b: "v = b @ CHR ''-'' # x" "length b = 4" "list_all is_digit b" by blast
  have e: "int_str y' @ CHR ''-'' # (pad2 mo' @ ''-'' @ pad2 da' @ ''T'' @ pad2 (hours_of ?t)) = b @ CHR ''-'' # x"
    using v periodBucket_eq [OF t] b(1) by simp
  have nd: "CHR ''-'' \<notin> set b" using b(3) by (auto simp: list_all_iff is_digit_def less_eq_char_def)
  have "0 \<le> y'"
  proof (rule ccontr)
    assume "\<not> 0 \<le> y'"
    then obtain r where "int_str y' = CHR ''-'' # r" by (simp add: int_str_def)
    with e b(2) nd show False by (cases b) auto
  qed
  then have d: "int_str y' = dec (nat y')" by (simp add: int_str_def)
  have "CHR ''-'' \<notin> set (dec (nat y'))" by (simp add: dec_not_in)
  from split_on_append [OF this] split_on_append [OF nd] e have "dec (nat y') = b" unfolding d by (metis list.inject)
  with b(2) length_dec_digits [of "nat y'"] \<open>0 \<le> y'\<close> have "four_digit_year ?t" by (simp add: four_digit_year_def t) linarith
  with v show "\<exists>t. four_digit_year t \<and> v = periodBucket t" by blast
next
  assume "\<exists>t. four_digit_year t \<and> v = periodBucket t"
  then obtain t where f: "four_digit_year t" and v: "v = periodBucket t" by blast
  obtain y mo da where d: "utc_date (day_of t) = (y, mo, da)" by (metis prod_cases3)
  note b = bucket_shape [OF f d]
  have y: "1000 \<le> y" using f d by (simp add: four_digit_year_def)
  have four: "length s = 4 \<Longrightarrow> \<exists>c1 c2 c3 c4. s = [c1, c2, c3, c4]" and two: "length s = 2 \<Longrightarrow> \<exists>c1 c2. s = [c1, c2]" for s :: string
    by (auto simp: length_Suc_conv eval_nat_numeral)
  from four [OF b(1)] two [OF b(2)] two [OF b(3)] two [OF b(4)] obtain y1 y2 y3 y4 m1 m2 d1 d2 h1 h2
    where s: "int_str y = [y1, y2, y3, y4]" "pad2 mo = [m1, m2]" "pad2 da = [d1, d2]" "pad2 (hours_of t) = [h1, h2]" by blast
  have dig: "list_all is_digit (int_str y)" "num_of (int_str y) = nat y" using y by (simp_all add: int_str_def dec_all_digits num_of_dec)
  have "bucket_fields v = Some (nat y, mo, da, hours_of t)"
    using dig pad2_all_digits [of mo] pad2_all_digits [of da] pad2_all_digits [of "hours_of t"]
      num_of_pad2 [of mo] num_of_pad2 [of da] num_of_pad2 [of "hours_of t"]
    unfolding v b(5) s by (simp add: bucket_fields_def)
  moreover have "periodBucket (date_utc (int (nat y)) (int mo - 1) (int da) (int (hours_of t))) = v"
    unfolding v periodBucket_eq_iff using date_utc_fields [OF d] y by simp
  ultimately show "isBucket v" by (simp add: isBucket_def)
qed

section \<open>Sums over groups\<close>

lemma sum_one_group:
  "distinct ks \<Longrightarrow> sum_list (map (\<lambda>k. if k = x then (v :: int) else 0) (filter P ks)) = (if P x \<and> x \<in> set ks then v else 0)"
  by (induction ks) auto

lemma sum_by_group:
  assumes "distinct ks"
  shows "sum_list (map (\<lambda>k. sum_list (map v (filter (\<lambda>x. g x = k) xs))) (filter P ks)) =
    (sum_list (map v (filter (\<lambda>x. P (g x) \<and> g x \<in> set ks) xs)) :: int)"
proof (induction xs)
  case (Cons x xs)
  have "sum_list (map (\<lambda>k. sum_list (map v (filter (\<lambda>y. g y = k) (x # xs)))) (filter P ks)) =
      sum_list (map (\<lambda>k. (if k = g x then v x else 0) + sum_list (map v (filter (\<lambda>y. g y = k) xs))) (filter P ks))"
    by (rule arg_cong [where f = sum_list]) auto
  with Cons show ?case by (simp add: sum_list_addf sum_one_group [OF assms])
qed simp

lemma group_sum_total:
  "sum_list (map snd (filter (\<lambda>x. P (fst x)) (group_sum g v xs))) = sum_list (map v (filter (\<lambda>x. P (g x)) xs))"
proof -
  have "sum_list (map snd (filter (\<lambda>x. P (fst x)) (group_sum g v xs))) =
      sum_list (map (\<lambda>k. sum_list (map v (filter (\<lambda>x. g x = k) xs))) (filter P (uniq (map g xs))))"
    by (simp add: group_sum_def filter_map comp_def)
  also have "\<dots> = sum_list (map v (filter (\<lambda>x. P (g x) \<and> g x \<in> set (uniq (map g xs))) xs))" by (simp add: sum_by_group)
  also have "filter (\<lambda>x. P (g x) \<and> g x \<in> set (uniq (map g xs))) xs = filter (\<lambda>x. P (g x)) xs" by (rule filter_cong) auto
  finally show ?thesis .
qed

lemma sum_sort_by [simp]: "sum_list (map f (sort_by cmp xs)) = (sum_list (map f xs) :: int)"
proof -
  have "sum_list (map f (insert_by cmp x ys)) = f x + sum_list (map f ys)" for x ys by (induction ys) auto
  then show ?thesis by (induction xs) (simp_all add: sort_by_def)
qed

lemma sum_sort_key [simp]: "sum_list (map f (sort_key k xs)) = (sum_list (map f xs) :: int)"
proof -
  have "sum_list (map f (insort_key k x ys)) = f x + sum_list (map f ys)" for x ys by (induction ys) auto
  then show ?thesis by (induction xs) simp_all
qed

definition dim_value :: "matrix_row \<Rightarrow> meter_dim \<Rightarrow> int" where
  "dim_value row dm = (case map_of (mx_dims row) dm of None \<Rightarrow> 0 | Some v \<Rightarrow> v)"

definition dims_total :: "(string \<times> matrix_row) list \<Rightarrow> meter_dim \<Rightarrow> int" where
  "dims_total m dm = sum_list (map (\<lambda>x. dim_value (snd x) dm) m)"

lemma dims_total_set:
  "dims_total (assoc_set m k row) dm = dims_total m dm - (case map_of m k of None \<Rightarrow> 0 | Some r \<Rightarrow> dim_value r dm) + dim_value row dm"
  by (induction m) (auto simp: dims_total_def)

lemma dim_value_zero: "mx_dims row = zeroDims \<Longrightarrow> dim_value row dm = 0"
  by (cases dm) (simp_all add: dim_value_def zeroDims_def METER_DIMS_def)

definition cell :: "matrix_group \<times> int \<Rightarrow> string \<times> string" where
  "cell x = (pair_key (fst x), snd (snd (snd (snd (snd (fst x))))))"

abbreviation group_dim :: "matrix_group \<Rightarrow> string" where
  "group_dim g \<equiv> snd (snd (snd (snd (snd g))))"

text \<open>One step of the pivot: it writes one cell, which must not have been written before.\<close>

lemma pivot_row_step:
  assumes "\<forall>row. map_of m (pair_key (fst x)) = Some row \<longrightarrow> group_dim (fst x) = dim_str dm \<longrightarrow> dim_value row dm = 0"
  shows "dims_total (pivot_row x m) dm = dims_total m dm + (if group_dim (fst x) = dim_str dm then snd x else 0)"
    and "map_of (pivot_row x m) k = Some row \<Longrightarrow> dim_value row dm \<noteq> 0 \<Longrightarrow>
      (k, dim_str dm) = cell x \<or> (\<exists>r. map_of m k = Some r \<and> dim_value r dm \<noteq> 0)"
proof -
  obtain ki kn kp pa sl dt v where x: "x = ((ki, kn, kp, pa, sl, dt), v)" by (metis surj_pair)
  let ?k = "pair_key (fst x)"
  define old where "old = (case map_of m ?k of Some row \<Rightarrow> row
    | None \<Rightarrow> \<lparr>mx_keyId = ki, mx_keyName = kn, mx_keyPrefix = kp, mx_paddockId = pa, mx_paddockSlug = sl, mx_dims = zeroDims\<rparr>)"
  define upd_row where "upd_row = (case dim_of dt of None \<Rightarrow> old | Some dd \<Rightarrow> old\<lparr>mx_dims := assoc_set (mx_dims old) dd v\<rparr>)"
  have p: "pivot_row x m = assoc_set m ?k upd_row" unfolding pivot_row_def Let_def old_def upd_row_def x by simp
  have same: "dim_value upd_row dm = (if dt = dim_str dm then v else dim_value old dm)"
    by (cases "dim_of dt") (auto simp: upd_row_def dim_value_def dim_of_Some dim_of_str dim_str_inj)
  have oldv: "dim_value old dm = (case map_of m ?k of None \<Rightarrow> 0 | Some r \<Rightarrow> dim_value r dm)"
    by (simp add: old_def dim_value_zero split: option.split)
  show "dims_total (pivot_row x m) dm = dims_total m dm + (if group_dim (fst x) = dim_str dm then snd x else 0)"
    unfolding p dims_total_set same using assms oldv by (auto simp: x split: option.split_asm)
  assume r: "map_of (pivot_row x m) k = Some row" "dim_value row dm \<noteq> 0"
  show "(k, dim_str dm) = cell x \<or> (\<exists>r. map_of m k = Some r \<and> dim_value r dm \<noteq> 0)"
    using r(1) [unfolded p] r(2) same oldv by (auto simp: cell_def x split: if_split_asm option.split_asm)
qed

lemma pivot_total:
  "distinct (map cell gs) \<Longrightarrow>
   (\<And>k row. map_of m k = Some row \<Longrightarrow> (k, dim_str dm) \<in> cell ` set gs \<Longrightarrow> dim_value row dm = 0) \<Longrightarrow>
   dims_total (fold pivot_row gs m) dm = dims_total m dm + sum_list (map snd (filter (\<lambda>x. group_dim (fst x) = dim_str dm) gs))"
proof (induction gs arbitrary: m)
  case (Cons x gs)
  have "\<forall>row. map_of m (pair_key (fst x)) = Some row \<longrightarrow> group_dim (fst x) = dim_str dm \<longrightarrow> dim_value row dm = 0"
    using Cons.prems(2) by (auto simp: cell_def)
  note st = pivot_row_step [OF this]
  have "dims_total (fold pivot_row gs (pivot_row x m)) dm = dims_total (pivot_row x m) dm +
      sum_list (map snd (filter (\<lambda>x. group_dim (fst x) = dim_str dm) gs))"
  proof (rule Cons.IH)
    show "distinct (map cell gs)" using Cons.prems(1) by simp
    fix k row
    assume r: "map_of (pivot_row x m) k = Some row" "(k, dim_str dm) \<in> cell ` set gs"
    show "dim_value row dm = 0"
    proof (rule ccontr)
      assume "dim_value row dm \<noteq> 0"
      from st(2) [OF r(1) this] r(2) Cons.prems show False by auto
    qed
  qed
  with st(1) show ?case by simp
qed simp

text \<open>What the report reads, when the tables are sound: each row with its key and its paddock.\<close>

definition usage_ok :: "db \<Rightarrow> bool" where
  "usage_ok d = (distinct (map k_id (keys d)) \<and> distinct (map p_id (paddocks d)) \<and> list_all (\<lambda>k. is_uuid (k_id k)) (keys d) \<and>
     list_all (\<lambda>r. r_keyId r \<in> k_id ` set (keys d) \<and> r_paddockId r \<in> p_id ` set (paddocks d)) (usage d))"

lemma sel_key: "distinct (map f t) \<Longrightarrow> k \<in> set t \<Longrightarrow> sel (\<lambda>x. f x = f k) t = [k]"
  by (induction t) (auto simp: sel_def filter_empty_conv image_iff)

lemma usage_join_map:
  assumes "usage_ok d" and "set rows \<subseteq> set (usage d)"
  shows "\<exists>kf pf. usage_join d rows = map (\<lambda>r. (r, kf r, pf r)) rows \<and>
    (\<forall>r \<in> set rows. kf r \<in> set (keys d) \<and> k_id (kf r) = r_keyId r \<and> pf r \<in> set (paddocks d) \<and> p_id (pf r) = r_paddockId r) \<and>
    (\<forall>r \<in> set rows. sel (\<lambda>k. k_id k = r_keyId r) (keys d) = [kf r])"
proof -
  have "\<exists>k p. k \<in> set (keys d) \<and> k_id k = r_keyId r \<and> p \<in> set (paddocks d) \<and> p_id p = r_paddockId r" if "r \<in> set rows" for r
    using assms that by (fastforce simp: usage_ok_def list_all_iff)
  then obtain kf pf where f: "\<And>r. r \<in> set rows \<Longrightarrow> kf r \<in> set (keys d) \<and> k_id (kf r) = r_keyId r \<and> pf r \<in> set (paddocks d) \<and> p_id (pf r) = r_paddockId r"
    by metis
  have s: "sel (\<lambda>k. k_id k = r_keyId r) (keys d) = [kf r]" "sel (\<lambda>p. p_id p = r_paddockId r) (paddocks d) = [pf r]" if "r \<in> set rows" for r
    using assms(1) f [OF that] sel_key [of k_id "keys d" "kf r"] sel_key [of p_id "paddocks d" "pf r"] by (simp_all add: usage_ok_def)
  have "usage_join d rs = map (\<lambda>r. (r, kf r, pf r)) rs" if "set rs \<subseteq> set rows" for rs
    using that by (induction rs) (simp_all add: usage_join_def s)
  then have "usage_join d rows = map (\<lambda>r. (r, kf r, pf r)) rows" by simp
  with f s(1) show ?thesis by blast
qed

lemma bar_not_uuid: "is_uuid s \<Longrightarrow> CHR ''|'' \<notin> set s"
proof
  assume u: "is_uuid s" and m: "CHR ''|'' \<in> set s"
  from u obtain a b c d e where sp: "split_on CHR ''-'' (lower s) = [a, b, c, d, e]" and hex: "list_all (list_all hex_digit) [a, b, c, d, e]"
    by (auto simp: is_uuid_def split: list.split_asm)
  have "list_all hex_digit p \<Longrightarrow> CHR ''|'' \<notin> set p" for p
    by (auto simp: list_all_iff hex_digit_def is_digit_def less_eq_char_def)
  with hex have "CHR ''|'' \<notin> set (join_on [CHR ''-''] [a, b, c, d, e])" by auto
  moreover have "join_on [CHR ''-''] [a, b, c, d, e] = lower s" using join_split_on [of "CHR ''-''" "lower s"] unfolding sp .
  ultimately have "CHR ''|'' \<notin> set (lower s)" by metis
  moreover have "lower_char CHR ''|'' = CHR ''|''" by (simp add: lower_char_def is_upper_def less_eq_char_def)
  ultimately show False using m by (metis image_eqI list.set_map)
qed

lemma distinct_cells:
  assumes "usage_ok d" and "set rows \<subseteq> set (usage d)"
  shows "distinct (map cell (group_sum matrix_group_of v (usage_join d rows)))"
proof -
  from usage_join_map [OF assms] obtain kf pf where j: "usage_join d rows = map (\<lambda>r. (r, kf r, pf r)) rows"
    and f: "\<forall>r \<in> set rows. kf r \<in> set (keys d) \<and> k_id (kf r) = r_keyId r \<and> pf r \<in> set (paddocks d) \<and> p_id (pf r) = r_paddockId r" by blast
  have "inj_on (\<lambda>g. (pair_key g, group_dim g)) (set (map matrix_group_of (usage_join d rows)))"
  proof (rule inj_onI)
    fix x y
    assume x: "x \<in> set (map matrix_group_of (usage_join d rows))" and y: "y \<in> set (map matrix_group_of (usage_join d rows))"
      and e: "(pair_key x, group_dim x) = (pair_key y, group_dim y)"
    from x y j obtain r s where r: "r \<in> set rows" "x = matrix_group_of (r, kf r, pf r)" and s: "s \<in> set rows" "y = matrix_group_of (s, kf s, pf s)" by auto
    have "CHR ''|'' \<notin> set (r_keyId r)" "CHR ''|'' \<notin> set (r_keyId s)"
      using bspec [OF f r(1)] bspec [OF f s(1)] assms(1) bar_not_uuid by (auto simp: usage_ok_def list_all_iff)
    from split_on_append [OF this(1), of "r_paddockId r"] split_on_append [OF this(2), of "r_paddockId s"] e r(2) s(2)
    have ids: "r_keyId r = r_keyId s" by (simp add: pair_key_def matrix_group_of_def)
    with e r(2) s(2) have "r_paddockId r = r_paddockId s" by (simp add: pair_key_def matrix_group_of_def)
    with ids have "kf r = kf s" "pf r = pf s"
      using bspec [OF f r(1)] bspec [OF f s(1)] assms(1) by (auto simp: usage_ok_def dest: distinct_key_eq)
    with ids \<open>r_paddockId r = r_paddockId s\<close> e show "x = y" by (simp add: r(2) s(2) matrix_group_of_def)
  qed
  moreover have "map cell (group_sum matrix_group_of v (usage_join d rows)) =
      map (\<lambda>g. (pair_key g, group_dim g)) (uniq (map matrix_group_of (usage_join d rows)))"
    by (simp add: group_sum_def cell_def)
  ultimately show ?thesis by (simp add: distinct_map)
qed

lemma bucket_param_Some: "bucket_param q k = Some v \<Longrightarrow> isBucket v"
  by (auto simp: bucket_param_def split: option.split_asm if_split_asm)

lemma matrixQuery_Some: "matrixQuery q = Some u \<Longrightarrow> isBucket (uq_start u) \<and> isBucket (uq_end u) \<and> uq_start u \<le> uq_end u"
  unfolding matrixQuery_def by (auto dest: bucket_param_Some split: option.split_asm if_split_asm)

section \<open>Properties\<close>

text \<open>
  A report's window is a span of hours: bounds that the query accepts are the buckets of two hours in
  order, and of all the usage metered in years of four digits the text comparison selects exactly that of the
  hours between them, both included, across days, months and years.
\<close>

theorem report_window_is_hours:
  assumes "matrixQuery q = Some u"
  shows "\<exists>s e. uq_start u = periodBucket s \<and> uq_end u = periodBucket e \<and> s div 3600000 \<le> e div 3600000 \<and>
    (\<forall>t. four_digit_year t \<longrightarrow>
      (uq_start u \<le> periodBucket t \<and> periodBucket t \<le> uq_end u \<longleftrightarrow> s div 3600000 \<le> t div 3600000 \<and> t div 3600000 \<le> e div 3600000))"
proof -
  from assms have b: "isBucket (uq_start u)" "isBucket (uq_end u)" "uq_start u \<le> uq_end u"
    using matrixQuery_Some by blast+
  from b(1,2) obtain s e where s: "four_digit_year s" "uq_start u = periodBucket s" and e: "four_digit_year e" "uq_end u = periodBucket e"
    unfolding isBucket_iff by blast
  with b(3) have "s div 3600000 \<le> e div 3600000" by (simp add: bucket_le)
  moreover have "\<forall>t. four_digit_year t \<longrightarrow> (periodBucket s \<le> periodBucket t \<longleftrightarrow> s div 3600000 \<le> t div 3600000) \<and>
      (periodBucket t \<le> periodBucket e \<longleftrightarrow> t div 3600000 \<le> e div 3600000)"
    using bucket_le [OF s(1)] bucket_le [OF _ e(1)] by blast
  ultimately show ?thesis unfolding s(2) e(2) by blast
qed

theorem report_window_is_hours_witness:
  "\<exists>s e. periodBucket s = ''2026-07-25T14'' \<and> periodBucket e = ''2026-07-26T02'' \<and> s div 3600000 \<le> e div 3600000"
proof -
  let ?q = "[(''startBucket'', ''2026-07-25T14''), (''endBucket'', ''2026-07-26T02'')]"
  have "isBucket ''2026-07-25T14''" by code_simp
  moreover have "isBucket ''2026-07-26T02''" by code_simp
  moreover have "''2026-07-25T14'' \<le> ''2026-07-26T02''" by code_simp
  ultimately obtain u where u: "matrixQuery ?q = Some u" "uq_start u = ''2026-07-25T14''" "uq_end u = ''2026-07-26T02''"
    by (simp add: matrixQuery_def bucket_param_def uuid_param_def)
  from report_window_is_hours [OF u(1)] u(2,3) show ?thesis by metis
qed

text \<open>
  C38. The reports agree: for a sound database the cells of the key by paddock matrix, the days of the
  series and (where no key is cut off by the limit and no filter was set) the ranking of keys add up, for
  every dimension, to the same number, the sum of the organization's own rollups in the window; no row is
  lost or counted twice by a join, a group or the pivot.
\<close>

theorem usage_reports_agree:
  assumes "usage_ok d" and "usageMatrix cmp d a u = Inr m" and "dailySeries d a u dm = Inr s" and "topKeys d a u dm n = Inr t"
  shows "sum_list (map (\<lambda>row. dim_value row dm) m) = sum_list (map r_value (sel (\<lambda>r. in_report a u r \<and> r_dim r = dim_str dm) (usage d))) \<and>
    sum_list (map snd s) = sum_list (map (\<lambda>row. dim_value row dm) m) \<and>
    (length (usage d) \<le> n \<longrightarrow> sum_list (map snd t) = sum_list (map snd s))"
proof -
  let ?rows = "sel (in_report a u) (usage d)" and ?drows = "sel (\<lambda>r. in_report a u r \<and> r_dim r = dim_str dm) (usage d)"
  let ?gs = "group_sum matrix_group_of (r_value \<circ> fst) (usage_join d ?rows)"
  have sub: "set ?rows \<subseteq> set (usage d)" "set ?drows \<subseteq> set (usage d)" by auto
  have drows: "?drows = filter (\<lambda>r. r_dim r = dim_str dm) ?rows" by (simp add: sel_def conj_commute)
  from usage_join_map [OF assms(1) sub(1)] obtain kf pf where j: "usage_join d ?rows = map (\<lambda>r. (r, kf r, pf r)) ?rows" by blast
  have m: "m = sort_by (matrix_cmp cmp) (map snd (fold pivot_row ?gs []))" using assms(2) by (simp add: usageMatrix_def Let_def)
  have "sum_list (map (\<lambda>row. dim_value row dm) m) = dims_total (fold pivot_row ?gs []) dm" by (simp add: m dims_total_def comp_def)
  also have "\<dots> = sum_list (map snd (filter (\<lambda>x. group_dim (fst x) = dim_str dm) ?gs))"
    using pivot_total [OF distinct_cells [OF assms(1) sub(1)], of "[]" dm] by (simp add: dims_total_def)
  also have "\<dots> = sum_list (map (r_value \<circ> fst) (filter (\<lambda>x. group_dim (matrix_group_of x) = dim_str dm) (usage_join d ?rows)))"
    by (rule group_sum_total)
  also have "\<dots> = sum_list (map r_value ?drows)" by (simp add: j drows filter_map comp_def matrix_group_of_def)
  finally have matrix: "sum_list (map (\<lambda>row. dim_value row dm) m) = sum_list (map r_value ?drows)" .
  have "s = sort_key fst (group_sum (\<lambda>r. take 10 (r_period r)) r_value ?drows)" using assms(3) by (simp add: dailySeries_def)
  then have daily: "sum_list (map snd s) = sum_list (map r_value ?drows)"
    using group_sum_total [of "\<lambda>_. True" "\<lambda>r. take 10 (r_period r)" r_value ?drows] by simp
  from usage_join_map [OF assms(1) sub(2)] obtain kf where
    k: "\<forall>r \<in> set ?drows. sel (\<lambda>k. k_id k = r_keyId r) (keys d) = [kf r]" by blast
  have "concat (map (\<lambda>r. map (Pair r) (sel (\<lambda>k. k_id k = r_keyId r) (keys d))) rs) = map (\<lambda>r. (r, kf r)) rs" if "set rs \<subseteq> set ?drows" for rs
    using that k by (induction rs) auto
  then have jk: "[(r, k). r \<leftarrow> ?drows, k \<leftarrow> sel (\<lambda>k. k_id k = r_keyId r) (keys d)] = map (\<lambda>r. (r, kf r)) ?drows" by simp
  let ?g = "\<lambda>(r, k). (r_keyId r, k_name k, k_prefix k)"
  let ?ks = "group_sum ?g (r_value \<circ> fst) (map (\<lambda>r. (r, kf r)) ?drows)"
  have t: "t = take n (sort_key (\<lambda>x. - snd x) ?ks)" using assms(4) unfolding topKeys_def jk by simp
  have "length (uniq xs) \<le> length xs" for xs :: "(string \<times> string \<times> string) list"
    by (metis card_length distinct_card distinct_uniq set_uniq)
  from this [of "map ?g (map (\<lambda>r. (r, kf r)) ?drows)"] have "length ?ks \<le> length ?drows" by (simp add: group_sum_def)
  also have "\<dots> \<le> length (usage d)" by (simp add: sel_def)
  finally have "length (usage d) \<le> n \<longrightarrow> sum_list (map snd t) = sum_list (map r_value ?drows)"
    using group_sum_total [of "\<lambda>_. True" ?g "r_value \<circ> fst" "map (\<lambda>r. (r, kf r)) ?drows"] by (simp add: t comp_def)
  with matrix daily show ?thesis by simp
qed

definition demo_report_db :: db where
  "demo_report_db = empty_db\<lparr>paddocks := [\<lparr>p_id = ''p'', p_orgId = ''o'', p_flockId = ''f'', p_slug = ''pad'', p_name = ''Pad'',
       p_status = ActivePaddock, p_theme = ''plain''\<rparr>],
     keys := [demo_key\<lparr>k_id := ''00000000-0000-4000-8000-000000000001''\<rparr>],
     usage := [\<lparr>r_orgId = ''o'', r_keyId = ''00000000-0000-4000-8000-000000000001'', r_paddockId = ''p'', r_period = ''2026-07-25T14'', r_dim = ''jobs'', r_value = 2\<rparr>,
       \<lparr>r_orgId = ''o'', r_keyId = ''00000000-0000-4000-8000-000000000001'', r_paddockId = ''p'', r_period = ''2026-07-26T01'', r_dim = ''jobs'', r_value = 3\<rparr>]\<rparr>"

definition demo_window :: usage_query where
  "demo_window = \<lparr>uq_start = ''2026-07-25T14'', uq_end = ''2026-07-26T02'', uq_keyId = None, uq_paddockId = None\<rparr>"

theorem usage_reports_agree_witness:
  "case usageMatrix (\<lambda>_ _. 0) demo_report_db demo_actor demo_window of Inl e \<Rightarrow> False
   | Inr m \<Rightarrow> sum_list (map (\<lambda>row. dim_value row Jobs) m) = 5"
proof -
  have r: "\<exists>m. usageMatrix (\<lambda>_ _. 0) demo_report_db demo_actor demo_window = Inr m"
    "\<exists>s. dailySeries demo_report_db demo_actor demo_window Jobs = Inr s" "\<exists>t. topKeys demo_report_db demo_actor demo_window Jobs 2 = Inr t"
    by (simp_all add: usageMatrix_def dailySeries_def topKeys_def may_def authorize_def demo_actor_def Let_def guarded_def requireCapability_def)
  have ok: "usage_ok demo_report_db" and t: "sum_list (map r_value (sel (\<lambda>r. in_report demo_actor demo_window r \<and> r_dim r = dim_str Jobs) (usage demo_report_db))) = 5"
    by code_simp+
  from r obtain m s w where "usageMatrix (\<lambda>_ _. 0) demo_report_db demo_actor demo_window = Inr m"
    "dailySeries demo_report_db demo_actor demo_window Jobs = Inr s" "topKeys demo_report_db demo_actor demo_window Jobs 2 = Inr w" by blast
  with usage_reports_agree [OF ok this] t show ?thesis by simp
qed

end
