(* ===== verification/AdminApi.thy ===== *)
theory AdminApi
  imports Tenancy Sessions Usage
begin

text \<open>
  The admin API of the control plane (apps/control-plane/src/server/problem.ts, admin-token.ts,
  admin-route.ts, json-body.ts and the route modules under app/api/admin/v1). A request ends in a
  response, the database after it and the invalidations it published. What is not the program's (the
  JOSE library, the clock, random bytes, ids of new rows, the JSON and URL parsers, zod's list of
  issues) is a field of \<open>admin_env\<close>; the file router is the function \<open>admin_handler\<close>.
\<close>

section \<open>Requests and answers\<close>

record admin_req =
  aq_auth :: "string option"
  aq_cookie :: "string option"
  aq_path :: string
  aq_query :: "(string \<times> string) list"
  aq_body :: "js option"

datatype admin_body =
    NoBody
  | Problem "(string \<times> js) list"
  | FlocksBody "flock_view list"
  | FlockBody flock_view
  | KeysBody "key_view list"
  | KeyCreatedBody created_key
  | PaddocksBody "paddock_row list"
  | PaddockBody paddock_row
  | FenceBody "fence_row option"
  | TemplatesBody "template list"
  | MatrixBody "matrix_row list"
  | DailyBody "(string \<times> int) list"
  | TopKeysBody "((string \<times> string \<times> string) \<times> int) list"
  | KeyIdBody string
  | PreflightBody bool "string option"

record admin_res =
  ar_status :: int
  ar_headers :: "(string \<times> string) list"
  ar_body :: admin_body

record admin_env =
  ae_settings :: "oidc_error + oidc_config"
  ae_consoleUrl :: "string option"
  ae_parse_url :: "string \<Rightarrow> url option"
  ae_jose :: jose
  ae_now :: int
  ae_issues :: js
  ae_crypto :: crypto
  ae_ring :: seal_keyring
  ae_url_ok :: "string \<Rightarrow> bool"
  ae_iv :: string
  ae_newId :: string
  ae_random :: string
  ae_sha256 :: "string \<Rightarrow> string"
  ae_datetime :: "string \<Rightarrow> int option"
  ae_json :: "string \<Rightarrow> js option"
  ae_localeCompare :: "string \<Rightarrow> string \<Rightarrow> int"

datatype admin_error = Service svc_error | BadToken string | KeysDown string bool | OtherError

section \<open>Problem details (problem.ts)\<close>

definition KEY_SET_RETRY_AFTER_SECONDS :: string where
  "KEY_SET_RETRY_AFTER_SECONDS = ''30''"

definition problem :: "int \<Rightarrow> string \<Rightarrow> string option \<Rightarrow> (string \<times> js) list \<Rightarrow> (string \<times> string) list \<Rightarrow> admin_res" where
  "problem status title detail extra headers =
     \<lparr>ar_status = status, ar_headers = (''content-type'', ''application/problem+json'') # headers,
      ar_body = Problem ([(''type'', Str ''about:blank''), (''title'', Str title), (''status'', NumI status)] @
        (case detail of None \<Rightarrow> [] | Some t \<Rightarrow> [(''detail'', Str t)]) @ extra)\<rparr>"

definition quoted :: "string \<Rightarrow> string" where
  "quoted s = [CHR 0x22] @ s @ [CHR 0x22]"

definition adminChallenge :: "admin_env \<Rightarrow> string" where
  "adminChallenge e =
     (case requireOrigin (ae_parse_url e) (ae_consoleUrl e) of
        Inl x \<Rightarrow> ''Bearer''
      | Inr origin \<Rightarrow>
          (case protectedResourceMetadataUrl (ae_parse_url e) (adminApiResource origin) of
             None \<Rightarrow> ''Bearer''
           | Some u \<Rightarrow> ''Bearer resource_metadata='' @ quoted u))"

definition unauthorized :: "admin_env \<Rightarrow> string \<Rightarrow> admin_res" where
  "unauthorized e detail = problem 401 ''Unauthorized'' (Some detail) [] [(''www-authenticate'', adminChallenge e)]"

definition loggable_char :: "nat \<Rightarrow> bool" where
  "loggable_char u = (\<not> (u < 0x20 \<or> 0x7f \<le> u \<and> u \<le> 0x9f \<or> u = 0x2028 \<or> u = 0x2029))"

text \<open>On UTF-16 code units.\<close>

definition loggable :: "nat list \<Rightarrow> nat list" where
  "loggable s = map (\<lambda>u. if loggable_char u then u else 0x20) s"

definition REBIND_MESSAGE :: string where
  "REBIND_MESSAGE = ''changing baseUrl or enabling tlsTrust on a flock with a stored credential requires re-sending upstreamAuth (or null to clear it)''"

definition problemForError :: "admin_env \<Rightarrow> admin_error \<Rightarrow> admin_res" where
  "problemForError e x =
     (case x of
        Service (Forbidden c) \<Rightarrow>
          problem 403 ''Forbidden'' (Some (''forbidden: missing capability '' @ [CHR 0x27] @ cap_str c @ [CHR 0x27])) [(''capability'', Str (cap_str c))] []
      | Service (NotFound w) \<Rightarrow> problem 404 ''Not Found'' (Some (''not found: '' @ w)) [] []
      | KeysDown r miss \<Rightarrow>
          problem 503 ''Service Unavailable'' (Some ''the access token cannot be verified right now; retry after the Retry-After interval'') []
            [(''retry-after'', KEY_SET_RETRY_AFTER_SECONDS)]
      | BadToken r \<Rightarrow> unauthorized e ''the presented access token was rejected''
      | Service (SlugTaken s) \<Rightarrow> problem 409 ''Conflict'' (Some (''slug already in use: '' @ s)) [] []
      | Service CredentialRebind \<Rightarrow> problem 409 ''Conflict'' (Some REBIND_MESSAGE) [] []
      | Service InvalidInput \<Rightarrow> problem 422 ''Unprocessable Content'' (Some ''request failed validation'') [(''errors'', ae_issues e)] []
      | _ \<Rightarrow> problem 500 ''Internal Server Error'' None [] [])"

section \<open>Tokens (admin-token.ts)\<close>

record admin_claims =
  al_sub :: string
  al_scope :: "string option"
  al_client_id :: "string option"
  al_jti :: "string option"

definition scope_words :: "string \<Rightarrow> string list" where
  "scope_words s = split_on CHR '' '' (map (\<lambda>c. if white c then CHR '' '' else c) s)"

definition grantsFromScope :: "string option \<Rightarrow> capability list" where
  "grantsFromScope scope = uniq (List.map_filter cap_of (scope_words (case scope of None \<Rightarrow> [] | Some s \<Rightarrow> s)))"

definition credentialOf :: "admin_claims \<Rightarrow> string" where
  "credentialOf c = ''token:'' @ (case al_client_id c of None \<Rightarrow> ''unknown'' | Some i \<Rightarrow> i) @ '':'' @ (case al_jti c of None \<Rightarrow> ''unknown'' | Some j \<Rightarrow> j)"

definition verifyAdminToken :: "admin_env \<Rightarrow> string \<Rightarrow> admin_error + admin_claims" where
  "verifyAdminToken e jwt =
     (case ae_settings e of
        Inl x \<Rightarrow> Inl OtherError
      | Inr cfg \<Rightarrow>
          (case verify_access_token (ae_jose e) (ae_now e) jwt (adminApiResource (oc_consoleUrl cfg)) of
             TokenRefused r \<Rightarrow> Inl (BadToken (if r = AUDIENCE_MISMATCH then ''audience is not the admin API resource'' else r))
           | KeySetUnavailable r miss \<Rightarrow> Inl (KeysDown r miss)
           | Claims p \<Rightarrow>
               if getp p ''client_id'' \<noteq> Str CLI_CLIENT_ID then Inl (BadToken ''client_id is not the admin CLI'')
               else (case usable_str (getp p ''sub'') of
                   None \<Rightarrow> Inl (BadToken ''missing sub'')
                 | Some s \<Rightarrow> Inr \<lparr>al_sub = s, al_scope = as_str (getp p ''scope''), al_client_id = Some CLI_CLIENT_ID, al_jti = as_str (getp p ''jti'')\<rparr>)))"

definition actorFromToken :: "admin_env \<Rightarrow> db \<Rightarrow> string \<Rightarrow> admin_error + actor" where
  "actorFromToken e d jwt =
     (case verifyAdminToken e jwt of
        Inl x \<Rightarrow> Inl x
      | Inr c \<Rightarrow>
          (case loadActiveActor d (al_sub c) (credentialOf c) of
             None \<Rightarrow> Inl (BadToken ''subject is not an active user'')
           | Some a \<Rightarrow> Inr (a\<lparr>ac_grants := Some (grantsFromScope (al_scope c))\<rparr>)))"

section \<open>The wrapper (admin-route.ts, json-body.ts)\<close>

definition bearerOf :: "admin_req \<Rightarrow> string option" where
  "bearerOf q = (case aq_auth q of None \<Rightarrow> None | Some h \<Rightarrow> if h = [] then None else bearer_match h)"

text \<open>\<open>/(?:^|;\s*)mm_session=/\<close>\<close>

definition hasSessionCookie :: "admin_req \<Rightarrow> bool" where
  "hasSessionCookie q =
     (case aq_cookie q of
        None \<Rightarrow> False
      | Some c \<Rightarrow>
          (case split_on CHR '';'' c of
             [] \<Rightarrow> False
           | p # ps \<Rightarrow> prefix (SESSION_COOKIE @ ''='') p \<or> list_ex (\<lambda>x. prefix (SESSION_COOKIE @ ''='') (trim_start x)) ps))"

definition readJsonObject :: "admin_req \<Rightarrow> svc_error + (string \<times> js) list" where
  "readJsonObject q = (case aq_body q of Some (Obj kvs) \<Rightarrow> Inr kvs | _ \<Rightarrow> Inl InvalidInput)"

type_synonym handler = "actor \<Rightarrow> admin_req \<Rightarrow> db \<Rightarrow> svc_error + admin_res \<times> db"
type_synonym admin_out = "admin_res \<times> db \<times> string list"

definition res_ok :: "admin_res \<Rightarrow> bool" where
  "res_ok r = (200 \<le> ar_status r \<and> ar_status r \<le> 299)"

definition withAdmin :: "admin_env \<Rightarrow> handler \<Rightarrow> string option \<Rightarrow> admin_req \<Rightarrow> db \<Rightarrow> admin_out" where
  "withAdmin e handler invalidates q d =
     (case bearerOf q of
        Some jwt \<Rightarrow>
          if hasSessionCookie q then
            (problem 400 ''Bad Request'' (Some ''a request may present a bearer token or a session cookie, never both'') [] [], d, [])
          else (case actorFromToken e d jwt of
              Inl x \<Rightarrow> (problemForError e x, d, [])
            | Inr a \<Rightarrow>
                (case handler a q d of
                   Inl x \<Rightarrow> (problemForError e (Service x), d, [])
                 | Inr (res, d') \<Rightarrow> (res, d', if res_ok res then (case invalidates of None \<Rightarrow> [] | Some r \<Rightarrow> [r]) else [])))
      | None \<Rightarrow> (unauthorized e ''the admin API requires a bearer access token; it does not accept a console session'', d, []))"

section \<open>Route modules\<close>

definition json_res :: "int \<Rightarrow> (string \<times> string) list \<Rightarrow> admin_body \<Rightarrow> admin_res" where
  "json_res status headers body = \<lparr>ar_status = status, ar_headers = headers, ar_body = body\<rparr>"

definition no_content :: admin_res where
  "no_content = json_res 204 [] NoBody"

text \<open>A read: the service's answer, and the database unchanged.\<close>

definition answer :: "db \<Rightarrow> (svc_error + 'a) \<Rightarrow> ('a \<Rightarrow> admin_res) \<Rightarrow> svc_error + admin_res \<times> db" where
  "answer d r f = map_sum id (\<lambda>x. (f x, d)) r"

text \<open>A change: the service's answer with the new database.\<close>

definition changed :: "(svc_error + 'a \<times> db) \<Rightarrow> ('a \<Rightarrow> admin_res) \<Rightarrow> svc_error + admin_res \<times> db" where
  "changed r f = map_sum id (map_prod f id) r"

definition removed :: "(svc_error + db) \<Rightarrow> svc_error + admin_res \<times> db" where
  "removed r = map_sum id (Pair no_content) r"

text \<open>The page of a collection: list, then the link to the next page.\<close>

definition page_route :: "(page_opts option \<Rightarrow> svc_error + 'r list) \<Rightarrow> ('r \<Rightarrow> string) \<Rightarrow> ('r list \<Rightarrow> admin_body) \<Rightarrow> admin_req \<Rightarrow> db \<Rightarrow> svc_error + admin_res \<times> db" where
  "page_route service rid body q d =
     (case parsePageOpts (aq_query q) of
        None \<Rightarrow> Inl InvalidInput
      | Some opts \<Rightarrow>
          answer d (service (Some opts)) (\<lambda>rows. json_res 200 (linkHeader (aq_path q) (aq_query q) (next_cursor rid (fst opts) rows)) (body rows)))"

definition flocks_GET :: handler where
  "flocks_GET a q d = page_route (listFlocks d a) fv_id FlocksBody q d"

definition flocks_POST :: "admin_env \<Rightarrow> handler" where
  "flocks_POST e a q d =
     (case readJsonObject q of
        Inl x \<Rightarrow> Inl x
      | Inr kvs \<Rightarrow>
          if getp (Obj kvs) ''id'' \<noteq> Undef then
            Inr (problem 422 ''Unprocessable Content'' (Some ''POST creates; use PUT /flocks/{id} to replace'') [] [], d)
          else changed (saveFlock (ae_url_ok e) (ae_crypto e) (ae_ring e) (ae_iv e) (ae_newId e) d a (Obj kvs))
            (\<lambda>v. json_res 201 [(''location'', aq_path q @ ''/'' @ fv_id v)] (FlockBody v)))"

definition flock_GET :: "string \<Rightarrow> handler" where
  "flock_GET i a q d = (case parsePathId i of Inl x \<Rightarrow> Inl x | Inr j \<Rightarrow> answer d (getFlock d a j) (\<lambda>v. json_res 200 [] (FlockBody v)))"

definition flock_PUT :: "admin_env \<Rightarrow> string \<Rightarrow> handler" where
  "flock_PUT e i a q d =
     (case parsePathId i of Inl x \<Rightarrow> Inl x | Inr j \<Rightarrow>
      case readJsonObject q of Inl x \<Rightarrow> Inl x | Inr kvs \<Rightarrow>
      case getFlock d a j of Inl x \<Rightarrow> Inl x | Inr v \<Rightarrow>
        changed (saveFlock (ae_url_ok e) (ae_crypto e) (ae_ring e) (ae_iv e) (ae_newId e) d a (Obj (assoc_set kvs ''id'' (Str j))))
          (\<lambda>v. json_res 200 [] (FlockBody v)))"

definition flock_DELETE :: "string \<Rightarrow> handler" where
  "flock_DELETE i a q d = (case parsePathId i of Inl x \<Rightarrow> Inl x | Inr j \<Rightarrow> removed (deleteFlock d a j))"

definition keys_GET :: handler where
  "keys_GET a q d = page_route (listKeys d a) kv_id KeysBody q d"

definition keys_POST :: "admin_env \<Rightarrow> handler" where
  "keys_POST e a q d =
     (case readJsonObject q of Inl x \<Rightarrow> Inl x | Inr kvs \<Rightarrow>
        changed (createKey (ae_datetime e) (ae_sha256 e) (ae_random e) (ae_newId e) d a (Obj kvs)) (\<lambda>c. json_res 201 [] (KeyCreatedBody c)))"

definition key_DELETE :: admin_res where
  "key_DELETE = problem 405 ''Method Not Allowed'' (Some (''API keys are revoked, not deleted '' @ [CHR 0xE2, CHR 0x80, CHR 0x94] @ '' POST /api/admin/v1/keys/{id}/revoke'')) [] [(''allow'', '''')]"

definition key_revoke_POST :: "string \<Rightarrow> handler" where
  "key_revoke_POST i a q d = (case parsePathId i of Inl x \<Rightarrow> Inl x | Inr j \<Rightarrow> removed (revokeKey d a j))"

definition paddocks_GET :: handler where
  "paddocks_GET a q d = page_route (listPaddocks d a) p_id PaddocksBody q d"

definition paddocks_POST :: "admin_env \<Rightarrow> handler" where
  "paddocks_POST e a q d =
     (case readJsonObject q of
        Inl x \<Rightarrow> Inl x
      | Inr kvs \<Rightarrow>
          if getp (Obj kvs) ''id'' \<noteq> Undef then
            Inr (problem 422 ''Unprocessable Content'' (Some ''POST creates; use PUT /paddocks/{id} to replace'') [] [], d)
          else changed (savePaddock (ae_newId e) d a (Obj kvs))
            (\<lambda>p. json_res 201 [(''location'', aq_path q @ ''/'' @ p_id p)] (PaddockBody p)))"

definition paddock_GET :: "string \<Rightarrow> handler" where
  "paddock_GET i a q d = (case parsePathId i of Inl x \<Rightarrow> Inl x | Inr j \<Rightarrow> answer d (getPaddock d a j) (\<lambda>p. json_res 200 [] (PaddockBody p)))"

definition paddock_PUT :: "admin_env \<Rightarrow> string \<Rightarrow> handler" where
  "paddock_PUT e i a q d =
     (case parsePathId i of Inl x \<Rightarrow> Inl x | Inr j \<Rightarrow>
      case readJsonObject q of Inl x \<Rightarrow> Inl x | Inr kvs \<Rightarrow>
      case getPaddock d a j of Inl x \<Rightarrow> Inl x | Inr v \<Rightarrow>
        changed (savePaddock (ae_newId e) d a (Obj (assoc_set (assoc_del kvs ''status'') ''id'' (Str j)))) (\<lambda>p. json_res 200 [] (PaddockBody p)))"

definition paddock_DELETE :: "string \<Rightarrow> handler" where
  "paddock_DELETE i a q d = (case parsePathId i of Inl x \<Rightarrow> Inl x | Inr j \<Rightarrow> removed (deletePaddock d a j))"

definition status_PUT :: "string \<Rightarrow> handler" where
  "status_PUT i a q d =
     (case parsePathId i of Inl x \<Rightarrow> Inl x | Inr j \<Rightarrow>
      case readJsonObject q of Inl x \<Rightarrow> Inl x | Inr kvs \<Rightarrow>
      case paddock_status_of (getp (Obj kvs) ''status'') of None \<Rightarrow> Inl InvalidInput | Some st \<Rightarrow>
        changed (setPaddockStatus d a j st) (\<lambda>p. json_res 200 [] (PaddockBody p)))"

definition fence_GET :: "string \<Rightarrow> handler" where
  "fence_GET i a q d =
     (case parsePathId i of Inl x \<Rightarrow> Inl x | Inr j \<Rightarrow>
        answer d (getFence d a j) (\<lambda>n. case n of None \<Rightarrow> problem 404 ''Not Found'' (Some (''fence for paddock '' @ j)) [] []
          | Some f \<Rightarrow> json_res 200 [] (FenceBody (Some f))))"

definition fence_PUT :: "string \<Rightarrow> handler" where
  "fence_PUT i a q d =
     (case parsePathId i of Inl x \<Rightarrow> Inl x | Inr j \<Rightarrow>
      case readJsonObject q of Inl x \<Rightarrow> Inl x | Inr kvs \<Rightarrow>
        changed (saveFence d a (Obj (assoc_set kvs ''paddockId'' (Str j)))) (\<lambda>n. json_res 200 [] (FenceBody n)))"

definition templates_GET :: "string \<Rightarrow> handler" where
  "templates_GET i a q d = (case parsePathId i of Inl x \<Rightarrow> Inl x | Inr j \<Rightarrow> answer d (listTemplates d a j) (\<lambda>ts. json_res 200 [] (TemplatesBody ts)))"

definition templates_POST :: "admin_env \<Rightarrow> string \<Rightarrow> handler" where
  "templates_POST e i a q d =
     (case parsePathId i of Inl x \<Rightarrow> Inl x | Inr j \<Rightarrow>
      case readJsonObject q of Inl x \<Rightarrow> Inl x | Inr kvs \<Rightarrow>
        changed (saveTemplate (ae_json e) d a j (Obj kvs)) (\<lambda>ts. json_res 201 [] (TemplatesBody ts)))"

definition template_PUT :: "admin_env \<Rightarrow> string \<Rightarrow> string \<Rightarrow> handler" where
  "template_PUT e i t a q d =
     (case parsePathId i of Inl x \<Rightarrow> Inl x | Inr j \<Rightarrow>
      case readJsonObject q of Inl x \<Rightarrow> Inl x | Inr kvs \<Rightarrow>
        changed (saveTemplate (ae_json e) d a j (Obj (assoc_set kvs ''id'' (Str t)))) (\<lambda>ts. json_res 200 [] (TemplatesBody ts)))"

definition template_DELETE :: "string \<Rightarrow> string \<Rightarrow> handler" where
  "template_DELETE i t a q d =
     (case parsePathId i of Inl x \<Rightarrow> Inl x | Inr j \<Rightarrow> changed (deleteTemplate d a j t) (\<lambda>ts. no_content))"

definition usage_matrix_GET :: "admin_env \<Rightarrow> handler" where
  "usage_matrix_GET e a q d =
     (case matrixQuery (aq_query q) of None \<Rightarrow> Inl InvalidInput | Some u \<Rightarrow>
        answer d (usageMatrix (ae_localeCompare e) d a u) (\<lambda>m. json_res 200 [] (MatrixBody m)))"

definition usage_daily_GET :: handler where
  "usage_daily_GET a q d =
     (case dailyQuery (aq_query q) of None \<Rightarrow> Inl InvalidInput | Some (u, dm) \<Rightarrow>
        answer d (dailySeries d a u dm) (\<lambda>s. json_res 200 [] (DailyBody s)))"

definition usage_top_keys_GET :: handler where
  "usage_top_keys_GET a q d =
     (case topKeysQuery (aq_query q) of None \<Rightarrow> Inl InvalidInput | Some (u, dm, n) \<Rightarrow>
        answer d (topKeys d a u dm n) (\<lambda>t. json_res 200 [] (TopKeysBody t)))"

text \<open>The modules by method and path under \<open>/api/admin/v1\<close>, with the invalidation each publishes.\<close>

definition admin_handler :: "admin_env \<Rightarrow> string \<Rightarrow> string list \<Rightarrow> (handler \<times> string option) option" where
  "admin_handler e m path =
     (case path of
        [r] \<Rightarrow>
          if r = ''flocks'' then (if m = ''GET'' then Some (flocks_GET, None) else if m = ''POST'' then Some (flocks_POST e, Some ''flock.save'') else None)
          else if r = ''keys'' then (if m = ''GET'' then Some (keys_GET, None) else if m = ''POST'' then Some (keys_POST e, Some ''key.create'') else None)
          else if r = ''paddocks'' then (if m = ''GET'' then Some (paddocks_GET, None) else if m = ''POST'' then Some (paddocks_POST e, Some ''paddock.save'') else None)
          else None
      | [r, i] \<Rightarrow>
          if r = ''flocks'' then (if m = ''GET'' then Some (flock_GET i, None) else if m = ''PUT'' then Some (flock_PUT e i, Some ''flock.save'')
            else if m = ''DELETE'' then Some (flock_DELETE i, Some ''flock.delete'') else None)
          else if r = ''paddocks'' then (if m = ''GET'' then Some (paddock_GET i, None) else if m = ''PUT'' then Some (paddock_PUT e i, Some ''paddock.save'')
            else if m = ''DELETE'' then Some (paddock_DELETE i, Some ''paddock.delete'') else None)
          else if r = ''usage'' \<and> m = ''GET'' then
            (if i = ''matrix'' then Some (usage_matrix_GET e, None) else if i = ''daily'' then Some (usage_daily_GET, None)
             else if i = ''top-keys'' then Some (usage_top_keys_GET, None) else None)
          else None
      | [r, i, s] \<Rightarrow>
          if r = ''keys'' \<and> s = ''revoke'' \<and> m = ''POST'' then Some (key_revoke_POST i, Some ''key.revoke'')
          else if r = ''paddocks'' \<and> s = ''status'' \<and> m = ''PUT'' then Some (status_PUT i, Some ''paddock.status'')
          else if r = ''paddocks'' \<and> s = ''fence'' then
            (if m = ''GET'' then Some (fence_GET i, None) else if m = ''PUT'' then Some (fence_PUT i, Some ''fence.save'') else None)
          else if r = ''paddocks'' \<and> s = ''templates'' then
            (if m = ''GET'' then Some (templates_GET i, None) else if m = ''POST'' then Some (templates_POST e i, Some ''template.save'') else None)
          else None
      | [r, i, s, t] \<Rightarrow>
          if r = ''paddocks'' \<and> s = ''templates'' then
            (if m = ''PUT'' then Some (template_PUT e i t, Some ''template.save'') else if m = ''DELETE'' then Some (template_DELETE i t, Some ''template.delete'') else None)
          else None
      | _ \<Rightarrow> None)"

definition admin_api :: "admin_env \<Rightarrow> string \<Rightarrow> string list \<Rightarrow> admin_req \<Rightarrow> db \<Rightarrow> admin_out option" where
  "admin_api e m path q d =
     (case path of
        [r, i] \<Rightarrow>
          if r = ''keys'' \<and> m = ''DELETE'' then Some (key_DELETE, d, [])
          else map_option (\<lambda>(h, inval). withAdmin e h inval q d) (admin_handler e m path)
      | _ \<Rightarrow> map_option (\<lambda>(h, inval). withAdmin e h inval q d) (admin_handler e m path))"

section \<open>Lemmas\<close>

lemma answer_Inr: "answer d r f = Inr (res, d') \<Longrightarrow> d' = d"
  by (cases r) (auto simp: answer_def)

lemma changed_Inr: "changed r f = Inr (res, d') \<longleftrightarrow> (\<exists>v. r = Inr (v, d') \<and> res = f v)"
  by (cases r) (auto simp: changed_def)

lemma removed_Inr: "removed r = Inr (res, d') \<longleftrightarrow> r = Inr d' \<and> res = no_content"
  by (cases r) (auto simp: removed_def)

lemma page_route_Inr: "page_route s rid b q d = Inr (res, d') \<Longrightarrow> d' = d"
  by (auto simp: page_route_def dest: answer_Inr split: option.split_asm)

text \<open>A handler that reads, and a handler that either changes as a service does or refuses.\<close>

definition reads :: "handler \<Rightarrow> bool" where
  "reads h = (\<forall>a q d res d'. h a q d = Inr (res, d') \<longrightarrow> d' = d)"

definition writes :: "handler \<Rightarrow> bool" where
  "writes h = (\<forall>a q d res d'. h a q d = Inr (res, d') \<longrightarrow> (if res_ok res then svc_change a d d' else d' = d))"

lemmas read_handlers = flocks_GET_def flock_GET_def keys_GET_def paddocks_GET_def paddock_GET_def fence_GET_def templates_GET_def
  usage_matrix_GET_def usage_daily_GET_def usage_top_keys_GET_def

lemma reading_handlers:
  "reads flocks_GET" "reads (flock_GET i)" "reads keys_GET" "reads paddocks_GET" "reads (paddock_GET i)" "reads (fence_GET i)"
  "reads (templates_GET i)" "reads (usage_matrix_GET e)" "reads usage_daily_GET" "reads usage_top_keys_GET"
  unfolding reads_def read_handlers
  by (auto dest: answer_Inr page_route_Inr split: sum.split_asm option.split_asm prod.split_asm)

lemma res_oks: "res_ok (json_res 200 hs b)" "res_ok (json_res 201 hs b)" "res_ok no_content" "\<not> res_ok (problem 422 t dt x hs)"
  by (simp_all add: res_ok_def json_res_def no_content_def problem_def)

lemmas change_intros = saveFlock_change deleteFlock_change createKey_change revokeKey_change deletePaddock_change setPaddockStatus_change
  saveFence_change saveTemplate_change deleteTemplate_change

lemma writing_handlers:
  "writes (flocks_POST e)" "writes (flock_PUT e i)" "writes (flock_DELETE i)" "writes (keys_POST e)" "writes (key_revoke_POST i)"
  "writes (paddock_DELETE i)" "writes (status_PUT i)" "writes (fence_PUT i)" "writes (templates_POST e i)" "writes (template_PUT e i t)"
  "writes (template_DELETE i t)"
  unfolding writes_def flocks_POST_def flock_PUT_def flock_DELETE_def keys_POST_def key_revoke_POST_def paddock_DELETE_def status_PUT_def
    fence_PUT_def templates_POST_def template_PUT_def template_DELETE_def
  by (auto simp: changed_Inr removed_Inr res_oks intro: change_intros split: sum.split_asm option.split_asm if_split_asm)

lemma paddock_writing_handlers:
  assumes "lower (ae_newId e) = ae_newId e"
  shows "writes (paddocks_POST e)" "writes (paddock_PUT e i)"
  unfolding writes_def paddocks_POST_def paddock_PUT_def
  by (auto simp: changed_Inr res_oks intro: savePaddock_change [OF _ assms] split: sum.split_asm if_split_asm)

text \<open>Every module of the router: without an invalidation it reads, with one it writes.\<close>

lemma admin_handler_kinds:
  assumes "admin_handler e m path = Some (h, inval)" and "lower (ae_newId e) = ae_newId e"
  shows "if inval = None then reads h else writes h"
  using assms(1) reading_handlers writing_handlers paddock_writing_handlers [OF assms(2)]
  by (simp add: admin_handler_def split: list.split_asm if_split_asm) auto

lemma verifyAdminToken_Inr:
  assumes "verifyAdminToken e jwt = Inr c"
  obtains cfg hdr p where "ae_settings e = Inr cfg" and "jo_verify (ae_jose e) jwt = Verified hdr p" and "getp hdr ''alg'' = Str ''RS256''"
    and "audience_ok (getp p ''aud'') (adminApiResource (oc_consoleUrl cfg))" and "getp p ''client_id'' = Str CLI_CLIENT_ID"
    and "getp p ''sub'' = Str (al_sub c)" and "al_scope c = as_str (getp p ''scope'')"
proof -
  from assms obtain cfg p where s: "ae_settings e = Inr cfg"
    and v: "verify_access_token (ae_jose e) (ae_now e) jwt (adminApiResource (oc_consoleUrl cfg)) = Claims p"
    and c: "getp p ''client_id'' = Str CLI_CLIENT_ID" "usable_str (getp p ''sub'') = Some (al_sub c)" "al_scope c = as_str (getp p ''scope'')"
    by (auto simp: verifyAdminToken_def split: sum.split_asm verify_out.split_asm if_split_asm option.split_asm)
  from c(2) have "getp p ''sub'' = Str (al_sub c)" by (auto simp: usable_str_def split: js.split_asm if_split_asm)
  with s v c show thesis by (auto simp: verify_Claims intro: that)
qed

lemma loadActiveActor_Some:
  assumes "loadActiveActor d uid cred = Some a"
  obtains u where "u \<in> set (users d)" and "u_id u = lower uid" and "u_status u = ActiveUser" and "ac_id a = u_id u"
    and "ac_orgId a = u_orgId u" and "ac_email a = u_email u" and "ac_role a = u_role u" and "ac_credential a = cred"
proof -
  from assms obtain u where "sel1 (\<lambda>u. u_id u = lower uid) (users d) = Some u" "u_status u = ActiveUser"
    "a = \<lparr>ac_id = u_id u, ac_orgId = u_orgId u, ac_email = u_email u, ac_role = u_role u, ac_grants = None, ac_credential = cred\<rparr>"
    by (auto simp: loadActiveActor_def split: if_split_asm option.split_asm)
  with sel1_Some [OF this(1)] show thesis by (intro that [of u]) simp_all
qed

lemma cap_str_inj: "cap_str c = cap_str c' \<longleftrightarrow> c = c'"
  by (metis cap_of_str option.inject)

lemma no_scope: "grantsFromScope None = []"
  by (simp add: grantsFromScope_def scope_words_def cap_of_def CAPABILITIES_def List.map_filter_def)

lemma grant_words: "c \<in> set (grantsFromScope (Some s)) \<longleftrightarrow> cap_str c \<in> set (scope_words s)"
proof -
  have "c \<in> set (List.map_filter cap_of ws) \<longleftrightarrow> cap_str c \<in> set ws" for ws
    by (induction ws) (auto simp: cap_of_Some cap_of_str cap_str_inj split: option.split)
  then show ?thesis by (simp add: grantsFromScope_def)
qed

text \<open>The requests the wrapper lets through to a writing handler.\<close>

lemma may_write_admin:
  assumes "actorFromToken e d jwt = Inr a" and "may a CapResourceWrite"
  obtains cfg hdr p s x u where "ae_settings e = Inr cfg" and "jo_verify (ae_jose e) jwt = Verified hdr p" and "getp hdr ''alg'' = Str ''RS256''"
    and "audience_ok (getp p ''aud'') (adminApiResource (oc_consoleUrl cfg))" and "getp p ''client_id'' = Str CLI_CLIENT_ID"
    and "getp p ''scope'' = Str s" and "''resource.write'' \<in> set (scope_words s)"
    and "u \<in> set (users d)" and "getp p ''sub'' = Str x" and "u_id u = lower x"
    and "u_status u = ActiveUser" and "u_role u \<noteq> Viewer" and "ac_orgId a = u_orgId u" and "ac_email a = u_email u"
proof -
  from assms(1) obtain c b where c: "verifyAdminToken e jwt = Inr c" and b: "loadActiveActor d (al_sub c) (credentialOf c) = Some b"
    and a: "a = b\<lparr>ac_grants := Some (grantsFromScope (al_scope c))\<rparr>"
    by (auto simp: actorFromToken_def split: sum.split_asm option.split_asm)
  from b obtain u where u: "u \<in> set (users d)" "u_id u = lower (al_sub c)" "u_status u = ActiveUser" "ac_orgId b = u_orgId u"
    "ac_email b = u_email u" "ac_role b = u_role u" by (rule loadActiveActor_Some)
  from assms(2) a u have w: "CapResourceWrite \<in> set (grantsFromScope (al_scope c))" "u_role u \<noteq> Viewer"
    by (auto simp: may_def authorize_def)
  then obtain s where s: "al_scope c = Some s" by (cases "al_scope c") (auto simp: no_scope)
  with w(1) have "''resource.write'' \<in> set (scope_words s)" using grant_words [of CapResourceWrite s] by simp
  moreover from c obtain cfg hdr p where v: "ae_settings e = Inr cfg" "jo_verify (ae_jose e) jwt = Verified hdr p" "getp hdr ''alg'' = Str ''RS256''"
    "audience_ok (getp p ''aud'') (adminApiResource (oc_consoleUrl cfg))" "getp p ''client_id'' = Str CLI_CLIENT_ID"
    "getp p ''sub'' = Str (al_sub c)" "al_scope c = as_str (getp p ''scope'')" by (rule verifyAdminToken_Inr)
  moreover have "getp p ''scope'' = Str s" using v(7) s by (metis as_str_Some)
  ultimately show thesis using u w(2) a v(6) by (intro that [OF v(1-5)]) simp_all
qed

section \<open>Properties\<close>

text \<open>
  C5. Nothing changes over the admin API without authority, and never outside the organization: a request
  that changed the database or published an invalidation carried a bearer token and no session cookie; the
  token verified for this API, was issued to the admin CLI with the scope \<open>resource.write\<close>, and
  names an active user whose role may write; the change is audited in that user's name, keeps every
  flock, paddock, fence, key, user and audit row of every other organization, and keeps every paddock on a flock,
  and every fence on a paddock, of its own organization.
\<close>

theorem admin_changes_authorized:
  assumes "admin_api e m path q d = Some (res, d', pubs)" and "lower (ae_newId e) = ae_newId e" and "d' \<noteq> d \<or> pubs \<noteq> []"
  shows "res_ok res \<and> \<not> hasSessionCookie q \<and>
    (\<exists>jwt cfg hdr p s x u. bearerOf q = Some jwt \<and> ae_settings e = Inr cfg \<and> jo_verify (ae_jose e) jwt = Verified hdr p \<and>
       audience_ok (getp p ''aud'') (adminApiResource (oc_consoleUrl cfg)) \<and> getp p ''client_id'' = Str CLI_CLIENT_ID \<and>
       getp p ''scope'' = Str s \<and> ''resource.write'' \<in> set (scope_words s) \<and> getp p ''sub'' = Str x \<and>
       u \<in> set (users d) \<and> u_id u = lower x \<and> u_status u = ActiveUser \<and> u_role u \<noteq> Viewer \<and>
       (d' = d \<or> (\<exists>a. ac_orgId a = u_orgId u \<and> ac_email a = u_email u \<and> audited_by a d d')) \<and>
       (tenants_ok d \<longrightarrow> tenants_ok d' \<and> org_only (u_orgId u) d d'))"
proof -
  from assms(1,3) obtain h inval where h: "admin_handler e m path = Some (h, inval)" and w: "withAdmin e h inval q d = (res, d', pubs)"
    by (auto simp: admin_api_def split: list.split_asm if_split_asm)
  from w assms(3) obtain jwt a where b: "bearerOf q = Some jwt" "\<not> hasSessionCookie q" "actorFromToken e d jwt = Inr a"
    and r: "h a q d = Inr (res, d')" and p: "pubs = (if res_ok res then (case inval of None \<Rightarrow> [] | Some r \<Rightarrow> [r]) else [])"
    by (auto simp: withAdmin_def split: option.split_asm if_split_asm sum.split_asm)
  have "inval \<noteq> None" "res_ok res"
    using assms(3) p admin_handler_kinds [OF h assms(2)] r by (auto simp: reads_def writes_def split: if_split_asm)
  with admin_handler_kinds [OF h assms(2)] r have ch: "svc_change a d d'" by (auto simp: writes_def)
  then have "may a CapResourceWrite" by (simp add: svc_change_def)
  with b(3) obtain cfg hdr p s x u where v: "ae_settings e = Inr cfg" "jo_verify (ae_jose e) jwt = Verified hdr p" "getp hdr ''alg'' = Str ''RS256''"
    "audience_ok (getp p ''aud'') (adminApiResource (oc_consoleUrl cfg))" "getp p ''client_id'' = Str CLI_CLIENT_ID"
    "getp p ''scope'' = Str s" "''resource.write'' \<in> set (scope_words s)" "u \<in> set (users d)" "getp p ''sub'' = Str x" "u_id u = lower x"
    "u_status u = ActiveUser" "u_role u \<noteq> Viewer" "ac_orgId a = u_orgId u" "ac_email a = u_email u" by (rule may_write_admin)
  have c: "d' = d \<or> audited_by a d d'" "tenants_ok d \<longrightarrow> tenants_ok d' \<and> org_only (u_orgId u) d d'"
    using ch v(13) by (simp_all add: svc_change_def)
  show ?thesis
    by (intro conjI [OF \<open>res_ok res\<close>] conjI [OF b(2)] exI [of _ jwt] exI [of _ cfg] exI [of _ hdr] exI [of _ p] exI [of _ s] exI [of _ x] exI [of _ u])
      (use b(1) v c in blast)
qed

definition demo_token :: js where
  "demo_token = Obj [(''aud'', Str ''https://c/api/admin''), (''client_id'', Str CLI_CLIENT_ID), (''scope'', Str ''read resource.write''),
     (''sub'', Str ''00000000-0000-4000-8000-000000000001''), (''exp'', NumI 100)]"

definition demo_admin_env :: "js \<Rightarrow> admin_env" where
  "demo_admin_env token = \<lparr>ae_settings = Inr demo_oidc, ae_consoleUrl = None, ae_parse_url = (\<lambda>s. None),
     ae_jose = \<lparr>jo_decode = (\<lambda>t. Some token), jo_coolingDown = False, jo_verify = (\<lambda>t. Verified (Obj [(''alg'', Str ''RS256'')]) token)\<rparr>,
     ae_now = 0, ae_issues = Arr [], ae_crypto = demo_crypto, ae_ring = demo_ring, ae_url_ok = (\<lambda>s. True), ae_iv = ''i'',
     ae_newId = demo_uuid, ae_random = ''r'', ae_sha256 = id, ae_datetime = (\<lambda>s. None), ae_json = (\<lambda>s. None), ae_localeCompare = (\<lambda>x y. 0)\<rparr>"

definition demo_admin_req :: "js option \<Rightarrow> admin_req" where
  "demo_admin_req body = \<lparr>aq_auth = Some ''Bearer t'', aq_cookie = None, aq_path = [], aq_query = [], aq_body = body\<rparr>"

definition demo_admin_db :: db where
  "demo_admin_db = demo_paddock_db\<lparr>users := [\<lparr>u_id = ''00000000-0000-4000-8000-000000000001'', u_orgId = demo_uuid, u_email = ''e'',
     u_passwordHash = ''h'', u_role = Member, u_status = ActiveUser, u_createdAt = 0\<rparr>]\<rparr>"

lemma demo_admin_requests:
  "case admin_api (demo_admin_env demo_token) ''DELETE'' [''paddocks'', demo_uuid] (demo_admin_req None) demo_admin_db of
     None \<Rightarrow> False | Some (res, d', pubs) \<Rightarrow> paddocks d' = [] \<and> pubs = [''paddock.delete'']"
  "bearerOf (demo_admin_req None) = Some ''t''" "\<not> hasSessionCookie (demo_admin_req None)" "lower demo_uuid = demo_uuid"
  by code_simp+

theorem admin_changes_authorized_witness:
  "case admin_api (demo_admin_env demo_token) ''DELETE'' [''paddocks'', demo_uuid] (demo_admin_req None) demo_admin_db of
     None \<Rightarrow> False | Some (res, d', pubs) \<Rightarrow> res_ok res \<and> pubs \<noteq> []"
proof -
  obtain res d' pubs where r: "admin_api (demo_admin_env demo_token) ''DELETE'' [''paddocks'', demo_uuid] (demo_admin_req None) demo_admin_db = Some (res, d', pubs)"
    and p: "pubs \<noteq> []"
    using demo_admin_requests(1) by (auto split: option.split_asm prod.split_asm)
  have "lower (ae_newId (demo_admin_env demo_token)) = ae_newId (demo_admin_env demo_token)"
    using demo_admin_requests(4) by (simp add: demo_admin_env_def)
  from admin_changes_authorized [OF r this] p r show ?thesis by simp
qed



text \<open>
  An edit never moves the switch: whatever status the body of a paddock's PUT carries, every paddock of
  the database keeps its status, so only the status route enables or disables one.
\<close>

theorem paddock_put_keeps_status:
  assumes "admin_api e ''PUT'' [''paddocks'', i] q d = Some (res, d', pubs)" and "p \<in> set (paddocks d)"
  shows "\<exists>p' \<in> set (paddocks d'). p_id p' = p_id p \<and> p_status p' = p_status p"
proof (cases "d' = d")
  case True
  with assms(2) show ?thesis by blast
next
  case False
  from assms(1) have "withAdmin e (paddock_PUT e i) (Some ''paddock.save'') q d = (res, d', pubs)"
    by (simp add: admin_api_def admin_handler_def)
  with False obtain a where "paddock_PUT e i a q d = Inr (res, d')"
    by (auto simp: withAdmin_def split: option.split_asm if_split_asm sum.split_asm)
  then obtain kvs j r where s: "savePaddock (ae_newId e) d a (Obj (assoc_set (assoc_del kvs ''status'') ''id'' (Str j))) = Inr (r, d')"
    by (auto simp: paddock_PUT_def changed_Inr split: sum.split_asm)
  show ?thesis by (rule savePaddock_status [OF s _ assms(2)]) simp
qed

theorem paddock_put_keeps_status_witness:
  "case admin_api (demo_admin_env demo_token) ''PUT'' [''paddocks'', demo_uuid]
       (demo_admin_req (Some (Obj [(''flockId'', Str demo_uuid), (''name'', Str ''New''), (''slug'', Str ''pad''), (''status'', Str ''active'')]))) demo_admin_db of
     None \<Rightarrow> False | Some (res, d', pubs) \<Rightarrow> list_ex (\<lambda>p. p_id p = demo_uuid \<and> p_status p = DisabledPaddock) (paddocks d')"
proof -
  let ?q = "demo_admin_req (Some (Obj [(''flockId'', Str demo_uuid), (''name'', Str ''New''), (''slug'', Str ''pad''), (''status'', Str ''active'')]))"
  have "case admin_api (demo_admin_env demo_token) ''PUT'' [''paddocks'', demo_uuid] ?q demo_admin_db of None \<Rightarrow> False | Some x \<Rightarrow> True" by code_simp
  then obtain res d' pubs where r: "admin_api (demo_admin_env demo_token) ''PUT'' [''paddocks'', demo_uuid] ?q demo_admin_db = Some (res, d', pubs)"
    by (auto split: option.split_asm)
  have "hd (paddocks demo_admin_db) \<in> set (paddocks demo_admin_db)" "p_id (hd (paddocks demo_admin_db)) = demo_uuid"
    "p_status (hd (paddocks demo_admin_db)) = DisabledPaddock" by (simp_all add: demo_admin_db_def demo_paddock_db_def)
  with paddock_put_keeps_status [OF r, of "hd (paddocks demo_admin_db)"] r show ?thesis by (auto simp: list_ex_iff)
qed

end
