(* ===== verification/Consent.thy ===== *)
theory Consent
  imports AdminApi
begin

text \<open>
  The control plane's internal routes, which the OpenID provider calls when a user approves an MCP client
  (apps/control-plane/src/server/replay-guard.ts, consent-assertion.ts, internal-route.ts and the route
  modules under app/api/internal/v1/oauth-keys). An assertion is a signed token; the replay guard, in Redis
  or in the process, lets each through once. The locale \<open>claim_guard\<close> is what the routes need of a
  guard; both guards are interpretations of it.
\<close>

section \<open>Replay guards (replay-guard.ts)\<close>

text \<open>How a Redis command ends: answered, run with its answer lost (the client's timeout), or never run.\<close>

datatype redis_call = Answered | AnswerLost | NotRun

type_synonym expiring = "(string \<times> int) list"

text \<open>\<open>SET key 1 EX ttl NX\<close> at a time: Redis drops a key once its time has passed.\<close>

definition set_nx :: "expiring \<Rightarrow> int \<Rightarrow> string \<Rightarrow> int \<Rightarrow> bool \<times> expiring" where
  "set_nx kv now k ttl =
     (case map_of kv k of
        Some u \<Rightarrow> if now \<le> u then (False, kv) else (True, assoc_set kv k (now + ttl * 1000))
      | None \<Rightarrow> (True, assoc_set kv k (now + ttl * 1000)))"

definition jti_key :: "string \<Rightarrow> string" where
  "jti_key jti = ''mm:consent-jti:'' @ jti"

definition claimOnce_redis :: "redis_call \<Rightarrow> expiring \<Rightarrow> int \<Rightarrow> string \<Rightarrow> int \<Rightarrow> bool option \<times> expiring" where
  "claimOnce_redis c kv now jti ttl =
     (let (fresh, kv') = set_nx kv now (jti_key jti) ttl in
      case c of Answered \<Rightarrow> (Some fresh, kv') | AnswerLost \<Rightarrow> (None, kv') | NotRun \<Rightarrow> (None, kv))"

definition claimOnce_memory :: "expiring \<Rightarrow> int \<Rightarrow> string \<Rightarrow> int \<Rightarrow> bool \<times> expiring" where
  "claimOnce_memory seen now jti ttl =
     (let live = filter (\<lambda>(k, until). now < until) seen in
      if map_of live jti \<noteq> None then (False, live) else (True, assoc_set live jti (now + ttl * 1000)))"

datatype replay_guard = RedisReplayGuard expiring | MemoryReplayGuard expiring

fun claimOnce :: "redis_call \<Rightarrow> replay_guard \<Rightarrow> int \<Rightarrow> string \<Rightarrow> int \<Rightarrow> bool option \<times> replay_guard" where
  "claimOnce c (RedisReplayGuard kv) now jti ttl = (let (r, kv') = claimOnce_redis c kv now jti ttl in (r, RedisReplayGuard kv'))"
| "claimOnce c (MemoryReplayGuard m) now jti ttl = (let (r, m') = claimOnce_memory m now jti ttl in (Some r, MemoryReplayGuard m'))"

section \<open>The contract of a guard\<close>

text \<open>A claim honoured is remembered for its time; while it is remembered no other claim is honoured.\<close>

locale claim_guard =
  fixes claim :: "'w \<Rightarrow> 's \<Rightarrow> int \<Rightarrow> string \<Rightarrow> int \<Rightarrow> bool option \<times> 's"
    and until :: "'s \<Rightarrow> string \<Rightarrow> int option"
  assumes claim_remembers: "claim w s now j ttl = (Some True, s') \<Longrightarrow> until s' j = Some (now + ttl * 1000)"
    and claim_refuses: "claim w s now j ttl = (r, s') \<Longrightarrow> until s j = Some u \<Longrightarrow> now < u \<Longrightarrow> r \<noteq> Some True"
    and claim_keeps: "claim w s now j ttl = (r, s') \<Longrightarrow> until s k = Some u \<Longrightarrow> now < u \<Longrightarrow> until s' k = Some u"
begin

text \<open>What is remembered stays so over steps that leave the guard alone or claim before its time is over.\<close>

lemma kept_by_steps:
  assumes "until s j = Some u"
    and "\<And>x s. x \<in> set xs \<Longrightarrow> step x s = s \<or> (\<exists>w now k ttl. step x s = snd (claim w s now k ttl) \<and> now < u)"
  shows "until (fold step xs s) j = Some u"
  using assms
proof (induction xs arbitrary: s)
  case Nil
  then show ?case by simp
next
  case (Cons x xs)
  consider "step x s = s" | w now k ttl where "step x s = snd (claim w s now k ttl)" "now < u"
    using Cons.prems(2) [of x s] by auto
  then have "until (step x s) j = Some u"
    by cases (use Cons.prems(1) claim_keeps [OF prod.collapse [symmetric]] in simp_all)
  from Cons.IH [OF this] Cons.prems(2) show ?case by simp
qed

lemma remembered_refused:
  "until s j = Some u \<Longrightarrow> now < u \<Longrightarrow> fst (claim w s now j ttl) \<noteq> Some True"
  using claim_refuses [OF prod.collapse [symmetric]] by blast

end

fun until :: "replay_guard \<Rightarrow> string \<Rightarrow> int option" where
  "until (RedisReplayGuard kv) j = map_of kv (jti_key j)"
| "until (MemoryReplayGuard m) j = map_of m j"

lemma jti_key_inj [simp]: "jti_key j = jti_key k \<longleftrightarrow> j = k"
  by (simp add: jti_key_def)

lemma map_of_live: "map_of m k = Some u \<Longrightarrow> now < u \<Longrightarrow> map_of (filter (\<lambda>(k, until). now < (until :: int)) m) k = Some u"
  by (induction m) auto

interpretation redis: claim_guard claimOnce_redis "\<lambda>kv j. map_of kv (jti_key j)"
  by unfold_locales (auto simp: claimOnce_redis_def set_nx_def split: option.split_asm if_split_asm redis_call.split_asm)

interpretation memory: claim_guard "\<lambda>(w :: unit) s now j ttl. map_prod Some id (claimOnce_memory s now j ttl)" map_of
  by unfold_locales (auto simp: claimOnce_memory_def Let_def map_of_live dest: map_of_live split: if_split_asm)

lemma claimOnce_cases:
  assumes "claimOnce w s now j ttl = (r, s')"
  obtains kv kv' where "s = RedisReplayGuard kv" and "s' = RedisReplayGuard kv'" and "claimOnce_redis w kv now j ttl = (r, kv')"
  | m m' where "s = MemoryReplayGuard m" and "s' = MemoryReplayGuard m'" and "map_prod Some id (claimOnce_memory m now j ttl) = (r, m')"
  using assms by (cases s) (auto split: prod.split_asm)

interpretation guard: claim_guard claimOnce until
proof
  fix w s now j ttl s'
  assume "claimOnce w s now j ttl = (Some True, s')"
  then show "until s' j = Some (now + ttl * 1000)"
    by (cases rule: claimOnce_cases) (simp_all add: redis.claim_remembers memory.claim_remembers)
next
  fix w s now j ttl s' r u
  assume "claimOnce w s now j ttl = (r, s')" "until s j = Some u" "now < u"
  then show "r \<noteq> Some True"
    by (cases rule: claimOnce_cases) (simp_all add: redis.claim_refuses memory.claim_refuses)
next
  fix w s now j ttl s' r u k
  assume "claimOnce w s now j ttl = (r, s')" "until s k = Some u" "now < u"
  then show "until s' k = Some u"
    by (cases rule: claimOnce_cases) (simp_all add: redis.claim_keeps memory.claim_keeps)
qed

section \<open>Consent assertions (consent-assertion.ts)\<close>

definition MAX_ASSERTION_LIFETIME_S :: int where
  "MAX_ASSERTION_LIFETIME_S = 60"

record consent_claims =
  cl_sub :: string
  cl_clientId :: string
  cl_clientName :: string
  cl_resource :: string
  cl_jti :: string
  cl_exp :: jnum
  cl_grantId :: "string option"

record internal_env =
  ie_admin :: admin_env
  ie_jose :: jose
  ie_dataPlaneUrl :: "string option"
  ie_redis :: redis_call

text \<open>
  Both bounds on the life. The numbers are doubles: where a difference is near the bound it is exact, so
  the comparison agrees with the one on rationals.
\<close>

definition within_lifetime :: "int \<Rightarrow> jnum \<Rightarrow> jnum \<Rightarrow> bool" where
  "within_lifetime now iat expy =
     (\<not> jnum_less (Fin (of_int MAX_ASSERTION_LIFETIME_S)) (jnum_sub expy iat) \<and>
      \<not> jnum_less (Fin (of_int MAX_ASSERTION_LIFETIME_S)) (jnum_sub expy (Fin (of_int (now div 1000)))))"

definition verifyConsentAssertion :: "internal_env \<Rightarrow> bool \<Rightarrow> string \<Rightarrow> admin_error + consent_claims" where
  "verifyConsentAssertion e requireGrant jwt =
     (case ae_settings (ie_admin e) of
        Inl x \<Rightarrow> Inl OtherError
      | Inr cfg \<Rightarrow>
          (case verify_access_token (ie_jose e) (ae_now (ie_admin e)) jwt (internalApiAudience (oc_consoleUrl cfg)) of
             TokenRefused r \<Rightarrow> Inl (BadToken r)
           | KeySetUnavailable r miss \<Rightarrow> Inl (KeysDown r miss)
           | Claims p \<Rightarrow>
               (case (as_num (getp p ''iat''), as_num (getp p ''exp'')) of
                  (Some iat, Some expy) \<Rightarrow>
                    if \<not> within_lifetime (ae_now (ie_admin e)) iat expy then Inl (BadToken ''assertion lifetime is not within 60 s'')
                    else (case (usable_str (getp p ''sub''), usable_str (getp p ''client_id''), usable_str (getp p ''client_name''),
                          usable_str (getp p ''resource''), usable_str (getp p ''jti'')) of
                        (Some sub, Some cid, Some nm, Some res, Some jti) \<Rightarrow>
                          if requireGrant \<and> usable_str (getp p ''grant_id'') = None then Inl (BadToken ''assertion names no grant'')
                          else Inr \<lparr>cl_sub = sub, cl_clientId = cid, cl_clientName = nm, cl_resource = res, cl_jti = jti, cl_exp = expy,
                              cl_grantId = usable_str (getp p ''grant_id'')\<rparr>
                      | _ \<Rightarrow> Inl (BadToken ''assertion is missing a claim''))
                | _ \<Rightarrow> Inl (BadToken ''assertion lifetime is not within 60 s''))))"

section \<open>The wrapper (internal-route.ts)\<close>

definition REPLAY_WINDOW_SECONDS :: int where
  "REPLAY_WINDOW_SECONDS = 120"

definition REPLAY_GUARD_RETRY_AFTER_SECONDS :: string where
  "REPLAY_GUARD_RETRY_AFTER_SECONDS = ''5''"

definition refused :: admin_res where
  "refused = problem 401 ''Unauthorized'' (Some ''the consent assertion was rejected'') [] [(''www-authenticate'', ''Bearer'')]"

definition guard_unavailable :: admin_res where
  "guard_unavailable = problem 503 ''Service Unavailable'' (Some ''the consent assertion cannot be checked right now; retry after the Retry-After interval'')
     [] [(''retry-after'', REPLAY_GUARD_RETRY_AFTER_SECONDS)]"

definition consent_credential :: "consent_claims \<Rightarrow> string" where
  "consent_credential c = ''consent:'' @ cl_clientId c @ '':'' @ (case cl_grantId c of None \<Rightarrow> ''preflight'' | Some g \<Rightarrow> g)"

type_synonym internal_handler = "consent_claims \<Rightarrow> actor \<Rightarrow> db \<Rightarrow> admin_error + admin_res \<times> db \<times> string list"

text \<open>The answer (none when the error is thrown on to the framework), the database, what was published, the guard.\<close>

type_synonym internal_out = "admin_res option \<times> db \<times> string list \<times> replay_guard"

definition withConsentAssertion :: "internal_handler \<Rightarrow> bool \<Rightarrow> internal_env \<Rightarrow> admin_req \<Rightarrow> db \<Rightarrow> replay_guard \<Rightarrow> internal_out" where
  "withConsentAssertion h requireGrant e q d g =
     (case bearerOf q of
        None \<Rightarrow> (Some refused, d, [], g)
      | Some jwt \<Rightarrow>
          if hasSessionCookie q
          then (Some (problem 400 ''Bad Request'' (Some ''a request may present a bearer token or a session cookie, never both'') [] []), d, [], g)
          else (case verifyConsentAssertion e requireGrant jwt of
              Inl (KeysDown r miss) \<Rightarrow> (Some (problemForError (ie_admin e) (KeysDown r miss)), d, [], g)
            | Inl (BadToken r) \<Rightarrow> (Some refused, d, [], g)
            | Inl _ \<Rightarrow> (None, d, [], g)
            | Inr c \<Rightarrow>
                (let (first, g') = claimOnce (ie_redis e) g (ae_now (ie_admin e)) (cl_jti c) REPLAY_WINDOW_SECONDS in
                 case first of
                   None \<Rightarrow> (Some guard_unavailable, d, [], g')
                 | Some False \<Rightarrow> (Some refused, d, [], g')
                 | Some True \<Rightarrow>
                     (case loadActiveActor d (cl_sub c) (consent_credential c) of
                        None \<Rightarrow> (Some refused, d, [], g')
                      | Some a \<Rightarrow>
                          (case h c a d of
                             Inl x \<Rightarrow> (Some (problemForError (ie_admin e) x), d, [], g')
                           | Inr (res, d', pubs) \<Rightarrow> (Some res, d', pubs, g'))))))"

section \<open>The routes (app/api/internal/v1/oauth-keys)\<close>

definition loadDataPlaneUrl :: "internal_env \<Rightarrow> origin_error + string" where
  "loadDataPlaneUrl e = requireOrigin (ae_parse_url (ie_admin e)) (ie_dataPlaneUrl e)"

text \<open>The wrapper has seen to it that the assertion names a grant.\<close>

definition mint_input_of :: "consent_claims \<Rightarrow> string \<Rightarrow> mint_input" where
  "mint_input_of c slug = \<lparr>mi_clientId = cl_clientId c, mi_clientName = cl_clientName c, mi_paddockSlug = slug,
     mi_grantId = (case cl_grantId c of None \<Rightarrow> [] | Some g \<Rightarrow> g)\<rparr>"

definition oauth_keys_POST :: "internal_env \<Rightarrow> internal_handler" where
  "oauth_keys_POST e c a d =
     (case loadDataPlaneUrl e of
        Inl x \<Rightarrow> Inl OtherError
      | Inr base \<Rightarrow>
          (case parseMcpResource base (cl_resource c) of
             None \<Rightarrow> Inl (Service (NotFound ''paddock''))
           | Some slug \<Rightarrow>
               (case mintOauthKey (ae_sha256 (ie_admin e)) (ae_random (ie_admin e)) (ae_newId (ie_admin e)) d a (mint_input_of c slug) of
                  Inl x \<Rightarrow> Inl (Service x)
                | Inr ((keyId, outcome), d') \<Rightarrow>
                    Inr (json_res 200 [] (KeyIdBody keyId), d', [if outcome = Created then ''key.create'' else ''key.rebind'']))))"

definition PREFLIGHT_NO_CAPABILITY :: string where
  "PREFLIGHT_NO_CAPABILITY = ''Your role cannot approve apps. Ask an admin or a member of your organization to connect this one.''"

definition CONSENT_PADDOCK_REFUSAL :: string where
  "CONSENT_PADDOCK_REFUSAL = ''This paddock does not exist, is disabled, or is not in your organization.''"

fun preflight_body :: "preflight \<Rightarrow> admin_body" where
  "preflight_body PreflightAllowed = PreflightBody True None"
| "preflight_body NoCapability = PreflightBody False (Some PREFLIGHT_NO_CAPABILITY)"
| "preflight_body NoPaddock = PreflightBody False (Some CONSENT_PADDOCK_REFUSAL)"

definition preflight_GET :: "internal_env \<Rightarrow> internal_handler" where
  "preflight_GET e c a d =
     (case loadDataPlaneUrl e of
        Inl x \<Rightarrow> Inl OtherError
      | Inr base \<Rightarrow> Inr (json_res 200 [] (preflight_body (preflightOauthKey d a (parseMcpResource base (cl_resource c)))), d, []))"

datatype internal_call = Mint | Preflight

definition internal_api :: "internal_env \<Rightarrow> internal_call \<Rightarrow> admin_req \<Rightarrow> db \<Rightarrow> replay_guard \<Rightarrow> internal_out" where
  "internal_api e call q d g =
     (case call of
        Mint \<Rightarrow> withConsentAssertion (oauth_keys_POST e) True e q d g
      | Preflight \<Rightarrow> withConsentAssertion (preflight_GET e) False e q d g)"

text \<open>The guard after a list of requests, each against the database of its moment.\<close>

definition internal_step :: "internal_env \<times> internal_call \<times> admin_req \<times> db \<Rightarrow> replay_guard \<Rightarrow> replay_guard" where
  "internal_step x g = (case x of (e, call, q, d) \<Rightarrow> snd (snd (snd (internal_api e call q d g))))"

section \<open>Lemmas\<close>

text \<open>A request either leaves the guard alone and changes nothing, or claims its assertion first.\<close>

lemma with_assertion_cases:
  assumes "withConsentAssertion h rg e q d g = (r, d', pubs, g')"
  obtains (refused) "g' = g" "d' = d" "pubs = []" "\<And>res. r = Some res \<Longrightarrow> \<not> res_ok res"
  | (unclaimed) jwt c where "bearerOf q = Some jwt" "verifyConsentAssertion e rg jwt = Inr c"
      "claimOnce (ie_redis e) g (ae_now (ie_admin e)) (cl_jti c) REPLAY_WINDOW_SECONDS = (fst (claimOnce (ie_redis e) g (ae_now (ie_admin e)) (cl_jti c) REPLAY_WINDOW_SECONDS), g')"
      "d' = d" "pubs = []" "\<And>res. r = Some res \<Longrightarrow> \<not> res_ok res"
  | (claimed) jwt c a res where "bearerOf q = Some jwt" "\<not> hasSessionCookie q" "verifyConsentAssertion e rg jwt = Inr c"
      "claimOnce (ie_redis e) g (ae_now (ie_admin e)) (cl_jti c) REPLAY_WINDOW_SECONDS = (Some True, g')"
      "loadActiveActor d (cl_sub c) (consent_credential c) = Some a" "h c a d = Inr (res, d', pubs)" "r = Some res"
proof -
  have bad: "\<not> res_ok (problem st t dt x hs)" if "300 \<le> st" for st t dt x hs
    using that by (simp add: res_ok_def problem_def)
  have err: "\<not> res_ok (problemForError ev x)" for ev x
    by (auto simp: problemForError_def unauthorized_def bad split: admin_error.split svc_error.split)
  note bads = bad err refused_def guard_unavailable_def
  show thesis
  proof (cases "\<exists>jwt c. bearerOf q = Some jwt \<and> \<not> hasSessionCookie q \<and> verifyConsentAssertion e rg jwt = Inr c")
    case False
    with assms have "g' = g \<and> d' = d \<and> pubs = [] \<and> (\<forall>res. r = Some res \<longrightarrow> \<not> res_ok res)"
      by (auto simp: withConsentAssertion_def bads split: option.split_asm if_split_asm sum.split_asm admin_error.split_asm)
    then show thesis by (intro refused) auto
  next
    case True
    then obtain jwt c where c: "bearerOf q = Some jwt" "\<not> hasSessionCookie q" "verifyConsentAssertion e rg jwt = Inr c" by blast
    obtain first g1 where f: "claimOnce (ie_redis e) g (ae_now (ie_admin e)) (cl_jti c) REPLAY_WINDOW_SECONDS = (first, g1)" by fastforce
    show thesis
    proof (cases "first = Some True \<and> (\<exists>a x. loadActiveActor d (cl_sub c) (consent_credential c) = Some a \<and> h c a d = Inr x)")
      case True
      with assms c f show thesis by (auto simp: withConsentAssertion_def intro: claimed)
    next
      case False
      with assms c f have "g' = g1 \<and> d' = d \<and> pubs = [] \<and> (\<forall>res. r = Some res \<longrightarrow> \<not> res_ok res)"
        by (auto simp: withConsentAssertion_def bads split: option.split_asm sum.split_asm bool.split_asm)
      with c f show thesis by (intro unclaimed) auto
    qed
  qed
qed

lemma internal_step_claims:
  "internal_step (e, call, q, d) g = g \<or>
   (\<exists>jti. internal_step (e, call, q, d) g = snd (claimOnce (ie_redis e) g (ae_now (ie_admin e)) jti REPLAY_WINDOW_SECONDS))"
proof -
  obtain h rg where h: "internal_api e call q d g = withConsentAssertion h rg e q d g"
    by (cases call) (simp_all add: internal_api_def)
  obtain r d' pubs g' where w: "withConsentAssertion h rg e q d g = (r, d', pubs, g')" by (metis prod_cases4)
  from w have "g' = g \<or> (\<exists>jti. g' = snd (claimOnce (ie_redis e) g (ae_now (ie_admin e)) jti REPLAY_WINDOW_SECONDS))"
    by (cases rule: with_assertion_cases) (metis snd_conv)+
  with h w show ?thesis by (simp add: internal_step_def)
qed

lemma verifyConsentAssertion_Inr:
  assumes "verifyConsentAssertion e rg jwt = Inr c"
  obtains cfg hdr p iat where "ae_settings (ie_admin e) = Inr cfg" and "jo_verify (ie_jose e) jwt = Verified hdr p"
    and "getp hdr ''alg'' = Str ''RS256''" and "audience_ok (getp p ''aud'') (internalApiAudience (oc_consoleUrl cfg))"
    and "\<not> expiredBeforeVerifying (ie_jose e) (ae_now (ie_admin e)) jwt"
    and "getp p ''iat'' = Num iat" and "getp p ''exp'' = Num (cl_exp c)" and "within_lifetime (ae_now (ie_admin e)) iat (cl_exp c)"
    and "getp p ''sub'' = Str (cl_sub c)" and "getp p ''client_id'' = Str (cl_clientId c)" and "getp p ''resource'' = Str (cl_resource c)"
    and "getp p ''jti'' = Str (cl_jti c)" and "rg \<Longrightarrow> \<exists>gr. cl_grantId c = Some gr \<and> getp p ''grant_id'' = Str gr"
proof -
  have u: "usable_str v = Some s \<Longrightarrow> v = Str s" for v s by (auto simp: usable_str_def split: js.split_asm if_split_asm)
  from assms obtain cfg p where a: "ae_settings (ie_admin e) = Inr cfg"
    and v: "verify_access_token (ie_jose e) (ae_now (ie_admin e)) jwt (internalApiAudience (oc_consoleUrl cfg)) = Claims p"
    by (auto simp: verifyConsentAssertion_def split: sum.split_asm verify_out.split_asm)
  from assms a v obtain iat where "getp p ''iat'' = Num iat" "getp p ''exp'' = Num (cl_exp c)" "within_lifetime (ae_now (ie_admin e)) iat (cl_exp c)"
    "usable_str (getp p ''sub'') = Some (cl_sub c)" "usable_str (getp p ''client_id'') = Some (cl_clientId c)"
    "usable_str (getp p ''resource'') = Some (cl_resource c)" "usable_str (getp p ''jti'') = Some (cl_jti c)"
    "cl_grantId c = usable_str (getp p ''grant_id'')" "rg \<longrightarrow> cl_grantId c \<noteq> None"
    by (auto simp: verifyConsentAssertion_def simp del: getp.simps split: option.split_asm if_split_asm)
  note w = this
  from v obtain hdr where h: "jo_verify (ie_jose e) jwt = Verified hdr p" "getp hdr ''alg'' = Str ''RS256''"
    "audience_ok (getp p ''aud'') (internalApiAudience (oc_consoleUrl cfg))" "\<not> expiredBeforeVerifying (ie_jose e) (ae_now (ie_admin e)) jwt"
    by (auto simp: verify_Claims)
  have "rg \<Longrightarrow> \<exists>gr. cl_grantId c = Some gr \<and> getp p ''grant_id'' = Str gr"
    using w(8,9) u by (cases "cl_grantId c") (auto simp del: getp.simps)
  then show thesis using that [OF a h w(1-3)] u [OF w(4)] u [OF w(5)] u [OF w(6)] u [OF w(7)] by blast
qed

text \<open>A mint that was honoured.\<close>

lemma honoured_mint:
  assumes "internal_api e Mint q d g = (Some res, d', pubs, g')" and "res_ok res"
  shows "\<not> hasSessionCookie q \<and>
    (\<exists>jwt cfg hdr p base sub cid gr jti u a pd k. bearerOf q = Some jwt \<and> ae_settings (ie_admin e) = Inr cfg \<and>
       jo_verify (ie_jose e) jwt = Verified hdr p \<and> audience_ok (getp p ''aud'') (internalApiAudience (oc_consoleUrl cfg)) \<and>
       getp p ''jti'' = Str jti \<and> claimOnce (ie_redis e) g (ae_now (ie_admin e)) jti 120 = (Some True, g') \<and>
       getp p ''sub'' = Str sub \<and> u \<in> set (users d) \<and> u_id u = lower sub \<and> u_status u = ActiveUser \<and> u_role u \<noteq> Viewer \<and>
       loadDataPlaneUrl e = Inr base \<and> getp p ''resource'' = Str (mcpResource base (p_slug pd)) \<and>
       pd \<in> set (paddocks d) \<and> p_orgId pd = u_orgId u \<and> p_status pd = ActivePaddock \<and>
       getp p ''client_id'' = Str cid \<and> getp p ''grant_id'' = Str gr \<and>
       ac_id a = u_id u \<and> ac_orgId a = u_orgId u \<and> ac_email a = u_email u \<and> ac_credential a = ''consent:'' @ cid @ '':'' @ gr \<and> audited_by a d d' \<and>
       res = json_res 200 [] (KeyIdBody (k_id k)) \<and> k \<in> set (keys d') \<and> bound_key d' a cid (p_id pd) k \<and> k_grantId k = Some gr \<and> paddocks d' = paddocks d)"
proof -
  have w: "withConsentAssertion (oauth_keys_POST e) True e q d g = (Some res, d', pubs, g')" using assms(1) by (simp add: internal_api_def)
  then show ?thesis
  proof (cases rule: with_assertion_cases)
    case (claimed jwt c a res')
    then have "res' = res" by simp
    note claimed = claimed [unfolded this]
    obtain cfg hdr p where v: "ae_settings (ie_admin e) = Inr cfg" "jo_verify (ie_jose e) jwt = Verified hdr p"
      "audience_ok (getp p ''aud'') (internalApiAudience (oc_consoleUrl cfg))"
      "getp p ''sub'' = Str (cl_sub c)" "getp p ''client_id'' = Str (cl_clientId c)" "getp p ''resource'' = Str (cl_resource c)"
      "getp p ''jti'' = Str (cl_jti c)" "\<exists>gr. cl_grantId c = Some gr \<and> getp p ''grant_id'' = Str gr"
      by (rule verifyConsentAssertion_Inr [OF claimed(3)]) blast
    then obtain gr where gr: "cl_grantId c = Some gr" "getp p ''grant_id'' = Str gr" by blast
    from claimed(5) obtain u where u: "u \<in> set (users d)" "u_id u = lower (cl_sub c)" "u_status u = ActiveUser" "ac_id a = u_id u"
      "ac_orgId a = u_orgId u" "ac_email a = u_email u" "ac_role a = u_role u" "ac_credential a = consent_credential c"
      by (rule loadActiveActor_Some)
    from claimed(6) obtain base slug i oc where m: "loadDataPlaneUrl e = Inr base" "parseMcpResource base (cl_resource c) = Some slug"
      "mintOauthKey (ae_sha256 (ie_admin e)) (ae_random (ie_admin e)) (ae_newId (ie_admin e)) d a (mint_input_of c slug) = Inr ((i, oc), d')"
      "res = json_res 200 [] (KeyIdBody i)"
      by (auto simp: oauth_keys_POST_def split: sum.split_asm option.split_asm prod.split_asm)
    from m(2) have rs: "cl_resource c = mcpResource base slug" by (simp add: parseMcpResource_Some_shape)
    from mintOauthKey_binds [OF m(3)] gr obtain pd k where k: "pd \<in> set (paddocks d)" "p_orgId pd = ac_orgId a" "p_slug pd = slug"
      "p_status pd = ActivePaddock" "k \<in> set (keys d')" "k_id k = i" "bound_key d' a (cl_clientId c) (p_id pd) k" "k_grantId k = Some gr"
      by (auto simp: mint_input_of_def)
    from m(3) have o: "may a CapResourceWrite \<and> audited_by a d d' \<and> paddocks d' = paddocks d" by (rule mintOauthKey_Inr) auto
    then have role: "u_role u \<noteq> Viewer" using u by (auto simp: may_def authorize_def)
    have cred: "ac_credential a = ''consent:'' @ cl_clientId c @ '':'' @ gr" using u(8) gr by (simp add: consent_credential_def)
    have eqs: "getp p ''resource'' = Str (mcpResource base (p_slug pd))" "p_orgId pd = u_orgId u" "res = json_res 200 [] (KeyIdBody (k_id k))"
      "claimOnce (ie_redis e) g (ae_now (ie_admin e)) (cl_jti c) 120 = (Some True, g')" "audited_by a d d'" "paddocks d' = paddocks d"
      using v(6) rs k(2,3,6) u(5) claimed(4) m(4) o by (simp_all add: REPLAY_WINDOW_SECONDS_def del: getp.simps)
    show ?thesis
      by (intro conjI [OF claimed(2)] exI [of _ jwt] exI [of _ cfg] exI [of _ hdr] exI [of _ p] exI [of _ base] exI [of _ "cl_sub c"]
          exI [of _ "cl_clientId c"] exI [of _ gr] exI [of _ "cl_jti c"] exI [of _ u] exI [of _ a] exI [of _ pd] exI [of _ k] conjI;
        fact claimed v u m gr k role cred eqs)
  qed (use assms(2) in auto)
qed

lemma change_honoured:
  assumes "internal_api e call q d g = (r, d', pubs, g')" and "d' \<noteq> d \<or> pubs \<noteq> []"
  shows "call = Mint \<and> (\<exists>res. r = Some res \<and> res_ok res)"
proof (cases call)
  case Preflight
  then have w: "withConsentAssertion (preflight_GET e) False e q d g = (r, d', pubs, g')" using assms(1) by (simp add: internal_api_def)
  have same: "preflight_GET e c a d = Inr (res, d', pubs) \<Longrightarrow> d' = d \<and> pubs = []" for c a res
    by (auto simp: preflight_GET_def split: sum.split_asm)
  from w assms(2) show ?thesis by (cases rule: with_assertion_cases) (auto dest: same)
next
  case Mint
  with assms(1) have w: "withConsentAssertion (oauth_keys_POST e) True e q d g = (r, d', pubs, g')" by (simp add: internal_api_def)
  have ok: "oauth_keys_POST e c a d = Inr (res, d', pubs) \<Longrightarrow> res_ok res" for c a res
    by (auto simp: oauth_keys_POST_def res_oks split: sum.split_asm option.split_asm prod.split_asm)
  from w Mint assms(2) show ?thesis by (cases rule: with_assertion_cases) (auto dest: ok)
qed

section \<open>Properties\<close>

text \<open>
  C6. The provider's word is not enough: a request to the internal routes that changed the database or published
  anything was a mint without a session cookie, whose assertion verified for this API and was claimed by it
  in the replay guard; its subject is an active user whose role may write, and the resource it names is the
  MCP resource of an active paddock of that user's organization. The change is audited under the
  client and the grant, and afterwards the key answered is an active key of that user for that client,
  bound to that grant and linked to the paddock.
\<close>

theorem consent_changes_authorized:
  assumes "internal_api e call q d g = (r, d', pubs, g')" and "d' \<noteq> d \<or> pubs \<noteq> []"
  shows "call = Mint \<and> \<not> hasSessionCookie q \<and>
    (\<exists>jwt cfg hdr p base sub cid gr jti u a pd k. bearerOf q = Some jwt \<and> ae_settings (ie_admin e) = Inr cfg \<and>
       jo_verify (ie_jose e) jwt = Verified hdr p \<and> audience_ok (getp p ''aud'') (internalApiAudience (oc_consoleUrl cfg)) \<and>
       getp p ''jti'' = Str jti \<and> claimOnce (ie_redis e) g (ae_now (ie_admin e)) jti 120 = (Some True, g') \<and>
       getp p ''sub'' = Str sub \<and> u \<in> set (users d) \<and> u_id u = lower sub \<and> u_status u = ActiveUser \<and> u_role u \<noteq> Viewer \<and>
       loadDataPlaneUrl e = Inr base \<and> getp p ''resource'' = Str (mcpResource base (p_slug pd)) \<and>
       pd \<in> set (paddocks d) \<and> p_orgId pd = u_orgId u \<and> p_status pd = ActivePaddock \<and>
       getp p ''client_id'' = Str cid \<and> getp p ''grant_id'' = Str gr \<and>
       ac_id a = u_id u \<and> ac_orgId a = u_orgId u \<and> ac_email a = u_email u \<and> ac_credential a = ''consent:'' @ cid @ '':'' @ gr \<and> audited_by a d d' \<and>
       r = Some (json_res 200 [] (KeyIdBody (k_id k))) \<and> k \<in> set (keys d') \<and> bound_key d' a cid (p_id pd) k \<and> k_grantId k = Some gr)"
proof -
  from change_honoured [OF assms] obtain res where r: "call = Mint" "r = Some res" "res_ok res" by blast
  from honoured_mint [OF assms(1) [unfolded r(1,2)] r(3)] r(1,2) show ?thesis by blast
qed

text \<open>
  C7. An assertion is honoured once. After an internal route honoured the assertion of a token, no later request
  with the same token is honoured, whatever requests ran in between (none dated after it), whatever the
  database, whether the guard answers or not, on either guard: until the token expires the guard remembers
  it, and from then on verification refuses it. What the JOSE library is relied on for: the payload it verifies is
  the one it decodes; a number in it is not NaN, which JSON cannot write.
\<close>

theorem assertion_honoured_once:
  assumes "internal_api e call q d g = (Some res, d1, pubs, g1)" and "res_ok res" and "bearerOf q = Some jwt" and "bearerOf q' = Some jwt"
    and "\<And>x c r db. (x, c, r, db) \<in> set xs \<Longrightarrow> ae_now (ie_admin x) \<le> ae_now (ie_admin e')"
    and "\<And>h p. jo_verify (ie_jose e) jwt = Verified h p \<Longrightarrow> claims = p"
    and "\<And>h p. jo_verify (ie_jose e') jwt = Verified h p \<Longrightarrow> claims = p" and "jo_decode (ie_jose e') jwt = Some claims"
    and "getp claims ''exp'' \<noteq> Num NaN"
    and "internal_api e' call' q' d' (fold internal_step xs g1) = (r, d2, pubs', g2)"
  shows "(\<forall>res'. r = Some res' \<longrightarrow> \<not> res_ok res') \<and> d2 = d' \<and> pubs' = []"
proof -
  let ?now = "ae_now (ie_admin e)" and ?now' = "ae_now (ie_admin e')"
  obtain h rg where "withConsentAssertion h rg e q d g = (Some res, d1, pubs, g1)"
    using assms(1) by (cases call) (auto simp: internal_api_def)
  then obtain c where c: "verifyConsentAssertion e rg jwt = Inr c" "claimOnce (ie_redis e) g ?now (cl_jti c) 120 = (Some True, g1)"
    using assms(2,3) by (cases rule: with_assertion_cases) (auto simp: REPLAY_WINDOW_SECONDS_def)
  have cl: "getp claims ''jti'' = Str (cl_jti c)" "getp claims ''exp'' = Num (cl_exp c)" and life: "\<exists>iat. within_lifetime ?now iat (cl_exp c)"
    by (rule verifyConsentAssertion_Inr [OF c(1)], use assms(6) in auto)+
  obtain h' rg' where w: "withConsentAssertion h' rg' e' q' d' (fold internal_step xs g1) = (r, d2, pubs', g2)"
    using assms(10) by (cases call') (auto simp: internal_api_def)
  have refused: False if v: "verifyConsentAssertion e' rg' jwt = Inr c'"
      and again: "claimOnce (ie_redis e') (fold internal_step xs g1) ?now' (cl_jti c') REPLAY_WINDOW_SECONDS = (Some True, g2)" for c'
  proof -
    have v': "getp claims ''jti'' = Str (cl_jti c')" "\<not> expiredBeforeVerifying (ie_jose e') ?now' jwt"
      by (rule verifyConsentAssertion_Inr [OF v], use assms(7) in auto)+
    have live: "?now' < ?now + 120 * 1000" using life cl v'(2) assms(8,9) by (cases "cl_exp c") (auto simp: within_lifetime_def expiredBeforeVerifying_def MAX_ASSERTION_LIFETIME_S_def)
    have "until (fold internal_step xs g1) (cl_jti c) = Some (?now + 120 * 1000)"
    proof (rule guard.kept_by_steps [OF guard.claim_remembers [OF c(2)]])
      fix x :: "internal_env \<times> internal_call \<times> admin_req \<times> db" and s
      assume x: "x \<in> set xs"
      obtain ex cx qx dx where d: "x = (ex, cx, qx, dx)" by (cases x)
      have "ae_now (ie_admin ex) < ?now + 120 * 1000" using assms(5) [OF x [unfolded d]] live by simp
      with internal_step_claims [of ex cx qx dx s] d
      show "internal_step x s = s \<or> (\<exists>w now k ttl. internal_step x s = snd (claimOnce w s now k ttl) \<and> now < ?now + 120 * 1000)"
        by blast
    qed
    from guard.remembered_refused [OF this live] again v'(1) cl(1) show False by (metis fst_conv js.inject(3))
  qed
  from w show ?thesis
    by (cases rule: with_assertion_cases) (use refused assms(4) in auto)
qed

definition demo_assertion :: js where
  "demo_assertion = Obj [(''aud'', Str ''https://c/api/internal''), (''iat'', NumI 0), (''exp'', NumI 30), (''jti'', Str ''j''),
     (''sub'', Str ''00000000-0000-4000-8000-000000000001''), (''client_id'', Str ''https://m''), (''client_name'', Str ''M''),
     (''resource'', Str ''https://d/p/pad/mcp''), (''grant_id'', Str ''g'')]"

definition demo_internal :: "int \<Rightarrow> internal_env" where
  "demo_internal now = \<lparr>ie_admin = (demo_admin_env Null)\<lparr>ae_now := now,
       ae_parse_url := (\<lambda>s. Some \<lparr>u_protocol = ''https:'', u_origin = s, u_pathname = ''/'', u_search = [], u_hash = []\<rparr>)\<rparr>,
     ie_jose = \<lparr>jo_decode = (\<lambda>t. Some demo_assertion), jo_coolingDown = False,
       jo_verify = (\<lambda>t. Verified (Obj [(''alg'', Str ''RS256'')]) demo_assertion)\<rparr>,
     ie_dataPlaneUrl = Some ''https://d'', ie_redis = Answered\<rparr>"

definition demo_consent_db :: db where
  "demo_consent_db = demo_admin_db\<lparr>paddocks := map (\<lambda>p. p\<lparr>p_slug := ''pad'', p_status := ActivePaddock\<rparr>) (paddocks demo_admin_db)\<rparr>"

abbreviation demo_minting :: "int \<Rightarrow> replay_guard \<Rightarrow> internal_out" where
  "demo_minting now g \<equiv> internal_api (demo_internal now) Mint (demo_admin_req None) demo_consent_db g"

lemma demo_minting_ok:
  "case demo_minting 5000 (RedisReplayGuard []) of (r, d', pubs, g') \<Rightarrow> (case r of None \<Rightarrow> False | Some res \<Rightarrow> res_ok res \<and> pubs = [''key.create''])"
  by code_simp

theorem consent_changes_authorized_witness:
  "case demo_minting 5000 (RedisReplayGuard []) of (r, d', pubs, g') \<Rightarrow>
     \<exists>k \<in> set (keys d'). k_grantId k = Some ''g'' \<and> r = Some (json_res 200 [] (KeyIdBody (k_id k)))"
proof -
  obtain r d' pubs g' where m: "demo_minting 5000 (RedisReplayGuard []) = (r, d', pubs, g')" by (metis prod_cases4)
  with demo_minting_ok have p: "d' \<noteq> demo_consent_db \<or> pubs \<noteq> []" by (auto split: option.split_asm)
  have j: "jo_verify (ie_jose (demo_internal 5000)) jwt = Verified hdr p \<Longrightarrow> getp p ''grant_id'' = Str gr \<Longrightarrow> gr = ''g''" for jwt hdr p gr
    by (auto simp: demo_internal_def demo_assertion_def)
  from consent_changes_authorized [OF m p] m j show ?thesis by auto
qed

theorem assertion_honoured_once_witness:
  "case demo_minting 5000 (RedisReplayGuard []) of (r, d1, pubs, g1) \<Rightarrow>
     fst (snd (snd (internal_api (demo_internal 20000) Mint (demo_admin_req None) demo_consent_db
       (fold internal_step [(demo_internal 7000, Preflight, demo_admin_req None, empty_db)] g1)))) = []"
proof -
  obtain r d1 pubs g1 where m: "demo_minting 5000 (RedisReplayGuard []) = (r, d1, pubs, g1)" by (metis prod_cases4)
  with demo_minting_ok obtain res where r: "r = Some res" "res_ok res" by (auto split: option.split_asm)
  have b: "bearerOf (demo_admin_req None) = Some ''t''" by code_simp
  obtain r' d2 pubs' g2 where m2: "internal_api (demo_internal 20000) Mint (demo_admin_req None) demo_consent_db
     (fold internal_step [(demo_internal 7000, Preflight, demo_admin_req None, empty_db)] g1) = (r', d2, pubs', g2)" by (metis prod_cases4)
  have "pubs' = []"
    using assertion_honoured_once [OF m [unfolded r(1)] r(2) b b, where claims = demo_assertion and e' = "demo_internal 20000", OF _ _ _ _ _ m2]
    by (simp add: demo_internal_def demo_assertion_def demo_admin_env_def)
  with m m2 show ?thesis by simp
qed

end
