(* ===== verification/OpPolicy.thy ===== *)
theory OpPolicy
  imports KeysService
begin

text \<open>
  What the OpenID provider issues tokens for (apps/auth/src/cimd.ts, paddocks.ts, resources.ts and the token
  lifetimes of provider.ts): which clients a metadata document may describe, which resources a client may ask for, the
  key claim of an MCP token, and when a refresh token is issued and how long it lives. The URL parser of the runtime is a
  parameter; the provider library calls these functions.
\<close>

section \<open>Client ID metadata documents (cimd.ts)\<close>

record site = url +
  s_hostname :: string
  s_host :: string

type_synonym url_parser = "string \<Rightarrow> site option"

definition octet_re :: "string \<Rightarrow> bool" where
  "octet_re s = (1 \<le> length s \<and> length s \<le> 3 \<and> list_all is_digit s)"

definition isLoopbackHost :: "string \<Rightarrow> bool" where
  "isLoopbackHost h =
     (h = ''localhost'' \<or> h = ''[::1]'' \<or>
      (case split_on CHR ''.'' h of
         [a, b, c, d] \<Rightarrow> a = ''127'' \<and> octet_re b \<and> octet_re c \<and> octet_re d
       | _ \<Rightarrow> False))"

datatype cimd_gate = CimdEnabled | CimdDisabled string

text \<open>\<open>None\<close> when the issuer is not a URL, which is thrown.\<close>

definition cimdGateForIssuer :: "url_parser \<Rightarrow> string \<Rightarrow> cimd_gate option" where
  "cimdGateForIssuer parse issuer =
     map_option (\<lambda>u. if u_protocol u = ''https:'' then CimdEnabled
       else if u_protocol u = ''http:'' \<and> isLoopbackHost (s_hostname u) then CimdEnabled
       else CimdDisabled (''OIDC_ISSUER ('' @ u_origin u @ '') is neither https nor http on a loopback host'')) (parse issuer)"

definition isAcceptableRedirectUri :: "url_parser \<Rightarrow> string \<Rightarrow> bool" where
  "isAcceptableRedirectUri parse uri =
     (case parse uri of
        None \<Rightarrow> False
      | Some u \<Rightarrow> u_hash u = [] \<and> (u_protocol u = ''https:'' \<or> u_protocol u = ''http:'' \<and> isLoopbackHost (s_hostname u)))"

record op_client =
  ct_clientId :: string
  ct_clientName :: "string option"
  ct_cimd :: bool
  ct_authMethod :: "string option"
  ct_grantTypes :: "string list option"
  ct_redirectUris :: "string list option"

definition ALLOWED_GRANT_TYPES :: "string list" where
  "ALLOWED_GRANT_TYPES = [''authorization_code'', ''refresh_token'']"

definition cimdClientAllowed :: "url_parser \<Rightarrow> op_client \<Rightarrow> bool" where
  "cimdClientAllowed parse c =
     (ct_authMethod c = Some ''none'' \<and>
      (let grants = (case ct_grantTypes c of None \<Rightarrow> [] | Some g \<Rightarrow> g) in
        grants \<noteq> [] \<and> list_all (\<lambda>g. g \<in> set ALLOWED_GRANT_TYPES) grants) \<and>
      (let uris = (case ct_redirectUris c of None \<Rightarrow> [] | Some u \<Rightarrow> u) in
        uris \<noteq> [] \<and> list_all (isAcceptableRedirectUri parse) uris))"

definition isCimdClient :: "op_client option \<Rightarrow> bool" where
  "isCimdClient c = (case c of None \<Rightarrow> False | Some c \<Rightarrow> ct_cimd c)"

section \<open>The provider's reads of control-plane data (paddocks.ts)\<close>

definition findPaddock :: "db \<Rightarrow> string \<Rightarrow> paddock_row option" where
  "findPaddock d slug = sel1 (\<lambda>p. p_slug p = slug) (paddocks d)"

definition grant_key :: "db \<Rightarrow> string \<Rightarrow> string \<Rightarrow> key_row \<Rightarrow> bool" where
  "grant_key d grantId slug k =
     (k_grantId k = Some grantId \<and> k_kind k = OauthKey \<and> k_status k = ActiveKey \<and>
      list_ex (\<lambda>l. kp_keyId l = k_id k \<and> list_ex (\<lambda>p. p_id p = kp_paddockId l \<and> p_slug p = slug) (paddocks d)) (key_paddocks d))"

definition activeOauthKeyForGrant :: "db \<Rightarrow> string \<Rightarrow> string \<Rightarrow> string option" where
  "activeOauthKeyForGrant d grantId slug = map_option k_id (sel1 (grant_key d grantId slug) (keys d))"

section \<open>Resource servers (resources.ts)\<close>

record resource_server =
  rs_scope :: string
  rs_ttl :: "int option"

definition resourceServers :: "string \<Rightarrow> (string \<times> resource_server) list" where
  "resourceServers consoleUrl =
     [(adminApiResource consoleUrl, \<lparr>rs_scope = join_on '' '' (map cap_str CAPABILITIES), rs_ttl = Some (60 * 60)\<rparr>)]"

definition accessTokenTtl :: "resource_server option \<Rightarrow> int" where
  "accessTokenTtl rs = (case Option.bind rs rs_ttl of None \<Rightarrow> 60 * 60 | Some t \<Rightarrow> t)"

definition resourcesByClient :: "string \<Rightarrow> (string \<times> string list) list" where
  "resourcesByClient consoleUrl = [(CLI_CLIENT_ID, [adminApiResource consoleUrl])]"

definition MCP_ACCESS_TOKEN_TTL :: int where
  "MCP_ACCESS_TOKEN_TTL = 15 * 60"

definition mcpResourceServer :: resource_server where
  "mcpResourceServer = \<lparr>rs_scope = MCP_SCOPE, rs_ttl = Some MCP_ACCESS_TOKEN_TTL\<rparr>"

text \<open>What the gate needs to know of paddocks: the base URL of their resources, and which are active.\<close>

type_synonym mcp_resources = "string \<times> (string \<Rightarrow> bool)"

definition mcp_resources_of :: "db \<Rightarrow> string \<Rightarrow> mcp_resources" where
  "mcp_resources_of d base = (base, \<lambda>slug. case findPaddock d slug of None \<Rightarrow> False | Some p \<Rightarrow> p_status p = ActivePaddock)"

text \<open>\<open>None\<close> is \<open>invalid_target\<close>.\<close>

definition getResourceServerInfo :: "(string \<times> resource_server) list \<Rightarrow> (string \<times> string list) list \<Rightarrow> mcp_resources option \<Rightarrow>
    string \<Rightarrow> op_client \<Rightarrow> resource_server option" where
  "getResourceServerInfo servers allowedByClient mcp resource client =
     (case Option.bind mcp (\<lambda>(base, active). map_option (\<lambda>slug. active slug) (parseMcpResource base resource)) of
        Some active \<Rightarrow> if \<not> isCimdClient (Some client) then None else if \<not> active then None else Some mcpResourceServer
      | None \<Rightarrow>
          (case map_of servers resource of
             None \<Rightarrow> None
           | Some rs \<Rightarrow>
               (case map_of allowedByClient (ct_clientId client) of
                  None \<Rightarrow> None
                | Some allowed \<Rightarrow> if resource \<in> set allowed then Some rs else None)))"

datatype grant_error = InvalidGrant string

text \<open>The key claim \<open>mm_kid\<close> of an access token, for an MCP resource only.\<close>

definition extraTokenClaims :: "db \<Rightarrow> string \<Rightarrow> string option \<Rightarrow> string option \<Rightarrow> grant_error + string option" where
  "extraTokenClaims d base grantId resource =
     (case Option.bind resource (parseMcpResource base) of
        None \<Rightarrow> Inr None
      | Some slug \<Rightarrow>
          (case grantId of
             None \<Rightarrow> Inl (InvalidGrant ''an MCP token must be issued under a grant'')
           | Some g \<Rightarrow>
               if g = [] then Inl (InvalidGrant ''an MCP token must be issued under a grant'')
               else (case activeOauthKeyForGrant d g slug of
                   None \<Rightarrow> Inl (InvalidGrant ''the key behind this grant has been revoked'')
                 | Some i \<Rightarrow> if i = [] then Inl (InvalidGrant ''the key behind this grant has been revoked'') else Inr (Some i))))"

text \<open>What a refresh token is issued for: the resources the code names and its scopes.\<close>

record refresh_source =
  rf_resources :: "string list"
  rf_scopes :: "string list"

definition grantTypeAllowed :: "op_client \<Rightarrow> string \<Rightarrow> bool" where
  "grantTypeAllowed c t = (case ct_grantTypes c of None \<Rightarrow> False | Some g \<Rightarrow> t \<in> set g)"

definition namesMcp :: "string \<Rightarrow> refresh_source \<Rightarrow> bool" where
  "namesMcp base source = list_ex (\<lambda>uri. parseMcpResource base uri \<noteq> None) (rf_resources source)"

definition isMcp :: "string \<Rightarrow> op_client \<Rightarrow> refresh_source \<Rightarrow> bool" where
  "isMcp base c source = (isCimdClient (Some c) \<and> grantTypeAllowed c ''refresh_token'' \<and> namesMcp base source)"

definition issueRefreshToken :: "string \<Rightarrow> op_client \<Rightarrow> refresh_source \<Rightarrow> bool" where
  "issueRefreshToken base c source =
     (isMcp base c source \<or> grantTypeAllowed c ''refresh_token'' \<and> ''offline_access'' \<in> set (rf_scopes source))"

definition expiresWithSession :: "string \<Rightarrow> op_client \<Rightarrow> refresh_source \<Rightarrow> bool" where
  "expiresWithSession base c source = (\<not> isMcp base c source \<and> ''offline_access'' \<notin> set (rf_scopes source))"

section \<open>Lifetimes and static clients (provider.ts)\<close>

definition DEVICE_CODE_TTL :: int where
  "DEVICE_CODE_TTL = 10 * 60"

definition REFRESH_TOKEN_IDLE_TTL :: int where
  "REFRESH_TOKEN_IDLE_TTL = 30 * 24 * 60 * 60"

definition REFRESH_TOKEN_ABSOLUTE_TTL :: int where
  "REFRESH_TOKEN_ABSOLUTE_TTL = 90 * 24 * 60 * 60"

text \<open>Times in seconds; the clock is \<open>now\<close>.\<close>

definition refreshTokenTtl :: "int \<Rightarrow> int option \<Rightarrow> grant_error + int" where
  "refreshTokenTtl now iiat =
     (case iiat of
        None \<Rightarrow> Inl (InvalidGrant ''refresh token has no chain start'')
      | Some i \<Rightarrow>
          (let left = i + REFRESH_TOKEN_ABSOLUTE_TTL - now in
           if left \<le> 0 then Inl (InvalidGrant ''refresh token reached its absolute lifetime'')
           else Inr (min REFRESH_TOKEN_IDLE_TTL left)))"

definition consoleClient :: "string \<Rightarrow> op_client" where
  "consoleClient consoleUrl = \<lparr>ct_clientId = CONSOLE_CLIENT_ID, ct_clientName = Some ''MetaModels console'', ct_cimd = False,
     ct_authMethod = Some ''client_secret_basic'', ct_grantTypes = Some [''authorization_code''],
     ct_redirectUris = Some [consoleUrl @ ''/auth/callback'']\<rparr>"

definition cliClient :: op_client where
  "cliClient = \<lparr>ct_clientId = CLI_CLIENT_ID, ct_clientName = Some ''MetaModels admin CLI'', ct_cimd = False,
     ct_authMethod = Some ''none'', ct_grantTypes = Some [''urn:ietf:params:oauth:grant-type:device_code'', ''refresh_token''],
     ct_redirectUris = Some []\<rparr>"

text \<open>A refresh-token chain: each use is within the life of the token presented and issues the next.\<close>

fun chain :: "int \<Rightarrow> int \<Rightarrow> int list \<Rightarrow> bool" where
  "chain iiat expires [] = True"
| "chain iiat expires (now # uses) =
     (now < expires \<and> (case refreshTokenTtl now (Some iiat) of Inl e \<Rightarrow> False | Inr ttl \<Rightarrow> chain iiat (now + ttl) uses))"

section \<open>Properties\<close>

lemma grant_key_resolves:
  assumes "activeOauthKeyForGrant d g slug = Some i" and "keys_ok d" and "is_uuid i" and "lower i = i"
  shows "\<exists>k rk p. k \<in> set (keys d) \<and> k_id k = i \<and> k_grantId k = Some g \<and> k_status k = ActiveKey \<and> k_kind k = OauthKey \<and>
    p \<in> set (paddocks d) \<and> p_slug p = slug \<and> \<lparr>kp_keyId = i, kp_paddockId = p_id p\<rparr> \<in> set (key_paddocks d) \<and>
    resolveKeyById d now i = Some rk \<and> rk_keyId rk = i \<and> rk_oauthClientId rk = k_oauthClientId k \<and> slug \<in> set (rk_paddockSlugs rk)"
proof -
  from assms(1) obtain k where k: "sel1 (grant_key d g slug) (keys d) = Some k" "i = k_id k" by (auto simp: activeOauthKeyForGrant_def)
  then have k': "k \<in> set (keys d)" "k_grantId k = Some g" "k_kind k = OauthKey" "k_status k = ActiveKey"
    by (auto simp: grant_key_def dest!: sel1_Some)
  from k(1) have "\<exists>l \<in> set (key_paddocks d). kp_keyId l = k_id k \<and> (\<exists>p \<in> set (paddocks d). p_id p = kp_paddockId l \<and> p_slug p = slug)"
    by (auto simp: grant_key_def list_ex_iff dest!: sel1_Some)
  then obtain l p where l: "l \<in> set (key_paddocks d)" "kp_keyId l = k_id k" "p \<in> set (paddocks d)" "p_id p = kp_paddockId l" "p_slug p = slug"
    by blast
  then have "l = \<lparr>kp_keyId = i, kp_paddockId = p_id p\<rparr>" using k(2) by simp
  with l(1) have link: "\<lparr>kp_keyId = i, kp_paddockId = p_id p\<rparr> \<in> set (key_paddocks d)" by simp
  have slug: "slug \<in> set (linked_slugs d i)" using l k(2) by (auto simp: linked_slugs_def)
  have use: "usable now k" using k' assms(2) by (auto simp: usable_def keys_ok_def)
  have "sel1 (\<lambda>r. k_id r = lower i \<and> k_kind r = OauthKey \<and> usable now r) (keys d) = Some k"
  proof (rule sel1_only [OF k'(1)])
    show "k_id k = lower i \<and> k_kind k = OauthKey \<and> usable now k" unfolding assms(4) using k(2) k'(3) use by blast
  next
    fix r assume "r \<in> set (keys d)" "k_id r = lower i \<and> k_kind r = OauthKey \<and> usable now r"
    with k'(1) k(2) assms(2) show "r = k" unfolding assms(4) by (auto simp: keys_ok_def dest: distinct_key_eq)
  qed
  with assms(3) k(2) have r: "resolveKeyById d now i = resolve d (Some k)" by (simp add: resolveKeyById_def)
  obtain rk where rk: "resolve d (Some k) = Some rk" "rk_keyId rk = i" "rk_oauthClientId rk = k_oauthClientId k" "rk_paddockSlugs rk = linked_slugs d i"
    using k(2) by (simp add: resolve_def)
  with slug have sl: "slug \<in> set (rk_paddockSlugs rk)" by simp
  have r': "resolveKeyById d now i = Some rk" using r rk(1) by simp
  show ?thesis using k(2) k' l(3,5) link r' rk(2,3) sl by blast
qed

text \<open>
  The resource gate, exactly: a client gets an MCP resource when it is a metadata-document client and the resource
  is that of an active paddock, the admin API when it is the CLI, and nothing else. No other client gets
  the admin API, and no statically registered client gets an MCP resource.
\<close>

theorem resource_gate:
  "getResourceServerInfo (resourceServers consoleUrl) (resourcesByClient consoleUrl) (Some (mcp_resources_of d base)) resource client = Some rs \<longleftrightarrow>
     (\<exists>slug p. parseMcpResource base resource = Some slug \<and> ct_cimd client \<and> findPaddock d slug = Some p \<and> p_status p = ActivePaddock \<and>
        rs = mcpResourceServer) \<or>
     (parseMcpResource base resource = None \<and> ct_clientId client = CLI_CLIENT_ID \<and> resource = adminApiResource consoleUrl \<and>
        rs = \<lparr>rs_scope = join_on '' '' (map cap_str CAPABILITIES), rs_ttl = Some 3600\<rparr>)"
  by (auto simp: getResourceServerInfo_def resourceServers_def resourcesByClient_def mcp_resources_of_def isCimdClient_def
      split: option.splits if_splits)

text \<open>
  C10. Every MCP token is backed by a key: when the provider issues a token for an MCP resource, the client has a
  metadata document, the paddock is active, the token lives at most fifteen minutes, and the key it names is an active
  key bound to the token's grant and linked to that paddock, which the data plane's config store resolves.
\<close>

theorem mcp_token_backed_by_key:
  assumes "getResourceServerInfo servers allowed (Some (mcp_resources_of d base)) resource client = Some rs"
    and "parseMcpResource base resource = Some slug" and "extraTokenClaims d base grantId (Some resource) = Inr claim"
    and "keys_ok d" and "list_all (\<lambda>k. is_uuid (k_id k) \<and> lower (k_id k) = k_id k) (keys d)"
  shows "\<exists>i g k rk p. claim = Some i \<and> grantId = Some g \<and> ct_cimd client \<and> findPaddock d slug = Some p \<and> p_status p = ActivePaddock \<and>
    accessTokenTtl (Some rs) = 900 \<and> k \<in> set (keys d) \<and> k_id k = i \<and> k_grantId k = Some g \<and> k_kind k = OauthKey \<and> k_status k = ActiveKey \<and>
    resolveKeyById d now i = Some rk \<and> rk_keyId rk = i \<and> slug \<in> set (rk_paddockSlugs rk)"
proof -
  from assms(1,2) obtain p where c: "ct_cimd client" "findPaddock d slug = Some p" "p_status p = ActivePaddock" "rs = mcpResourceServer"
    by (auto simp: getResourceServerInfo_def mcp_resources_of_def isCimdClient_def split: if_split_asm option.split_asm)
  then have ttl: "accessTokenTtl (Some rs) = 900" by (simp add: accessTokenTtl_def mcpResourceServer_def MCP_ACCESS_TOKEN_TTL_def)
  from assms(2,3) obtain g where g: "grantId = Some g" "activeOauthKeyForGrant d g slug \<noteq> None" "claim = activeOauthKeyForGrant d g slug"
    by (auto simp: extraTokenClaims_def split: option.split_asm if_split_asm)
  then obtain i where g: "grantId = Some g" "activeOauthKeyForGrant d g slug = Some i" "claim = Some i" by auto
  then obtain k0 where "k0 \<in> set (keys d)" "i = k_id k0" by (auto simp: activeOauthKeyForGrant_def dest: sel1_Some)
  with assms(5) have "is_uuid i" "lower i = i" by (auto simp: list_all_iff)
  from grant_key_resolves [OF g(2) assms(4) this, of now] c ttl g show ?thesis by blast
qed

definition demo_cimd :: op_client where
  "demo_cimd = \<lparr>ct_clientId = ''https://m'', ct_clientName = None, ct_cimd = True, ct_authMethod = Some ''none'',
     ct_grantTypes = Some [''refresh_token''], ct_redirectUris = Some [''https://m/cb'']\<rparr>"

theorem mcp_token_backed_by_key_witness:
  "case demo_minted of Inl e \<Rightarrow> False | Inr ((i, oc), d) \<Rightarrow>
     (\<exists>rk. resolveKeyById d 7 i = Some rk \<and> ''s'' \<in> set (rk_paddockSlugs rk)) \<and> extraTokenClaims d ''https://d'' (Some ''g'') (Some ''https://d/p/s/mcp'') = Inr (Some i)"
proof -
  obtain d where d: "demo_minted = Inr ((demo_key_id, Created), d)" using demo_minted_created ..
  have ok: "keys_ok d"
    using key_step_keeps [OF key_step.mint [OF d [unfolded demo_minted_def]] demo_keys_ok] by simp
  have "case demo_minted of Inl e \<Rightarrow> False | Inr (x, d) \<Rightarrow> extraTokenClaims d ''https://d'' (Some ''g'') (Some ''https://d/p/s/mcp'') = Inr (Some demo_key_id)"
    "case demo_minted of Inl e \<Rightarrow> False | Inr (x, d) \<Rightarrow> list_all (\<lambda>k. is_uuid (k_id k) \<and> lower (k_id k) = k_id k) (keys d)"
    "case demo_minted of Inl e \<Rightarrow> False | Inr (x, d) \<Rightarrow>
       getResourceServerInfo [] [] (Some (mcp_resources_of d ''https://d'')) ''https://d/p/s/mcp'' demo_cimd = Some mcpResourceServer"
    "parseMcpResource ''https://d'' ''https://d/p/s/mcp'' = Some ''s''"
    by code_simp+
  note r = this [unfolded d]
  from r have f: "extraTokenClaims d ''https://d'' (Some ''g'') (Some ''https://d/p/s/mcp'') = Inr (Some demo_key_id)"
    and u: "list_all (\<lambda>k. is_uuid (k_id k) \<and> lower (k_id k) = k_id k) (keys d)"
    and g: "getResourceServerInfo [] [] (Some (mcp_resources_of d ''https://d'')) ''https://d/p/s/mcp'' demo_cimd = Some mcpResourceServer"
    and s: "parseMcpResource ''https://d'' ''https://d/p/s/mcp'' = Some ''s''" by simp_all
  from mcp_token_backed_by_key [OF g s f ok u, of 7] f show ?thesis unfolding d by auto
qed

text \<open>
  Refresh tokens die: however often a chain is used, every use lies less than ninety days after its first
  token and less than thirty days after the use before it; at and after the cap the next token is refused.
\<close>

theorem refresh_chain_bounded:
  assumes "chain iiat (iiat + REFRESH_TOKEN_IDLE_TTL) uses"
  shows "list_all (\<lambda>u. u < iiat + REFRESH_TOKEN_ABSOLUTE_TTL) uses \<and>
    successively (\<lambda>a b. b < a + REFRESH_TOKEN_IDLE_TTL) (iiat # uses) \<and>
    (\<exists>e. refreshTokenTtl (iiat + REFRESH_TOKEN_ABSOLUTE_TTL) (Some iiat) = Inl e)"
proof -
  have "list_all (\<lambda>u. u < iiat + REFRESH_TOKEN_ABSOLUTE_TTL) us \<and> successively (\<lambda>a b. b < a + REFRESH_TOKEN_IDLE_TTL) (prev # us)"
    if "chain iiat expires us" "expires \<le> prev + REFRESH_TOKEN_IDLE_TTL" for expires prev us
    using that
  proof (induction us arbitrary: expires prev)
    case Nil
    then show ?case by simp
  next
    case (Cons u us)
    from Cons.prems(1) obtain ttl where t: "u < expires" "refreshTokenTtl u (Some iiat) = Inr ttl" "chain iiat (u + ttl) us"
      by (auto split: sum.split_asm)
    then have b: "u < iiat + REFRESH_TOKEN_ABSOLUTE_TTL" "ttl \<le> REFRESH_TOKEN_IDLE_TTL"
      by (auto simp: refreshTokenTtl_def Let_def split: if_split_asm)
    from Cons.IH [OF t(3), of u] b t(1) Cons.prems(2) show ?case by simp
  qed
  from this [OF assms, of iiat] show ?thesis by (simp add: refreshTokenTtl_def)
qed

theorem refresh_chain_bounded_witness:
  "successively (\<lambda>a b. b < a + REFRESH_TOKEN_IDLE_TTL) [0, 2500000, 5000000, 7500000] \<and> \<not> chain 0 REFRESH_TOKEN_IDLE_TTL [2500000, 5000000, 7500000, 7776000]"
proof -
  have "chain 0 (0 + REFRESH_TOKEN_IDLE_TTL) [2500000, 5000000, 7500000]" "\<not> chain 0 REFRESH_TOKEN_IDLE_TTL [2500000, 5000000, 7500000, 7776000]" by code_simp+
  with refresh_chain_bounded [OF this(1)] show ?thesis by simp
qed

end
