(* ===== verification/ConsentClient.thy ===== *)
theory ConsentClient
  imports Consent OpPolicy
begin

text \<open>
  The OpenID provider's side of a consent (packages/schema/src/jws.ts, apps/auth/src/consent-api.ts): the
  assertion it signs and its two calls to the control plane. The network is a function from a call and its bearer
  token to a reply, over the state of the world at the other end. The last section puts the control plane's
  internal routes at that end.
\<close>

section \<open>Signed tokens (jws.ts)\<close>

text \<open>The serialisation, the text encoding and the signature are parameters.\<close>

record signer =
  sg_stringify :: "js \<Rightarrow> string"
  sg_b64url :: "string \<Rightarrow> string"
  sg_sign :: "string \<Rightarrow> string"

definition signJwtRs256 :: "signer \<Rightarrow> (string \<times> js) list \<Rightarrow> (string \<times> js) list \<Rightarrow> string" where
  "signJwtRs256 s header payload =
     (let segment = (\<lambda>v. sg_b64url s (sg_stringify s v));
          input = segment (Obj (assoc_set header ''alg'' (Str ''RS256''))) @ ''.'' @ segment (Obj payload)
      in input @ ''.'' @ sg_b64url s (sg_sign s input))"

section \<open>The assertion (consent-api.ts)\<close>

definition CONSENT_ASSERTION_TTL_S :: int where
  "CONSENT_ASSERTION_TTL_S = 30"

definition CONSENT_ASSERTION_TYP :: string where
  "CONSENT_ASSERTION_TYP = ''mm-consent+jwt''"

record consent_request =
  cq_accountId :: string
  cq_clientId :: string
  cq_clientName :: string
  cq_resource :: string

record asserter =
  as_issuer :: string
  as_consoleUrl :: string
  as_kid :: string
  as_signer :: signer

definition assertion_header :: "asserter \<Rightarrow> (string \<times> js) list" where
  "assertion_header a = [(''typ'', Str CONSENT_ASSERTION_TYP), (''kid'', Str (as_kid a))]"

text \<open>The clock in milliseconds, a fresh uuid, and the grant on a mint.\<close>

definition assertion_claims :: "asserter \<Rightarrow> int \<Rightarrow> string \<Rightarrow> consent_request \<Rightarrow> string option \<Rightarrow> (string \<times> js) list" where
  "assertion_claims a now uuid r grantId =
     [(''iss'', Str (as_issuer a)), (''aud'', Str (internalApiAudience (as_consoleUrl a))), (''iat'', NumI (now div 1000)),
      (''exp'', NumI (now div 1000 + CONSENT_ASSERTION_TTL_S)), (''jti'', Str uuid), (''sub'', Str (cq_accountId r)),
      (''client_id'', Str (cq_clientId r)), (''client_name'', Str (cq_clientName r)), (''resource'', Str (cq_resource r))] @
     (case grantId of None \<Rightarrow> [] | Some g \<Rightarrow> if g = [] then [] else [(''grant_id'', Str g)])"

definition consentAsserter :: "asserter \<Rightarrow> int \<Rightarrow> string \<Rightarrow> consent_request \<Rightarrow> string option \<Rightarrow> string" where
  "consentAsserter a now uuid r grantId = signJwtRs256 (as_signer a) (assertion_header a) (assertion_claims a now uuid r grantId)"

section \<open>The calls\<close>

definition PREFLIGHT_UNAVAILABLE :: string where
  "PREFLIGHT_UNAVAILABLE = ''MetaModels could not check this approval right now. Try again in a moment.''"

definition MINT_DENIED_ROLE :: string where
  "MINT_DENIED_ROLE = ''Your role cannot approve apps.''"

definition MINT_DENIED_PADDOCK :: string where
  "MINT_DENIED_PADDOCK = CONSENT_PADDOCK_REFUSAL"

datatype preflight_reply = Allowed | NotAllowed string

datatype mint_reply = Minted string | MintDenied string | MintError string

text \<open>A reply of the network: none, or a status with the body as JSON when it parses.\<close>

datatype net_reply = NoReply string | Reply int "js option"

type_synonym 'w network = "internal_call \<Rightarrow> string \<Rightarrow> 'w \<Rightarrow> net_reply \<times> 'w"

definition preflight_of :: "net_reply \<Rightarrow> preflight_reply" where
  "preflight_of reply =
     (case reply of
        NoReply e \<Rightarrow> NotAllowed PREFLIGHT_UNAVAILABLE
      | Reply status body \<Rightarrow>
          if status \<noteq> 200 then NotAllowed PREFLIGHT_UNAVAILABLE
          else (case body of
              None \<Rightarrow> NotAllowed PREFLIGHT_UNAVAILABLE
            | Some b \<Rightarrow>
                if b = Null then NotAllowed PREFLIGHT_UNAVAILABLE
                else if getp b ''allowed'' = Boolean True then Allowed
                else NotAllowed (case usable_str (getp b ''reason'') of None \<Rightarrow> PREFLIGHT_UNAVAILABLE | Some r \<Rightarrow> r)))"

definition mint_of :: "net_reply \<Rightarrow> mint_reply" where
  "mint_of reply =
     (case reply of
        NoReply e \<Rightarrow> MintError (''the control plane could not be reached: '' @ e)
      | Reply status body \<Rightarrow>
          if status = 200
          then (case as_str (getp (case body of None \<Rightarrow> Null | Some b \<Rightarrow> b) ''key_id'') of
              Some i \<Rightarrow> Minted i
            | None \<Rightarrow> MintError ''the control plane answered 200 with no key_id'')
          else if status = 403 then MintDenied MINT_DENIED_ROLE
          else if status = 404 then MintDenied MINT_DENIED_PADDOCK
          else MintError (''the control plane answered '' @ int_str status))"

definition http_preflight :: "'w network \<Rightarrow> asserter \<Rightarrow> int \<Rightarrow> string \<Rightarrow> consent_request \<Rightarrow> 'w \<Rightarrow> preflight_reply \<times> 'w" where
  "http_preflight net a now uuid r w =
     (let (reply, w') = net Preflight (''Bearer '' @ consentAsserter a now uuid r None) w in (preflight_of reply, w'))"

definition http_mint :: "'w network \<Rightarrow> asserter \<Rightarrow> int \<Rightarrow> string \<Rightarrow> consent_request \<Rightarrow> string \<Rightarrow> 'w \<Rightarrow> mint_reply \<times> 'w" where
  "http_mint net a now uuid r grantId w =
     (let (reply, w') = net Mint (''Bearer '' @ consentAsserter a now uuid r (Some grantId)) w in (mint_of reply, w'))"

section \<open>The control plane at the other end\<close>

text \<open>The body an internal route answers, and its routes as a network; an error thrown on is a bare 500.\<close>

fun internal_json :: "admin_body \<Rightarrow> js option" where
  "internal_json (KeyIdBody i) = Some (Obj [(''key_id'', Str i)])"
| "internal_json (PreflightBody b r) = Some (Obj [(''allowed'', Boolean b), (''reason'', case r of None \<Rightarrow> Null | Some s \<Rightarrow> Str s)])"
| "internal_json (Problem kvs) = Some (Obj kvs)"
| "internal_json _ = None"

definition control_plane :: "internal_env \<Rightarrow> (db \<times> replay_guard) network" where
  "control_plane e call auth w =
     (case internal_api e call \<lparr>aq_auth = Some auth, aq_cookie = None, aq_path = [], aq_query = [], aq_body = None\<rparr> (fst w) (snd w) of
        (None, d', pubs, g') \<Rightarrow> (Reply 500 None, d', g')
      | (Some res, d', pubs, g') \<Rightarrow> (Reply (ar_status res) (internal_json (ar_body res)), d', g'))"

section \<open>Lemmas\<close>

text \<open>
  What the two services rely on: the encoding yields only letters, digits, \<open>-\<close> and \<open>_\<close>, and
  the payload the control plane's library verifies is the one that was signed.
\<close>

definition url_safe :: "char \<Rightarrow> bool" where
  "url_safe c = (is_upper c \<or> is_lower c \<or> is_digit c \<or> c = CHR ''-'' \<or> c = CHR ''_'')"

definition keys_agree :: "asserter \<Rightarrow> internal_env \<Rightarrow> int \<Rightarrow> string \<Rightarrow> consent_request \<Rightarrow> string \<Rightarrow> bool" where
  "keys_agree a e now uuid r g =
     ((\<forall>x. list_all url_safe (sg_b64url (as_signer a) x)) \<and>
      (\<forall>hdr p. jo_verify (ie_jose e) (consentAsserter a now uuid r (Some g)) = Verified hdr p \<longrightarrow> p = Obj (assertion_claims a now uuid r (Some g))))"

lemma url_safe_not: "url_safe c \<Longrightarrow> c \<noteq> CHR '' '' \<and> c \<noteq> CHR 0x0A \<and> c \<noteq> CHR 0x0D"
  by (auto simp: url_safe_def is_upper_def is_lower_def is_digit_def less_eq_char_def)

lemma bearer_signed:
  assumes "\<And>x. list_all url_safe (sg_b64url (as_signer a) x)"
  shows "bearer_match (''Bearer '' @ signJwtRs256 (as_signer a) h c) = Some (signJwtRs256 (as_signer a) h c)"
proof -
  let ?t = "signJwtRs256 (as_signer a) h c"
  have c: "x = CHR ''.'' \<or> url_safe x" if "x \<in> set ?t" for x
    using that assms by (auto simp: signJwtRs256_def Let_def list_all_iff)
  then have n: "x \<noteq> CHR '' '' \<and> x \<noteq> CHR 0x0A \<and> x \<noteq> CHR 0x0D" if "x \<in> set ?t" for x
    using that url_safe_not by force
  have "?t \<noteq> []" by (simp add: signJwtRs256_def Let_def)
  with n show ?thesis by (intro bearer_match_token) auto
qed

lemma claim_lookup:
  "getp (Obj (assertion_claims a now uuid r g)) ''sub'' = Str (cq_accountId r)"
  "getp (Obj (assertion_claims a now uuid r g)) ''client_id'' = Str (cq_clientId r)"
  "getp (Obj (assertion_claims a now uuid r g)) ''resource'' = Str (cq_resource r)"
  "getp (Obj (assertion_claims a now uuid r g)) ''grant_id'' = Str gr \<Longrightarrow> g = Some gr \<and> gr \<noteq> []"
  by (auto simp: assertion_claims_def split: option.split_asm if_split_asm)

text \<open>A key answered over the network is one the control plane bound as asked.\<close>

lemma minted_over_http:
  assumes "http_mint (control_plane e) a now uuid r g (d, gd) = (Minted i, d', gd')" and "keys_agree a e now uuid r g"
  shows "\<exists>u act base pd k. u \<in> set (users d) \<and> u_id u = lower (cq_accountId r) \<and> u_status u = ActiveUser \<and> u_role u \<noteq> Viewer \<and>
    loadDataPlaneUrl e = Inr base \<and> cq_resource r = mcpResource base (p_slug pd) \<and> pd \<in> set (paddocks d) \<and> p_orgId pd = u_orgId u \<and>
    p_status pd = ActivePaddock \<and> ac_id act = u_id u \<and> ac_orgId act = u_orgId u \<and> audited_by act d d' \<and>
    k \<in> set (keys d') \<and> k_id k = i \<and> bound_key d' act (cq_clientId r) (p_id pd) k \<and> k_grantId k = Some g \<and>
    paddocks d' = paddocks d \<and> g \<noteq> []"
proof -
  let ?claims = "assertion_claims a now uuid r (Some g)" and ?t = "consentAsserter a now uuid r (Some g)"
  let ?q = "\<lparr>aq_auth = Some (''Bearer '' @ ?t), aq_cookie = None, aq_path = [], aq_query = [], aq_body = None\<rparr>"
  obtain reply where net: "control_plane e Mint (''Bearer '' @ ?t) (d, gd) = (reply, d', gd')" and m: "mint_of reply = Minted i"
    using assms(1) by (auto simp: http_mint_def split: prod.split_asm)
  from m obtain body where rep: "reply = Reply 200 body" "as_str (getp (case body of None \<Rightarrow> Null | Some b \<Rightarrow> b) ''key_id'') = Some i"
    by (auto simp: mint_of_def simp del: as_str_Some split: net_reply.split_asm if_split_asm option.split_asm)
  from net rep(1) obtain res pubs where ia: "internal_api e Mint ?q d gd = (Some res, d', pubs, gd')" "ar_status res = 200" "body = internal_json (ar_body res)"
    by (auto simp: control_plane_def split: prod.split_asm option.split_asm)
  have b: "bearerOf ?q = Some ?t"
    using bearer_signed [of a "assertion_header a" ?claims] assms(2) by (simp add: bearerOf_def consentAsserter_def keys_agree_def)
  have ok: "res_ok res" using ia(2) by (simp add: res_ok_def)
  from honoured_mint [OF ia(1) ok] show ?thesis
  proof (elim exE conjE, goal_cases)
    case (1 jwt cfg hdr p base sub cid gr jti u act pd k)
    from 1(2) b have "jwt = ?t" by simp
    then have p: "p = Obj ?claims" using 1(4) assms(2) by (auto simp: keys_agree_def)
    note c = claim_lookup [of a now uuid r "Some g", folded p]
    have e: "sub = cq_accountId r" "cid = cq_clientId r" "cq_resource r = mcpResource base (p_slug pd)" "gr = g" "g \<noteq> []"
      using trans [OF 1(8) [symmetric] c(1)] trans [OF 1(18) [symmetric] c(2)] trans [OF c(3) [symmetric] 1(14)] c(4) [OF 1(19)]
      by (simp_all only: js.inject option.inject) simp
    have i: "k_id k = i" using rep(2) ia(3) 1(25) by (simp add: json_res_def)
    show ?case
      by (intro exI [of _ u] exI [of _ act] exI [of _ base] exI [of _ pd] exI [of _ k] conjI; fact e(3,5) i 1 1 [unfolded e])
  qed
qed

text \<open>The provider then finds a key under the grant.\<close>

lemma bound_grant_key:
  assumes "k \<in> set (keys d)" and "bound_key d a cid (p_id pd) k" and "k_grantId k = Some g" and "pd \<in> set (paddocks d)"
  shows "activeOauthKeyForGrant d g (p_slug pd) \<noteq> None"
proof -
  have "grant_key d g (p_slug pd) k"
    using assms unfolding grant_key_def bound_key_def list_ex_iff by metis
  with assms(1) show ?thesis by (auto simp: activeOauthKeyForGrant_def sel1_None)
qed

end
