(* ===== verification/Login.thy ===== *)
theory Login
  imports Access JsText
begin

text \<open>
  Signing in with a password at the OpenID provider (packages/schema/src/password.ts, apps/auth/src/account.ts
  and login-throttle.ts): the stored form of a password, the check of a login, the account lookup and the
  throttle of failed logins. The key derivation function is a parameter.
\<close>

section \<open>Hexadecimal (Buffer)\<close>

definition hex_lower :: "nat \<Rightarrow> char" where
  "hex_lower n = char_of (if n < 10 then 48 + n else 87 + n)"

definition to_hex :: "string \<Rightarrow> string" where
  "to_hex s = concat (map (\<lambda>c. [hex_lower (of_char c div 16), hex_lower (of_char c mod 16)]) s)"

text \<open>\<open>Buffer.from(s, 'hex')\<close> stops at the first pair that is not two digits.\<close>

fun from_hex :: "string \<Rightarrow> string" where
  "from_hex (h # l # cs) =
     (case (radix_digit h, radix_digit l) of (Some a, Some b) \<Rightarrow> char_of (16 * a + b) # from_hex cs | _ \<Rightarrow> [])"
| "from_hex _ = []"

lemma radix_hex_lower: "n < 16 \<Longrightarrow> radix_digit (hex_lower n) = Some n"
  by (auto simp: radix_digit_def hex_lower_def is_digit_def less_eq_char_def)

lemma from_to_hex: "from_hex (to_hex s) = s"
proof (induction s)
  case Nil
  then show ?case by (simp add: to_hex_def)
next
  case (Cons c s)
  have "(of_char c :: nat) < 256" by simp
  then have "(of_char c :: nat) div 16 < 16" by (simp add: less_mult_imp_div_less)
  with Cons show ?case by (simp add: to_hex_def radix_hex_lower of_char_split)
qed

lemma to_hex_digits:
  assumes "x \<in> set (to_hex s)"
  shows "\<exists>n < 16. x = hex_lower n"
proof -
  from assms obtain c where c: "x = hex_lower (of_char c div 16) \<or> x = hex_lower (of_char c mod 16)" by (auto simp: to_hex_def)
  have "(of_char c :: nat) < 256" by simp
  then have "(of_char c :: nat) div 16 < 16" by (simp add: less_mult_imp_div_less)
  moreover have "(of_char c :: nat) mod 16 < 16" by simp
  ultimately show ?thesis using c by blast
qed

section \<open>Stored passwords (password.ts)\<close>

definition KEYLEN :: nat where
  "KEYLEN = 64"

definition hashPassword :: "(string \<Rightarrow> string \<Rightarrow> string) \<Rightarrow> string \<Rightarrow> string \<Rightarrow> string" where
  "hashPassword scrypt salt plaintext = ''scrypt$'' @ to_hex salt @ ''$'' @ to_hex (scrypt plaintext salt)"

definition verifyPassword :: "(string \<Rightarrow> string \<Rightarrow> string) \<Rightarrow> string \<Rightarrow> string \<Rightarrow> bool" where
  "verifyPassword scrypt plaintext stored =
     (case split_on CHR ''$'' stored of
        [scheme, a, b] \<Rightarrow>
          (let salt = from_hex a; expected = from_hex b in
           scheme = ''scrypt'' \<and> length salt = 16 \<and> length expected = KEYLEN \<and> scrypt plaintext salt = expected)
      | _ \<Rightarrow> False)"

section \<open>Accounts (account.ts)\<close>

datatype login_failure = Invalid | Deactivated

text \<open>The database, the key derivation function, the address and the password: the account, or why not.
  For an unknown address the code derives a key all the same, against a fixed hash, and discards the answer.\<close>

definition verifyLogin :: "db \<Rightarrow> (string \<Rightarrow> string \<Rightarrow> string) \<Rightarrow> string \<Rightarrow> string \<Rightarrow> login_failure + string" where
  "verifyLogin d scrypt email password =
     (case sel1 (\<lambda>u. u_email u = email) (users d) of
        None \<Rightarrow> Inl Invalid
      | Some u \<Rightarrow>
          if \<not> verifyPassword scrypt password (u_passwordHash u) then Inl Invalid
          else if u_status u \<noteq> ActiveUser then Inl Deactivated
          else Inr (u_id u))"

definition findAccount :: "db \<Rightarrow> string \<Rightarrow> string option" where
  "findAccount d sub =
     (if \<not> is_uuid sub then None
      else case sel1 (\<lambda>u. u_id u = lower sub) (users d) of
          None \<Rightarrow> None
        | Some u \<Rightarrow> if u_status u \<noteq> ActiveUser then None else Some (u_id u))"

section \<open>The throttle (login-throttle.ts)\<close>

definition MAX_FAILURES :: nat where
  "MAX_FAILURES = 5"

definition WINDOW_MS :: int where
  "WINDOW_MS = 15 * 60000"

record bucket =
  bk_count :: nat
  bk_resetAt :: int

type_synonym throttle = "(string \<times> bucket) list"

definition check :: "throttle \<Rightarrow> string \<Rightarrow> int \<Rightarrow> bool" where
  "check th ip now =
     (case map_of th ip of None \<Rightarrow> True | Some b \<Rightarrow> if bk_resetAt b \<le> now then True else bk_count b < MAX_FAILURES)"

definition record_failure :: "throttle \<Rightarrow> string \<Rightarrow> int \<Rightarrow> throttle" where
  "record_failure th ip now =
     (case map_of th ip of
        None \<Rightarrow> assoc_set th ip \<lparr>bk_count = 1, bk_resetAt = now + WINDOW_MS\<rparr>
      | Some b \<Rightarrow>
          if bk_resetAt b \<le> now then assoc_set th ip \<lparr>bk_count = 1, bk_resetAt = now + WINDOW_MS\<rparr>
          else assoc_set th ip (b\<lparr>bk_count := bk_count b + 1\<rparr>))"

text \<open>
  One login: refused by the throttle, or checked, and recorded when it failed. The steps of two logins can
  interleave, since the password check between them waits for the key derivation: \<open>Arrive\<close> is
  the check of the throttle, \<open>Fail\<close> the record of a failure.
\<close>

datatype login_event = Arrive string int | Fail string int

fun login_step :: "login_event \<Rightarrow> throttle \<times> (string \<times> int \<times> bool) list \<Rightarrow> throttle \<times> (string \<times> int \<times> bool) list" where
  "login_step (Arrive ip now) (th, seen) = (th, seen @ [(ip, now, check th ip now)])"
| "login_step (Fail ip now) (th, seen) = (record_failure th ip now, seen)"

fun attempt :: "string \<times> int \<times> bool \<Rightarrow> throttle \<times> (string \<times> int) list \<Rightarrow> throttle \<times> (string \<times> int) list" where
  "attempt (ip, now, ok) (th, fails) =
     (if \<not> check th ip now \<or> ok then (th, fails) else (record_failure th ip now, fails @ [(ip, now)]))"

section \<open>Lemmas\<close>

lemma dollar_not_hex: "CHR ''$'' \<notin> set (to_hex s)"
proof
  assume "CHR ''$'' \<in> set (to_hex s)"
  then obtain n where "n < 16" "CHR ''$'' = hex_lower n" using to_hex_digits by blast
  with radix_hex_lower [of n] have "radix_digit CHR ''$'' \<noteq> None" by simp
  moreover have "radix_digit CHR ''$'' = None" by code_simp
  ultimately show False by simp
qed

lemma split_stored: "split_on CHR ''$'' (hashPassword scrypt salt p) = [''scrypt'', to_hex salt, to_hex (scrypt p salt)]"
proof -
  have "split_on CHR ''$'' (''scrypt'' @ CHR ''$'' # to_hex salt @ CHR ''$'' # to_hex (scrypt p salt)) =
      [''scrypt'', to_hex salt, to_hex (scrypt p salt)]"
    by (subst split_on_append, simp, subst split_on_append, rule dollar_not_hex) (simp add: split_on_no_sep dollar_not_hex)
  then show ?thesis by (simp add: hashPassword_def)
qed

text \<open>The failures of one address: those of its bucket come last, the earlier ones are few in any window that
  reaches into the bucket.\<close>

abbreviation since :: "int list \<Rightarrow> int \<Rightarrow> nat" where
  "since ts t \<equiv> length (filter (\<lambda>n. t \<le> n) ts)"

abbreviation in_window :: "int list \<Rightarrow> int \<Rightarrow> nat" where
  "in_window ts t \<equiv> length (filter (\<lambda>n. t \<le> n \<and> n < t + WINDOW_MS) ts)"

definition bucket_ok :: "int \<Rightarrow> bucket option \<Rightarrow> int list \<Rightarrow> bool" where
  "bucket_ok now b ts =
     (case b of
        None \<Rightarrow> ts = []
      | Some b \<Rightarrow> bk_resetAt b - WINDOW_MS \<le> now \<and>
          (\<exists>old cur. ts = old @ (bk_resetAt b - WINDOW_MS) # cur \<and> Suc (length cur) = bk_count b \<and> bk_count b \<le> MAX_FAILURES \<and>
            (\<forall>x \<in> set cur. bk_resetAt b - WINDOW_MS \<le> x \<and> x < bk_resetAt b) \<and> (\<forall>x \<in> set old. x < bk_resetAt b - WINDOW_MS) \<and>
            (\<forall>t. bk_resetAt b - 2 * WINDOW_MS < t \<longrightarrow> since old t \<le> 4) \<and> (\<forall>t. in_window old t \<le> 9)))"

lemma within_since: "in_window ts t \<le> since ts t"
  by (induction ts) auto

lemma bucket_within:
  assumes "bucket_ok now bo ts"
  shows "in_window ts t \<le> 9"
proof (cases bo)
  case (Some b)
  with assms obtain old cur where o: "ts = old @ (bk_resetAt b - WINDOW_MS) # cur" "Suc (length cur) \<le> 5"
    "\<forall>x \<in> set cur. bk_resetAt b - WINDOW_MS \<le> x" "\<forall>t. bk_resetAt b - 2 * WINDOW_MS < t \<longrightarrow> since old t \<le> 4" "in_window old t \<le> 9"
    by (auto simp: bucket_ok_def MAX_FAILURES_def)
  show ?thesis
  proof (cases "bk_resetAt b - 2 * WINDOW_MS < t")
    case True
    with o(4) within_since [of t old] have "in_window old t \<le> 4" by (meson le_trans)
    moreover have "in_window cur t \<le> length cur" by simp
    ultimately show ?thesis using o(1,2) by (auto simp del: length_filter_le)
  next
    case False
    with o(3) have "in_window cur t = 0" "\<not> bk_resetAt b - WINDOW_MS < t + WINDOW_MS" by (auto simp: filter_empty_conv)
    with o(1,5) show ?thesis by simp
  qed
qed (use assms in \<open>simp add: bucket_ok_def\<close>)

lemma bucket_failed:
  assumes "bucket_ok now (map_of th ip) ts" and "now \<le> now'" and "check th ip now'"
  shows "bucket_ok now' (map_of (record_failure th ip now') ip) (ts @ [now'])"
proof -
  have w: "0 < WINDOW_MS" by (simp add: WINDOW_MS_def)
  show ?thesis
  proof (cases "map_of th ip")
    case None
    with assms(1) show ?thesis by (simp add: record_failure_def bucket_ok_def MAX_FAILURES_def)
  next
    case (Some b)
    let ?f = "bk_resetAt b - WINDOW_MS"
    from assms(1) Some obtain old cur where o: "ts = old @ ?f # cur" "Suc (length cur) = bk_count b" "bk_count b \<le> MAX_FAILURES"
      "\<forall>x \<in> set cur. ?f \<le> x \<and> x < bk_resetAt b" "\<forall>x \<in> set old. x < ?f" "\<forall>t. bk_resetAt b - 2 * WINDOW_MS < t \<longrightarrow> since old t \<le> 4"
      "\<forall>t. in_window old t \<le> 9" "?f \<le> now"
      by (auto simp: bucket_ok_def)
    show ?thesis
    proof (cases "bk_resetAt b \<le> now'")
      case True
      have "since ts t \<le> 4" if "now' - WINDOW_MS < t" for t
      proof -
        from that True o(5) have "since old t = 0" "\<not> t \<le> ?f" by (auto simp: filter_empty_conv)
        moreover have "since cur t \<le> length cur" by simp
        ultimately show ?thesis using o(1-3) by (simp add: MAX_FAILURES_def del: length_filter_le)
      qed
      moreover have "\<forall>x \<in> set ts. x < now'" using o(1,4,5) True w by auto
      moreover have "in_window ts t \<le> 9" for t by (rule bucket_within [OF assms(1)])
      ultimately show ?thesis using Some True
        by (simp add: record_failure_def bucket_ok_def MAX_FAILURES_def)
    next
      case False
      have "ts @ [now'] = old @ ?f # (cur @ [now'])" using o(1) by simp
      moreover have "bk_count b < MAX_FAILURES" using assms(3) Some False by (simp add: check_def)
      moreover have "\<forall>x \<in> set (cur @ [now']). ?f \<le> x \<and> x < bk_resetAt b" using o(4,8) assms(2) False by auto
      moreover have "?f \<le> now'" using o(8) assms(2) by simp
      ultimately show ?thesis using o(2,5,6,7) Some False
        by (simp add: record_failure_def bucket_ok_def) (intro exI [of _ old] exI [of _ "cur @ [now']"], simp)
    qed
  qed
qed

lemma bucket_other: "ip' \<noteq> ip \<Longrightarrow> map_of (record_failure th ip now) ip' = map_of th ip'"
  by (simp add: record_failure_def split: option.split)

definition failures_of :: "string \<Rightarrow> (string \<times> int) list \<Rightarrow> int list" where
  "failures_of ip fs = map snd (filter (\<lambda>f. fst f = ip) fs)"

lemma bucket_later: "bucket_ok now b ts \<Longrightarrow> now \<le> now' \<Longrightarrow> bucket_ok now' b ts"
  by (cases b) (simp_all add: bucket_ok_def)

lemma attempts_ok:
  assumes "\<And>ip. bucket_ok now (map_of th ip) (failures_of ip fs)" and "sorted (now # map (\<lambda>a. fst (snd a)) as)"
    and "fold attempt as (th, fs) = (th', fs')"
  shows "\<exists>now'. \<forall>ip. bucket_ok now' (map_of th' ip) (failures_of ip fs')"
  using assms
proof (induction as arbitrary: now th fs)
  case Nil
  then show ?case by auto
next
  case (Cons x as)
  obtain ip t ok where x: "x = (ip, t, ok)" by (cases x)
  with Cons.prems(2) have t: "now \<le> t" "sorted (t # map (\<lambda>a. fst (snd a)) as)" by auto
  obtain th1 fs1 where s: "attempt x (th, fs) = (th1, fs1)" by fastforce
  have "bucket_ok t (map_of th1 i) (failures_of i fs1)" for i
  proof (cases "check th ip t \<and> \<not> ok \<and> i = ip")
    case True
    with s x bucket_failed [OF Cons.prems(1) t(1), of ip] show ?thesis by (auto simp: failures_of_def)
  next
    case False
    with s x have "map_of th1 i = map_of th i" "failures_of i fs1 = failures_of i fs"
      by (auto simp: bucket_other failures_of_def split: if_split_asm)
    with bucket_later [OF Cons.prems(1) t(1), of i] show ?thesis by simp
  qed
  from Cons.IH [OF this t(2)] Cons.prems(3) s show ?case by simp
qed

section \<open>Properties\<close>

text \<open>
  A stored password verifies with exactly the passwords that derive the same key under its salt: in particular
  with the password it was made from, and with no other unless the key derivation function collides.
\<close>

theorem password_roundtrip:
  assumes "length salt = 16" and "length (scrypt p salt) = 64"
  shows "verifyPassword scrypt q (hashPassword scrypt salt p) \<longleftrightarrow> scrypt q salt = scrypt p salt"
  using assms by (simp add: verifyPassword_def split_stored from_to_hex KEYLEN_def)

theorem password_roundtrip_witness:
  "verifyPassword (\<lambda>p s. replicate 64 (hd p)) ''abc'' (hashPassword (\<lambda>p s. replicate 64 (hd p)) (replicate 16 CHR ''s'') ''aXY'') \<and>
   \<not> verifyPassword (\<lambda>p s. replicate 64 (hd p)) ''bcd'' (hashPassword (\<lambda>p s. replicate 64 (hd p)) (replicate 16 CHR ''s'') ''aXY'')"
  using password_roundtrip [of "replicate 16 CHR ''s''" "\<lambda>p s. replicate 64 (hd p)" "''aXY''"] by simp

text \<open>
  C40. One login at a time, guessing is slow: whatever logins are made from whatever addresses, in the order of
  their times, one address gets at most nine wrong passwords checked in any fifteen minutes (a bucket
  allows five; a window can meet the end of one bucket and the whole of the next).
\<close>

theorem failed_logins_bounded:
  assumes "sorted (map (\<lambda>a. fst (snd a)) as)" and "fold attempt as ([], []) = (th, fails)"
  shows "length (filter (\<lambda>(i, n). i = ip \<and> t \<le> n \<and> n < t + WINDOW_MS) fails) \<le> 9"
proof -
  have "\<exists>now. sorted (now # map (\<lambda>a. fst (snd a)) as)"
  proof (cases as)
    case (Cons a as')
    with assms(1) show ?thesis by (intro exI [of _ "fst (snd a)"]) simp
  qed simp
  then obtain now where n: "sorted (now # map (\<lambda>a. fst (snd a)) as)" ..
  have "bucket_ok now (map_of [] i) (failures_of i [])" for i by (simp add: bucket_ok_def failures_of_def)
  from attempts_ok [OF this n assms(2)] obtain now' where "bucket_ok now' (map_of th ip) (failures_of ip fails)" by blast
  from bucket_within [OF this, of t]
  have "length (filter (\<lambda>f. fst f = ip \<and> t \<le> snd f \<and> snd f < t + WINDOW_MS) fails) \<le> 9"
    by (simp add: failures_of_def filter_map comp_def)
  moreover have "(\<lambda>(i, n). i = ip \<and> t \<le> n \<and> n < t + WINDOW_MS) = (\<lambda>f. fst f = ip \<and> t \<le> snd f \<and> snd f < t + WINDOW_MS)"
    by auto
  ultimately show ?thesis by simp
qed

theorem failed_logins_bounded_witness:
  "length (filter (\<lambda>(i, n). i = ''a'' \<and> 1 \<le> n \<and> n < 1 + WINDOW_MS)
     (snd (fold attempt ((''a'', 0, False) # replicate 7 (''a'', 899999, False) @ replicate 7 (''a'', 900000, False)) ([], [])))) \<le> 9 \<and>
   map snd (snd (fold attempt ((''a'', 0, False) # replicate 7 (''a'', 899999, False) @ replicate 7 (''a'', 900000, False)) ([], []))) =
     0 # replicate 4 899999 @ replicate 5 900000"
proof -
  let ?as = "(''a'', 0, False) # replicate 7 (''a'', 899999, False) @ replicate 7 (''a'', 900000 :: int, False)"
  obtain th fails where f: "fold attempt ?as ([], []) = (th, fails)" by fastforce
  have "sorted (map (\<lambda>a. fst (snd a)) ?as)" by code_simp
  from failed_logins_bounded [OF this f] have "length (filter (\<lambda>(i, n). i = ''a'' \<and> 1 \<le> n \<and> n < 1 + WINDOW_MS) fails) \<le> 9" .
  moreover have "map snd (snd (fold attempt ?as ([], []))) = 0 # replicate 4 899999 @ replicate 5 900000" by code_simp
  ultimately show ?thesis using f by simp
qed

text \<open>
  Logins at the same time escape the throttle: the check comes before the key derivation and the record after
  it, so however many logins of one address arrive before the first of them has failed, all are let through to the
  password check.
\<close>

theorem simultaneous_logins_unthrottled:
  "list_all (\<lambda>(i, n, let_in). let_in)
     (snd (fold login_step (replicate k (Arrive ip now) @ replicate k (Fail ip now)) ([], [])))"
proof -
  have a: "fold login_step (replicate k (Arrive ip now)) (th, seen) = (th, seen @ replicate k (ip, now, check th ip now))" for th seen
    by (induction k arbitrary: seen) (simp_all add: replicate_app_Cons_same [symmetric])
  have f: "snd (fold login_step (replicate k (Fail ip now)) (th, seen)) = seen" for th seen
    by (induction k arbitrary: th) simp_all
  show ?thesis unfolding fold_append comp_apply a f by (simp add: check_def list_all_iff)
qed

end
