(* ===== verification/OpInteractions.thy ===== *)
theory OpInteractions
  imports ConsentClient Login
begin

text \<open>
  The OpenID provider's own pages (apps/auth/src/interactions.ts): signing in, the consent screen of an MCP client and
  the automatic consent of the first-party clients, with the checks that decide when the provider library prompts.
  The library's part is a parameter: an interaction's details are the record \<open>ix\<close>, its \<open>Grant\<close>
  class the record \<open>grant_lib\<close>. A handler ends in a reply, the grants it saved and the state of
  the world behind the consent API.
\<close>

section \<open>Forms\<close>

text \<open>\<open>new URLSearchParams(text)\<close>: a malformed escape stays as it is.\<close>

fun unpercent :: "string \<Rightarrow> string" where
  "unpercent [] = []"
| "unpercent (c # cs) =
     (if c \<noteq> CHR ''%'' then c # unpercent cs
      else case cs of
          h # l # rest \<Rightarrow>
            (case (radix_digit h, radix_digit l) of
               (Some a, Some b) \<Rightarrow> char_of (16 * a + b) # unpercent rest
             | _ \<Rightarrow> c # unpercent cs)
        | _ \<Rightarrow> c # unpercent cs)"

definition form_text :: "string \<Rightarrow> string" where
  "form_text s = unpercent (map (\<lambda>c. if c = CHR ''+'' then CHR '' '' else c) s)"

definition form_pair :: "string \<Rightarrow> string \<times> string" where
  "form_pair p = (form_text (takeWhile (\<lambda>c. c \<noteq> CHR ''='') p), form_text (drop 1 (dropWhile (\<lambda>c. c \<noteq> CHR ''='') p)))"

definition form_decode :: "string \<Rightarrow> (string \<times> string) list" where
  "form_decode s = map form_pair (filter (\<lambda>p. p \<noteq> []) (split_on CHR ''&'' s))"

definition MAX_FORM_BYTES :: nat where
  "MAX_FORM_BYTES = 16 * 1024"

fun read_chunks :: "nat \<Rightarrow> string list \<Rightarrow> string option" where
  "read_chunks sz [] = Some []"
| "read_chunks sz (c # cs) =
     (if MAX_FORM_BYTES < sz + length c then None else map_option ((@) c) (read_chunks (sz + length c) cs))"

definition readForm :: "string list \<Rightarrow> (string \<times> string) list option" where
  "readForm chunks = map_option form_decode (read_chunks 0 chunks)"

section \<open>Interactions\<close>

record ix =
  ix_uid :: string
  ix_prompt :: string
  ix_params :: "(string \<times> js) list"
  ix_accountId :: "string option"
  ix_grantId :: "string option"
  ix_deviceCode :: bool
  ix_missingOIDCScope :: "string list option"
  ix_missingOIDCClaims :: "string list option"
  ix_missingResourceScopes :: "(string \<times> string list) list"

record 'g grant_lib =
  gl_find :: "string \<Rightarrow> 'g option"
  gl_new :: "string \<Rightarrow> string \<Rightarrow> 'g"
  gl_jti :: "'g \<Rightarrow> string"
  gl_setJti :: "string \<Rightarrow> 'g \<Rightarrow> 'g"
  gl_addOIDCScope :: "string \<Rightarrow> 'g \<Rightarrow> 'g"
  gl_addOIDCClaims :: "string list \<Rightarrow> 'g \<Rightarrow> 'g"
  gl_addResourceScope :: "string \<Rightarrow> string \<Rightarrow> 'g \<Rightarrow> 'g"
  gl_savedId :: "'g \<Rightarrow> string"

record ('g, 'w) op_deps =
  od_grants :: "'g grant_lib"
  od_client :: "string \<Rightarrow> op_client option"
  od_parse :: url_parser
  od_dataPlaneUrl :: string
  od_db :: "'w \<Rightarrow> db"
  od_preflight :: "consent_request \<Rightarrow> 'w \<Rightarrow> preflight_reply \<times> 'w"
  od_mint :: "consent_request \<Rightarrow> string \<Rightarrow> 'w \<Rightarrow> mint_reply \<times> 'w"
  od_firstParty :: "string list"
  od_random :: string
  od_scrypt :: "string \<Rightarrow> string \<Rightarrow> string"

record consent_view =
  cv_clientName :: string
  cv_clientHost :: string
  cv_redirectHost :: string
  cv_paddockName :: string
  cv_paddockSlug :: string
  cv_email :: string
  cv_switchHref :: string

datatype page =
    LoginPage string "string option" "string option"
  | ConsentPage string consent_view
  | RefusedPage string string string string
  | MessagePage string string

datatype ix_result = LoginResult string | ConsentResult "string option" | ErrorResult string string

datatype ix_reply = Html int page | Finished ix_result bool | Threw

definition NOT_PERMITTED :: string where
  "NOT_PERMITTED = ''This client is not permitted to sign in yet.''"

definition access_denied :: "string \<Rightarrow> ix_reply" where
  "access_denied why = Finished (ErrorResult ''access_denied'' why) False"

text \<open>\<open>String(v)\<close> of a parameter, which the provider library has made a string.\<close>

definition param_string :: "js \<Rightarrow> string" where
  "param_string v = (case v of Str s \<Rightarrow> s | _ \<Rightarrow> ''undefined'')"

section \<open>What is asked for\<close>

definition singleResource :: "js \<Rightarrow> string option" where
  "singleResource v =
     (case v of Str s \<Rightarrow> Some s | Arr vs \<Rightarrow> (case vs of [Str s] \<Rightarrow> Some s | _ \<Rightarrow> None) | _ \<Rightarrow> None)"

definition switchAccountHref :: "(string \<times> js) list \<Rightarrow> string" where
  "switchAccountHref params =
     ''/auth?'' @ form_encode (assoc_set (List.map_filter (\<lambda>(k, v). if k \<noteq> ''prompt'' then map_option (Pair k) (as_str v) else None) params)
       ''prompt'' ''login consent'')"

datatype mcp_consent = NotMcp | NoPaddockNow string string | ConsentTo consent_request consent_view

text \<open>\<open>None\<close> when it throws: no authenticated session, or an id or redirect that is no URL.\<close>

definition mcpConsent :: "('g, 'w) op_deps \<Rightarrow> db \<Rightarrow> ix \<Rightarrow> mcp_consent option" where
  "mcpConsent deps d x =
     (case od_client deps (param_string (getp (Obj (ix_params x)) ''client_id'')) of
        None \<Rightarrow> Some NotMcp
      | Some client \<Rightarrow>
          if \<not> isCimdClient (Some client) then Some NotMcp
          else (case singleResource (getp (Obj (ix_params x)) ''resource'') of
              None \<Rightarrow> Some NotMcp
            | Some resource \<Rightarrow>
                (case parseMcpResource (od_dataPlaneUrl deps) resource of
                   None \<Rightarrow> Some NotMcp
                 | Some slug \<Rightarrow>
                     (case ix_accountId x of
                        None \<Rightarrow> None
                      | Some acct \<Rightarrow>
                          if acct = [] then None
                          else (let email = (case sel1 (\<lambda>u. u_id u = lower acct) (users d) of None \<Rightarrow> [] | Some u \<Rightarrow> u_email u);
                                    href = switchAccountHref (ix_params x) in
                            case findPaddock d slug of
                              None \<Rightarrow> Some (NoPaddockNow email href)
                            | Some p \<Rightarrow>
                                if p_status p \<noteq> ActivePaddock then Some (NoPaddockNow email href)
                                else (case (od_parse deps (ct_clientId client), od_parse deps (param_string (getp (Obj (ix_params x)) ''redirect_uri''))) of
                                    (Some cu, Some ru) \<Rightarrow>
                                      (let nm = (case ct_clientName client of None \<Rightarrow> s_host cu | Some n \<Rightarrow> n) in
                                       Some (ConsentTo \<lparr>cq_accountId = acct, cq_clientId = ct_clientId client, cq_clientName = nm, cq_resource = resource\<rparr>
                                         \<lparr>cv_clientName = nm, cv_clientHost = s_host cu, cv_redirectHost = s_host ru, cv_paddockName = p_name p,
                                          cv_paddockSlug = p_slug p, cv_email = email, cv_switchHref = href\<rparr>))
                                  | _ \<Rightarrow> None))))))"

section \<open>Grants\<close>

definition opt_apply :: "('a \<Rightarrow> 'g \<Rightarrow> 'g) \<Rightarrow> 'a option \<Rightarrow> 'g \<Rightarrow> 'g" where
  "opt_apply f v g = (case v of None \<Rightarrow> g | Some a \<Rightarrow> f a g)"

definition addMissing :: "'g grant_lib \<Rightarrow> ix \<Rightarrow> 'g \<Rightarrow> 'g" where
  "addMissing lib x g =
     fold (\<lambda>(resource, scopes). gl_addResourceScope lib resource (join_on '' '' scopes)) (ix_missingResourceScopes x)
       (opt_apply (gl_addOIDCClaims lib) (ix_missingOIDCClaims x)
         (opt_apply (\<lambda>s. gl_addOIDCScope lib (join_on '' '' s)) (ix_missingOIDCScope x) g))"

definition existing_grant :: "'g grant_lib \<Rightarrow> ix \<Rightarrow> 'g option" where
  "existing_grant lib x = (case ix_grantId x of None \<Rightarrow> None | Some i \<Rightarrow> if i = [] then None else gl_find lib i)"

text \<open>The consent of a first-party client: the result and the grant saved; \<open>None\<close> when it throws.\<close>

definition consentFor :: "'g grant_lib \<Rightarrow> ix \<Rightarrow> (ix_result \<times> 'g) option" where
  "consentFor lib x =
     (case ix_accountId x of
        None \<Rightarrow> None
      | Some acct \<Rightarrow>
          if acct = [] \<or> ix_deviceCode x \<and> ix_grantId x \<noteq> None then None
          else (let g = addMissing lib x (case existing_grant lib x of
                    Some g \<Rightarrow> g | None \<Rightarrow> gl_new lib acct (param_string (getp (Obj (ix_params x)) ''client_id'')))
            in Some (ConsentResult (case ix_grantId x of None \<Rightarrow> Some (gl_savedId lib g) | Some i \<Rightarrow> if i = [] then Some (gl_savedId lib g) else None), g)))"

section \<open>The handlers\<close>

type_synonym ('g, 'w) handled = "ix_reply \<times> 'g list \<times> 'w"

definition showInteraction :: "('g, 'w) op_deps \<Rightarrow> ix \<Rightarrow> 'w \<Rightarrow> ('g, 'w) handled" where
  "showInteraction deps x w =
     (if ix_prompt x = ''login'' then (Html 200 (LoginPage (ix_uid x) (as_str (getp (Obj (ix_params x)) ''login_hint'')) None), [], w)
      else if ix_prompt x = ''consent'' then
        (if param_string (getp (Obj (ix_params x)) ''client_id'') \<in> set (od_firstParty deps)
         then (case consentFor (od_grants deps) x of None \<Rightarrow> (Threw, [], w) | Some (r, g) \<Rightarrow> (Finished r True, [g], w))
         else (case mcpConsent deps (od_db deps w) x of
             None \<Rightarrow> (Threw, [], w)
           | Some NotMcp \<Rightarrow> (access_denied NOT_PERMITTED, [], w)
           | Some (NoPaddockNow email href) \<Rightarrow> (Html 200 (RefusedPage (ix_uid x) MINT_DENIED_PADDOCK email href), [], w)
           | Some (ConsentTo request view) \<Rightarrow>
               (let (pre, w') = od_preflight deps request w in
                case pre of
                  Allowed \<Rightarrow> (Html 200 (ConsentPage (ix_uid x) view), [], w')
                | NotAllowed reason \<Rightarrow> (Html 200 (RefusedPage (ix_uid x) reason (cv_email view) (cv_switchHref view)), [], w'))))
      else (Html 400 (MessagePage ''Unsupported request'' (''This sign-in step ('' @ ix_prompt x @ '') is not supported.'')), [], w))"

definition DENIED :: string where
  "DENIED = ''The request was denied.''"

text \<open>The grant an approval is for: the one the request started from, or a new one with an id of its own.\<close>

definition approval_grant :: "('g, 'w) op_deps \<Rightarrow> ix \<Rightarrow> consent_request \<Rightarrow> 'g" where
  "approval_grant deps x request =
     (case existing_grant (od_grants deps) x of
        Some g \<Rightarrow> g
      | None \<Rightarrow> gl_setJti (od_grants deps) (od_random deps) (gl_new (od_grants deps) (cq_accountId request) (cq_clientId request)))"

definition approve :: "('g, 'w) op_deps \<Rightarrow> ix \<Rightarrow> consent_request \<Rightarrow> 'w \<Rightarrow> ('g, 'w) handled" where
  "approve deps x request w =
     (let lib = od_grants deps; grant = approval_grant deps x request;
          (minted, w') = od_mint deps request (gl_jti lib grant) w in
      case minted of
        MintError detail \<Rightarrow>
          (Finished (ErrorResult ''server_error'' ''MetaModels could not record this approval, so nothing was granted. Try again.'') False, [], w')
      | MintDenied reason \<Rightarrow> (access_denied reason, [], w')
      | Minted i \<Rightarrow>
          (Finished (ConsentResult (if existing_grant lib x = None then Some (gl_jti lib grant) else None)) True, [addMissing lib x grant], w'))"

definition submitConsent :: "('g, 'w) op_deps \<Rightarrow> ix \<Rightarrow> string list \<Rightarrow> 'w \<Rightarrow> ('g, 'w) handled" where
  "submitConsent deps x chunks w =
     (if ix_prompt x \<noteq> ''consent''
      then (Html 400 (MessagePage ''Unsupported request'' ''This sign-in step does not take an approval.''), [], w)
      else (case readForm chunks of
          None \<Rightarrow> (Html 413 (MessagePage ''Request too large'' ''The approval form submission was too large.''), [], w)
        | Some form \<Rightarrow>
            (case mcpConsent deps (od_db deps w) x of
               None \<Rightarrow> (Threw, [], w)
             | Some NotMcp \<Rightarrow> (access_denied NOT_PERMITTED, [], w)
             | Some (NoPaddockNow email href) \<Rightarrow>
                 (access_denied (if map_of form ''decision'' = Some ''deny'' then DENIED else MINT_DENIED_PADDOCK), [], w)
             | Some (ConsentTo request view) \<Rightarrow>
                 if map_of form ''decision'' = Some ''approve'' then approve deps x request w
                 else if map_of form ''decision'' = Some ''close'' then
                   (let (pre, w') = od_preflight deps request w in
                    (access_denied (case pre of Allowed \<Rightarrow> DENIED | NotAllowed reason \<Rightarrow> reason), [], w'))
                 else (access_denied DENIED, [], w))))"

definition submitLogin :: "('g, 'w) op_deps \<Rightarrow> ix \<Rightarrow> string list \<Rightarrow> string \<Rightarrow> int \<Rightarrow> 'w \<Rightarrow> throttle \<Rightarrow> ix_reply \<times> throttle" where
  "submitLogin deps x chunks client_ip now w th =
     (if ix_prompt x \<noteq> ''login'' then (Html 400 (MessagePage ''Unsupported request'' ''This sign-in step does not accept a password.''), th)
      else (case readForm chunks of
          None \<Rightarrow> (Html 413 (MessagePage ''Request too large'' ''The sign-in form submission was too large.''), th)
        | Some form \<Rightarrow>
            (let email = trim (case map_of form ''email'' of None \<Rightarrow> [] | Some e \<Rightarrow> e);
                 password = (case map_of form ''password'' of None \<Rightarrow> [] | Some p \<Rightarrow> p);
                 ip = (if client_ip = [] then ''unknown'' else client_ip) in
             if \<not> check th ip now then (Html 429 (LoginPage (ix_uid x) (Some email) (Some ''Too many attempts. Try again later.'')), th)
             else (case verifyLogin (od_db deps w) (od_scrypt deps) email password of
                 Inl r \<Rightarrow>
                   (Html 401 (LoginPage (ix_uid x) (Some email)
                      (Some (if r = Deactivated then ''This account is deactivated.'' else ''Invalid email or password.''))), record_failure th ip now)
               | Inr acct \<Rightarrow> (Finished (LoginResult acct) False, th)))))"

section \<open>When the library prompts\<close>

definition DEVICE_APPROVAL_ROUTES :: "string list" where
  "DEVICE_APPROVAL_ROUTES = [''code_verification'', ''device_resume'']"

text \<open>The route, and whether a login was submitted in the interaction that is resumed.\<close>

definition device_fresh_login :: "string \<Rightarrow> bool \<Rightarrow> bool" where
  "device_fresh_login route loggedInHere = (route \<in> set DEVICE_APPROVAL_ROUTES \<and> \<not> loggedInHere)"

definition mcp_key_missing :: "db \<Rightarrow> string \<Rightarrow> op_client option \<Rightarrow> js \<Rightarrow> string option \<Rightarrow> bool" where
  "mcp_key_missing d base client resource grantId =
     (isCimdClient client \<and>
      (case Option.bind (singleResource resource) (parseMcpResource base) of
         None \<Rightarrow> False
       | Some slug \<Rightarrow>
           (case grantId of None \<Rightarrow> True | Some g \<Rightarrow> if g = [] then True else activeOauthKeyForGrant d g slug = None)))"

text \<open>The grant of the consent just given, the route and the session's grant for the client.\<close>

definition loadExistingGrant :: "'g grant_lib \<Rightarrow> string option \<Rightarrow> string \<Rightarrow> string option \<Rightarrow> 'g option" where
  "loadExistingGrant lib consented route sessionGrant =
     (let i = (case consented of Some c \<Rightarrow> if c \<noteq> [] then Some c else (if route \<in> set DEVICE_APPROVAL_ROUTES then None else sessionGrant)
            | None \<Rightarrow> if route \<in> set DEVICE_APPROVAL_ROUTES then None else sessionGrant)
      in case i of None \<Rightarrow> None | Some g \<Rightarrow> if g = [] then None else gl_find lib g)"

section \<open>The routes\<close>

datatype op_route = OpHealth | OpStylesheet | OpShow string | OpLogin string | OpConsent string | OpNotAllowed string | OpLibrary

definition uid_char :: "char \<Rightarrow> bool" where
  "uid_char c = (is_upper c \<or> is_lower c \<or> is_digit c \<or> c = CHR ''_'' \<or> c = CHR ''-'')"

text \<open>\<open>/^\/interaction\/([A-Za-z0-9_-]+)(\/login|\/consent)?$/\<close>\<close>

definition interaction_path :: "string \<Rightarrow> (string \<times> string) option" where
  "interaction_path path =
     (let pre = ''/interaction/''; rest = drop (length pre) path; uid = takeWhile uid_char rest; suf = dropWhile uid_char rest in
      if prefix pre path \<and> uid \<noteq> [] \<and> (suf = [] \<or> suf = ''/login'' \<or> suf = ''/consent'') then Some (uid, suf) else None)"

definition interactionMiddleware :: "string \<Rightarrow> string \<Rightarrow> op_route" where
  "interactionMiddleware meth path =
     (if meth = ''GET'' \<and> path = ''/healthz'' then OpHealth
      else if meth = ''GET'' \<and> path = ''/assets/auth.css'' then OpStylesheet
      else case interaction_path path of
          None \<Rightarrow> OpLibrary
        | Some (uid, suf) \<Rightarrow>
            if meth = ''GET'' \<and> suf = [] then OpShow uid
            else if meth = ''POST'' \<and> suf = ''/login'' then OpLogin uid
            else if meth = ''POST'' \<and> suf = ''/consent'' then OpConsent uid
            else OpNotAllowed (if suf = [] then ''GET'' else ''POST''))"

text \<open>The headers set on every response, before anything is decided.\<close>

definition op_headers :: "string \<Rightarrow> (string \<times> string) list" where
  "op_headers csp = [(''Content-Security-Policy'', csp), (''X-Content-Type-Options'', ''nosniff''), (''X-Frame-Options'', ''DENY''),
     (''Referrer-Policy'', ''no-referrer''), (''Strict-Transport-Security'', ''max-age=63072000'')]"

section \<open>Lemmas\<close>

text \<open>The throttle around a login is the one of theory \<open>Login\<close>.\<close>

lemma submitLogin_attempt:
  assumes "ix_prompt x = ''login''" and "readForm chunks = Some form" and "ip \<noteq> []"
  shows "snd (submitLogin deps x chunks ip now w th) =
    fst (attempt (ip, now, \<exists>a. verifyLogin (od_db deps w) (od_scrypt deps) (trim (case map_of form ''email'' of None \<Rightarrow> [] | Some e \<Rightarrow> e))
      (case map_of form ''password'' of None \<Rightarrow> [] | Some p \<Rightarrow> p) = Inr a) (th, fails))"
  using assms by (auto simp: submitLogin_def Let_def split: sum.split)

text \<open>The form encoding and its parser.\<close>

lemma form_text_char: "form_text (form_char c @ rest) = c # form_text rest"
proof -
  have h: "hex_upper n \<noteq> CHR ''+''" if "n < 16" for n
    using radix_hex_upper [OF that] by (auto simp: radix_digit_def is_digit_def less_eq_char_def split: if_split_asm)
  have "(of_char c :: nat) < 256" by simp
  then have d: "(of_char c :: nat) div 16 < 16" "(of_char c :: nat) mod 16 < 16" by (simp_all add: less_mult_imp_div_less)
  let ?plain = "is_upper c \<or> is_lower c \<or> is_digit c \<or> c \<in> {CHR ''*'', CHR ''-'', CHR ''.'', CHR ''_''}"
  have p: "c \<noteq> CHR ''+'' \<and> c \<noteq> CHR ''%''" if ?plain
    using that by (auto simp: is_upper_def is_lower_def is_digit_def less_eq_char_def)
  show ?thesis
  proof (cases "c = CHR '' ''")
    case sp: False
    show ?thesis
    proof (cases ?plain)
      case True
      with sp have "form_char c = [c]" by (simp only: form_char_def if_True if_False)
      with p [OF True] sp show ?thesis by (simp add: form_text_def)
    next
      case False
      with sp have "form_char c = percent c" by (simp only: form_char_def if_False)
      with d show ?thesis by (simp add: form_text_def percent_def h radix_hex_upper of_char_split)
    qed
  qed (simp add: form_text_def form_char_def)
qed

lemma form_text_encoded: "form_text (concat (map form_char s)) = s"
proof (induction s)
  case (Cons c s)
  then show ?case by (simp add: form_text_char)
qed (simp add: form_text_def)

lemma form_char_plain: "x \<in> set (form_char c) \<Longrightarrow> x \<noteq> CHR ''='' \<and> x \<noteq> CHR ''&''"
proof -
  have h: "hex_upper n \<noteq> CHR ''='' \<and> hex_upper n \<noteq> CHR ''&''" if "n < 16" for n
    using radix_hex_upper [OF that] by (auto simp: radix_digit_def is_digit_def less_eq_char_def split: if_split_asm)
  have "(of_char c :: nat) < 256" by simp
  then have d: "(of_char c :: nat) div 16 < 16" "(of_char c :: nat) mod 16 < 16" by (simp_all add: less_mult_imp_div_less)
  assume "x \<in> set (form_char c)"
  then show ?thesis
    using h [OF d(1)] h [OF d(2)] by (auto simp: form_char_def percent_def is_upper_def is_lower_def is_digit_def less_eq_char_def split: if_split_asm)
qed

lemma encoded_plain: "x \<in> set (concat (map form_char s)) \<Longrightarrow> x \<noteq> CHR ''='' \<and> x \<noteq> CHR ''&''"
  using form_char_plain by auto

lemma form_pair_encoded: "form_pair (concat (map form_char k) @ CHR ''='' # concat (map form_char v)) = (k, v)"
proof -
  let ?k = "concat (map form_char k)" and ?v = "concat (map form_char v)"
  have "takeWhile (\<lambda>c. c \<noteq> CHR ''='') (?k @ ''='' @ ?v) = ?k" "dropWhile (\<lambda>c. c \<noteq> CHR ''='') (?k @ ''='' @ ?v) = ''='' @ ?v"
    using encoded_plain [of _ k] by (subst takeWhile_append2 dropWhile_append2; simp)+
  then show ?thesis by (simp add: form_pair_def form_text_encoded)
qed

lemma split_joined:
  "ps \<noteq> [] \<Longrightarrow> (\<And>p. p \<in> set ps \<Longrightarrow> c \<notin> set p) \<Longrightarrow> split_on c (join_on [c] ps) = ps"
proof (induction ps)
  case (Cons p ps)
  then show ?case by (cases ps) (simp_all add: split_on_no_sep split_on_append)
qed simp

section \<open>Properties\<close>

text \<open>
  What the pages send is what the handlers read: parsing the form encoding of any list of fields gives the fields
  back, with any bytes in names and values, repeated names and empty values included.
\<close>

theorem form_roundtrip: "form_decode (form_encode kvs) = kvs"
proof (cases "kvs = []")
  case True
  then show ?thesis by (simp add: form_encode_def form_decode_def)
next
  case False
  let ?enc = "\<lambda>(k, v). concat (map form_char k) @ ''='' @ concat (map form_char v)"
  have a: "CHR ''&'' \<notin> set p" if "p \<in> set (map ?enc kvs)" for p
    using that form_char_plain by fastforce
  have "split_on CHR ''&'' (form_encode kvs) = map ?enc kvs"
    unfolding form_encode_def by (rule split_joined [OF _ a]) (use False in simp_all)
  moreover have "filter (\<lambda>p. p \<noteq> []) (map ?enc kvs) = map ?enc kvs" by (auto simp: filter_id_conv)
  moreover have "map form_pair (map ?enc kvs) = kvs" by (induction kvs) (auto simp: form_pair_encoded)
  ultimately show ?thesis by (simp add: form_decode_def)
qed

lemma mcpConsent_asks:
  assumes "mcpConsent deps d x = Some (ConsentTo request view)"
  shows "\<exists>client slug p. od_client deps (param_string (getp (Obj (ix_params x)) ''client_id'')) = Some client \<and> ct_cimd client \<and>
    cq_clientId request = ct_clientId client \<and> ix_accountId x = Some (cq_accountId request) \<and>
    parseMcpResource (od_dataPlaneUrl deps) (cq_resource request) = Some slug \<and> findPaddock d slug = Some p \<and> p_status p = ActivePaddock"
  using assms by (auto simp: mcpConsent_def isCimdClient_def Let_def split: option.split_asm if_split_asm)

lemma submitConsent_saved:
  assumes "submitConsent deps x chunks w = (r, saved, w')" and "saved \<noteq> []"
  shows "\<exists>request view form i. ix_prompt x = ''consent'' \<and> readForm chunks = Some form \<and> map_of form ''decision'' = Some ''approve'' \<and>
    mcpConsent deps (od_db deps w) x = Some (ConsentTo request view) \<and>
    od_mint deps request (gl_jti (od_grants deps) (approval_grant deps x request)) w = (Minted i, w') \<and>
    saved = [addMissing (od_grants deps) x (approval_grant deps x request)] \<and>
    r = Finished (ConsentResult (if existing_grant (od_grants deps) x = None
      then Some (gl_jti (od_grants deps) (approval_grant deps x request)) else None)) True"
  using assms
  by (auto simp: submitConsent_def approve_def Let_def split: if_split_asm option.split_asm mcp_consent.split_asm prod.split_asm mint_reply.split_asm)


text \<open>
  C9. An approval gets the client its token. With the control plane's own routes at the other end of the consent API, once the
  form saved a grant, the provider's checks for a token of that grant and resource pass in the database the mint
  left: the resource gate admits the client, the key claim is there, and the consent screen is not asked for again.
\<close>

theorem approved_client_gets_token:
  assumes "submitConsent deps x chunks w = (r, saved, w')" and "saved \<noteq> []"
    and "mcpConsent deps (fst w) x = Some (ConsentTo request view)" and "gid = gl_jti (od_grants deps) (approval_grant deps x request)"
    and "od_db deps = fst" and "od_mint deps = http_mint (control_plane e) a now uuid"
    and "loadDataPlaneUrl e = Inr (od_dataPlaneUrl deps)" and "keys_agree a e now uuid request gid"
    and "list_all (\<lambda>k. k_id k \<noteq> []) (keys (fst w'))"
    and "od_client deps (param_string (getp (Obj (ix_params x)) ''client_id'')) = Some client"
  shows "\<exists>kid. extraTokenClaims (fst w') (od_dataPlaneUrl deps) (Some gid) (Some (cq_resource request)) = Inr (Some kid) \<and>
    getResourceServerInfo servers allowed (Some (mcp_resources_of (fst w') (od_dataPlaneUrl deps))) (cq_resource request) client = Some mcpResourceServer \<and>
    \<not> mcp_key_missing (fst w') (od_dataPlaneUrl deps) (Some client) (Str (cq_resource request)) (Some gid)"
proof -
  let ?base = "od_dataPlaneUrl deps"
  obtain i where m: "http_mint (control_plane e) a now uuid request gid w = (Minted i, w')"
    using submitConsent_saved [OF assms(1,2)] assms(3-6) by auto
  from mcpConsent_asks [OF assms(3)] assms(10) obtain slug p where s: "ct_cimd client" "parseMcpResource ?base (cq_resource request) = Some slug"
    "findPaddock (fst w) slug = Some p" "p_status p = ActivePaddock" by auto
  from minted_over_http [of e a now uuid request gid "fst w" "snd w" i "fst w'" "snd w'"] m assms(7,8)
  have "\<exists>act pd k. cq_resource request = mcpResource ?base (p_slug pd) \<and> pd \<in> set (paddocks (fst w)) \<and> k \<in> set (keys (fst w')) \<and>
      bound_key (fst w') act (cq_clientId request) (p_id pd) k \<and> k_grantId k = Some gid \<and> paddocks (fst w') = paddocks (fst w) \<and> gid \<noteq> []"
    by auto
  then obtain act pd k where b: "cq_resource request = mcpResource ?base (p_slug pd)" "pd \<in> set (paddocks (fst w))" "k \<in> set (keys (fst w'))"
    "bound_key (fst w') act (cq_clientId request) (p_id pd) k" "k_grantId k = Some gid" "paddocks (fst w') = paddocks (fst w)" "gid \<noteq> []" by blast
  from s(2) b(1) have sl: "p_slug pd = slug" by (metis parseMcpResource_Some_shape mcpResource_inj)
  from bound_grant_key [OF b(3,4,5)] b(2,6) sl obtain kid where kid: "activeOauthKeyForGrant (fst w') gid slug = Some kid" by fastforce
  then have "kid \<noteq> []" using assms(9) by (auto simp: activeOauthKeyForGrant_def list_all_iff dest: sel1_Some)
  with kid s b(6,7) show ?thesis
    by (simp add: extraTokenClaims_def getResourceServerInfo_def mcp_resources_of_def isCimdClient_def findPaddock_def mcp_key_missing_def singleResource_def)
qed

text \<open>A client that approves against a control plane with one user and one paddock.\<close>

definition demo_request :: consent_request where
  "demo_request = \<lparr>cq_accountId = ''00000000-0000-4000-8000-000000000001'', cq_clientId = ''https://m'', cq_clientName = ''m'',
     cq_resource = ''https://d/p/pad/mcp''\<rparr>"

definition demo_asserter :: asserter where
  "demo_asserter = \<lparr>as_issuer = ''https://i'', as_consoleUrl = ''https://c'', as_kid = ''k'',
     as_signer = \<lparr>sg_stringify = (\<lambda>v. ''x''), sg_b64url = (\<lambda>s. ''A''), sg_sign = id\<rparr>\<rparr>"

definition demo_cp :: internal_env where
  "demo_cp = (demo_internal 5000)\<lparr>ie_jose := \<lparr>jo_decode = (\<lambda>t. None), jo_coolingDown = False,
     jo_verify = (\<lambda>t. Verified (Obj [(''alg'', Str ''RS256'')]) (Obj (assertion_claims demo_asserter 5000 ''j'' demo_request (Some ''G''))))\<rparr>\<rparr>"

definition demo_deps :: "(string, db \<times> replay_guard) op_deps" where
  "demo_deps = \<lparr>od_grants = \<lparr>gl_find = (\<lambda>i. None), gl_new = (\<lambda>a c. []), gl_jti = id, gl_setJti = (\<lambda>j g. j), gl_addOIDCScope = (\<lambda>s g. g),
       gl_addOIDCClaims = (\<lambda>s g. g), gl_addResourceScope = (\<lambda>r s g. g), gl_savedId = id\<rparr>,
     od_client = (\<lambda>i. Some demo_cimd), od_parse = (\<lambda>s. Some \<lparr>u_protocol = ''https:'', u_origin = s, u_pathname = ''/'', u_search = [], u_hash = [],
       s_hostname = ''m'', s_host = ''m''\<rparr>),
     od_dataPlaneUrl = ''https://d'', od_db = fst, od_preflight = http_preflight (control_plane demo_cp) demo_asserter 5000 ''j'',
     od_mint = http_mint (control_plane demo_cp) demo_asserter 5000 ''j'', od_firstParty = [CONSOLE_CLIENT_ID], od_random = ''G'', od_scrypt = (\<lambda>p s. [])\<rparr>"

definition demo_ix :: ix where
  "demo_ix = \<lparr>ix_uid = ''u'', ix_prompt = ''consent'', ix_params = [(''client_id'', Str ''https://m''), (''resource'', Str ''https://d/p/pad/mcp''),
     (''redirect_uri'', Str ''https://m/cb'')], ix_accountId = Some ''00000000-0000-4000-8000-000000000001'', ix_grantId = None, ix_deviceCode = False,
     ix_missingOIDCScope = None, ix_missingOIDCClaims = None, ix_missingResourceScopes = [(''https://d/p/pad/mcp'', [''mcp''])]\<rparr>"

definition demo_world :: "db \<times> replay_guard" where
  "demo_world = (demo_consent_db, RedisReplayGuard [])"

abbreviation demo_approval :: "string \<Rightarrow> ix_reply \<times> string list \<times> db \<times> replay_guard" where
  "demo_approval decision \<equiv> submitConsent demo_deps demo_ix [''decision='', decision] demo_world"

lemma demo_approved:
  "fst (snd (demo_approval ''approve'')) = [''G'']"
  "list_all (\<lambda>k. k_id k \<noteq> []) (keys (fst (snd (snd (demo_approval ''approve'')))))"
  "case mcpConsent demo_deps demo_consent_db demo_ix of Some (ConsentTo q v) \<Rightarrow> q = demo_request | _ \<Rightarrow> False"
  "requireOrigin (ae_parse_url (ie_admin demo_cp)) (ie_dataPlaneUrl demo_cp) = Inr ''https://d''"
  by code_simp+


theorem approved_client_gets_token_witness:
  "\<exists>kid. extraTokenClaims (fst (snd (snd (demo_approval ''approve'')))) ''https://d'' (Some ''G'') (Some ''https://d/p/pad/mcp'') = Inr (Some kid)"
proof -
  obtain r saved w' where a: "demo_approval ''approve'' = (r, saved, w')" by (metis prod_cases3)
  with demo_approved(1) have s: "saved \<noteq> []" by auto
  obtain v where c: "mcpConsent demo_deps (fst demo_world) demo_ix = Some (ConsentTo demo_request v)"
    using demo_approved(3) by (auto simp: demo_world_def split: option.split_asm mcp_consent.split_asm)
  have g: "''G'' = gl_jti (od_grants demo_deps) (approval_grant demo_deps demo_ix demo_request)"
    by (simp add: demo_deps_def approval_grant_def existing_grant_def demo_ix_def)
  have l: "loadDataPlaneUrl demo_cp = Inr (od_dataPlaneUrl demo_deps)" using demo_approved(4) by (simp add: loadDataPlaneUrl_def demo_deps_def)
  have k: "keys_agree demo_asserter demo_cp 5000 ''j'' demo_request ''G''"
    by (simp add: keys_agree_def demo_cp_def demo_asserter_def url_safe_def is_upper_def less_eq_char_def)
  have i: "list_all (\<lambda>k. k_id k \<noteq> []) (keys (fst w'))" using demo_approved(2) a by simp
  have o: "od_db demo_deps = fst" "od_mint demo_deps = http_mint (control_plane demo_cp) demo_asserter 5000 ''j''" "od_client demo_deps j = Some demo_cimd" for j
    by (simp_all add: demo_deps_def)
  from approved_client_gets_token [OF a s c g o(1,2) l k i o(3)] a show ?thesis by (auto simp: demo_deps_def demo_request_def)
qed

end
