(* ===== verification/OidcStore.thy ===== *)
theory OidcStore
  imports Tables
begin

text \<open>
  The OpenID provider's storage (apps/auth/src/adapter.ts): \<open>PgAdapter\<close> over the table
  \<open>oidc_payload\<close>, one instance per model name. The provider library calls it through its
  \<open>Adapter\<close> interface; the locale \<open>payload_store\<close> is that interface's contract, stated on
  an abstract map from ids to entries, and the adapter of each model is an interpretation.
\<close>

section \<open>The adapter\<close>

type_synonym payload = "(string \<times> js) list"
type_synonym op_rows = "payload_row list"

definition column :: "payload \<Rightarrow> string \<Rightarrow> string option" where
  "column p k = as_str (getp (Obj p) k)"

definition expiry :: "int \<Rightarrow> int option \<Rightarrow> int option" where
  "expiry now expiresIn = (case expiresIn of None \<Rightarrow> None | Some s \<Rightarrow> if s = 0 then None else Some (now + s * 1000))"

definition mine :: "string \<Rightarrow> (payload_row \<Rightarrow> bool) \<Rightarrow> payload_row \<Rightarrow> bool" where
  "mine m P r = (op_model r = m \<and> P r)"

definition upsert :: "string \<Rightarrow> int \<Rightarrow> string \<Rightarrow> payload \<Rightarrow> int option \<Rightarrow> op_rows \<Rightarrow> op_rows" where
  "upsert m now i p expiresIn rows =
     (if list_ex (mine m (\<lambda>r. op_id r = i)) rows
      then upd (mine m (\<lambda>r. op_id r = i)) (\<lambda>r. r\<lparr>op_payload := Obj p, op_grantId := column p ''grantId'', op_userCode := column p ''userCode'',
          op_uid := column p ''uid'', op_expiresAt := expiry now expiresIn\<rparr>) rows
      else rows @ [\<lparr>op_model = m, op_id = i, op_payload = Obj p, op_grantId = column p ''grantId'', op_userCode = column p ''userCode'',
          op_uid = column p ''uid'', op_expiresAt = expiry now expiresIn, op_consumedAt = None\<rparr>])"

definition live :: "int \<Rightarrow> int option \<Rightarrow> bool" where
  "live now e = (case e of None \<Rightarrow> True | Some t \<Rightarrow> now < t)"

definition with_consumed :: "payload \<Rightarrow> int option \<Rightarrow> payload" where
  "with_consumed p c = (case c of None \<Rightarrow> p | Some t \<Rightarrow> assoc_set p ''consumed'' (NumI (t div 1000)))"

fun obj_fields :: "js \<Rightarrow> payload" where
  "obj_fields (Obj p) = p"
| "obj_fields _ = []"

definition findWhere :: "string \<Rightarrow> int \<Rightarrow> (payload_row \<Rightarrow> bool) \<Rightarrow> op_rows \<Rightarrow> payload option" where
  "findWhere m now P rows =
     map_option (\<lambda>r. with_consumed (obj_fields (op_payload r)) (op_consumedAt r))
       (sel1 (\<lambda>r. mine m P r \<and> live now (op_expiresAt r)) rows)"

definition find_id :: "string \<Rightarrow> int \<Rightarrow> string \<Rightarrow> op_rows \<Rightarrow> payload option" where
  "find_id m now i = findWhere m now (\<lambda>r. op_id r = i)"

definition findByUid :: "string \<Rightarrow> int \<Rightarrow> string \<Rightarrow> op_rows \<Rightarrow> payload option" where
  "findByUid m now u = findWhere m now (\<lambda>r. op_uid r = Some u)"

definition findByUserCode :: "string \<Rightarrow> int \<Rightarrow> string \<Rightarrow> op_rows \<Rightarrow> payload option" where
  "findByUserCode m now c = findWhere m now (\<lambda>r. op_userCode r = Some c)"

definition consume :: "string \<Rightarrow> int \<Rightarrow> string \<Rightarrow> op_rows \<Rightarrow> op_rows" where
  "consume m now i rows = upd (mine m (\<lambda>r. op_id r = i)) (\<lambda>r. r\<lparr>op_consumedAt := Some now\<rparr>) rows"

definition destroy :: "string \<Rightarrow> string \<Rightarrow> op_rows \<Rightarrow> op_rows" where
  "destroy m i rows = del (mine m (\<lambda>r. op_id r = i)) rows"

definition revokeByGrantId :: "string \<Rightarrow> string \<Rightarrow> op_rows \<Rightarrow> op_rows" where
  "revokeByGrantId m g rows = del (mine m (\<lambda>r. op_grantId r = Some g)) rows"

definition expired_before :: "int \<Rightarrow> payload_row \<Rightarrow> bool" where
  "expired_before now r = (case op_expiresAt r of None \<Rightarrow> False | Some t \<Rightarrow> t < now)"

definition sweepExpired :: "int \<Rightarrow> op_rows \<Rightarrow> nat \<times> op_rows" where
  "sweepExpired now rows = (length (sel (expired_before now) rows), del (expired_before now) rows)"

section \<open>The interface\<close>

text \<open>The writes of an adapter, and an entry: what was saved, until when, and when it was consumed.\<close>

datatype store_op = Upsert string payload "int option" | Consume string | Destroy string | RevokeGrant string

record entry =
  en_payload :: payload
  en_expiresAt :: "int option"
  en_consumedAt :: "int option"

fun spec_step :: "store_op \<Rightarrow> int \<Rightarrow> (string \<rightharpoonup> entry) \<Rightarrow> (string \<rightharpoonup> entry)" where
  "spec_step (Upsert i p s) now M =
     M(i \<mapsto> \<lparr>en_payload = p, en_expiresAt = expiry now s, en_consumedAt = Option.bind (M i) en_consumedAt\<rparr>)"
| "spec_step (Consume i) now M = M(i := map_option (\<lambda>e. e\<lparr>en_consumedAt := Some now\<rparr>) (M i))"
| "spec_step (Destroy i) now M = M(i := None)"
| "spec_step (RevokeGrant g) now M =
     (\<lambda>i. case M i of None \<Rightarrow> None | Some e \<Rightarrow> if column (en_payload e) ''grantId'' = Some g then None else Some e)"

definition spec_find :: "int \<Rightarrow> string \<Rightarrow> (string \<rightharpoonup> entry) \<Rightarrow> payload option" where
  "spec_find now i M =
     (case M i of
        None \<Rightarrow> None
      | Some e \<Rightarrow> if live now (en_expiresAt e) then Some (with_consumed (en_payload e) (en_consumedAt e)) else None)"

text \<open>The operations that keep an entry of the id.\<close>

definition keeps :: "string \<Rightarrow> store_op \<Rightarrow> bool" where
  "keeps i op = (case op of Destroy j \<Rightarrow> j \<noteq> i | RevokeGrant g \<Rightarrow> False | _ \<Rightarrow> True)"

locale payload_store =
  fixes step :: "store_op \<Rightarrow> int \<Rightarrow> 's \<Rightarrow> 's" and look :: "int \<Rightarrow> string \<Rightarrow> 's \<Rightarrow> payload option"
    and entries :: "'s \<Rightarrow> (string \<rightharpoonup> entry)" and ok :: "'s \<Rightarrow> bool"
  assumes ok_step: "ok s \<Longrightarrow> ok (step op now s)"
    and entries_step: "ok s \<Longrightarrow> entries (step op now s) = spec_step op now (entries s)"
    and look_spec: "ok s \<Longrightarrow> look now i s = spec_find now i (entries s)"
begin

lemma consumed_entry:
  assumes "ok s" and "entries s i = Some e" and "en_consumedAt e \<noteq> None" and "list_all (\<lambda>(op, n). keeps i op) ops"
  shows "\<exists>e'. entries (fold (\<lambda>(op, n). step op n) ops s) i = Some e' \<and> en_consumedAt e' \<noteq> None \<and> ok (fold (\<lambda>(op, n). step op n) ops s)"
  using assms
proof (induction ops arbitrary: s e)
  case Nil
  then show ?case by simp
next
  case (Cons x ops)
  obtain op n where x: "x = (op, n)" by (cases x)
  have k: "keeps i op" "list_all (\<lambda>(op, n). keeps i op) ops" using Cons.prems(4) x by simp_all
  from Cons.prems(1-3) k(1) have "\<exists>e'. entries (step op n s) i = Some e' \<and> en_consumedAt e' \<noteq> None"
    by (cases op) (auto simp: entries_step keeps_def)
  then obtain e' where e': "entries (step op n s) i = Some e'" "en_consumedAt e' \<noteq> None" by blast
  from Cons.IH [OF ok_step [OF Cons.prems(1)] e' k(2)] x show ?case by simp
qed

text \<open>What was consumed is found as consumed or not at all, however often it is saved again.\<close>

lemma consumed_for_good:
  assumes "ok s" and "entries s i \<noteq> None" and "list_all (\<lambda>(op, n). keeps i op) ops"
    and "look now i (fold (\<lambda>(op, n). step op n) ops (step (Consume i) t s)) = Some p"
  shows "\<exists>c. map_of p ''consumed'' = Some (NumI c)"
proof -
  from assms(1,2) obtain e where e: "entries (step (Consume i) t s) i = Some e" "en_consumedAt e \<noteq> None" by (auto simp: entries_step)
  from consumed_entry [OF ok_step [OF assms(1)] e assms(3)] assms(4) show ?thesis
    by (auto simp: look_spec spec_find_def with_consumed_def split: if_split_asm)
qed

end

section \<open>The adapter as an interpretation\<close>

fun pg_step :: "string \<Rightarrow> store_op \<Rightarrow> int \<Rightarrow> op_rows \<Rightarrow> op_rows" where
  "pg_step m (Upsert i p s) now rows = upsert m now i p s rows"
| "pg_step m (Consume i) now rows = consume m now i rows"
| "pg_step m (Destroy i) now rows = destroy m i rows"
| "pg_step m (RevokeGrant g) now rows = revokeByGrantId m g rows"

definition entry_of :: "payload_row \<Rightarrow> entry" where
  "entry_of r = \<lparr>en_payload = obj_fields (op_payload r), en_expiresAt = op_expiresAt r, en_consumedAt = op_consumedAt r\<rparr>"

definition pg_entries :: "string \<Rightarrow> op_rows \<Rightarrow> (string \<rightharpoonup> entry)" where
  "pg_entries m rows = (\<lambda>i. map_option entry_of (sel1 (mine m (\<lambda>r. op_id r = i)) rows))"

definition row_ok :: "payload_row \<Rightarrow> bool" where
  "row_ok r = (\<exists>p. op_payload r = Obj p \<and> op_grantId r = column p ''grantId'')"

definition rows_ok :: "op_rows \<Rightarrow> bool" where
  "rows_ok rows = (distinct (map (\<lambda>r. (op_model r, op_id r)) rows) \<and> (\<forall>r \<in> set rows. row_ok r))"

lemma sel1_upd: "(\<And>r. P r \<Longrightarrow> Q (f r) = Q r) \<Longrightarrow> sel1 Q (upd P f xs) = map_option (\<lambda>r. if P r then f r else r) (sel1 Q xs)"
  by (induction xs) (auto simp: sel1_def upd_def)

lemma sel1_del: "(\<And>r. r \<in> set xs \<Longrightarrow> Q r \<Longrightarrow> \<not> P r) \<Longrightarrow> sel1 Q (del P xs) = sel1 Q xs"
  by (induction xs) (auto simp: sel1_def del_def)

lemma rows_unique:
  "rows_ok rows \<Longrightarrow> r \<in> set rows \<Longrightarrow> mine m (\<lambda>x. op_id x = i) r \<Longrightarrow> sel1 (mine m (\<lambda>x. op_id x = i)) rows = Some r"
  by (rule sel1_only) (auto simp: rows_ok_def mine_def dest: distinct_key_eq)

lemma sel1_ex: "list_ex P xs \<longleftrightarrow> sel1 P xs \<noteq> None"
  by (auto simp: list_ex_iff sel1_None)

lemma upsert_ok: "rows_ok rows \<Longrightarrow> rows_ok (upsert m now i p s rows)"
proof (cases "list_ex (mine m (\<lambda>r. op_id r = i)) rows")
  case True
  assume r: "rows_ok rows"
  then have "distinct (map (\<lambda>r. (op_model r, op_id r)) (upsert m now i p s rows))"
    using True by (simp add: upsert_def map_upd_key rows_ok_def)
  with r True show ?thesis by (auto simp: rows_ok_def row_ok_def upsert_def set_upd)
next
  case False
  assume "rows_ok rows"
  with False show ?thesis by (auto simp: rows_ok_def row_ok_def upsert_def list_ex_iff mine_def)
qed

lemma consume_ok: "rows_ok rows \<Longrightarrow> rows_ok (consume m now i rows)"
  by (auto simp: rows_ok_def row_ok_def consume_def map_upd_key set_upd)

lemma del_ok: "rows_ok rows \<Longrightarrow> rows_ok (del P rows)"
  by (simp add: rows_ok_def distinct_del)

lemma pg_step_ok: "rows_ok rows \<Longrightarrow> rows_ok (pg_step m op now rows)"
  by (cases op) (simp_all add: upsert_ok consume_ok del_ok destroy_def revokeByGrantId_def)

lemma entries_upsert:
  "pg_entries m (upsert m now i p s rows) = spec_step (Upsert i p s) now (pg_entries m rows)"
proof
  fix j
  let ?P = "mine m (\<lambda>r. op_id r = i)" and ?Q = "mine m (\<lambda>r. op_id r = j)"
  let ?new = "\<lparr>op_model = m, op_id = i, op_payload = Obj p, op_grantId = column p ''grantId'', op_userCode = column p ''userCode'',
    op_uid = column p ''uid'', op_expiresAt = expiry now s, op_consumedAt = None\<rparr>"
  show "pg_entries m (upsert m now i p s rows) j = spec_step (Upsert i p s) now (pg_entries m rows) j"
  proof (cases "list_ex ?P rows")
    case True
    then obtain r where r: "sel1 ?P rows = Some r" by (auto simp: sel1_ex)
    then have "?P r" by (simp add: sel1_Some)
    note r = r this
    have "sel1 ?Q (upsert m now i p s rows) = map_option (\<lambda>r. if ?P r then r\<lparr>op_payload := Obj p, op_grantId := column p ''grantId'',
        op_userCode := column p ''userCode'', op_uid := column p ''uid'', op_expiresAt := expiry now s\<rparr> else r) (sel1 ?Q rows)"
      using True by (simp add: upsert_def) (rule sel1_upd, simp add: mine_def)
    with r show ?thesis
      by (cases "j = i"; cases "sel1 ?Q rows") (auto simp: pg_entries_def entry_of_def mine_def dest: sel1_Some)
  next
    case False
    then have n: "sel1 ?P rows = None" by (simp add: sel1_ex)
    show ?thesis
    proof (cases "j = i")
      case True
      with n False show ?thesis by (simp add: upsert_def pg_entries_def sel1_append entry_of_def) (simp add: sel1_def mine_def)
    next
      case ne: False
      then have "\<not> ?Q ?new" by (simp add: mine_def)
      with ne n False show ?thesis by (simp add: upsert_def pg_entries_def sel1_append split: option.split) (simp add: sel1_def)
    qed
  qed
qed

lemma entries_consume: "pg_entries m (consume m now i rows) = spec_step (Consume i) now (pg_entries m rows)"
proof
  fix j
  have "sel1 (mine m (\<lambda>r. op_id r = j)) (consume m now i rows) =
      map_option (\<lambda>r. if mine m (\<lambda>r. op_id r = i) r then r\<lparr>op_consumedAt := Some now\<rparr> else r) (sel1 (mine m (\<lambda>r. op_id r = j)) rows)"
    unfolding consume_def by (rule sel1_upd) (simp add: mine_def)
  then show "pg_entries m (consume m now i rows) j = spec_step (Consume i) now (pg_entries m rows) j"
    by (cases "sel1 (mine m (\<lambda>r. op_id r = j)) rows") (auto simp: pg_entries_def entry_of_def mine_def dest: sel1_Some)
qed

lemma entries_del:
  assumes "rows_ok rows"
  shows "pg_entries m (del (mine m P) rows) i =
    (case sel1 (mine m (\<lambda>r. op_id r = i)) rows of None \<Rightarrow> None | Some r \<Rightarrow> if P r then None else Some (entry_of r))"
proof (cases "sel1 (mine m (\<lambda>r. op_id r = i)) rows")
  case None
  then have "sel1 (mine m (\<lambda>r. op_id r = i)) (del (mine m P) rows) = None" by (auto simp: sel1_None)
  with None show ?thesis by (simp add: pg_entries_def)
next
  case (Some r)
  note r = sel1_Some [OF Some]
  show ?thesis
  proof (cases "P r")
    case True
    have "\<not> mine m (\<lambda>r. op_id r = i) x" if "x \<in> set rows" "\<not> mine m P x" for x
    proof
      assume "mine m (\<lambda>r. op_id r = i) x"
      from rows_unique [OF assms that(1) this] Some have "x = r" by simp
      with that(2) r True show False by (simp add: mine_def)
    qed
    then have "sel1 (mine m (\<lambda>r. op_id r = i)) (del (mine m P) rows) = None" by (simp add: sel1_None)
    with Some True show ?thesis by (simp add: pg_entries_def)
  next
    case False
    have "sel1 (mine m (\<lambda>r. op_id r = i)) (del (mine m P) rows) = Some r"
      using False r Some by (intro rows_unique del_ok assms) (simp_all add: mine_def)
    with Some False show ?thesis by (simp add: pg_entries_def)
  qed
qed

lemma entries_destroy:
  assumes "rows_ok rows"
  shows "pg_entries m (destroy m i rows) = spec_step (Destroy i) now (pg_entries m rows)"
proof
  fix j
  show "pg_entries m (destroy m i rows) j = spec_step (Destroy i) now (pg_entries m rows) j"
    unfolding destroy_def entries_del [OF assms]
    by (cases "sel1 (mine m (\<lambda>r. op_id r = j)) rows") (auto simp: pg_entries_def mine_def dest: sel1_Some)
qed

lemma entries_revoke:
  assumes "rows_ok rows"
  shows "pg_entries m (revokeByGrantId m g rows) = spec_step (RevokeGrant g) now (pg_entries m rows)"
proof
  fix j
  show "pg_entries m (revokeByGrantId m g rows) j = spec_step (RevokeGrant g) now (pg_entries m rows) j"
  proof (cases "sel1 (mine m (\<lambda>r. op_id r = j)) rows")
    case None
    then show ?thesis unfolding revokeByGrantId_def entries_del [OF assms] by (simp add: pg_entries_def)
  next
    case (Some r)
    with assms obtain p where "op_payload r = Obj p" "op_grantId r = column p ''grantId''"
      using sel1_Some [OF Some] by (auto simp: rows_ok_def row_ok_def)
    with Some show ?thesis unfolding revokeByGrantId_def entries_del [OF assms] by (simp add: pg_entries_def entry_of_def)
  qed
qed

lemma find_id_spec:
  assumes "rows_ok rows"
  shows "find_id m now i rows = spec_find now i (pg_entries m rows)"
proof (cases "sel1 (\<lambda>r. mine m (\<lambda>r. op_id r = i) r \<and> live now (op_expiresAt r)) rows")
  case None
  then have "sel1 (mine m (\<lambda>r. op_id r = i)) rows = Some r \<Longrightarrow> \<not> live now (op_expiresAt r)" for r
    using sel1_Some by (fastforce simp: sel1_None)
  with None show ?thesis by (auto simp: find_id_def findWhere_def spec_find_def pg_entries_def entry_of_def split: option.split)
next
  case (Some r)
  with rows_unique [OF assms] have "sel1 (mine m (\<lambda>r. op_id r = i)) rows = Some r" "live now (op_expiresAt r)"
    using sel1_Some [OF Some] by auto
  with Some show ?thesis by (simp add: find_id_def findWhere_def spec_find_def pg_entries_def entry_of_def)
qed

interpretation pg: payload_store "pg_step m" "find_id m" "pg_entries m" rows_ok for m
proof
  fix s op now
  assume ok: "rows_ok s"
  show "rows_ok (pg_step m op now s)" by (rule pg_step_ok [OF ok])
  show "pg_entries m (pg_step m op now s) = spec_step op now (pg_entries m s)"
    by (cases op) (simp_all only: pg_step.simps entries_upsert entries_consume entries_destroy [OF ok] entries_revoke [OF ok])
qed (rule find_id_spec)

section \<open>Properties\<close>

text \<open>
  C39. The table implements the map the provider library expects: each write of a model's adapter does to the
  model's entries what the specification does and leaves every other model's entries alone, and a lookup by id
  reads the map (an entry past its time is not there), with the keys of the table kept.
\<close>

theorem adapter_refines_map:
  assumes "rows_ok rows"
  shows "rows_ok (pg_step m op now rows) \<and> pg_entries m (pg_step m op now rows) = spec_step op now (pg_entries m rows) \<and>
    find_id m now' i rows = spec_find now' i (pg_entries m rows) \<and>
    (m' \<noteq> m \<longrightarrow> pg_entries m' (pg_step m op now rows) = pg_entries m' rows)"
proof -
  have "pg_entries m' (pg_step m op now rows) = pg_entries m' rows" if "m' \<noteq> m"
  proof
    fix j
    have u: "sel1 (mine m' (\<lambda>r. op_id r = j)) (upd (mine m P) f rows) = sel1 (mine m' (\<lambda>r. op_id r = j)) rows"
      if "\<And>r. op_model (f r) = op_model r" for P f
      using \<open>m' \<noteq> m\<close> that by (subst sel1_upd) (auto simp: mine_def option.map_id0 cong: map_option_cong dest!: sel1_Some intro: map_option_idI)
    have e: "sel1 (mine m' (\<lambda>r. op_id r = j)) (del (mine m P) rows) = sel1 (mine m' (\<lambda>r. op_id r = j)) rows" for P
      using that by (intro sel1_del) (auto simp: mine_def)
    have a: "sel1 (mine m' (\<lambda>r. op_id r = j)) (rows @ [r]) = sel1 (mine m' (\<lambda>r. op_id r = j)) rows" if "op_model r = m" for r
      using that \<open>m' \<noteq> m\<close> by (simp add: sel1_append split: option.split) (simp add: sel1_def mine_def)
    show "pg_entries m' (pg_step m op now rows) j = pg_entries m' rows j"
      by (cases op) (simp_all add: pg_entries_def upsert_def consume_def destroy_def revokeByGrantId_def u e a)
  qed
  with pg.ok_step [OF assms] pg.entries_step [OF assms] pg.look_spec [OF assms] show ?thesis by blast
qed

definition demo_payload :: payload where
  "demo_payload = [(''grantId'', Str ''g''), (''kind'', Str ''AuthorizationCode'')]"

theorem adapter_refines_map_witness:
  "pg_entries ''Code'' (pg_step ''Code'' (RevokeGrant ''g'') 5 (upsert ''Code'' 0 ''x'' demo_payload (Some 60) [])) ''x'' = None"
proof -
  have "rows_ok (upsert ''Code'' 0 ''x'' demo_payload (Some 60) [])" by (rule upsert_ok) (simp add: rows_ok_def)
  from adapter_refines_map [OF this, of "''Code''" "RevokeGrant ''g''" 5]
  have "pg_entries ''Code'' (pg_step ''Code'' (RevokeGrant ''g'') 5 (upsert ''Code'' 0 ''x'' demo_payload (Some 60) [])) =
      spec_step (RevokeGrant ''g'') 5 (pg_entries ''Code'' (upsert ''Code'' 0 ''x'' demo_payload (Some 60) []))" by blast
  moreover have "column demo_payload ''grantId'' = Some ''g''" by code_simp
  ultimately show ?thesis by (simp add: entries_upsert)
qed

text \<open>
  A code or a rotated refresh token that was consumed stays so: whatever the model's adapter saves or consumes
  afterwards, a lookup finds the entry marked as consumed, or does not find it. Saving it again does not
  clear the mark.
\<close>

theorem consumed_stays_consumed:
  assumes "rows_ok rows" and "find_id m t i rows \<noteq> None" and "list_all (\<lambda>(op, n). keeps i op) ops"
    and "find_id m now i (fold (\<lambda>(op, n). pg_step m op n) ops (consume m t i rows)) = Some p"
  shows "\<exists>c. map_of p ''consumed'' = Some (NumI c)"
proof -
  have "pg_entries m rows i \<noteq> None" using assms(2) by (auto simp: pg.look_spec [OF assms(1)] spec_find_def split: option.split_asm)
  from pg.consumed_for_good [OF assms(1) this assms(3), where t = t and now = now] assms(4) show ?thesis by simp
qed

theorem consumed_stays_consumed_witness:
  "case find_id ''Code'' 6 ''x'' (fold (\<lambda>(op, n). pg_step ''Code'' op n) [(Upsert ''x'' demo_payload (Some 60), 5)]
       (consume ''Code'' 4 ''x'' (upsert ''Code'' 0 ''x'' demo_payload (Some 60) []))) of
     None \<Rightarrow> False | Some p \<Rightarrow> \<exists>c. map_of p ''consumed'' = Some (NumI c)"
proof -
  let ?rows = "upsert ''Code'' 0 ''x'' demo_payload (Some 60) []" and ?ops = "[(Upsert ''x'' demo_payload (Some 60), 5 :: int)]"
  let ?found = "find_id ''Code'' 6 ''x'' (fold (\<lambda>(op, n). pg_step ''Code'' op n) ?ops (consume ''Code'' 4 ''x'' ?rows))"
  have ok: "rows_ok ?rows" by (rule upsert_ok) (simp add: rows_ok_def)
  have f: "find_id ''Code'' 4 ''x'' ?rows \<noteq> None" and k: "list_all (\<lambda>(op, n). keeps ''x'' op) ?ops" by code_simp+
  have "?found \<noteq> None" by code_simp
  then obtain p where p: "?found = Some p" by blast
  from consumed_stays_consumed [OF ok f k p] p show ?thesis by simp
qed

text \<open>
  Sweeping is not observable: whenever the sweep runs, every later lookup, by id, by uid or by user code,
  of every model answers as it would have without it; what is removed was invisible already. The count it returns is of
  the rows removed.
\<close>

theorem sweep_unobservable:
  assumes "t \<le> now"
  shows "findWhere m now P (snd (sweepExpired t rows)) = findWhere m now P rows \<and>
    fst (sweepExpired t rows) + length (snd (sweepExpired t rows)) = length rows"
proof -
  have "sel1 (\<lambda>r. mine m P r \<and> live now (op_expiresAt r)) (del (expired_before t) rows) = sel1 (\<lambda>r. mine m P r \<and> live now (op_expiresAt r)) rows"
    using assms by (intro sel1_del) (auto simp: live_def expired_before_def split: option.split_asm)
  moreover have "length (filter Q rows) + length (filter (\<lambda>r. \<not> Q r) rows) = length rows" for Q :: "payload_row \<Rightarrow> bool"
    by (rule sum_length_filter_compl)
  ultimately show ?thesis by (simp add: findWhere_def sweepExpired_def sel_def del_def)
qed

theorem sweep_unobservable_witness:
  "findByUid ''S'' 70000 ''u'' (snd (sweepExpired 60001 (upsert ''S'' 0 ''x'' [(''uid'', Str ''u'')] (Some 60) []))) =
   findByUid ''S'' 70000 ''u'' (upsert ''S'' 0 ''x'' [(''uid'', Str ''u'')] (Some 60) [])"
  using sweep_unobservable [of 60001 70000 "''S''" "\<lambda>r. op_uid r = Some ''u''"] by (simp add: findByUid_def)

end
