(* ===== verification/Reseal.thy ===== *)
theory Reseal
  imports Sealed
begin

text \<open>
  The reseal pass of \<open>migrate\<close> (packages/schema/src/reseal.ts): every stored credential is
  brought under the current key in one transaction, and the table is rewritten afterwards. Random
  initialisation vectors are the argument \<open>ivs\<close> (one for each flock of a pass), the table
  rewrite the argument \<open>vacuum\<close>: the message of its failure, if any.
\<close>

section \<open>The pass\<close>

datatype vacuum_result = VacuumDone | VacuumFailed string

record reseal_report =
  rp_sealed :: nat
  rp_resealed :: nat
  rp_unreadable :: "(string \<times> string \<times> unseal_reason) list"
  rp_vacuum :: vacuum_result

text \<open>What the loop body does with one row: nothing, report it, or write a new value.\<close>

datatype row_step = Current | Unreadable unseal_reason | FirstSeal string | Moved string

definition flock_binding :: "flock_row \<Rightarrow> seal_binding" where
  "flock_binding f = \<lparr>b_orgId = f_orgId f, b_flockId = f_id f\<rparr>"

definition reseal_row :: "crypto \<Rightarrow> seal_keyring \<Rightarrow> string \<Rightarrow> seal_binding \<Rightarrow> string \<Rightarrow> seal_error + row_step" where
  "reseal_row c ring iv bind val =
     (if \<not> needsReseal val ring then
        (case openSealed c val ring bind of
           Inr p \<Rightarrow> Inr Current
         | Inl (Unseal r) \<Rightarrow> Inr (Unreadable r)
         | Inl e \<Rightarrow> Inl e)
      else if \<not> isSealed val then
        (case seal c iv val ring bind of Inl e \<Rightarrow> Inl e | Inr v \<Rightarrow> Inr (FirstSeal v))
      else
        (case openSealed c val ring bind of
           Inl (Unseal r) \<Rightarrow> Inr (Unreadable r)
         | Inl e \<Rightarrow> Inl e
         | Inr p \<Rightarrow> (case seal c iv p ring bind of Inl e \<Rightarrow> Inl e | Inr v \<Rightarrow> Inr (Moved v))))"

definition set_auth :: "string \<Rightarrow> string \<Rightarrow> flock_row list \<Rightarrow> flock_row list" where
  "set_auth fid v fs = upd (\<lambda>f. f_id f = fid) (\<lambda>f. f\<lparr>f_upstreamAuthEnc := Some v\<rparr>) fs"

fun reseal_rows :: "crypto \<Rightarrow> seal_keyring \<Rightarrow> (string \<Rightarrow> string) \<Rightarrow> flock_row list \<Rightarrow> reseal_report \<times> flock_row list \<Rightarrow>
    seal_error + reseal_report \<times> flock_row list" where
  "reseal_rows c ring ivs [] (rp, fs) = Inr (rp, fs)"
| "reseal_rows c ring ivs (row # rows) (rp, fs) =
     (case reseal_row c ring (ivs (f_id row)) (flock_binding row) (the (f_upstreamAuthEnc row)) of
        Inl e \<Rightarrow> Inl e
      | Inr Current \<Rightarrow> reseal_rows c ring ivs rows (rp, fs)
      | Inr (Unreadable r) \<Rightarrow>
          reseal_rows c ring ivs rows (rp\<lparr>rp_unreadable := rp_unreadable rp @ [(f_id row, f_name row, r)]\<rparr>, fs)
      | Inr (FirstSeal v) \<Rightarrow> reseal_rows c ring ivs rows (rp\<lparr>rp_sealed := Suc (rp_sealed rp)\<rparr>, set_auth (f_id row) v fs)
      | Inr (Moved v) \<Rightarrow> reseal_rows c ring ivs rows (rp\<lparr>rp_resealed := Suc (rp_resealed rp)\<rparr>, set_auth (f_id row) v fs))"

text \<open>The check constraint \<open>LIKE 'sealed:v1:%'\<close>, validated at the end of the transaction.\<close>

definition auth_constraint :: "flock_row \<Rightarrow> bool" where
  "auth_constraint f = (case f_upstreamAuthEnc f of None \<Rightarrow> True | Some v \<Rightarrow> starts_with v SEAL_PREFIX)"

definition resealUpstreamAuth :: "crypto \<Rightarrow> seal_keyring \<Rightarrow> (string \<Rightarrow> string) \<Rightarrow> (flock_row list \<Rightarrow> string option) \<Rightarrow>
    flock_row list \<Rightarrow> seal_error + reseal_report \<times> flock_row list" where
  "resealUpstreamAuth c ring ivs vacuum fs =
     (case reseal_rows c ring ivs (sel (\<lambda>f. f_upstreamAuthEnc f \<noteq> None) fs)
         (\<lparr>rp_sealed = 0, rp_resealed = 0, rp_unreadable = [], rp_vacuum = VacuumDone\<rparr>, fs) of
        Inl e \<Rightarrow> Inl e
      | Inr (rp, fs') \<Rightarrow>
          if \<not> list_all auth_constraint fs' then Inl ConstraintViolated
          else (case vacuum fs' of
              None \<Rightarrow> Inr (rp, fs')
            | Some msg \<Rightarrow> Inr (rp\<lparr>rp_vacuum := VacuumFailed msg\<rparr>, fs')))"

section \<open>The pass, row by row\<close>

definition row_result :: "crypto \<Rightarrow> seal_keyring \<Rightarrow> (string \<Rightarrow> string) \<Rightarrow> flock_row \<Rightarrow> seal_error + row_step" where
  "row_result c ring ivs f = reseal_row c ring (ivs (f_id f)) (flock_binding f) (the (f_upstreamAuthEnc f))"

fun written :: "row_step \<Rightarrow> string option" where
  "written (FirstSeal v) = Some v"
| "written (Moved v) = Some v"
| "written _ = None"

fun unread :: "flock_row \<Rightarrow> row_step \<Rightarrow> (string \<times> string \<times> unseal_reason) list" where
  "unread f (Unreadable r) = [(f_id f, f_name f, r)]"
| "unread f _ = []"

definition new_row :: "crypto \<Rightarrow> seal_keyring \<Rightarrow> (string \<Rightarrow> string) \<Rightarrow> flock_row \<Rightarrow> flock_row" where
  "new_row c ring ivs f =
     (case row_result c ring ivs f of
        Inr st \<Rightarrow> (case written st of Some v \<Rightarrow> f\<lparr>f_upstreamAuthEnc := Some v\<rparr> | None \<Rightarrow> f)
      | Inl e \<Rightarrow> f)"

lemma new_row_id [simp]: "f_id (new_row c ring ivs f) = f_id f" "f_orgId (new_row c ring ivs f) = f_orgId f"
  "f_name (new_row c ring ivs f) = f_name f"
  by (auto simp: new_row_def split: sum.splits option.splits)

definition steps_of :: "crypto \<Rightarrow> seal_keyring \<Rightarrow> (string \<Rightarrow> string) \<Rightarrow> flock_row list \<Rightarrow> row_step list" where
  "steps_of c ring ivs rows = map (\<lambda>f. projr (row_result c ring ivs f)) rows"

lemma set_auth_map:
  "distinct (map f_id fs) \<Longrightarrow> row \<in> set fs \<Longrightarrow>
     set_auth (f_id row) v fs = map (\<lambda>f. if f = row then f\<lparr>f_upstreamAuthEnc := Some v\<rparr> else f) fs"
  by (auto simp: set_auth_def upd_def dest: distinct_key_eq)

lemma reseal_rows_ok:
  assumes "\<forall>f \<in> set rows. \<exists>st. row_result c ring ivs f = Inr st"
    and "distinct (map f_id rows)" and "distinct (map f_id fs)" and "set rows \<subseteq> set fs"
  shows "\<exists>rp'. reseal_rows c ring ivs rows (rp, fs) = Inr (rp', map (\<lambda>f. if f \<in> set rows then new_row c ring ivs f else f) fs) \<and>
    rp_sealed rp' = rp_sealed rp + length (filter (\<lambda>st. \<exists>v. st = FirstSeal v) (steps_of c ring ivs rows)) \<and>
    rp_resealed rp' = rp_resealed rp + length (filter (\<lambda>st. \<exists>v. st = Moved v) (steps_of c ring ivs rows)) \<and>
    rp_unreadable rp' = rp_unreadable rp @ concat (map (\<lambda>f. unread f (projr (row_result c ring ivs f))) rows)"
  using assms
proof (induction rows arbitrary: rp fs)
  case (Cons row rows)
  from Cons.prems(1) obtain st where st: "row_result c ring ivs row = Inr st" by auto
  define fs1 where "fs1 = map (\<lambda>f. if f = row then new_row c ring ivs f else f) fs"
  define rp1 where "rp1 = (case st of Current \<Rightarrow> rp
     | Unreadable r \<Rightarrow> rp\<lparr>rp_unreadable := rp_unreadable rp @ [(f_id row, f_name row, r)]\<rparr>
     | FirstSeal v \<Rightarrow> rp\<lparr>rp_sealed := Suc (rp_sealed rp)\<rparr>
     | Moved v \<Rightarrow> rp\<lparr>rp_resealed := Suc (rp_resealed rp)\<rparr>)"
  have row: "row \<in> set fs" using Cons.prems(4) by simp
  have "new_row c ring ivs row = row" if "written st = None"
    using st that by (simp add: new_row_def)
  then have fs1': "fs1 = (case written st of None \<Rightarrow> fs | Some v \<Rightarrow> set_auth (f_id row) v fs)"
    using st by (auto simp: fs1_def new_row_def set_auth_map [OF Cons.prems(3) row] map_idI split: option.split)
  have step: "reseal_rows c ring ivs (row # rows) (rp, fs) = reseal_rows c ring ivs rows (rp1, fs1)"
    using st by (cases st) (simp_all add: row_result_def rp1_def fs1')
  have ids: "map f_id fs1 = map f_id fs" by (simp add: fs1_def)
  have "f \<in> set fs1" if "f \<in> set rows" for f
  proof -
    have "f \<noteq> row" using that Cons.prems(2) by auto
    moreover have "f \<in> set fs" using that Cons.prems(4) by auto
    ultimately show ?thesis unfolding fs1_def by (auto intro: image_eqI [of _ _ f])
  qed
  then have sub: "set rows \<subseteq> set fs1" by auto
  have map: "map (\<lambda>f. if f \<in> set rows then new_row c ring ivs f else f) fs1 =
      map (\<lambda>f. if f \<in> set (row # rows) then new_row c ring ivs f else f) fs"
  proof -
    have "row \<notin> set rows" using Cons.prems(2) by auto
    moreover have "new_row c ring ivs row \<in> set rows \<Longrightarrow> False"
      using Cons.prems(2) by (metis image_eqI list.simps(9) distinct.simps(2) new_row_id(1) set_map)
    ultimately show ?thesis by (auto simp: fs1_def)
  qed
  have dist: "distinct (map f_id rows)" and ok: "\<forall>f \<in> set rows. \<exists>st. row_result c ring ivs f = Inr st"
    using Cons.prems(1,2) by auto
  from Cons.IH [OF ok dist _ sub, of rp1] Cons.prems(3) ids
  obtain rp' where rp': "reseal_rows c ring ivs rows (rp1, fs1) =
      Inr (rp', map (\<lambda>f. if f \<in> set rows then new_row c ring ivs f else f) fs1)"
    "rp_sealed rp' = rp_sealed rp1 + length (filter (\<lambda>st. \<exists>v. st = FirstSeal v) (steps_of c ring ivs rows))"
    "rp_resealed rp' = rp_resealed rp1 + length (filter (\<lambda>st. \<exists>v. st = Moved v) (steps_of c ring ivs rows))"
    "rp_unreadable rp' = rp_unreadable rp1 @ concat (map (\<lambda>f. unread f (projr (row_result c ring ivs f))) rows)"
    by auto
  then show ?case unfolding step map using st
    by (intro exI [of _ rp']) (cases st, simp_all add: rp1_def steps_of_def)
qed (simp add: steps_of_def)

section \<open>What the pass does to a credential\<close>

text \<open>The plaintext a stored value stands for, when this keyring can tell.\<close>

definition credential :: "crypto \<Rightarrow> seal_keyring \<Rightarrow> seal_binding \<Rightarrow> string \<Rightarrow> string option" where
  "credential c ring bind v =
     (if \<not> isSealed v then Some v
      else (case openSealed c v ring bind of Inr p \<Rightarrow> Some p | Inl e \<Rightarrow> None))"

lemma open_error:
  assumes "aad bind = Inr ad" and "openSealed c v ring bind = Inl e"
  obtains r where "e = Unseal r"
  using assms by (auto simp: openSealed_def split: option.split_asm)

lemma not_sealed_needs: "\<not> isSealed v \<Longrightarrow> needsReseal v ring"
  by (simp add: isSealed_def needsReseal_def)

lemma reseal_row_readable:
  assumes "gcm_ok c" and "ring_ok ring" and "length iv = 12" and "aad bind = Inr ad"
    and "credential c ring bind v = Some p"
  obtains st where "reseal_row c ring iv bind v = Inr st" and "unread f st = []"
    and "openSealed c (case written st of None \<Rightarrow> v | Some w \<Rightarrow> w) ring bind = Inr p"
    and "\<not> needsReseal (case written st of None \<Rightarrow> v | Some w \<Rightarrow> w) ring"
    and "\<not> needsReseal v ring \<Longrightarrow> st = Current"
proof -
  have held: "map_of (byKid ring) (kid (current ring)) = Some (current ring)"
    using assms(2) by (simp add: ring_ok_def)
  consider "\<not> needsReseal v ring" | "needsReseal v ring" "\<not> isSealed v" | "needsReseal v ring" "isSealed v" by blast
  then show thesis
  proof cases
    case 1
    then have "isSealed v" using not_sealed_needs by blast
    with assms(5) have "openSealed c v ring bind = Inr p"
      by (auto simp: credential_def split: sum.split_asm)
    with 1 show thesis by (intro that [of Current]) (simp_all add: reseal_row_def)
  next
    case 2
    then have "v = p" using assms(5) by (simp add: credential_def)
    moreover obtain w where w: "seal c iv v ring bind = Inr w" using seal_total [OF assms(4)] by blast
    ultimately show thesis using 2 open_sealed [OF assms(1-3) w held] seal_current [OF assms(1-3) w]
      by (intro that [of "FirstSeal w"]) (simp_all add: reseal_row_def)
  next
    case 3
    then have o: "openSealed c v ring bind = Inr p"
      using assms(5) by (auto simp: credential_def split: sum.split_asm)
    moreover obtain w where w: "seal c iv p ring bind = Inr w" using seal_total [OF assms(4)] by blast
    ultimately show thesis using 3 open_sealed [OF assms(1-3) w held] seal_current [OF assms(1-3) w]
      by (intro that [of "Moved w"]) (simp_all add: reseal_row_def)
  qed
qed

lemma reseal_row_unreadable:
  assumes "aad bind = Inr ad" and "credential c ring bind v = None"
  obtains r where "reseal_row c ring iv bind v = Inr (Unreadable r)" and "isSealed v"
    and "openSealed c v ring bind = Inl (Unseal r)"
proof -
  from assms(2) obtain e where "isSealed v" and e: "openSealed c v ring bind = Inl e"
    by (auto simp: credential_def split: if_split_asm sum.split_asm)
  moreover obtain r where "e = Unseal r" using open_error [OF assms(1) e] .
  ultimately show thesis by (intro that [of r]) (simp_all add: reseal_row_def)
qed

text \<open>How a row after the pass relates to the row before it.\<close>

definition row_after :: "crypto \<Rightarrow> seal_keyring \<Rightarrow> flock_row \<Rightarrow> flock_row \<Rightarrow> bool" where
  "row_after c ring f f' =
     (f' = f\<lparr>f_upstreamAuthEnc := f_upstreamAuthEnc f'\<rparr> \<and>
      (case f_upstreamAuthEnc f of
         None \<Rightarrow> f' = f
       | Some v \<Rightarrow>
           (case credential c ring (flock_binding f) v of
              None \<Rightarrow> f' = f
            | Some p \<Rightarrow> \<exists>w. f_upstreamAuthEnc f' = Some w \<and> \<not> needsReseal w ring \<and>
                openSealed c w ring (flock_binding f) = Inr p)))"

definition pass_ready :: "crypto \<Rightarrow> seal_keyring \<Rightarrow> flock_row list \<Rightarrow> bool" where
  "pass_ready c ring fs = (gcm_ok c \<and> ring_ok ring \<and> distinct (map f_id fs) \<and>
     list_all (\<lambda>f. is_uuid (f_id f) \<and> is_uuid (f_orgId f)) fs)"

lemma binding_aad:
  "pass_ready c ring fs \<Longrightarrow> f \<in> set fs \<Longrightarrow> \<exists>ad. aad (flock_binding f) = Inr ad"
  by (simp add: pass_ready_def list_all_iff aad_def flock_binding_def)

lemma new_row_after:
  assumes "pass_ready c ring fs" and "f \<in> set fs" and "f_upstreamAuthEnc f = Some v" and "\<And>i. length (ivs i) = 12"
  shows "\<exists>st. row_result c ring ivs f = Inr st" and "row_after c ring f (new_row c ring ivs f)"
    and "auth_constraint (new_row c ring ivs f)"
    and "unread f (projr (row_result c ring ivs f)) =
      (case openSealed c v ring (flock_binding f) of
         Inl (Unseal r) \<Rightarrow> if isSealed v then [(f_id f, f_name f, r)] else [] | _ \<Rightarrow> [])"
proof -
  obtain ad where ad: "aad (flock_binding f) = Inr ad" using binding_aad [OF assms(1,2)] by blast
  have ok: "gcm_ok c" "ring_ok ring" using assms(1) by (simp_all add: pass_ready_def)
  have prefix: "isSealed w \<Longrightarrow> prefix SEAL_PREFIX w" for w
    by (auto simp: isSealed_def match_envelope_def split: if_split_asm)
  have all: "(\<exists>st. row_result c ring ivs f = Inr st) \<and> row_after c ring f (new_row c ring ivs f) \<and>
    auth_constraint (new_row c ring ivs f) \<and>
    unread f (projr (row_result c ring ivs f)) =
      (case openSealed c v ring (flock_binding f) of
         Inl (Unseal r) \<Rightarrow> if isSealed v then [(f_id f, f_name f, r)] else [] | _ \<Rightarrow> [])"
  proof (cases "credential c ring (flock_binding f) v")
    case None
    from reseal_row_unreadable [OF ad None] obtain r where "reseal_row c ring (ivs (f_id f)) (flock_binding f) v = Inr (Unreadable r)"
      "isSealed v" "openSealed c v ring (flock_binding f) = Inl (Unseal r)" .
    with None assms(3) prefix show ?thesis
      by (simp add: row_result_def row_after_def new_row_def auth_constraint_def)
  next
    case (Some p)
    from reseal_row_readable [OF ok assms(4) ad Some, where f = f] obtain st where
      st: "reseal_row c ring (ivs (f_id f)) (flock_binding f) v = Inr st" "unread f st = []"
      "openSealed c (case written st of None \<Rightarrow> v | Some w \<Rightarrow> w) ring (flock_binding f) = Inr p"
      "\<not> needsReseal (case written st of None \<Rightarrow> v | Some w \<Rightarrow> w) ring" by blast
    have "isSealed (case written st of None \<Rightarrow> v | Some w \<Rightarrow> w)" using st(4) not_sealed_needs by blast
    moreover have "isSealed v \<Longrightarrow> openSealed c v ring (flock_binding f) = Inr p"
      using Some by (auto simp: credential_def split: sum.split_asm)
    ultimately show ?thesis using st Some assms(3) prefix
      by (cases "written st")
        (auto simp: row_result_def row_after_def new_row_def auth_constraint_def split: sum.split seal_error.split)
  qed
  then show "\<exists>st. row_result c ring ivs f = Inr st" "row_after c ring f (new_row c ring ivs f)"
    "auth_constraint (new_row c ring ivs f)"
    "unread f (projr (row_result c ring ivs f)) =
      (case openSealed c v ring (flock_binding f) of
         Inl (Unseal r) \<Rightarrow> if isSealed v then [(f_id f, f_name f, r)] else [] | _ \<Rightarrow> [])"
    by blast+
qed

text \<open>The rows a pass reports, in the order of the table.\<close>

definition unreadable_rows :: "crypto \<Rightarrow> seal_keyring \<Rightarrow> flock_row list \<Rightarrow> (string \<times> string \<times> unseal_reason) list" where
  "unreadable_rows c ring fs = concat (map (\<lambda>f.
     case f_upstreamAuthEnc f of
       None \<Rightarrow> []
     | Some v \<Rightarrow> (case openSealed c v ring (flock_binding f) of
         Inl (Unseal r) \<Rightarrow> if isSealed v then [(f_id f, f_name f, r)] else [] | _ \<Rightarrow> [])) fs)"

definition unreadable_of :: "crypto \<Rightarrow> seal_keyring \<Rightarrow> flock_row \<Rightarrow> (string \<times> string \<times> unseal_reason) list" where
  "unreadable_of c ring f = unreadable_rows c ring [f]"

lemma unreadable_rows_eq: "unreadable_rows c ring fs = concat (map (unreadable_of c ring) fs)"
  by (simp add: unreadable_of_def [abs_def] unreadable_rows_def)

definition settled :: "crypto \<Rightarrow> seal_keyring \<Rightarrow> flock_row \<Rightarrow> bool" where
  "settled c ring f = (f_upstreamAuthEnc f \<noteq> None \<longrightarrow>
     (\<forall>ivs. \<exists>st. row_result c ring ivs f = Inr st \<and> written st = None))"

lemma settled_step:
  "settled c ring f \<Longrightarrow> f_upstreamAuthEnc f \<noteq> None \<Longrightarrow>
     new_row c ring ivs f = f \<and> written (projr (row_result c ring ivs f)) = None"
proof -
  assume "settled c ring f" "f_upstreamAuthEnc f \<noteq> None"
  then obtain st where "row_result c ring ivs f = Inr st" "written st = None"
    unfolding settled_def by blast
  then show ?thesis by (simp add: new_row_def)
qed

lemma row_after_settled:
  assumes "pass_ready c ring fs" and "f \<in> set fs" and "row_after c ring f f'"
  shows "settled c ring f' \<and> unreadable_of c ring f' = unreadable_of c ring f"
proof (cases "f_upstreamAuthEnc f")
  case None
  with assms(3) show ?thesis by (simp add: row_after_def settled_def)
next
  case (Some v)
  obtain ad where ad: "aad (flock_binding f) = Inr ad" using binding_aad [OF assms(1,2)] by blast
  show ?thesis
  proof (cases "credential c ring (flock_binding f) v")
    case None
    then have "settled c ring f"
      using reseal_row_unreadable [OF ad None] Some unfolding settled_def row_result_def
      by (metis option.sel written.simps(4))
    with None Some assms(3) show ?thesis by (simp add: row_after_def)
  next
    case cred: (Some p)
    with Some assms(3) obtain w where w: "f_upstreamAuthEnc f' = Some w" "\<not> needsReseal w ring"
      "openSealed c w ring (flock_binding f) = Inr p" and f': "f' = f\<lparr>f_upstreamAuthEnc := f_upstreamAuthEnc f'\<rparr>"
      by (auto simp: row_after_def)
    from f' w(1) have "f' = f\<lparr>f_upstreamAuthEnc := Some w\<rparr>" by simp
    then have b: "flock_binding f' = flock_binding f" by (simp add: flock_binding_def)
    with w have "settled c ring f'" by (simp add: settled_def row_result_def reseal_row_def)
    moreover from cred Some have "unreadable_of c ring f = []"
      by (auto simp: unreadable_of_def unreadable_rows_def credential_def
          split: sum.split_asm sum.split seal_error.split if_split_asm)
    moreover from w b have "unreadable_of c ring f' = []" by (simp add: unreadable_of_def unreadable_rows_def)
    ultimately show ?thesis by simp
  qed
qed

lemma reseal_rows_vacuum:
  "reseal_rows c ring ivs rows (rp, fs) = Inr (rp', fs') \<Longrightarrow> rp_vacuum rp' = rp_vacuum rp"
  by (induction rows arbitrary: rp fs) (auto split: sum.split_asm row_step.split_asm)

lemma pass_result:
  assumes "pass_ready c ring fs" and "\<And>i. length (ivs i) = 12"
  shows "\<exists>rp. resealUpstreamAuth c ring ivs vacuum fs =
      Inr (rp, map (\<lambda>f. if f_upstreamAuthEnc f = None then f else new_row c ring ivs f) fs) \<and>
    rp_unreadable rp = unreadable_rows c ring fs \<and>
    rp_sealed rp = length (filter (\<lambda>st. \<exists>v. st = FirstSeal v) (steps_of c ring ivs (sel (\<lambda>f. f_upstreamAuthEnc f \<noteq> None) fs))) \<and>
    rp_resealed rp = length (filter (\<lambda>st. \<exists>v. st = Moved v) (steps_of c ring ivs (sel (\<lambda>f. f_upstreamAuthEnc f \<noteq> None) fs))) \<and>
    (rp_vacuum rp = VacuumDone \<longleftrightarrow> vacuum (map (\<lambda>f. if f_upstreamAuthEnc f = None then f else new_row c ring ivs f) fs) = None)"
proof -
  let ?rows = "sel (\<lambda>f. f_upstreamAuthEnc f \<noteq> None) fs"
  let ?rp0 = "\<lparr>rp_sealed = 0, rp_resealed = 0, rp_unreadable = [], rp_vacuum = VacuumDone\<rparr>"
  let ?fs' = "map (\<lambda>f. if f_upstreamAuthEnc f = None then f else new_row c ring ivs f) fs"
  have val: "f \<in> set fs \<and> (\<exists>v. f_upstreamAuthEnc f = Some v)" if "f \<in> set ?rows" for f
    using that by auto
  have ok: "\<forall>f \<in> set ?rows. \<exists>st. row_result c ring ivs f = Inr st"
  proof
    fix f assume "f \<in> set ?rows"
    from val [OF this] obtain v where "f \<in> set fs" "f_upstreamAuthEnc f = Some v" by blast
    from new_row_after(1) [OF assms(1) this assms(2)] show "\<exists>st. row_result c ring ivs f = Inr st" .
  qed
  have dist: "distinct (map f_id ?rows)" "distinct (map f_id fs)"
    using assms(1) by (simp_all add: pass_ready_def sel_def distinct_map_sub)
  have "map (\<lambda>f. if f \<in> set ?rows then new_row c ring ivs f else f) fs = ?fs'" by simp
  with reseal_rows_ok [OF ok dist, of ?rp0] obtain rp where
    rp: "reseal_rows c ring ivs ?rows (?rp0, fs) = Inr (rp, ?fs')"
    "rp_sealed rp = length (filter (\<lambda>st. \<exists>v. st = FirstSeal v) (steps_of c ring ivs ?rows))"
    "rp_resealed rp = length (filter (\<lambda>st. \<exists>v. st = Moved v) (steps_of c ring ivs ?rows))"
    "rp_unreadable rp = concat (map (\<lambda>f. unread f (projr (row_result c ring ivs f))) ?rows)" by auto
  have "concat (map (\<lambda>f. unread f (projr (row_result c ring ivs f))) ?rows) = unreadable_rows c ring ?rows"
  proof -
    have "unread f (projr (row_result c ring ivs f)) = unreadable_of c ring f" if "f \<in> set ?rows" for f
    proof -
      from val [OF that] obtain v where v: "f \<in> set fs" "f_upstreamAuthEnc f = Some v" by blast
      then show ?thesis
        by (simp add: new_row_after(4) [OF assms(1) v assms(2)] unreadable_of_def unreadable_rows_def)
    qed
    then show ?thesis unfolding unreadable_rows_eq by (simp cong: map_cong del: set_sel)
  qed
  also have "unreadable_rows c ring ?rows = unreadable_rows c ring fs"
    unfolding unreadable_rows_def sel_def by (induction fs) auto
  finally have un: "rp_unreadable rp = unreadable_rows c ring fs" using rp(4) by simp
  have "auth_constraint f" if "f \<in> set ?fs'" for f
    using that new_row_after(3) [OF assms(1) _ _ assms(2)] by (auto simp: auth_constraint_def)
  then have con: "list_all auth_constraint ?fs'" by (simp only: list_all_iff) blast
  have vac: "rp_vacuum rp = VacuumDone" using rp(1) reseal_rows_vacuum by fastforce
  show ?thesis
    using rp un vac con by (cases "vacuum ?fs'") (simp_all add: resealUpstreamAuth_def)
qed

section \<open>Properties\<close>

text \<open>
  C32. One reseal pass never fails on the data, and never changes what a credential is: a row
  that this keyring can read (plaintext, or sealed under any held key) comes out sealed under the
  current key and opening, for its row, to the same plaintext; a row it cannot read comes out byte
  for byte as it was, and is named in the report; nothing else of any row changes.
\<close>

theorem reseal_preserves_credentials:
  assumes "pass_ready c ring fs" and "\<forall>i. length (ivs i) = 12"
  shows "\<exists>rp fs'. resealUpstreamAuth c ring ivs vacuum fs = Inr (rp, fs') \<and>
    list_all2 (row_after c ring) fs fs' \<and> rp_unreadable rp = unreadable_rows c ring fs"
proof -
  from assms(2) have iv: "length (ivs i) = 12" for i by simp
  from pass_result [where ivs = ivs and vacuum = vacuum, OF assms(1) iv] obtain rp where
    rp: "resealUpstreamAuth c ring ivs vacuum fs =
      Inr (rp, map (\<lambda>f. if f_upstreamAuthEnc f = None then f else new_row c ring ivs f) fs)"
    "rp_unreadable rp = unreadable_rows c ring fs" by blast
  have "row_after c ring f (if f_upstreamAuthEnc f = None then f else new_row c ring ivs f)" if "f \<in> set fs" for f
    using new_row_after(2) [OF assms(1) that _ iv] by (cases "f_upstreamAuthEnc f") (auto simp: row_after_def)
  then have "list_all2 (row_after c ring) fs (map (\<lambda>f. if f_upstreamAuthEnc f = None then f else new_row c ring ivs f) fs)"
    by (simp add: list_all2_conv_all_nth)
  with rp show ?thesis by blast
qed

definition demo_flock :: "string option \<Rightarrow> flock_row" where
  "demo_flock v = \<lparr>f_id = demo_uuid, f_orgId = demo_uuid, f_breed = Ollama, f_name = ''f'', f_baseUrl = ''http://o'',
     f_upstreamAuthEnc = v, f_tlsTrust = False, f_healthOk = None\<rparr>"

lemma demo_pass_ready: "pass_ready demo_crypto demo_ring [demo_flock v]"
  by (simp add: pass_ready_def demo_crypto_ok demo_ring_ok demo_flock_def demo_uuid_ok)

theorem reseal_preserves_credentials_witness:
  "\<exists>rp fs'. resealUpstreamAuth demo_crypto demo_ring (\<lambda>i. replicate 12 CHR ''i'') (\<lambda>fs. Some ''locked'')
      [demo_flock (Some ''Bearer x'')] = Inr (rp, fs') \<and>
    list_all2 (row_after demo_crypto demo_ring) [demo_flock (Some ''Bearer x'')] fs' \<and>
    rp_unreadable rp = unreadable_rows demo_crypto demo_ring [demo_flock (Some ''Bearer x'')]"
  by (rule reseal_preserves_credentials [OF demo_pass_ready]) simp

text \<open>
  The reseal is idempotent: a second pass, with any other initialisation vectors, writes no
  row, seals and moves none, and reports the same unreadable rows, whether or not the first
  pass's table rewrite succeeded.
\<close>

theorem reseal_idempotent:
  assumes "pass_ready c ring fs" and "\<forall>i. length (ivs i) = 12" and "\<forall>i. length (ivs' i) = 12"
    and "resealUpstreamAuth c ring ivs vacuum fs = Inr (rp, fs')"
  shows "\<exists>rp'. resealUpstreamAuth c ring ivs' vacuum' fs' = Inr (rp', fs') \<and>
    rp_sealed rp' = 0 \<and> rp_resealed rp' = 0 \<and> rp_unreadable rp' = rp_unreadable rp"
proof -
  from assms(2,3) have iv: "length (ivs i) = 12" "length (ivs' i) = 12" for i by simp_all
  let ?new = "\<lambda>f. if f_upstreamAuthEnc f = None then f else new_row c ring ivs f"
  from pass_result [where ivs = ivs and vacuum = vacuum, OF assms(1) iv(1)] assms(4)
  have fs': "fs' = map ?new fs" and un: "rp_unreadable rp = unreadable_rows c ring fs" by auto
  have ids: "f_id (?new f) = f_id f" "f_orgId (?new f) = f_orgId f" for f by simp_all
  have ready: "pass_ready c ring fs'"
    using assms(1) unfolding fs' pass_ready_def list_all_iff map_map comp_def ids set_map ball_simps .
  have after: "settled c ring (?new f) \<and> unreadable_of c ring (?new f) = unreadable_of c ring f"
    if "f \<in> set fs" for f
    using row_after_settled [OF assms(1) that, of "?new f"] new_row_after(2) [OF assms(1) that _ iv(1)]
    by (cases "f_upstreamAuthEnc f") (simp_all add: row_after_def settled_def)
  then have all: "\<forall>f \<in> set fs'. settled c ring f"
    unfolding fs' set_map by (intro ballI) (elim imageE, simp only:)
  have "unreadable_rows c ring fs' = unreadable_rows c ring fs"
    unfolding unreadable_rows_eq fs' map_map comp_def
    by (intro arg_cong [of _ _ concat] map_cong refl) (use after in simp)
  moreover have "map (\<lambda>f. if f_upstreamAuthEnc f = None then f else new_row c ring ivs' f) fs' = fs'"
    using all by (intro map_idI) (auto simp: settled_step)
  moreover have "\<forall>st \<in> set (steps_of c ring ivs' (sel (\<lambda>f. f_upstreamAuthEnc f \<noteq> None) fs')). written st = None"
    using all by (auto simp: steps_of_def settled_step)
  then have "filter (\<lambda>st. \<exists>v. st = FirstSeal v) (steps_of c ring ivs' (sel (\<lambda>f. f_upstreamAuthEnc f \<noteq> None) fs')) = []"
    "filter (\<lambda>st. \<exists>v. st = Moved v) (steps_of c ring ivs' (sel (\<lambda>f. f_upstreamAuthEnc f \<noteq> None) fs')) = []"
    by (auto simp: filter_empty_conv)
  ultimately show ?thesis using pass_result [where ivs = ivs' and vacuum = vacuum', OF ready iv(2)] un by auto
qed

lemma demo_pass_sealed:
  "\<exists>rp fs'. resealUpstreamAuth demo_crypto demo_ring (\<lambda>i. replicate 12 CHR ''i'') (\<lambda>fs. None)
      [demo_flock (Some ''t'')] = Inr (rp, fs')"
  using pass_result [where ivs = "\<lambda>i. replicate 12 CHR ''i''" and vacuum = "\<lambda>fs. None",
      OF demo_pass_ready [of "Some ''t''"]] by (metis length_replicate)

theorem reseal_idempotent_witness:
  "\<exists>rp fs' rp'. resealUpstreamAuth demo_crypto demo_ring (\<lambda>i. replicate 12 CHR ''i'') (\<lambda>fs. None)
      [demo_flock (Some ''t'')] = Inr (rp, fs') \<and>
    resealUpstreamAuth demo_crypto demo_ring (\<lambda>i. replicate 12 CHR ''j'') (\<lambda>fs. None) fs' = Inr (rp', fs') \<and>
    rp_sealed rp' = 0"
proof -
  obtain rp fs' where r: "resealUpstreamAuth demo_crypto demo_ring (\<lambda>i. replicate 12 CHR ''i'') (\<lambda>fs. None)
      [demo_flock (Some ''t'')] = Inr (rp, fs')" using demo_pass_sealed by blast
  from reseal_idempotent [OF demo_pass_ready _ _ r, of "\<lambda>i. replicate 12 CHR ''j''" "\<lambda>fs. None"] r
  show ?thesis by auto
qed

end
