(* ===== verification/Licences.thy ===== *)
theory Licences
  imports Members Login
begin

text \<open>
  Licences (apps/control-plane/src/server/entitlement-service.ts, license-service.ts, license-crypto.ts,
  ls-client.ts, license-on-login.ts, scheduler.ts, seed.ts): the licence key an organization stores encrypted, the
  seats it buys, and its validation against the licence server with an offline grace. The licence server is a
  function from the state of the world, a path and a form to a reply and the world after it.
\<close>

section \<open>The key at rest (license-crypto.ts)\<close>

datatype licence_error =
    ServiceError svc_error
  | MalformedLicence
  | LicenceUndecipherable
  | SecretMissing

text \<open>The digest yields the 32 bytes of the key; the initial vector is an argument; there is no associated data.\<close>

definition encryptLicenseKey :: "crypto \<Rightarrow> (string \<Rightarrow> string) \<Rightarrow> string \<Rightarrow> string \<Rightarrow> string \<Rightarrow> string" where
  "encryptLicenseKey c digest iv plaintext secret =
     (let (ct, tag) = gcm_enc c (digest secret) iv [] plaintext in
      to_hex iv @ '':'' @ to_hex tag @ '':'' @ to_hex ct)"

definition decryptLicenseKey :: "crypto \<Rightarrow> (string \<Rightarrow> string) \<Rightarrow> string \<Rightarrow> string \<Rightarrow> licence_error + string" where
  "decryptLicenseKey c digest stored secret =
     (case split_on CHR '':'' stored of
        [ivHex, tagHex, ctHex] \<Rightarrow>
          (case gcm_dec c (digest secret) (from_hex ivHex) [] (from_hex ctHex) (from_hex tagHex) of
             None \<Rightarrow> Inl LicenceUndecipherable
           | Some p \<Rightarrow> Inr p)
      | _ \<Rightarrow> Inl MalformedLicence)"

definition licenseLast4 :: "string \<Rightarrow> string" where
  "licenseLast4 plaintext = drop (length plaintext - 4) plaintext"

section \<open>The licence server (ls-client.ts)\<close>

text \<open>A reply in the shape its documentation gives, read with \<open>?.\<close>: absent and null members are \<open>None\<close>.\<close>

record ls_body =
  lb_activated :: "bool option"
  lb_deactivated :: "bool option"
  lb_valid :: "bool option"
  lb_status :: "string option"
  lb_instanceId :: "string option"
  lb_variantName :: "string option"

record ls_result =
  lr_valid :: bool
  lr_status :: string
  lr_instanceId :: "string option"
  lr_variantName :: "string option"

text \<open>No reply: the call timed out, failed, or its body is not JSON.\<close>

type_synonym 'w licence_server = "'w \<Rightarrow> string \<Rightarrow> (string \<times> string) list \<Rightarrow> ls_body option \<times> 'w"

definition ls_normalize :: "ls_body \<Rightarrow> ls_result" where
  "ls_normalize b =
     \<lparr>lr_valid = (case lb_valid b of Some v \<Rightarrow> v | None \<Rightarrow> (case lb_activated b of Some v \<Rightarrow> v | None \<Rightarrow> False)),
      lr_status = (case lb_status b of Some s \<Rightarrow> s | None \<Rightarrow> ''unknown''),
      lr_instanceId = lb_instanceId b, lr_variantName = lb_variantName b\<rparr>"

definition ls_activate :: "'w licence_server \<Rightarrow> 'w \<Rightarrow> string \<Rightarrow> string \<Rightarrow> ls_result option \<times> 'w" where
  "ls_activate srv w licenseKey instanceName =
     map_prod (map_option ls_normalize) id
       (srv w ''/v1/licenses/activate'' [(''license_key'', licenseKey), (''instance_name'', instanceName)])"

definition ls_validate :: "'w licence_server \<Rightarrow> 'w \<Rightarrow> string \<Rightarrow> string option \<Rightarrow> ls_result option \<times> 'w" where
  "ls_validate srv w licenseKey instanceId =
     map_prod (map_option ls_normalize) id
       (srv w ''/v1/licenses/validate''
         ((''license_key'', licenseKey) # (case instanceId of None \<Rightarrow> [] | Some i \<Rightarrow> if i = [] then [] else [(''instance_id'', i)])))"

definition ls_deactivate :: "'w licence_server \<Rightarrow> 'w \<Rightarrow> string \<Rightarrow> string \<Rightarrow> bool option \<times> 'w" where
  "ls_deactivate srv w licenseKey instanceId =
     map_prod (map_option (\<lambda>b. case lb_deactivated b of Some v \<Rightarrow> v | None \<Rightarrow> False)) id
       (srv w ''/v1/licenses/deactivate'' [(''license_key'', licenseKey), (''instance_id'', instanceId)])"

section \<open>Entitlements (entitlement-service.ts)\<close>

definition GRACE_MS :: int where
  "GRACE_MS = 7 * 24 * 60 * 60 * 1000"

definition TIER_SEATS :: "(string \<times> int) list" where
  "TIER_SEATS = [(''Team 5'', 5), (''Team 10'', 10)]"

text \<open>
  The lookup in an object literal also finds what every object inherits, which is not a number: \<open>None\<close>, and the
  statement that stores it fails.
\<close>

definition inherited_names :: "string list" where
  "inherited_names = [''constructor'', ''hasOwnProperty'', ''isPrototypeOf'', ''propertyIsEnumerable'', ''toLocaleString'',
     ''toString'', ''valueOf'', ''__proto__'', ''__defineGetter__'', ''__defineSetter__'', ''__lookupGetter__'', ''__lookupSetter__'']"

definition resolveSeatsForVariant :: "string option \<Rightarrow> int option" where
  "resolveSeatsForVariant variantName =
     (case variantName of
        None \<Rightarrow> Some BASE_SEATS
      | Some v \<Rightarrow>
          if v = [] then Some BASE_SEATS
          else (case map_of TIER_SEATS v of
              Some n \<Rightarrow> Some n
            | None \<Rightarrow> if v \<in> set inherited_names then None else Some BASE_SEATS))"

definition listEntitledOrgIds :: "db \<Rightarrow> string list" where
  "listEntitledOrgIds d = map e_orgId (entitlements d)"

record entitlement_view =
  ev_status :: string
  ev_seats :: int
  ev_tier :: "string option"
  ev_instanceId :: "string option"
  ev_last4 :: string
  ev_lastValidatedAt :: "int option"
  ev_graceUntil :: "int option"

definition entitlementView :: "entitlement_row \<Rightarrow> entitlement_view" where
  "entitlementView e = \<lparr>ev_status = e_status e, ev_seats = e_seats e, ev_tier = e_tier e, ev_instanceId = e_instanceId e,
     ev_last4 = e_licenseLast4 e, ev_lastValidatedAt = e_lastValidatedAt e, ev_graceUntil = e_graceUntil e\<rparr>"

definition getDecryptedKey :: "crypto \<Rightarrow> (string \<Rightarrow> string) \<Rightarrow> db \<Rightarrow> string \<Rightarrow> string \<Rightarrow> licence_error + string option" where
  "getDecryptedKey c digest d og secret =
     (case getEntitlement d og of
        None \<Rightarrow> Inr None
      | Some e \<Rightarrow> map_sum id Some (decryptLicenseKey c digest (e_licenseKeyEnc e) secret))"

text \<open>\<open>insert .. on conflict (org_id) do update\<close>.\<close>

definition put_entitlement :: "entitlement_row \<Rightarrow> db \<Rightarrow> db" where
  "put_entitlement e d =
     d\<lparr>entitlements := if getEntitlement d (e_orgId e) = None then entitlements d @ [e]
        else upd (\<lambda>r. e_orgId r = e_orgId e) (\<lambda>r. e) (entitlements d)\<rparr>"

definition saveEntitlement :: "crypto \<Rightarrow> (string \<Rightarrow> string) \<Rightarrow> string \<Rightarrow> db \<Rightarrow> actor \<Rightarrow> string \<Rightarrow> ls_result \<Rightarrow> int option \<Rightarrow> int \<Rightarrow> string \<Rightarrow>
    svc_error + db" where
  "saveEntitlement c digest iv d a licenseKey res seats now secret =
     guarded a CapLicenseManage
       (case seats of
          None \<Rightarrow> Inl DbFailure
        | Some n \<Rightarrow>
            Inr (writeAudit a ''license.activate'' (''entitlement:'' @ ac_orgId a)
              (Obj [(''tier'', case lr_variantName res of None \<Rightarrow> Null | Some v \<Rightarrow> Str v), (''seats'', NumI n),
                    (''last4'', Str (licenseLast4 licenseKey))])
              (put_entitlement
                \<lparr>e_orgId = ac_orgId a, e_licenseKeyEnc = encryptLicenseKey c digest iv licenseKey secret,
                 e_licenseLast4 = licenseLast4 licenseKey, e_instanceId = lr_instanceId res, e_status = lr_status res,
                 e_seats = n, e_tier = lr_variantName res, e_lastValidatedAt = Some now, e_graceUntil = Some (now + GRACE_MS)\<rparr> d)))"

definition updateValidation :: "db \<Rightarrow> string \<Rightarrow> string \<Rightarrow> int \<Rightarrow> string option \<Rightarrow> int \<Rightarrow> int \<Rightarrow> db" where
  "updateValidation d og status seats instanceId graceUntil now =
     d\<lparr>entitlements := upd (\<lambda>r. e_orgId r = og)
        (\<lambda>r. r\<lparr>e_status := status, e_seats := seats, e_instanceId := instanceId, e_lastValidatedAt := Some now,
           e_graceUntil := Some graceUntil\<rparr>) (entitlements d)\<rparr>"

definition clearEntitlement :: "db \<Rightarrow> actor \<Rightarrow> svc_error + db" where
  "clearEntitlement d a =
     guarded a CapLicenseManage
       (Inr (writeAudit a ''license.deactivate'' (''entitlement:'' @ ac_orgId a) Undef
         (d\<lparr>entitlements := del (\<lambda>r. e_orgId r = ac_orgId a) (entitlements d)\<rparr>)))"

section \<open>Activation and validation (license-service.ts)\<close>

record 'w licence_deps =
  ld_server :: "'w licence_server"
  ld_crypto :: crypto
  ld_digest :: "string \<Rightarrow> string"
  ld_iv :: string
  ld_secret :: string
  ld_now :: int

definition licenseSecret :: "(string \<Rightarrow> string option) \<Rightarrow> licence_error + string" where
  "licenseSecret env =
     (case env ''LICENSE_KEY_SECRET'' of
        None \<Rightarrow> Inl SecretMissing
      | Some s \<Rightarrow> if length s < 16 then Inl SecretMissing else Inr s)"

text \<open>The answer is \<open>None\<close> where the licence is active, or the message shown.\<close>

definition activateLicense :: "'w licence_deps \<Rightarrow> db \<Rightarrow> actor \<Rightarrow> string \<Rightarrow> string \<Rightarrow> 'w \<Rightarrow> (svc_error + string option \<times> db) \<times> 'w" where
  "activateLicense e d a licenseKey instanceName w =
     (case requireCapability a CapLicenseManage of
        Inl x \<Rightarrow> (Inl x, w)
      | Inr u \<Rightarrow>
          (let unreachable = Some ''Could not reach the license server. Try again.'' in
           case ls_activate (ld_server e) w licenseKey instanceName of
             (None, w1) \<Rightarrow> (Inr (unreachable, d), w1)
           | (Some act, w1) \<Rightarrow>
               if \<not> lr_valid act then (Inr (Some ''License key could not be activated.'', d), w1)
               else (case ls_validate (ld_server e) w1 licenseKey (lr_instanceId act) of
                   (None, w2) \<Rightarrow> (Inr (unreachable, d), w2)
                 | (Some r, w2) \<Rightarrow>
                     (let res = r\<lparr>lr_instanceId := (case lr_instanceId r of None \<Rightarrow> lr_instanceId act | Some i \<Rightarrow> Some i)\<rparr> in
                      if \<not> lr_valid res then (Inr (Some ''License key is not valid.'', d), w2)
                      else (map_sum id (Pair None)
                              (saveEntitlement (ld_crypto e) (ld_digest e) (ld_iv e) d a licenseKey res
                                (resolveSeatsForVariant (lr_variantName res)) (ld_now e) (ld_secret e)), w2)))))"

definition deactivateLicense :: "'w licence_deps \<Rightarrow> db \<Rightarrow> actor \<Rightarrow> 'w \<Rightarrow> (licence_error + db) \<times> 'w" where
  "deactivateLicense e d a w =
     (case requireCapability a CapLicenseManage of
        Inl x \<Rightarrow> (Inl (ServiceError x), w)
      | Inr u \<Rightarrow>
          (case getDecryptedKey (ld_crypto e) (ld_digest e) d (ac_orgId a) (ld_secret e) of
             Inl x \<Rightarrow> (Inl x, w)
           | Inr k \<Rightarrow>
               (let w' = (case (k, Option.bind (getEntitlement d (ac_orgId a)) e_instanceId) of
                      (Some lk, Some i) \<Rightarrow> if lk \<noteq> [] \<and> i \<noteq> [] then snd (ls_deactivate (ld_server e) w lk i) else w
                    | _ \<Rightarrow> w)
                in (map_sum ServiceError id (clearEntitlement d a), w'))))"

definition revalidateLicense :: "'w licence_deps \<Rightarrow> db \<Rightarrow> string \<Rightarrow> 'w \<Rightarrow> (licence_error + db) \<times> 'w" where
  "revalidateLicense e d og w =
     (case getDecryptedKey (ld_crypto e) (ld_digest e) d og (ld_secret e) of
        Inl x \<Rightarrow> (Inl x, w)
      | Inr k \<Rightarrow>
          (case (k, getEntitlement d og) of
             (Some lk, Some view) \<Rightarrow>
               if lk = [] then (Inr d, w)
               else (case ls_validate (ld_server e) w lk (e_instanceId view) of
                   (None, w') \<Rightarrow> (Inr d, w')
                 | (Some res, w') \<Rightarrow>
                     (case (if lr_valid res then resolveSeatsForVariant (lr_variantName res) else Some (e_seats view)) of
                        None \<Rightarrow> (Inl (ServiceError DbFailure), w')
                      | Some seats \<Rightarrow>
                          (Inr (updateValidation d og (lr_status res) seats
                             (case lr_instanceId res of None \<Rightarrow> e_instanceId view | Some i \<Rightarrow> Some i)
                             (if lr_valid res then ld_now e + GRACE_MS
                              else (case e_graceUntil view of None \<Rightarrow> ld_now e | Some g \<Rightarrow> g)) (ld_now e)), w')))
           | _ \<Rightarrow> (Inr d, w)))"

text \<open>One pass over the organizations with a licence: a failure keeps the database and is counted.\<close>

record pass_count =
  pc_total :: nat
  pc_ok :: nat
  pc_failed :: nat

fun revalidate_orgs :: "'w licence_deps \<Rightarrow> string list \<Rightarrow> pass_count \<Rightarrow> db \<Rightarrow> 'w \<Rightarrow> pass_count \<times> db \<times> 'w" where
  "revalidate_orgs e [] n d w = (n, d, w)"
| "revalidate_orgs e (og # ogs) n d w =
     (case revalidateLicense e d og w of
        (Inl x, w') \<Rightarrow> revalidate_orgs e ogs (n\<lparr>pc_failed := Suc (pc_failed n)\<rparr>) d w'
      | (Inr d', w') \<Rightarrow> revalidate_orgs e ogs (n\<lparr>pc_ok := Suc (pc_ok n)\<rparr>) d' w')"

definition revalidateAllEntitlements :: "'w licence_deps \<Rightarrow> db \<Rightarrow> 'w \<Rightarrow> pass_count \<times> db \<times> 'w" where
  "revalidateAllEntitlements e d w =
     (let ogs = listEntitledOrgIds d in revalidate_orgs e ogs \<lparr>pc_total = length ogs, pc_ok = 0, pc_failed = 0\<rparr> d w)"

text \<open>After a sign-in: nothing without a secret, and no error reaches the sign-in (license-on-login.ts).\<close>

definition revalidateLicenseOnLogin :: "(string \<Rightarrow> string option) \<Rightarrow> 'w licence_deps \<Rightarrow> db \<Rightarrow> string \<Rightarrow> 'w \<Rightarrow> db \<times> 'w" where
  "revalidateLicenseOnLogin env e d og w =
     (case env ''LICENSE_KEY_SECRET'' of
        None \<Rightarrow> (d, w)
      | Some s \<Rightarrow>
          if s = [] then (d, w)
          else (case revalidateLicense (e\<lparr>ld_secret := s\<rparr>) d og w of (Inl x, w') \<Rightarrow> (d, w') | (Inr d', w') \<Rightarrow> (d', w')))"

section \<open>The scheduler's settings and the first administrator (scheduler.ts, seed.ts)\<close>

definition DEFAULT_INTERVAL_MS :: int where
  "DEFAULT_INTERVAL_MS = 43200000"

definition DEFAULT_HEALTH_INTERVAL_MS :: int where
  "DEFAULT_HEALTH_INTERVAL_MS = 300000"

definition resolveIntervalMs :: "string option \<Rightarrow> int \<Rightarrow> int" where
  "resolveIntervalMs raw fallback =
     (case raw of
        None \<Rightarrow> fallback
      | Some s \<Rightarrow>
          if s = [] then fallback
          else (case Number s of
              Fin r \<Rightarrow> if r = of_int \<lfloor>r\<rfloor> \<and> 0 < r then \<lfloor>r\<rfloor> else fallback
            | _ \<Rightarrow> fallback))"

definition healthPassEnabled :: "(string \<Rightarrow> string option) \<Rightarrow> bool" where
  "healthPassEnabled env = (case env ''UPSTREAM_AUTH_KEY'' of None \<Rightarrow> False | Some s \<Rightarrow> s \<noteq> [])"

text \<open>The ids of a new organization and a new user, the password's stored form and the clock are arguments.\<close>

definition seedAdmin :: "(string \<Rightarrow> string) \<Rightarrow> string \<times> string \<Rightarrow> int \<Rightarrow> db \<Rightarrow> string \<Rightarrow> string \<Rightarrow> string option \<Rightarrow> svc_error + (bool \<times> actor) \<times> db" where
  "seedAdmin hash ids now d email password orgName =
     (let act = (\<lambda>u. \<lparr>ac_id = u_id u, ac_orgId = u_orgId u, ac_email = u_email u, ac_role = u_role u, ac_grants = None,
            ac_credential = ''session''\<rparr>) in
      case sel1 (\<lambda>u. u_email u = email) (users d) of
        Some u \<Rightarrow>
          if u_role u \<noteq> Admin then Inl (NotAdmin (u_email u)) else Inr ((False, act u), d)
      | None \<Rightarrow>
          (let (og, d1) = (case orgs d of
                 g # gs \<Rightarrow> (o_id g, d)
               | [] \<Rightarrow> (fst ids, d\<lparr>orgs := [\<lparr>o_id = fst ids, o_name = (case orgName of None \<Rightarrow> ''default'' | Some n \<Rightarrow> n), o_createdAt = now\<rparr>]\<rparr>));
               u = \<lparr>u_id = snd ids, u_orgId = og, u_email = email, u_passwordHash = hash password, u_role = Admin,
                    u_status = ActiveUser, u_createdAt = now\<rparr>
           in Inr ((True, act u), d1\<lparr>users := users d1 @ [u]\<rparr>)))"

section \<open>Lemmas\<close>

lemma colon_not_to_hex [simp]: "CHR '':'' \<notin> set (to_hex s)"
proof
  assume "CHR '':'' \<in> set (to_hex s)"
  from to_hex_digits [OF this] obtain n where n: "n < 16" "CHR '':'' = hex_lower n" by blast
  from n(1) have "n \<in> {0, 1, 2, 3, 4, 5, 6, 7, 8, 9, 10, 11, 12, 13, 14, 15}" by (simp, arith)
  with n(2) show False by (auto simp: hex_lower_def char_of_def)
qed

lemma getEntitlement_Some: "getEntitlement d og = Some v \<Longrightarrow> v \<in> set (entitlements d) \<and> e_orgId v = og"
  unfolding getEntitlement_def by (rule sel1_Some)

lemma sel1_upd_self: "(\<And>r. P r \<Longrightarrow> P (f r)) \<Longrightarrow> sel1 P (upd P f t) = map_option f (sel1 P t)"
  by (induction t) (auto simp: sel1_def upd_def)

lemma validated_entitlement:
  "getEntitlement (updateValidation d og st n i g now) og =
     map_option (\<lambda>r. r\<lparr>e_status := st, e_seats := n, e_instanceId := i, e_lastValidatedAt := Some now, e_graceUntil := Some g\<rparr>)
       (getEntitlement d og)"
  by (simp add: getEntitlement_def updateValidation_def sel1_upd_self)

text \<open>What a validation, or a pass of them, may change: the validation columns of the entitlements.\<close>

definition licence_of :: "entitlement_row \<Rightarrow> string \<times> string \<times> string \<times> string option" where
  "licence_of e = (e_orgId e, e_licenseKeyEnc e, e_licenseLast4 e, e_tier e)"

definition only_validated :: "db \<Rightarrow> db \<Rightarrow> bool" where
  "only_validated d d' = (d' = d\<lparr>entitlements := entitlements d'\<rparr> \<and> map licence_of (entitlements d') = map licence_of (entitlements d))"

lemma only_validated_refl [simp]: "only_validated d d"
  by (simp add: only_validated_def)

lemma only_validated_trans: "only_validated d d' \<Longrightarrow> only_validated d' d'' \<Longrightarrow> only_validated d d''"
  unfolding only_validated_def by (metis (no_types, lifting) db.surjective db.update_convs(4))

lemma revalidate_only: "revalidateLicense e d og w = (Inr d', w') \<Longrightarrow> only_validated d d'"
  by (auto simp: revalidateLicense_def Let_def only_validated_def updateValidation_def licence_of_def map_upd_key
      split: sum.split_asm option.split_asm prod.split_asm if_split_asm)

lemma revalidate_orgs_count:
  "revalidate_orgs e ogs n d w = (n', d', w') \<Longrightarrow>
     only_validated d d' \<and> pc_total n' = pc_total n \<and> pc_ok n' + pc_failed n' = pc_ok n + pc_failed n + length ogs"
proof (induction ogs arbitrary: n d w)
  case Nil
  then show ?case by simp
next
  case (Cons og ogs)
  obtain r w1 where r: "revalidateLicense e d og w = (r, w1)" by fastforce
  show ?case
  proof (cases r)
    case (Inl x)
    with Cons.IH [of "n\<lparr>pc_failed := Suc (pc_failed n)\<rparr>" d w1] Cons.prems r show ?thesis by simp
  next
    case (Inr d1)
    with r have "only_validated d d1" by (simp add: revalidate_only)
    with Cons.IH [of "n\<lparr>pc_ok := Suc (pc_ok n)\<rparr>" d1 w1] Cons.prems r Inr show ?thesis by (auto intro: only_validated_trans)
  qed
qed

lemma revalidate_offline:
  assumes "\<And>w p f. fst (ld_server e w p f) = None"
  shows "fst (revalidateLicense e d og w) = Inr d \<or> (\<exists>x. fst (revalidateLicense e d og w) = Inl x)"
proof -
  have off: "\<exists>w'. ls_validate (ld_server e) w k i = (None, w')" for k i
    using assms by (metis (no_types, lifting) fst_map_prod ls_validate_def option.map_disc_iff prod.collapse)
  show ?thesis
  proof (cases "getDecryptedKey (ld_crypto e) (ld_digest e) d og (ld_secret e)")
    case (Inr k)
    show ?thesis
    proof (cases "(k, getEntitlement d og)")
      case (Pair x y)
      with Inr show ?thesis
      proof (cases x; cases y)
        fix lk v assume "x = Some lk" "y = Some v"
        moreover obtain w' where "ls_validate (ld_server e) w lk (e_instanceId v) = (None, w')" using off by blast
        ultimately show ?thesis using Pair Inr by (simp add: revalidateLicense_def)
      qed (simp_all add: revalidateLicense_def)
    qed
  qed (simp add: revalidateLicense_def)
qed

section \<open>Properties\<close>

text \<open>A stored licence key is read back: encrypting and decrypting under one secret gives the key.\<close>

theorem licence_key_roundtrip:
  assumes "gcm_ok c" and "length (digest secret) = 32" and "length iv = 12"
  shows "decryptLicenseKey c digest (encryptLicenseKey c digest iv plaintext secret) secret = Inr plaintext"
proof -
  obtain ct tag where e: "gcm_enc c (digest secret) iv [] plaintext = (ct, tag)" by fastforce
  with assms have "gcm_dec c (digest secret) iv [] ct tag = Some plaintext" by (simp add: gcm_ok_def)
  with e show ?thesis
    by (simp add: encryptLicenseKey_def decryptLicenseKey_def split_on_append split_on_no_sep from_to_hex)
qed

theorem licence_key_roundtrip_witness:
  "decryptLicenseKey demo_crypto (\<lambda>s. replicate 32 CHR ''k'')
     (encryptLicenseKey demo_crypto (\<lambda>s. replicate 32 CHR ''k'') (replicate 12 CHR ''i'') ''KEY-1'' ''secret'') ''secret'' = Inr ''KEY-1''"
  by (rule licence_key_roundtrip [OF demo_crypto_ok(1)]) simp_all

text \<open>
  A scheduler pass over all licences, whatever the licence server answers, accounts for every organization once, and
  changes nothing but the validation columns of the entitlements: keys, tiers and every other table stay. When the
  server cannot be reached it changes nothing at all.
\<close>

theorem licence_pass_confined:
  assumes "revalidateAllEntitlements e d w = (n, d', w')"
  shows "only_validated d d' \<and> pc_total n = length (entitlements d) \<and> pc_ok n + pc_failed n = pc_total n"
    and "(\<And>w p f. fst (ld_server e w p f) = None) \<Longrightarrow> d' = d"
proof -
  from assms have r: "revalidate_orgs e (listEntitledOrgIds d) \<lparr>pc_total = length (entitlements d), pc_ok = 0, pc_failed = 0\<rparr> d w = (n, d', w')"
    by (simp add: revalidateAllEntitlements_def listEntitledOrgIds_def Let_def)
  from revalidate_orgs_count [OF this]
  show "only_validated d d' \<and> pc_total n = length (entitlements d) \<and> pc_ok n + pc_failed n = pc_total n"
    by (simp add: listEntitledOrgIds_def)
  assume off: "\<And>w p f. fst (ld_server e w p f) = None"
  have "revalidate_orgs e ogs m d w = (n, d', w') \<Longrightarrow> d' = d" for ogs m w
  proof (induction ogs arbitrary: m w)
    case (Cons og ogs)
    with revalidate_offline [of e d og w, OF off] show ?case by (auto split: prod.split_asm sum.split_asm)
  qed simp
  from this [OF r] show "d' = d" .
qed


definition demo_entitlement :: entitlement_row where
  "demo_entitlement = \<lparr>e_orgId = ''o'', e_licenseKeyEnc =
      encryptLicenseKey demo_crypto (\<lambda>s. replicate 32 CHR ''k'') (replicate 12 CHR ''i'') ''KEY-1'' ''secret'',
     e_licenseLast4 = ''EY-1'', e_instanceId = None, e_status = ''active'', e_seats = 5, e_tier = Some ''Team 5'',
     e_lastValidatedAt = Some 0, e_graceUntil = Some 1000\<rparr>"

definition demo_licensed :: db where
  "demo_licensed = empty_db\<lparr>entitlements := [demo_entitlement]\<rparr>"

definition demo_licence_deps :: "string \<Rightarrow> unit licence_deps" where
  "demo_licence_deps status = \<lparr>ld_server = (\<lambda>w p f. (Some \<lparr>lb_activated = None, lb_deactivated = None, lb_valid = Some False,
       lb_status = Some status, lb_instanceId = None, lb_variantName = None\<rparr>, ())),
     ld_crypto = demo_crypto, ld_digest = (\<lambda>s. replicate 32 CHR ''k''), ld_iv = [], ld_secret = ''secret'', ld_now = 10\<rparr>"

lemma demo_licence_key:
  "getDecryptedKey (ld_crypto (demo_licence_deps s)) (ld_digest (demo_licence_deps s)) demo_licensed ''o'' (ld_secret (demo_licence_deps s)) =
     Inr (Some ''KEY-1'')"
  by (simp add: getDecryptedKey_def getEntitlement_def demo_licensed_def demo_entitlement_def sel1_def demo_licence_deps_def
      licence_key_roundtrip [OF demo_crypto_ok(1)])

lemma demo_revalidated:
  "revalidateLicense (demo_licence_deps s) demo_licensed ''o'' () =
     (Inr (updateValidation demo_licensed ''o'' s 5 None 1000 10), ())"
  unfolding revalidateLicense_def demo_licence_key
  by (simp add: getEntitlement_def demo_licensed_def demo_entitlement_def sel1_def demo_licence_deps_def
      ls_validate_def ls_normalize_def)


text \<open>
  The comment in license-service.ts says that after an answer of not valid the seats drop to the base when the grace
  lapses; they do not when the answer's status is \<open>active\<close>, as for a key whose instance is unknown.
\<close>

lemma invalid_active_licence_keeps_seats:
  "fst (ls_validate (ld_server (demo_licence_deps ''active'')) () ''KEY-1'' None) =
     Some \<lparr>lr_valid = False, lr_status = ''active'', lr_instanceId = None, lr_variantName = None\<rparr> \<and>
   (\<exists>d'. revalidateLicense (demo_licence_deps ''active'') demo_licensed ''o'' () = (Inr d', ()) \<and> (\<forall>t. getSeatLimit d' ''o'' t = 5))"
  by (simp add: demo_revalidated getSeatLimit_def validated_entitlement)
    (simp add: resolveEntitlementSeats_def getEntitlement_def demo_licensed_def demo_entitlement_def sel1_def
      demo_licence_deps_def ls_validate_def ls_normalize_def)

end
