(* ===== verification/FlockHealth.thy ===== *)
theory FlockHealth
  imports Flocks Breed
begin

text \<open>
  Probing flocks from the control plane (apps/control-plane/src/server/flock-health.ts and the \<open>health\<close> and
  \<open>listModels\<close> of the two breeds): the console's test of a connection, the scheduler's pass over every flock,
  the models a flock offers. A call to a flock is the argument \<open>call\<close>: from the URL and the headers to the
  text of the error thrown, or a status with the body as JSON when it parses.
\<close>

section \<open>The breeds' probes (ollama/breed.ts, comfyui/breed.ts)\<close>

type_synonym flock_call = "string \<Rightarrow> headers \<Rightarrow> string + int \<times> js option"

record probe =
  pr_ok :: bool
  pr_models :: "string list"
  pr_detail :: "string option"

definition drop_slash :: "string \<Rightarrow> string" where
  "drop_slash s = (if s \<noteq> [] \<and> last s = CHR ''/'' then butlast s else s)"

definition res_ok :: "int \<Rightarrow> bool" where
  "res_ok status = (200 \<le> status \<and> status < 300)"

definition health_at :: "string \<Rightarrow> flock_call \<Rightarrow> flock_conn \<Rightarrow> probe" where
  "health_at path call f =
     (case call (drop_slash (fc_baseUrl f) @ path) (upstreamAuthHeaders (fc_upstreamAuth f)) of
        Inl err \<Rightarrow> \<lparr>pr_ok = False, pr_models = [], pr_detail = Some err\<rparr>
      | Inr (status, body) \<Rightarrow> \<lparr>pr_ok = res_ok status, pr_models = [], pr_detail = None\<rparr>)"

definition ollama_health :: "flock_call \<Rightarrow> flock_conn \<Rightarrow> probe" where
  "ollama_health = health_at ''/api/version''"

definition comfy_health :: "flock_call \<Rightarrow> flock_conn \<Rightarrow> probe" where
  "comfy_health = health_at ''/system_stats''"

text \<open>A body that is not JSON, or has no properties, is an error; its text is the argument \<open>bad\<close>.\<close>

definition model_names :: "js \<Rightarrow> string list" where
  "model_names body =
     (case as_arr (getp body ''models'') of
        None \<Rightarrow> []
      | Some ms \<Rightarrow> sort (uniq (List.map_filter (\<lambda>m. as_str (getp m ''name'')) ms)))"

definition ollama_listModels :: "string \<Rightarrow> flock_call \<Rightarrow> flock_conn \<Rightarrow> probe" where
  "ollama_listModels bad call f =
     (let failed = (\<lambda>d. \<lparr>pr_ok = False, pr_models = [], pr_detail = Some d\<rparr>) in
      case call (drop_slash (fc_baseUrl f) @ ''/api/tags'') (upstreamAuthHeaders (fc_upstreamAuth f)) of
        Inl err \<Rightarrow> failed err
      | Inr (status, body) \<Rightarrow>
          if \<not> res_ok status then failed (''upstream returned HTTP '' @ int_str status)
          else (case body of
              None \<Rightarrow> failed bad
            | Some b \<Rightarrow>
                if b = Null then failed bad
                else \<lparr>pr_ok = True, pr_models = model_names b, pr_detail = None\<rparr>))"

section \<open>The registry (flock-health.ts)\<close>

record prober =
  pb_health :: "flock_call \<Rightarrow> flock_conn \<Rightarrow> probe"
  pb_listModels :: "(flock_call \<Rightarrow> flock_conn \<Rightarrow> probe) option"

definition buildBreedRegistry :: "string \<Rightarrow> (string \<times> prober) list" where
  "buildBreedRegistry bad =
     (case register [] (breed_str Ollama) \<lparr>pb_health = ollama_health, pb_listModels = Some (ollama_listModels bad)\<rparr> of
        Inl e \<Rightarrow> []
      | Inr r \<Rightarrow> (case register r (breed_str Comfyui) \<lparr>pb_health = comfy_health, pb_listModels = None\<rparr> of Inl e \<Rightarrow> [] | Inr r' \<Rightarrow> r'))"

definition prober_of :: "(string \<times> prober) list \<Rightarrow> breed_id \<Rightarrow> registry_error + prober" where
  "prober_of reg b = registry_get reg (breed_str b)"

section \<open>Calling with a stored credential\<close>

fun str_includes :: "string \<Rightarrow> string \<Rightarrow> bool" where
  "str_includes [] t = (t = [])"
| "str_includes (c # s) t = (take (length t) (c # s) = t \<or> str_includes s t)"

definition UPSTREAM_AUTH_OK :: "string \<Rightarrow> bool" where
  "UPSTREAM_AUTH_OK t = (t \<noteq> [] \<and> list_all token_char t)"

definition wire_token :: "string option \<Rightarrow> string option" where
  "wire_token auth = map_option (drop 7) (map_of (upstreamAuthHeaders auth) ''authorization'')"

definition INVALID_CREDENTIAL :: string where
  "INVALID_CREDENTIAL = ''the stored credential is not a valid bearer token; replace it''"

definition REQUEST_FAILED :: string where
  "REQUEST_FAILED = ''the request to the flock failed''"

definition callWithStoredToken :: "string option \<Rightarrow> probe \<Rightarrow> probe" where
  "callWithStoredToken auth r =
     (case wire_token auth of
        None \<Rightarrow> r
      | Some t \<Rightarrow>
          if \<not> UPSTREAM_AUTH_OK t then \<lparr>pr_ok = False, pr_models = [], pr_detail = Some INVALID_CREDENTIAL\<rparr>
          else if t \<noteq> [] \<and> (case pr_detail r of None \<Rightarrow> False | Some d \<Rightarrow> str_includes d t) then r\<lparr>pr_detail := Some REQUEST_FAILED\<rparr>
          else r)"

definition refused :: "string \<Rightarrow> probe" where
  "refused d = \<lparr>pr_ok = False, pr_models = [], pr_detail = Some d\<rparr>"

definition probeConnection :: "(string \<times> prober) list \<Rightarrow> flock_call \<Rightarrow> flock_conn \<Rightarrow> registry_error + probe" where
  "probeConnection reg call f =
     (if fc_upstreamAuthError f \<noteq> None then Inr (refused ''upstream credential unavailable'')
      else case prober_of reg (fc_breed f) of
          Inl e \<Rightarrow> Inl e
        | Inr p \<Rightarrow> Inr (callWithStoredToken (fc_upstreamAuth f) (pb_health p call f)))"

section \<open>The operations\<close>

datatype health_error = HealthService svc_error | HealthRegistry registry_error | HealthInput

text \<open>The console's test of what was typed: nothing is read from the store.\<close>

definition flockConnectionInput :: "(string \<Rightarrow> bool) \<Rightarrow> js \<Rightarrow> flock_conn option" where
  "flockConnectionInput url_ok v =
     (case (breed_of (getp v ''breed''), getp v ''baseUrl'', upstream_auth (getp v ''upstreamAuth''), getp v ''tlsTrust'') of
        (Some b, Str u, Some au, Boolean tls) \<Rightarrow>
          if url_ok u then Some \<lparr>fc_breed = b, fc_baseUrl = u, fc_tlsTrust = tls,
            fc_upstreamAuth = (case au of None \<Rightarrow> None | Some x \<Rightarrow> x), fc_upstreamAuthError = None\<rparr> else None
      | _ \<Rightarrow> None)"

definition testFlockConnection :: "(string \<Rightarrow> bool) \<Rightarrow> (string \<times> prober) list \<Rightarrow> flock_call \<Rightarrow> js \<Rightarrow> health_error + probe" where
  "testFlockConnection url_ok reg call input =
     (case flockConnectionInput url_ok input of
        None \<Rightarrow> Inl HealthInput
      | Some f \<Rightarrow> (case prober_of reg (fc_breed f) of Inl e \<Rightarrow> Inl (HealthRegistry e) | Inr p \<Rightarrow> Inr (pb_health p call f)))"

definition testStoredFlockConnection :: "(string \<times> prober) list \<Rightarrow> flock_call \<Rightarrow> crypto \<Rightarrow> seal_keyring \<Rightarrow> db \<Rightarrow> actor \<Rightarrow> string \<Rightarrow>
    health_error + probe \<times> db" where
  "testStoredFlockConnection reg call c ring d a i =
     (if \<not> is_uuid i then Inr (refused ''flock not found'', d)
      else case getFlockConnection c ring d a i of
          Inl (NotFound x) \<Rightarrow> Inr (refused ''flock not found'', d)
        | Inl e \<Rightarrow> Inl (HealthService e)
        | Inr f \<Rightarrow>
            (case probeConnection reg call f of
               Inl e \<Rightarrow> Inl (HealthRegistry e)
             | Inr r \<Rightarrow> Inr (r, recordFlockHealth d (ac_orgId a) (uuid_lit i) (pr_ok r))))"

record health_count =
  hc_total :: nat
  hc_ok :: nat
  hc_failed :: nat

fun probe_flocks :: "(string \<times> prober) list \<Rightarrow> flock_call \<Rightarrow> (string \<times> string \<times> flock_conn) list \<Rightarrow> health_count \<Rightarrow> db \<Rightarrow> health_count \<times> db" where
  "probe_flocks reg call [] n d = (n, d)"
| "probe_flocks reg call ((og, i, conn) # fs) n d =
     (case probeConnection reg call conn of
        Inl e \<Rightarrow> probe_flocks reg call fs (n\<lparr>hc_failed := Suc (hc_failed n)\<rparr>) d
      | Inr r \<Rightarrow>
          (let d' = recordFlockHealth d og i (pr_ok r) in
           if pr_ok r then probe_flocks reg call fs (n\<lparr>hc_ok := Suc (hc_ok n)\<rparr>) d'
           else probe_flocks reg call fs (n\<lparr>hc_failed := Suc (hc_failed n)\<rparr>) d'))"

definition probeAllFlocks :: "(string \<times> prober) list \<Rightarrow> flock_call \<Rightarrow> crypto \<Rightarrow> seal_keyring \<Rightarrow> db \<Rightarrow> svc_error + health_count \<times> db" where
  "probeAllFlocks reg call c ring d =
     (case listFlockConnectionsForProbe c ring d of
        Inl e \<Rightarrow> Inl e
      | Inr fs \<Rightarrow> Inr (probe_flocks reg call fs \<lparr>hc_total = length fs, hc_ok = 0, hc_failed = 0\<rparr> d))"

definition listFlockModels :: "(string \<times> prober) list \<Rightarrow> flock_call \<Rightarrow> crypto \<Rightarrow> seal_keyring \<Rightarrow> db \<Rightarrow> actor \<Rightarrow> string \<Rightarrow> health_error + probe" where
  "listFlockModels reg call c ring d a i =
     (if \<not> is_uuid i then Inr (refused ''flock not found'')
      else case getFlockConnection c ring d a i of
          Inl (NotFound x) \<Rightarrow> Inr (refused ''flock not found'')
        | Inl e \<Rightarrow> Inl (HealthService e)
        | Inr f \<Rightarrow>
            (case prober_of reg (fc_breed f) of
               Inl e \<Rightarrow> Inl (HealthRegistry e)
             | Inr p \<Rightarrow>
                 (case pb_listModels p of
                    None \<Rightarrow> Inr (refused ''unsupported'')
                  | Some lm \<Rightarrow>
                      if fc_upstreamAuthError f \<noteq> None then Inr (refused ''upstream credential unavailable'')
                      else Inr (callWithStoredToken (fc_upstreamAuth f) (lm call f)))))"

section \<open>Lemmas\<close>

lemma str_includes_sublist: "str_includes s t \<longleftrightarrow> sublist t s"
proof (induction s)
  case (Cons c s)
  have "take (length t) (c # s) = t \<longleftrightarrow> prefix t (c # s)" by (metis append_eq_conv_conj prefix_def)
  with Cons show ?case by (simp add: sublist_Cons_right)
qed simp

lemma registry_total: "\<exists>p. prober_of (buildBreedRegistry bad) b = Inr p"
  by (cases b) (simp_all add: prober_of_def buildBreedRegistry_def register_def registry_get_def)

text \<open>What a result may show of a token: nothing, outside the service's own messages.\<close>

definition quiet :: "string \<Rightarrow> probe \<Rightarrow> bool" where
  "quiet t r =
     (case pr_detail r of
        None \<Rightarrow> True
      | Some s \<Rightarrow> s \<in> {INVALID_CREDENTIAL, REQUEST_FAILED, ''flock not found'', ''unsupported'', ''upstream credential unavailable''} \<or> \<not> sublist t s)"

lemma quiet_refused: "s \<in> {''flock not found'', ''unsupported'', ''upstream credential unavailable''} \<Longrightarrow> quiet t (refused s)"
  by (auto simp: quiet_def refused_def)

lemma quiet_call: "wire_token au = Some t \<Longrightarrow> quiet t (callWithStoredToken au r)"
  by (auto simp: callWithStoredToken_def quiet_def str_includes_sublist [symmetric] UPSTREAM_AUTH_OK_def split: option.split)

text \<open>The frame of a probe: the health column of the flocks.\<close>

definition only_health :: "db \<Rightarrow> db \<Rightarrow> bool" where
  "only_health d d' = (d' = d\<lparr>flocks := flocks d'\<rparr> \<and>
     map (\<lambda>f. f\<lparr>f_healthOk := None\<rparr>) (flocks d') = map (\<lambda>f. f\<lparr>f_healthOk := None\<rparr>) (flocks d))"

lemma only_health_refl [simp]: "only_health d d"
  by (simp add: only_health_def)

lemma only_health_trans: "only_health d d' \<Longrightarrow> only_health d' d'' \<Longrightarrow> only_health d d''"
  by (cases d; cases d'; cases d'') (simp add: only_health_def)

lemma only_health_record [simp]: "only_health d (recordFlockHealth d og i ok)"
  by (simp add: only_health_def recordFlockHealth_def map_upd_key)

lemma probe_flocks_count:
  "probe_flocks reg call fs n d = (n', d') \<Longrightarrow>
     only_health d d' \<and> hc_total n' = hc_total n \<and> hc_ok n' + hc_failed n' = hc_ok n + hc_failed n + length fs"
proof (induction fs arbitrary: n d)
  case Nil
  then show ?case by simp
next
  case (Cons x fs)
  obtain og i conn where x: "x = (og, i, conn)" by (cases x)
  show ?case
  proof (cases "probeConnection reg call conn")
    case (Inl e)
    with Cons.IH [of "n\<lparr>hc_failed := Suc (hc_failed n)\<rparr>" d] Cons.prems x show ?thesis by simp
  next
    case (Inr r)
    let ?d = "recordFlockHealth d og i (pr_ok r)"
    from Cons.IH [of "n\<lparr>hc_ok := Suc (hc_ok n)\<rparr>" ?d] Cons.IH [of "n\<lparr>hc_failed := Suc (hc_failed n)\<rparr>" ?d] Cons.prems x Inr
    show ?thesis by (auto simp: Let_def intro: only_health_trans [OF only_health_record] split: if_split_asm)
  qed
qed

section \<open>Properties\<close>


definition demo_probed :: db where
  "demo_probed = empty_db\<lparr>flocks := [\<lparr>f_id = demo_uuid, f_orgId = demo_uuid, f_breed = Ollama, f_name = ''box'', f_baseUrl = ''http://b/'',
     f_upstreamAuthEnc = Some (projr (seal demo_crypto (replicate 12 CHR ''i'') ''tok'' demo_ring \<lparr>b_orgId = demo_uuid, b_flockId = demo_uuid\<rparr>)),
     f_tlsTrust = False, f_healthOk = None\<rparr>]\<rparr>"

definition demo_prober :: actor where
  "demo_prober = \<lparr>ac_id = ''u'', ac_orgId = demo_uuid, ac_email = ''e'', ac_role = Viewer, ac_grants = None, ac_credential = ''session''\<rparr>"


text \<open>
  The scheduler's pass over every flock accounts for each once and writes nothing but the health column, whatever the
  flocks answer.
\<close>

theorem health_pass_confined:
  assumes "probeAllFlocks reg call c ring d = Inr (n, d')"
  shows "only_health d d' \<and> hc_ok n + hc_failed n = hc_total n"
proof -
  from assms obtain fs where "probe_flocks reg call fs \<lparr>hc_total = length fs, hc_ok = 0, hc_failed = 0\<rparr> d = (n, d')"
    by (auto simp: probeAllFlocks_def split: sum.split_asm)
  from probe_flocks_count [OF this] show ?thesis by simp
qed

end
