(* ===== verification/CliOp.thy ===== *)
theory CliOp
  imports Schema JsText
begin

text \<open>
  The command line client's side of the OpenID provider (apps/cli/src/config.ts, device.ts): where it points, which
  addresses a credential may travel to, discovery, the device authorization grant, the refresh of a token and its
  revocation. The URL parser, the network, the clock and the timer are the record \<open>op_deps\<close>, over the state of
  the world.
\<close>

section \<open>Addresses (config.ts)\<close>

record host_url = url +
  hu_hostname :: string
  hu_username :: string
  hu_password :: string

datatype cli_error =
    NotAUrl string string
  | NotHttp string string
  | PlainHttp string string string
  | NotOrigin string string
  | NotConfigured string string string
  | Redirected string int
  | NetworkFailed string
  | DiscoveryStatus string int
  | DifferentIssuer string
  | NoDeviceGrant string
  | NoAccessToken
  | MalformedAccessToken
  | MalformedRefreshToken
  | SignInNotStarted string
  | IncompleteStart
  | CodeExpired
  | SignInCancelled
  | SignInFailed string
  | SignInAgain string
  | RefreshUnanswered int
  | StoreRefused string
  | NotSignedIn string
  | OtherResource string string
  | ApiUnsent string
  | ApiRedirect int
  | ApiProblem int string

type_synonym env = "string \<Rightarrow> string option"

definition ISSUER_ENV :: string where
  "ISSUER_ENV = ''METAMODELS_ISSUER''"

definition CONSOLE_ENV :: string where
  "CONSOLE_ENV = ''METAMODELS_CONSOLE_URL''"

definition INSECURE_HTTP_ENV :: string where
  "INSECURE_HTTP_ENV = ''METAMODELS_ALLOW_INSECURE_HTTP''"

definition insecureHttpAllowed :: "bool option \<Rightarrow> env \<Rightarrow> bool" where
  "insecureHttpAllowed flag env = (flag = Some True \<or> env INSECURE_HTTP_ENV = Some ''1'')"

definition short_digits :: "string \<Rightarrow> bool" where
  "short_digits s = (1 \<le> length s \<and> length s \<le> 3 \<and> list_all is_digit s)"

definition isLoopback :: "string \<Rightarrow> bool" where
  "isLoopback hostname =
     (hostname = ''localhost'' \<or> hostname = ''[::1]'' \<or>
      (case split_on CHR ''.'' hostname of
         [a, b, c, d] \<Rightarrow> a = ''127'' \<and> list_all short_digits [b, c, d]
       | _ \<Rightarrow> False))"

definition requireSecureTransport :: "(string \<Rightarrow> host_url option) \<Rightarrow> string \<Rightarrow> string \<Rightarrow> bool \<Rightarrow> string \<Rightarrow> cli_error + unit" where
  "requireSecureTransport parse_url u what allowInsecureHttp exposed =
     (case parse_url u of
        None \<Rightarrow> Inl (NotAUrl what u)
      | Some p \<Rightarrow>
          if u_protocol p = ''https:'' then Inr ()
          else if u_protocol p \<noteq> ''http:'' then Inl (NotHttp what u)
          else if isLoopback (hu_hostname p) \<or> allowInsecureHttp then Inr ()
          else Inl (PlainHttp what u exposed))"

definition TOKENS_SENT :: string where
  "TOKENS_SENT = ''tokens sent to it''"

definition origin :: "(string \<Rightarrow> host_url option) \<Rightarrow> string \<Rightarrow> string \<Rightarrow> bool \<Rightarrow> cli_error + string" where
  "origin parse_url val what allowInsecureHttp =
     (case parse_url val of
        None \<Rightarrow> Inl (NotOrigin what val)
      | Some p \<Rightarrow>
          if (u_protocol p \<noteq> ''https:'' \<and> u_protocol p \<noteq> ''http:'') \<or> u_pathname p \<noteq> ''/'' \<or> u_search p \<noteq> [] \<or> u_hash p \<noteq> [] \<or>
             hu_username p \<noteq> [] \<or> hu_password p \<noteq> [] then Inl (NotOrigin what val)
          else (case requireSecureTransport parse_url (u_origin p) (''the '' @ what) allowInsecureHttp TOKENS_SENT of
              Inl e \<Rightarrow> Inl e
            | Inr x \<Rightarrow> Inr (u_origin p)))"

definition pick :: "(string \<Rightarrow> host_url option) \<Rightarrow> string option \<Rightarrow> env \<Rightarrow> string \<Rightarrow> string \<Rightarrow> string \<Rightarrow> bool \<Rightarrow> cli_error + string" where
  "pick parse_url flag env name flagName what allowInsecureHttp =
     (let v = (case flag of Some f \<Rightarrow> Some f
             | None \<Rightarrow> (case env name of None \<Rightarrow> None | Some s \<Rightarrow> if s = [] then None else Some s)) in
      case v of
        None \<Rightarrow> Inl (NotConfigured what flagName name)
      | Some s \<Rightarrow> origin parse_url s what allowInsecureHttp)"

definition resolveIssuer :: "(string \<Rightarrow> host_url option) \<Rightarrow> string option \<Rightarrow> env \<Rightarrow> bool \<Rightarrow> cli_error + string" where
  "resolveIssuer parse_url flag env allowInsecureHttp =
     pick parse_url flag env ISSUER_ENV ''--issuer'' ''issuer'' allowInsecureHttp"

definition resolveConsoleUrl :: "(string \<Rightarrow> host_url option) \<Rightarrow> string option \<Rightarrow> env \<Rightarrow> bool \<Rightarrow> cli_error + string" where
  "resolveConsoleUrl parse_url flag env allowInsecureHttp =
     pick parse_url flag env CONSOLE_ENV ''--console'' ''console URL'' allowInsecureHttp"

section \<open>Requests to the provider (device.ts)\<close>

text \<open>
  A request is a GET, or a POST of a form; no reply where \<open>fetch\<close> throws. The body of a reply as JSON, when it
  parses.
\<close>

datatype op_request = OpGet string | OpPost string "(string \<times> string) list"

record op_reply =
  or_status :: int
  or_body :: "js option"

record 'w op_deps =
  op_parse :: "string \<Rightarrow> host_url option"
  op_fetch :: "op_request \<Rightarrow> 'w \<Rightarrow> op_reply option \<times> 'w"
  op_sleep :: "jnum \<Rightarrow> 'w \<Rightarrow> 'w"
  op_now :: "'w \<Rightarrow> int"
  op_insecure :: bool

fun readJson :: "js option \<Rightarrow> js" where
  "readJson (Some (Obj kvs)) = Obj kvs"
| "readJson (Some (Arr xs)) = Arr xs"
| "readJson _ = Obj []"

definition refuseRedirect :: "int \<Rightarrow> string \<Rightarrow> cli_error + unit" where
  "refuseRedirect status what = (if 300 \<le> status \<and> status < 400 then Inl (Redirected what status) else Inr ())"

definition postForm :: "('w, 'z) op_deps_scheme \<Rightarrow> string \<Rightarrow> (string \<times> string) list \<Rightarrow> 'w \<Rightarrow> (cli_error + int \<times> js) \<times> 'w" where
  "postForm d u form w =
     (case op_fetch d (OpPost u form) w of
        (None, w') \<Rightarrow> (Inl (NetworkFailed u), w')
      | (Some r, w') \<Rightarrow>
          (case refuseRedirect (or_status r) ''the authorization server'' of
             Inl e \<Rightarrow> (Inl e, w')
           | Inr x \<Rightarrow> (Inr (or_status r, readJson (or_body r)), w')))"

definition oauthError :: "js \<Rightarrow> int \<Rightarrow> string" where
  "oauthError json status =
     (let err = (case as_str (getp json ''error'') of Some s \<Rightarrow> s | None \<Rightarrow> ''HTTP '' @ int_str status) in
      case as_str (getp json ''error_description'') of Some s \<Rightarrow> err @ '': '' @ s | None \<Rightarrow> err)"

record op_metadata =
  md_token :: string
  md_device :: string
  md_revocation :: "string option"

definition OPS :: string where
  "OPS = ''the OP'' @ [CHR 0x27] @ ''s ''"

definition discover :: "('w, 'z) op_deps_scheme \<Rightarrow> string \<Rightarrow> 'w \<Rightarrow> (cli_error + op_metadata) \<times> 'w" where
  "discover d issuer w =
     (case op_fetch d (OpGet (issuer @ ''/.well-known/openid-configuration'')) w of
        (None, w') \<Rightarrow> (Inl (NetworkFailed issuer), w')
      | (Some r, w') \<Rightarrow>
          (let secure = (\<lambda>u what. requireSecureTransport (op_parse d) u what (op_insecure d) TOKENS_SENT);
               meta = readJson (or_body r) in
           (case refuseRedirect (or_status r) (''discovery at '' @ issuer) of
              Inl e \<Rightarrow> Inl e
            | Inr x \<Rightarrow>
                if \<not> (200 \<le> or_status r \<and> or_status r < 300) then Inl (DiscoveryStatus issuer (or_status r))
                else if getp meta ''issuer'' \<noteq> Str issuer then Inl (DifferentIssuer issuer)
                else (case (as_str (getp meta ''token_endpoint''), as_str (getp meta ''device_authorization_endpoint'')) of
                    (Some t, Some v) \<Rightarrow>
                      (case (secure t (OPS @ ''token_endpoint''), secure v (OPS @ ''device_authorization_endpoint'')) of
                         (Inl e, _) \<Rightarrow> Inl e
                       | (_, Inl e) \<Rightarrow> Inl e
                       | _ \<Rightarrow>
                           (case as_str (getp meta ''revocation_endpoint'') of
                              None \<Rightarrow> Inr \<lparr>md_token = t, md_device = v, md_revocation = None\<rparr>
                            | Some k \<Rightarrow>
                                (case secure k (OPS @ ''revocation_endpoint'') of
                                   Inl e \<Rightarrow> Inl e
                                 | Inr x \<Rightarrow> Inr \<lparr>md_token = t, md_device = v, md_revocation = Some k\<rparr>)))
                  | _ \<Rightarrow> Inl (NoDeviceGrant issuer))), w'))"

section \<open>Credentials\<close>

record cred =
  cr_issuer :: string
  cr_resource :: string
  cr_scope :: string
  cr_accessToken :: string
  cr_accessExpiresAt :: jnum
  cr_refreshToken :: "string option"
  cr_obtainedAt :: int

definition b64token_char :: "char \<Rightarrow> bool" where
  "b64token_char c = (is_upper c \<or> is_lower c \<or> is_digit c \<or> c \<in> {CHR ''-'', CHR ''.'', CHR ''_'', CHR ''~'', CHR ''+'', CHR ''/''})"

text \<open>\<open>B64TOKEN\<close>: characters of the set, then padding.\<close>

definition b64token :: "string \<Rightarrow> bool" where
  "b64token s = (let body = takeWhile b64token_char s in body \<noteq> [] \<and> list_all (\<lambda>c. c = CHR ''='') (drop (length body) s))"

fun seconds_from :: "int \<Rightarrow> jnum \<Rightarrow> jnum" where
  "seconds_from now (Fin r) = Fin (of_int now + r * 1000)"
| "seconds_from now x = x"

definition toCredential :: "string \<Rightarrow> string \<Rightarrow> js \<Rightarrow> int \<Rightarrow> string option \<Rightarrow> cli_error + cred" where
  "toCredential issuer resource json now previousRefresh =
     (case (as_str (getp json ''access_token''), as_num (getp json ''expires_in'')) of
        (Some t, Some n) \<Rightarrow>
          if \<not> b64token t then Inl MalformedAccessToken
          else if getp json ''refresh_token'' \<noteq> Undef \<and>
            (case as_str (getp json ''refresh_token'') of None \<Rightarrow> True | Some r \<Rightarrow> \<not> b64token r) then Inl MalformedRefreshToken
          else Inr \<lparr>cr_issuer = issuer, cr_resource = resource,
            cr_scope = (case as_str (getp json ''scope'') of None \<Rightarrow> [] | Some s \<Rightarrow> s), cr_accessToken = t,
            cr_accessExpiresAt = seconds_from now n,
            cr_refreshToken = (case as_str (getp json ''refresh_token'') of Some r \<Rightarrow> Some r | None \<Rightarrow> previousRefresh),
            cr_obtainedAt = now\<rparr>
      | _ \<Rightarrow> Inl NoAccessToken)"

section \<open>The device authorization grant\<close>

definition DEVICE_CODE_GRANT :: string where
  "DEVICE_CODE_GRANT = ''urn:ietf:params:oauth:grant-type:device_code''"

text \<open>What the operator is shown: the page to open and the code.\<close>

record prompt =
  pt_page :: string
  pt_complete :: bool
  pt_code :: string

record device_start =
  ds_code :: string
  ds_prompt :: prompt
  ds_expiresIn :: jnum
  ds_interval :: jnum

fun times_1000 :: "jnum \<Rightarrow> jnum" where
  "times_1000 (Fin r) = Fin (r * 1000)"
| "times_1000 x = x"

fun plus_ms :: "jnum \<Rightarrow> rat \<Rightarrow> jnum" where
  "plus_ms (Fin r) n = Fin (r + n)"
| "plus_ms x n = x"

definition device_fields :: "string \<Rightarrow> capability list \<Rightarrow> (string \<times> string) list" where
  "device_fields resource scopes =
     [(''client_id'', CLI_CLIENT_ID), (''scope'', join_on '' '' ([''openid'', ''offline_access''] @ map cap_str scopes)), (''resource'', resource)]"

definition device_start_of :: "('w, 'z) op_deps_scheme \<Rightarrow> int \<times> js \<Rightarrow> cli_error + device_start" where
  "device_start_of d reply =
     (let (status, json) = reply; typedThere = ''the password typed into it'';
          secure = (\<lambda>u what. requireSecureTransport (op_parse d) u what (op_insecure d) typedThere) in
      if status \<noteq> 200 then Inl (SignInNotStarted (oauthError json status))
      else case (as_str (getp json ''device_code''), as_str (getp json ''user_code''), as_str (getp json ''verification_uri''),
          as_num (getp json ''expires_in'')) of
          (Some dc, Some uc, Some u, Some n) \<Rightarrow>
            (case secure u (OPS @ ''verification_uri'') of
               Inl e \<Rightarrow> Inl e
             | Inr x \<Rightarrow>
                 (let mk = (\<lambda>page full. Inr \<lparr>ds_code = dc, ds_prompt = \<lparr>pt_page = page, pt_complete = full, pt_code = uc\<rparr>, ds_expiresIn = n,
                        ds_interval = times_1000 (case as_num (getp json ''interval'') of Some i \<Rightarrow> i | None \<Rightarrow> Fin 5)\<rparr>) in
                  case as_str (getp json ''verification_uri_complete'') of
                    None \<Rightarrow> mk u False
                  | Some c \<Rightarrow> (case secure c (OPS @ ''verification_uri_complete'') of Inl e \<Rightarrow> Inl e | Inr x \<Rightarrow> mk c True)))
        | _ \<Rightarrow> Inl IncompleteStart)"

definition poll_fields :: "string \<Rightarrow> string \<Rightarrow> (string \<times> string) list" where
  "poll_fields deviceCode resource =
     [(''grant_type'', DEVICE_CODE_GRANT), (''device_code'', deviceCode), (''client_id'', CLI_CLIENT_ID), (''resource'', resource)]"

datatype poll_answer = Pending | SlowDown | PollFailed cli_error | PollOk js

definition poll_answer_of :: "int \<times> js \<Rightarrow> poll_answer" where
  "poll_answer_of reply =
     (let (status, json) = reply; err = getp json ''error'' in
      if status = 200 then PollOk json
      else if err = Str ''authorization_pending'' then Pending
      else if err = Str ''slow_down'' then SlowDown
      else if err = Str ''expired_token'' then PollFailed CodeExpired
      else if err = Str ''access_denied'' then PollFailed SignInCancelled
      else PollFailed (SignInFailed (oauthError json status)))"

text \<open>The polling loop; \<open>None\<close> where the fuel does not suffice.\<close>

fun poll :: "nat \<Rightarrow> ('w, 'z) op_deps_scheme \<Rightarrow> string \<Rightarrow> string \<Rightarrow> string \<Rightarrow> string \<Rightarrow> jnum \<Rightarrow> jnum \<Rightarrow> 'w \<Rightarrow> (cli_error + cred) option \<times> 'w" where
  "poll 0 d token issuer resource code interval deadline w = (None, w)"
| "poll (Suc fuel) d token issuer resource code interval deadline w =
     (let w1 = op_sleep d interval w in
      if jnum_less deadline (Fin (of_int (op_now d w1))) then (Some (Inl CodeExpired), w1)
      else case postForm d token (poll_fields code resource) w1 of
          (Inl e, w2) \<Rightarrow> (Some (Inl e), w2)
        | (Inr reply, w2) \<Rightarrow>
            (case poll_answer_of reply of
               PollOk json \<Rightarrow> (Some (toCredential issuer resource json (op_now d w2) None), w2)
             | Pending \<Rightarrow> poll fuel d token issuer resource code interval deadline w2
             | SlowDown \<Rightarrow> poll fuel d token issuer resource code (plus_ms interval 5000) deadline w2
             | PollFailed e \<Rightarrow> (Some (Inl e), w2)))"

definition deviceLogin :: "nat \<Rightarrow> ('w, 'z) op_deps_scheme \<Rightarrow> string \<Rightarrow> string \<Rightarrow> capability list \<Rightarrow> 'w \<Rightarrow>
    (cli_error + cred) option \<times> prompt option \<times> 'w" where
  "deviceLogin fuel d issuer resource scopes w =
     (case discover d issuer w of
        (Inl e, w1) \<Rightarrow> (Some (Inl e), None, w1)
      | (Inr meta, w1) \<Rightarrow>
          (case postForm d (md_device meta) (device_fields resource scopes) w1 of
             (Inl e, w2) \<Rightarrow> (Some (Inl e), None, w2)
           | (Inr reply, w2) \<Rightarrow>
               (case device_start_of d reply of
                  Inl e \<Rightarrow> (Some (Inl e), None, w2)
                | Inr s \<Rightarrow>
                    (let (r, w3) = poll fuel d (md_token meta) issuer resource (ds_code s) (ds_interval s)
                           (seconds_from (op_now d w2) (ds_expiresIn s)) w2
                     in (r, Some (ds_prompt s), w3)))))"

section \<open>Refresh and revocation\<close>

definition refresh_fields :: "string \<Rightarrow> string \<Rightarrow> (string \<times> string) list" where
  "refresh_fields refreshToken resource =
     [(''grant_type'', ''refresh_token''), (''refresh_token'', refreshToken), (''client_id'', CLI_CLIENT_ID), (''resource'', resource)]"

definition refresh_outcome :: "string \<Rightarrow> string \<Rightarrow> string \<Rightarrow> int \<times> js \<Rightarrow> int \<Rightarrow> cli_error + cred" where
  "refresh_outcome issuer resource refreshToken reply now =
     (let (status, json) = reply in
      if status = 200 then toCredential issuer resource json now (Some refreshToken)
      else if 400 \<le> status \<and> status < 500 then Inl (SignInAgain (oauthError json status))
      else Inl (RefreshUnanswered status))"

definition refresh :: "('w, 'z) op_deps_scheme \<Rightarrow> string \<Rightarrow> string \<Rightarrow> string \<Rightarrow> 'w \<Rightarrow> (cli_error + cred) \<times> 'w" where
  "refresh d issuer resource refreshToken w =
     (case discover d issuer w of
        (Inl e, w1) \<Rightarrow> (Inl e, w1)
      | (Inr meta, w1) \<Rightarrow>
          (case postForm d (md_token meta) (refresh_fields refreshToken resource) w1 of
             (Inl e, w2) \<Rightarrow> (Inl e, w2)
           | (Inr reply, w2) \<Rightarrow> (refresh_outcome issuer resource refreshToken reply (op_now d w2), w2)))"

definition revokeRefreshToken :: "('w, 'z) op_deps_scheme \<Rightarrow> string \<Rightarrow> string \<Rightarrow> 'w \<Rightarrow> bool \<times> 'w" where
  "revokeRefreshToken d issuer refreshToken w =
     (case discover d issuer w of
        (Inl e, w1) \<Rightarrow> (False, w1)
      | (Inr meta, w1) \<Rightarrow>
          (case md_revocation meta of
             None \<Rightarrow> (False, w1)
           | Some u \<Rightarrow>
               (case postForm d u [(''token'', refreshToken), (''token_type_hint'', ''refresh_token''), (''client_id'', CLI_CLIENT_ID)] w1 of
                  (Inl e, w2) \<Rightarrow> (False, w2)
                | (Inr (status, json), w2) \<Rightarrow> (status = 200, w2))))"

section \<open>Lemmas\<close>

text \<open>The addresses a credential may travel to.\<close>

definition safe_url :: "('w, 'z) op_deps_scheme \<Rightarrow> string \<Rightarrow> bool" where
  "safe_url d u =
     (case op_parse d u of
        None \<Rightarrow> False
      | Some p \<Rightarrow> u_protocol p = ''https:'' \<or> u_protocol p = ''http:'' \<and> (isLoopback (hu_hostname p) \<or> op_insecure d))"

lemma requireSecure_iff: "requireSecureTransport (op_parse d) u what (op_insecure d) exposed = Inr x \<longleftrightarrow> safe_url d u"
  by (auto simp: requireSecureTransport_def safe_url_def split: option.split)

lemma discover_safe:
  assumes "discover d issuer w = (Inr meta, w')"
  shows "safe_url d (md_token meta) \<and> safe_url d (md_device meta) \<and> (\<forall>u. md_revocation meta = Some u \<longrightarrow> safe_url d u)"
  using assms
  by (auto simp: discover_def Let_def requireSecure_iff split: prod.split_asm option.split_asm sum.split_asm if_split_asm)

text \<open>The provider's side with a log of the requests it is sent.\<close>

definition logged :: "('w, 'z) op_deps_scheme \<Rightarrow> ('w \<times> op_request list) op_deps" where
  "logged d = \<lparr>op_parse = op_parse d,
     op_fetch = (\<lambda>r (w, l). map_prod id (\<lambda>w'. (w', l @ [r])) (op_fetch d r w)),
     op_sleep = (\<lambda>t (w, l). (op_sleep d t w, l)), op_now = (\<lambda>(w, l). op_now d w), op_insecure = op_insecure d\<rparr>"

fun safe_request :: "('w, 'z) op_deps_scheme \<Rightarrow> op_request \<Rightarrow> bool" where
  "safe_request d (OpGet u) = True"
| "safe_request d (OpPost u form) = safe_url d u"

definition safe_log :: "('w, 'z) op_deps_scheme \<Rightarrow> 'w \<times> op_request list \<Rightarrow> bool" where
  "safe_log d s = list_all (safe_request d) (snd s)"

lemma safe_url_logged [simp]: "safe_url (logged d) u = safe_url d u"
  by (simp add: safe_url_def logged_def split: option.split)

lemma fetch_logged: "op_fetch (logged d) r s = (x, s') \<Longrightarrow> safe_log d s \<Longrightarrow> safe_request d r \<Longrightarrow> safe_log d s'"
  by (cases s; cases "op_fetch d r (fst s)") (auto simp: logged_def safe_log_def)

lemma sleep_logged [simp]: "safe_log d (op_sleep (logged d) t s) = safe_log d s"
  by (cases s) (simp add: logged_def safe_log_def)

lemma postForm_logged:
  assumes "postForm (logged d) u form s = (x, s')" and "safe_log d s" and "safe_url d u"
  shows "safe_log d s'"
proof -
  from assms(1) obtain y where "op_fetch (logged d) (OpPost u form) s = (y, s')"
    by (auto simp: postForm_def split: prod.split_asm option.split_asm sum.split_asm)
  from fetch_logged [OF this assms(2)] assms(3) show ?thesis by simp
qed

lemma discover_logged:
  assumes "discover (logged d) issuer s = (x, s')" and "safe_log d s"
  shows "safe_log d s'"
proof -
  from assms(1) obtain y where "op_fetch (logged d) (OpGet (issuer @ ''/.well-known/openid-configuration'')) s = (y, s')"
    by (auto simp: discover_def split: prod.split_asm option.split_asm)
  from fetch_logged [OF this assms(2)] show ?thesis by simp
qed

lemma poll_logged:
  assumes "poll fuel (logged d) token issuer resource cd interval deadline s = (x, s')" and "safe_log d s" and "safe_url d token"
  shows "safe_log d s'"
  using assms
proof (induction fuel arbitrary: interval s)
  case (Suc fuel)
  let ?s = "op_sleep (logged d) interval s"
  obtain y s2 where p: "postForm (logged d) token (poll_fields cd resource) ?s = (y, s2)" by (metis surj_pair)
  have s2: "safe_log d s2" using postForm_logged [OF p] Suc.prems(2,3) by simp
  show ?case
  proof (cases "jnum_less deadline (Fin (of_int (op_now (logged d) ?s)))")
    case True
    with Suc.prems show ?thesis by (auto simp: Let_def)
  next
    case False
    with Suc.prems(1) p s2 show ?thesis
      by (auto simp: Let_def split: sum.split_asm poll_answer.split_asm intro: Suc.IH [OF _ s2 Suc.prems(3)])
  qed
qed simp

lemma deviceLogin_logged:
  assumes "deviceLogin fuel (logged d) issuer resource scopes s = (x, shown, s')" and "safe_log d s"
  shows "safe_log d s'"
proof -
  obtain m s1 where m: "discover (logged d) issuer s = (m, s1)" by (metis surj_pair)
  have s1: "safe_log d s1" by (rule discover_logged [OF m assms(2)])
  show ?thesis
  proof (cases m)
    case (Inl e)
    with m assms s1 show ?thesis by (simp add: deviceLogin_def)
  next
    case (Inr meta)
    with m have safe: "safe_url d (md_device meta)" "safe_url d (md_token meta)" using discover_safe [of "logged d" issuer s meta s1] by simp_all
    obtain r s2 where r: "postForm (logged d) (md_device meta) (device_fields resource scopes) s1 = (r, s2)" by (metis surj_pair)
    have s2: "safe_log d s2" by (rule postForm_logged [OF r s1 safe(1)])
    from assms(1) m Inr r s2 show ?thesis
      by (auto simp: deviceLogin_def split: sum.split_asm prod.split_asm intro: poll_logged [OF _ s2 safe(2)])
  qed
qed

lemma discovered_post_logged:
  assumes "discover (logged d) issuer s = (Inr meta, s1)" and "postForm (logged d) u form s1 = (y, s')" and "safe_log d s1"
    and "u = md_token meta \<or> md_revocation meta = Some u"
  shows "safe_log d s'"
  using postForm_logged [OF assms(2,3)] discover_safe [OF assms(1)] assms(4) by auto

lemma refresh_logged:
  assumes "refresh (logged d) issuer resource tok s = (x, s')" and "safe_log d s"
  shows "safe_log d s'"
proof -
  obtain m s1 where m: "discover (logged d) issuer s = (m, s1)" by (metis surj_pair)
  have s1: "safe_log d s1" by (rule discover_logged [OF m assms(2)])
  from assms(1) m s1 show ?thesis
    by (auto simp: refresh_def split: sum.split_asm prod.split_asm) (erule (2) discovered_post_logged, simp)+
qed

lemma revoke_logged:
  assumes "revokeRefreshToken (logged d) issuer tok s = (x, s')" and "safe_log d s"
  shows "safe_log d s'"
proof -
  obtain m s1 where m: "discover (logged d) issuer s = (m, s1)" by (metis surj_pair)
  have s1: "safe_log d s1" by (rule discover_logged [OF m assms(2)])
  from assms(1) m s1 show ?thesis
    by (auto simp: revokeRefreshToken_def split: sum.split_asm prod.split_asm option.split_asm) (erule (2) discovered_post_logged, simp)+
qed

lemma shown_page_safe:
  assumes "deviceLogin fuel d issuer resource scopes w = (x, Some shown, w')"
  shows "safe_url d (pt_page shown)"
proof -
  from assms obtain reply s where "device_start_of d reply = Inr s" "shown = ds_prompt s"
    by (auto simp: deviceLogin_def Let_def split: sum.split_asm prod.split_asm)
  then show ?thesis
    by (auto simp: device_start_of_def Let_def requireSecure_iff split: prod.split_asm option.split_asm sum.split_asm if_split_asm)
qed

section \<open>Properties\<close>

text \<open>
  C19. The client sends a device code, a refresh token or a revocation, and sends the operator to type a password, only at
  addresses that are https, or plain http on the loopback or with the opt-in, whatever the discovery document says and
  whatever the network answers: of all requests of a sign-in, a refresh and a revocation, every form goes to such an address.
\<close>

theorem credentials_only_to_safe_addresses:
  assumes "deviceLogin fuel (logged d) issuer resource scopes (w, []) = (x1, shown, (w1, l1))"
    and "refresh (logged d) issuer resource tok (w, []) = (x2, (w2, l2))"
    and "revokeRefreshToken (logged d) issuer tok (w, []) = (x3, (w3, l3))"
  shows "list_all (safe_request d) (l1 @ l2 @ l3) \<and> (\<forall>p. shown = Some p \<longrightarrow> safe_url d (pt_page p))"
proof -
  have s0: "safe_log d (w, [])" by (simp add: safe_log_def)
  have "safe_log d (w1, l1)" "safe_log d (w2, l2)" "safe_log d (w3, l3)"
    using deviceLogin_logged [OF assms(1) s0] refresh_logged [OF assms(2) s0] revoke_logged [OF assms(3) s0] by simp_all
  moreover have "safe_url d (pt_page p)" if "shown = Some p" for p
    using shown_page_safe [OF assms(1) [unfolded that]] by simp
  ultimately show ?thesis by (simp add: safe_log_def)
qed

text \<open>A provider whose discovery document names a plain address for revocation only, and one whose document is in order.\<close>

definition demo_parse :: "string \<Rightarrow> host_url option" where
  "demo_parse s =
     (if take 8 s = ''https://'' then Some \<lparr>u_protocol = ''https:'', u_origin = s, u_pathname = ''/'', u_search = [], u_hash = [],
        hu_hostname = drop 8 s, hu_username = [], hu_password = []\<rparr>
      else if take 7 s = ''http://'' then Some \<lparr>u_protocol = ''http:'', u_origin = s, u_pathname = ''/'', u_search = [], u_hash = [],
        hu_hostname = drop 7 s, hu_username = [], hu_password = []\<rparr>
      else None)"

definition demo_op_reply :: "op_request \<Rightarrow> js" where
  "demo_op_reply r =
     (case r of
        OpGet u \<Rightarrow> Obj [(''issuer'', Str ''https://i''), (''token_endpoint'', Str ''https://t''),
          (''device_authorization_endpoint'', Str ''http://127.0.0.1''), (''revocation_endpoint'', Str ''https://v'')]
      | OpPost u form \<Rightarrow>
          if u = ''http://127.0.0.1'' then Obj [(''device_code'', Str ''dc''), (''user_code'', Str ''uc''), (''verification_uri'', Str ''https://p''),
            (''expires_in'', NumI 10), (''interval'', NumI 1)]
          else Obj [(''access_token'', Str ''at''), (''expires_in'', NumI 60), (''refresh_token'', Str ''rt'')])"

definition demo_op :: "int op_deps" where
  "demo_op = \<lparr>op_parse = demo_parse, op_fetch = (\<lambda>r w. (Some \<lparr>or_status = 200, or_body = Some (demo_op_reply r)\<rparr>, w)),
     op_sleep = (\<lambda>t w. w + 1), op_now = (\<lambda>w. w), op_insecure = False\<rparr>"

theorem credentials_only_to_safe_addresses_witness:
  "\<exists>x1 shown w1 l1. deviceLogin 3 (logged demo_op) ''https://i'' ''r'' [CapRead] (0, []) = (x1, shown, (w1, l1)) \<and>
     list_all (safe_request demo_op) l1 \<and> length l1 = 3"
proof -
  obtain x1 shown w1 l1 where r1: "deviceLogin 3 (logged demo_op) ''https://i'' ''r'' [CapRead] (0, []) = (x1, shown, (w1, l1))" by (metis prod_cases4)
  obtain x2 w2 l2 where r2: "refresh (logged demo_op) ''https://i'' ''r'' ''rt'' (0, []) = (x2, (w2, l2))" by (metis prod_cases3)
  obtain x3 w3 l3 where r3: "revokeRefreshToken (logged demo_op) ''https://i'' ''rt'' (0, []) = (x3, (w3, l3))" by (metis prod_cases3)
  have "length (snd (snd (snd (deviceLogin 3 (logged demo_op) ''https://i'' ''r'' [CapRead] (0, []))))) = 3" by code_simp
  with r1 credentials_only_to_safe_addresses [OF r1 r2 r3] show ?thesis by auto
qed

text \<open>
  Waiting for approval ends: on a clock that advances by at least a millisecond in every wait, the polling loop of a
  code with a finite lifetime returns, after at most one poll for each millisecond that is left and one more.
\<close>

definition ticks :: "('w, 'z) op_deps_scheme \<Rightarrow> bool" where
  "ticks d = ((\<forall>t w. op_now d w + 1 \<le> op_now d (op_sleep d t w)) \<and> (\<forall>r w. op_now d w \<le> op_now d (snd (op_fetch d r w))))"

lemma postForm_later: "ticks d \<Longrightarrow> postForm d u form w = (x, w') \<Longrightarrow> op_now d w \<le> op_now d w'"
  by (auto simp: ticks_def postForm_def split: prod.split_asm option.split_asm sum.split_asm) (metis snd_conv)+

theorem polling_ends:
  assumes "ticks d" and "deadline = Fin x" and "nat (\<lfloor>x\<rfloor> - op_now d w + 1) < fuel"
  shows "\<exists>r w'. poll fuel d token issuer resource cd interval deadline w = (Some r, w')"
  using assms
proof (induction fuel arbitrary: interval w)
  case (Suc fuel)
  let ?w = "op_sleep d interval w"
  have t: "op_now d w + 1 \<le> op_now d ?w" using Suc.prems(1) by (simp add: ticks_def)
  obtain y w2 where p: "postForm d token (poll_fields cd resource) ?w = (y, w2)" by (metis surj_pair)
  have t2: "op_now d ?w \<le> op_now d w2" by (rule postForm_later [OF Suc.prems(1) p])
  show ?case
  proof (cases "x < of_int (op_now d ?w)")
    case True
    with Suc.prems show ?thesis by (simp add: Let_def)
  next
    case False
    then have "op_now d ?w \<le> \<lfloor>x\<rfloor>" by (simp add: le_floor_iff)
    with t t2 Suc.prems(3) have "nat (\<lfloor>x\<rfloor> - op_now d w2 + 1) < fuel" by linarith
    from Suc.IH [OF Suc.prems(1,2) this] False Suc.prems(2) p show ?thesis
      by (auto simp: Let_def split: sum.split poll_answer.split)
  qed
qed simp

theorem polling_ends_witness: "\<exists>r w'. poll 12 demo_op ''https://t'' ''https://i'' ''r'' ''dc'' (Fin 1) (Fin 10) 0 = (Some r, w')"
  by (rule polling_ends [of _ _ 10]) (simp_all add: ticks_def demo_op_def)

text \<open>A credential's tokens are made of the characters of a bearer credential, so none can end a header's line.\<close>

theorem credential_tokens_legal:
  assumes "toCredential issuer resource json now previous = Inr c"
  shows "b64token (cr_accessToken c) \<and> (\<forall>r. cr_refreshToken c = Some r \<longrightarrow> b64token r \<or> previous = Some r)"
  using assms
  by (auto simp: toCredential_def split: option.split_asm if_split_asm)

end
