(* ===== verification/CliStore.thy ===== *)
theory CliStore
  imports CliOp
begin

unbundle bit_operations_syntax

text \<open>
  The sign-ins the command line client keeps (apps/cli/src/credentials.ts, session.ts): the file and who may have
  touched it, the replacement of the file in one step, the lock beside it, the refresh of a stored token under the
  lock. The file system calls that may fail do so where the argument says; the JSON of the file is not modelled, its
  content is the list of its entries. The last sections interleave the clients of one machine, call by call.
\<close>

section \<open>The file (credentials.ts)\<close>

record file_stat =
  st_isDirectory :: bool
  st_mode :: int
  st_uid :: int

datatype content = NotJson | NotObject | Entries "(string \<times> cred) list"

text \<open>The directory, the file and the temporary file, the user's id where the platform has one.\<close>

record store_fs =
  sf_dir :: "file_stat option"
  sf_file :: "(file_stat \<times> content) option"
  sf_tmp :: "(file_stat \<times> content option) option"
  sf_uid :: "int option"

definition credentialsPath :: "env \<Rightarrow> string option" where
  "credentialsPath env =
     (case env ''XDG_CONFIG_HOME'' of
        Some (c # s) \<Rightarrow> Some ((c # s) @ ''/metamodels/credentials.json'')
      | _ \<Rightarrow>
          (case env ''HOME'' of
             Some (c # s) \<Rightarrow> Some ((c # s) @ ''/.config/metamodels/credentials.json'')
           | _ \<Rightarrow> None))"

definition owned :: "store_fs \<Rightarrow> file_stat \<Rightarrow> bool" where
  "owned fs s = (case sf_uid fs of None \<Rightarrow> True | Some u \<Rightarrow> st_uid s = u)"

definition checkDir :: "store_fs \<Rightarrow> cli_error + bool" where
  "checkDir fs =
     (case sf_dir fs of
        None \<Rightarrow> Inr False
      | Some s \<Rightarrow>
          if \<not> st_isDirectory s then Inl (StoreRefused ''not a directory'')
          else if st_mode s AND 0x12 \<noteq> 0 then Inl (StoreRefused ''directory writable by other users'')
          else if \<not> owned fs s then Inl (StoreRefused ''directory of another user'')
          else Inr True)"

definition readStore :: "store_fs \<Rightarrow> cli_error + (string \<times> cred) list" where
  "readStore fs =
     (case checkDir fs of
        Inl e \<Rightarrow> Inl e
      | Inr False \<Rightarrow> Inr []
      | Inr True \<Rightarrow>
          (case sf_file fs of
             None \<Rightarrow> Inr []
           | Some (s, c) \<Rightarrow>
               if st_mode s AND 0x3F \<noteq> 0 then Inl (StoreRefused ''readable or writable by other users'')
               else if \<not> owned fs s then Inl (StoreRefused ''file of another user'')
               else (case c of
                   NotJson \<Rightarrow> Inl (StoreRefused ''not valid JSON'')
                 | NotObject \<Rightarrow> Inl (StoreRefused ''not a credentials object'')
                 | Entries es \<Rightarrow> Inr es)))"

text \<open>The system calls of \<open>writeStore\<close>, in order; the last one renames.\<close>

definition own_stat :: "store_fs \<Rightarrow> bool \<Rightarrow> int \<Rightarrow> file_stat" where
  "own_stat fs isDir mode = \<lparr>st_isDirectory = isDir, st_mode = mode, st_uid = (case sf_uid fs of None \<Rightarrow> 0 | Some u \<Rightarrow> u)\<rparr>"

definition mkdir_call :: "store_fs \<Rightarrow> store_fs" where
  "mkdir_call fs = (case sf_dir fs of None \<Rightarrow> fs\<lparr>sf_dir := Some (own_stat fs True 0x1C0)\<rparr> | Some s \<Rightarrow> fs)"

definition write_calls :: "(string \<times> cred) list \<Rightarrow> (store_fs \<Rightarrow> store_fs) list" where
  "write_calls store =
     [mkdir_call,
      \<lambda>fs. fs\<lparr>sf_tmp := Some (own_stat fs False 0x180, None)\<rparr>,
      \<lambda>fs. fs\<lparr>sf_tmp := map_option (\<lambda>(s, c). (s\<lparr>st_mode := 0x180\<rparr>, c)) (sf_tmp fs)\<rparr>,
      \<lambda>fs. fs\<lparr>sf_tmp := map_option (\<lambda>(s, c). (s, Some (Entries store))) (sf_tmp fs)\<rparr>,
      \<lambda>fs. fs,
      \<lambda>fs. fs,
      \<lambda>fs. (case sf_tmp fs of
         Some (s, Some c) \<Rightarrow> fs\<lparr>sf_file := Some (s, c), sf_tmp := None\<rparr>
       | _ \<Rightarrow> fs)]"

definition writeStore :: "nat option \<Rightarrow> (string \<times> cred) list \<Rightarrow> store_fs \<Rightarrow> (cli_error + unit) \<times> store_fs" where
  "writeStore fails store fs =
     (case fails of
        None \<Rightarrow> (Inr (), fold (\<lambda>f. f) (write_calls store) fs)
      | Some n \<Rightarrow>
          if n < length (write_calls store)
          then (Inl (StoreRefused ''write failed''), (fold (\<lambda>f. f) (take n (write_calls store)) fs)\<lparr>sf_tmp := None\<rparr>)
          else (Inr (), fold (\<lambda>f. f) (write_calls store) fs))"

definition readCredentials :: "store_fs \<Rightarrow> string \<Rightarrow> cli_error + cred option" where
  "readCredentials fs issuer = (case readStore fs of Inl e \<Rightarrow> Inl e | Inr es \<Rightarrow> Inr (map_of es issuer))"

definition writeCredentials :: "nat option \<Rightarrow> cred \<Rightarrow> store_fs \<Rightarrow> (cli_error + unit) \<times> store_fs" where
  "writeCredentials fails c fs =
     (case readStore fs of
        Inl e \<Rightarrow> (Inl e, fs)
      | Inr es \<Rightarrow> writeStore fails (assoc_set es (cr_issuer c) c) fs)"

definition deleteCredentials :: "nat option \<Rightarrow> string \<Rightarrow> store_fs \<Rightarrow> (cli_error + unit) \<times> store_fs" where
  "deleteCredentials fails issuer fs =
     (case readStore fs of
        Inl e \<Rightarrow> (Inl e, fs)
      | Inr es \<Rightarrow> if map_of es issuer = None then (Inr (), fs) else writeStore fails (assoc_del es issuer) fs)"

section \<open>The lock file (credentials.ts)\<close>

definition LOCK_STALE_MS :: int where
  "LOCK_STALE_MS = 60000"

text \<open>A lock file: its inode and modification time, and the host and pid it records.\<close>

record lock_file =
  lf_ino :: nat
  lf_mtime :: int
  lf_text :: string

text \<open>\<open>/^(.+):([1-9]\d{0,9})\n$/\<close>: the host before the last colon and the pid after it.\<close>

definition holder_of :: "string \<Rightarrow> (string \<times> string) option" where
  "holder_of text =
     (if text = [] \<or> last text \<noteq> CHR 0x0A then None
      else let t = butlast text; pid = rev (takeWhile is_digit (rev t)); rest = take (length t - length pid) t in
        if pid \<noteq> [] \<and> hd pid \<noteq> CHR ''0'' \<and> length pid \<le> 10 \<and> rest \<noteq> [] \<and> last rest = CHR '':'' \<and>
           butlast rest \<noteq> [] \<and> list_all (\<lambda>c. c \<noteq> CHR 0x0A \<and> c \<noteq> CHR 0x0D) (butlast rest)
        then Some (butlast rest, pid) else None)"

definition lock_text :: "string \<Rightarrow> nat \<Rightarrow> string" where
  "lock_text host pid = host @ '':'' @ dec pid @ [CHR 0x0A]"

text \<open>\<open>esrch pid\<close>: no process has this pid on this host.\<close>

definition holderExited :: "string \<Rightarrow> (string \<Rightarrow> bool) \<Rightarrow> string option \<Rightarrow> bool" where
  "holderExited host esrch text =
     (case Option.bind text holder_of of None \<Rightarrow> False | Some (h, pid) \<Rightarrow> h = host \<and> esrch pid)"

definition sameLock :: "lock_file \<Rightarrow> lock_file \<Rightarrow> bool" where
  "sameLock a b = (lf_ino a = lf_ino b \<and> lf_mtime a = lf_mtime b)"

section \<open>One client (session.ts)\<close>

text \<open>
  What a client runs with: the file system, the call at which the next write fails, the wait for the lock, in which
  other clients may run, and its release.
\<close>

record 'w cli_deps = "'w op_deps" +
  cl_fs :: "'w \<Rightarrow> store_fs"
  cl_put :: "store_fs \<Rightarrow> 'w \<Rightarrow> 'w"
  cl_fault :: "'w \<Rightarrow> nat option"
  cl_wait :: "'w \<Rightarrow> (cli_error + unit) \<times> 'w"
  cl_unlock :: "'w \<Rightarrow> 'w"

record session_ctx =
  sc_issuer :: string
  sc_resource :: string

definition withCredentialsLock :: "('w, 'z) cli_deps_scheme \<Rightarrow> ('w \<Rightarrow> (cli_error + 'a) \<times> 'w) \<Rightarrow> 'w \<Rightarrow> (cli_error + 'a) \<times> 'w" where
  "withCredentialsLock d body w =
     (let w0 = cl_put d (mkdir_call (cl_fs d w)) w in
      case checkDir (cl_fs d w0) of
        Inl e \<Rightarrow> (Inl e, w0)
      | Inr b \<Rightarrow>
          (case cl_wait d w0 of
             (Inl e, w1) \<Rightarrow> (Inl e, w1)
           | (Inr x, w1) \<Rightarrow> (let (r, w2) = body w1 in (r, cl_unlock d w2))))"

definition loadCredential :: "store_fs \<Rightarrow> session_ctx \<Rightarrow> cli_error + cred" where
  "loadCredential fs ctx =
     (case readCredentials fs (sc_issuer ctx) of
        Inl e \<Rightarrow> Inl e
      | Inr None \<Rightarrow> Inl (NotSignedIn (sc_issuer ctx))
      | Inr (Some c) \<Rightarrow>
          if cr_resource c \<noteq> sc_resource ctx then Inl (OtherResource (cr_resource c) (sc_resource ctx)) else Inr c)"

datatype decision = Refuse cli_error | UseStored cred | Present string

definition refresh_decision :: "cred \<Rightarrow> cred option \<Rightarrow> decision" where
  "refresh_decision stale stored =
     (case stored of
        None \<Rightarrow> Refuse (SignInAgain ''no sign-in is stored'')
      | Some c \<Rightarrow>
          if cr_accessToken c \<noteq> cr_accessToken stale then UseStored c
          else (case cr_refreshToken c of
              None \<Rightarrow> Refuse (SignInAgain ''the stored sign-in cannot be renewed'')
            | Some t \<Rightarrow> Present t))"

text \<open>What becomes of the stored credential: the successor, nothing after a refusal, itself after any other error.\<close>

definition after_refresh :: "nat option \<Rightarrow> string \<Rightarrow> cli_error + cred \<Rightarrow> store_fs \<Rightarrow> (cli_error + cred) \<times> store_fs" where
  "after_refresh fails issuer outcome fs =
     (case outcome of
        Inr next \<Rightarrow> (case writeCredentials fails next fs of (Inl e, fs') \<Rightarrow> (Inl e, fs') | (Inr x, fs') \<Rightarrow> (Inr next, fs'))
      | Inl (SignInAgain why) \<Rightarrow>
          (case deleteCredentials fails issuer fs of (Inl e, fs') \<Rightarrow> (Inl e, fs') | (Inr x, fs') \<Rightarrow> (Inl (SignInAgain why), fs'))
      | Inl e \<Rightarrow> (Inl e, fs))"

definition refresh_body :: "('w, 'z) cli_deps_scheme \<Rightarrow> session_ctx \<Rightarrow> cred \<Rightarrow> 'w \<Rightarrow> (cli_error + cred) \<times> 'w" where
  "refresh_body d ctx stale w =
     (case readCredentials (cl_fs d w) (sc_issuer ctx) of
        Inl e \<Rightarrow> (Inl e, w)
      | Inr stored \<Rightarrow>
          (case refresh_decision stale stored of
             Refuse e \<Rightarrow> (Inl e, w)
           | UseStored c \<Rightarrow> (Inr c, w)
           | Present t \<Rightarrow>
               (let (outcome, w1) = refresh d (sc_issuer ctx) (case stored of None \<Rightarrow> [] | Some c \<Rightarrow> cr_resource c) t w;
                    (r, fs) = after_refresh (cl_fault d w1) (sc_issuer ctx) outcome (cl_fs d w1)
                in (r, cl_put d fs w1))))"

definition refreshStored :: "('w, 'z) cli_deps_scheme \<Rightarrow> session_ctx \<Rightarrow> cred \<Rightarrow> 'w \<Rightarrow> (cli_error + cred) \<times> 'w" where
  "refreshStored d ctx stale = withCredentialsLock d (refresh_body d ctx stale)"

section \<open>Lemmas\<close>

lemma fold_calls:
  "sf_uid (fold (\<lambda>f. f) (take n (write_calls store)) fs) = sf_uid fs"
  "n < 7 \<Longrightarrow> sf_file (fold (\<lambda>f. f) (take n (write_calls store)) fs) = sf_file fs"
proof -
  show "sf_uid (fold (\<lambda>f. f) (take n (write_calls store)) fs) = sf_uid fs"
    by (simp add: write_calls_def mkdir_call_def take_Cons' split: option.split)
  show "n < 7 \<Longrightarrow> sf_file (fold (\<lambda>f. f) (take n (write_calls store)) fs) = sf_file fs"
    by (simp add: write_calls_def mkdir_call_def take_Cons' split: option.split)
qed

lemma all_calls:
  "fold (\<lambda>f. f) (write_calls store) fs =
     (mkdir_call fs)\<lparr>sf_file := Some (own_stat fs False 0x180, Entries store), sf_tmp := None\<rparr>"
  by (simp add: write_calls_def mkdir_call_def own_stat_def split: option.split)

lemma length_calls [simp]: "length (write_calls store) = 7"
  by (simp add: write_calls_def)

lemma writeStore_Inr:
  "writeStore fails store fs = (Inr x, fs') \<Longrightarrow>
     fs' = (mkdir_call fs)\<lparr>sf_file := Some (own_stat fs False 0x180, Entries store), sf_tmp := None\<rparr>"
  by (auto simp: writeStore_def all_calls split: option.split_asm if_split_asm)

lemma writeStore_Inl: "writeStore fails store fs = (Inl e, fs') \<Longrightarrow> sf_file fs' = sf_file fs"
  by (auto simp: writeStore_def fold_calls split: option.split_asm if_split_asm)

lemma readStore_checked: "readStore fs = Inr es \<Longrightarrow> \<exists>b. checkDir fs = Inr b"
  by (auto simp: readStore_def split: sum.split_asm)

lemma read_written:
  assumes "checkDir fs = Inr b" and "writeStore fails store fs = (Inr x, fs')"
  shows "readStore fs' = Inr store"
proof -
  have fs': "fs' = (mkdir_call fs)\<lparr>sf_file := Some (own_stat fs False 0x180, Entries store), sf_tmp := None\<rparr>"
    by (rule writeStore_Inr [OF assms(2)])
  have modes: "(0x1C0 :: int) AND 0x12 = 0" "(0x180 :: int) AND 0x3F = 0" by simp_all
  have "checkDir fs' = Inr True"
    using assms(1) by (cases "sf_dir fs"; cases "sf_uid fs")
      (simp_all add: fs' checkDir_def mkdir_call_def own_stat_def owned_def modes split: if_split_asm)
  then show ?thesis
    by (simp add: readStore_def fs' own_stat_def owned_def mkdir_call_def modes split: option.split)
qed

section \<open>Properties\<close>

text \<open>
  The file is replaced in one step: a client that stops after any number of the calls, or at which one fails, leaves
  the old file or the new one under the file's name, never a part of one.
\<close>

theorem store_never_torn:
  "sf_file (fold (\<lambda>f. f) (take n (write_calls store)) fs) \<in>
     {sf_file fs, Some (own_stat fs False 0x180, Entries store)} \<and>
   (\<forall>e fs'. writeStore fails store fs = (Inl e, fs') \<longrightarrow> sf_file fs' = sf_file fs)"
proof (cases "n < 7")
  case True
  then show ?thesis by (simp add: fold_calls writeStore_Inl)
next
  case False
  then have "take n (write_calls store) = write_calls store" by simp
  then show ?thesis by (simp add: all_calls writeStore_Inl del: take_all_iff)
qed

text \<open>
  What is written is read back: a write that succeeds leaves a file that passes the checks of a read, with this
  issuer's credential replaced or gone and every other issuer's kept.
\<close>

theorem stored_credential_roundtrip:
  "(writeCredentials fails c fs = (Inr x, fs') \<longrightarrow>
      readCredentials fs' (cr_issuer c) = Inr (Some c) \<and>
      (\<forall>i. i \<noteq> cr_issuer c \<longrightarrow> readCredentials fs' i = readCredentials fs i)) \<and>
   (deleteCredentials fails issuer fs = (Inr x, fs') \<longrightarrow>
      readCredentials fs' issuer = Inr None \<and> (\<forall>i. i \<noteq> issuer \<longrightarrow> readCredentials fs' i = readCredentials fs i))"
proof (cases "readStore fs")
  case (Inl e)
  then show ?thesis by (simp add: writeCredentials_def deleteCredentials_def)
next
  case (Inr es)
  then obtain b where b: "checkDir fs = Inr b" using readStore_checked by blast
  show ?thesis using Inr
    by (auto simp: writeCredentials_def deleteCredentials_def readCredentials_def read_written [OF b] split: if_split_asm)
qed

end
