(* ===== verification/CliLock.thy ===== *)
theory CliLock
  imports CliStore
begin

text \<open>
  The clients of one machine at the credentials lock (apps/cli/src/credentials.ts \<open>withCredentialsLock\<close>, with the
  body of session.ts \<open>refreshStored\<close> inside it), one system call or one request at a time. A client may be
  stopped anywhere, a lock may be judged stale and removed by a waiter, and the removal is two calls. The argument of
  the step relation says whether the runs are clean: no holder keeps the lock longer than a lock may be old, no waiter
  loses the race between its check and its removal, and no client fails between an answer of the provider and the write
  of the store. The source documents the first two as best effort. A lock
  path that is not a regular file, which is refused, is not modelled.
\<close>

section \<open>States\<close>

datatype client = Client (cn_host: string) (cn_pid: nat)

datatype phase = Entered | Sending string | Answered "cli_error + cred" | Over

datatype pc =
    Outside
  | Trying
  | Looking
  | Saw lock_file
  | Judged lock_file
  | Removing lock_file
  | Inside lock_file phase
  | Leaving lock_file
  | Ended

text \<open>
  The lock file, the clock, every lock file there has been, where each client is, the stored credential, the refresh
  tokens presented with whether the provider took each, the refresh tokens ever stored.
\<close>

record machine =
  mc_lock :: "lock_file option"
  mc_clock :: int
  mc_used :: "lock_file list"
  mc_pc :: "client \<Rightarrow> pc"
  mc_cred :: "cred option"
  mc_log :: "(string \<times> bool) list"
  mc_issued :: "string list"

abbreviation move :: "client \<Rightarrow> pc \<Rightarrow> machine \<Rightarrow> machine" where
  "move p x s \<equiv> s\<lparr>mc_pc := (mc_pc s)(p := x)\<rparr>"

definition holds :: "machine \<Rightarrow> client \<Rightarrow> lock_file \<Rightarrow> bool" where
  "holds s p f = ((\<exists>ph. mc_pc s p = Inside f ph) \<or> mc_pc s p = Leaving f)"

definition lock_stale :: "machine \<Rightarrow> client \<Rightarrow> lock_file \<Rightarrow> bool" where
  "lock_stale s p f =
     (LOCK_STALE_MS < mc_clock s - lf_mtime f \<or>
      holderExited (cn_host p) (\<lambda>pid. \<forall>n. dec n = pid \<longrightarrow> mc_pc s (Client (cn_host p) n) = Ended) (map_option lf_text (mc_lock s)))"

definition still_there :: "machine \<Rightarrow> lock_file \<Rightarrow> bool" where
  "still_there s f = (case mc_lock s of None \<Rightarrow> False | Some g \<Rightarrow> sameLock g f)"

text \<open>The credential that is stored after a refresh that was answered and written.\<close>

definition kept_after :: "cli_error + cred \<Rightarrow> cred option \<Rightarrow> cred option" where
  "kept_after outcome stored =
     (case outcome of Inr next \<Rightarrow> Some next | Inl (SignInAgain why) \<Rightarrow> None | Inl e \<Rightarrow> stored)"

definition decisive :: "cli_error + cred \<Rightarrow> bool" where
  "decisive outcome = (case outcome of Inr next \<Rightarrow> True | Inl (SignInAgain why) \<Rightarrow> True | Inl e \<Rightarrow> False)"

definition token_list :: "cred option \<Rightarrow> string list" where
  "token_list c = (case Option.bind c cr_refreshToken of None \<Rightarrow> [] | Some t \<Rightarrow> [t])"

definition outcome_tokens :: "cli_error + cred \<Rightarrow> string list" where
  "outcome_tokens outcome = (case outcome of Inl e \<Rightarrow> [] | Inr n \<Rightarrow> token_list (Some n))"

section \<open>Steps\<close>

inductive lock_step :: "bool \<Rightarrow> machine \<Rightarrow> machine \<Rightarrow> bool" for clean where
  tick: "mc_clock s \<le> t \<Longrightarrow> (clean \<Longrightarrow> \<forall>p f. holds s p f \<longrightarrow> t - lf_mtime f \<le> LOCK_STALE_MS) \<Longrightarrow>
    lock_step clean s (s\<lparr>mc_clock := t\<rparr>)"
| start: "mc_pc s p = Outside \<Longrightarrow> lock_step clean s (move p Trying s)"
| create: "mc_pc s p = Trying \<Longrightarrow> mc_lock s = None \<Longrightarrow> lf_mtime f = mc_clock s \<Longrightarrow> lf_text f = lock_text (cn_host p) (cn_pid p) \<Longrightarrow>
    \<forall>g \<in> set (mc_used s). \<not> sameLock f g \<Longrightarrow>
    lock_step clean s (move p (Inside f Entered) (s\<lparr>mc_lock := Some f, mc_used := f # mc_used s\<rparr>))"
| busy: "mc_pc s p = Trying \<Longrightarrow> mc_lock s \<noteq> None \<Longrightarrow> lock_step clean s (move p Looking s)"
| gone: "mc_pc s p = Looking \<Longrightarrow> mc_lock s = None \<Longrightarrow> lock_step clean s (move p Trying s)"
| look: "mc_pc s p = Looking \<Longrightarrow> mc_lock s = Some f \<Longrightarrow> lock_step clean s (move p (Saw f) s)"
| judge: "mc_pc s p = Saw f \<Longrightarrow> lock_stale s p f \<Longrightarrow> lock_step clean s (move p (Judged f) s)"
| wait: "mc_pc s p = Saw f \<Longrightarrow> \<not> lock_stale s p f \<Longrightarrow> lock_step clean s (move p Trying s)"
| check: "mc_pc s p = Judged f \<Longrightarrow> lock_step clean s (move p (if still_there s f then Removing f else Trying) s)"
| unlink: "mc_pc s p = Removing f \<Longrightarrow> (clean \<Longrightarrow> mc_lock s = None \<or> still_there s f) \<Longrightarrow>
    lock_step clean s (move p Trying (s\<lparr>mc_lock := None\<rparr>))"
| decide: "mc_pc s p = Inside f Entered \<Longrightarrow>
    lock_step clean s (move p (Inside f (case refresh_decision stale (mc_cred s) of Present t \<Rightarrow> Sending t | _ \<Rightarrow> Over)) s)"
| present: "mc_pc s p = Inside f (Sending t) \<Longrightarrow> (clean \<Longrightarrow> taken \<Longrightarrow> decisive outcome) \<Longrightarrow>
    (clean \<Longrightarrow> \<forall>n. outcome = Inr n \<longrightarrow> (\<exists>t'. cr_refreshToken n = Some t' \<and> t' \<notin> set (mc_issued s))) \<Longrightarrow>
    lock_step clean s (move p (Inside f (Answered outcome))
      (s\<lparr>mc_log := mc_log s @ [(t, taken)], mc_issued := outcome_tokens outcome @ mc_issued s\<rparr>))"
| commit: "mc_pc s p = Inside f (Answered outcome) \<Longrightarrow>
    lock_step clean s (move p (Inside f Over) (s\<lparr>mc_cred := kept_after outcome (mc_cred s)\<rparr>))"
| sign_in: "mc_pc s p = Inside f Entered \<Longrightarrow> (clean \<Longrightarrow> \<forall>t \<in> set (token_list (Some n)). t \<notin> set (mc_issued s)) \<Longrightarrow>
    lock_step clean s (move p (Inside f Over) (s\<lparr>mc_cred := Some n, mc_issued := token_list (Some n) @ mc_issued s\<rparr>))"
| sign_out: "mc_pc s p = Inside f Entered \<Longrightarrow> lock_step clean s (move p (Inside f Over) (s\<lparr>mc_cred := None\<rparr>))"
| abort: "mc_pc s p = Inside f ph \<Longrightarrow> (clean \<Longrightarrow> \<forall>x. ph \<noteq> Answered x) \<Longrightarrow> lock_step clean s (move p (Inside f Over) s)"
| leave: "mc_pc s p = Inside f Over \<Longrightarrow> lock_step clean s (move p (if still_there s f then Leaving f else Outside) s)"
| release: "mc_pc s p = Leaving f \<Longrightarrow> lock_step clean s (move p Outside (s\<lparr>mc_lock := None\<rparr>))"
| die: "(clean \<Longrightarrow> \<forall>f x. mc_pc s p \<noteq> Inside f (Answered x)) \<Longrightarrow> lock_step clean s (move p Ended s)"

inductive lock_run :: "bool \<Rightarrow> machine \<Rightarrow> machine \<Rightarrow> bool" for clean where
  none: "lock_run clean s s"
| more: "lock_run clean s s' \<Longrightarrow> lock_step clean s' s'' \<Longrightarrow> lock_run clean s s''"

text \<open>At the start nobody is at the lock, there is no lock file, and nothing has been presented.\<close>

definition lock_start :: "machine \<Rightarrow> bool" where
  "lock_start s = (mc_lock s = None \<and> mc_used s = [] \<and> (\<forall>p. mc_pc s p \<in> {Outside, Ended}) \<and> mc_log s = [] \<and>
     mc_issued s = token_list (mc_cred s))"

section \<open>The lock: lemmas\<close>

lemma pid_digits: "c \<in> set (dec n) \<Longrightarrow> is_digit c"
  by (drule dec_digits) (auto simp: is_digit_def less_eq_char_def of_char_digit)

lemma holder_of_lock_text: "holder_of (lock_text h n) = Some (h', pid) \<Longrightarrow> h' = h \<and> pid = dec n"
proof -
  assume a: "holder_of (lock_text h n) = Some (h', pid)"
  have t: "butlast (lock_text h n) = h @ '':'' @ dec n" by (simp add: lock_text_def butlast_append)
  have d: "takeWhile is_digit (rev (dec n) @ CHR '':'' # rev h) = rev (dec n)"
  proof -
    have "\<And>c. c \<in> set (rev (dec n)) \<Longrightarrow> is_digit c" by (simp add: pid_digits)
    then have "takeWhile is_digit (rev (dec n) @ CHR '':'' # rev h) = rev (dec n) @ takeWhile is_digit (CHR '':'' # rev h)"
      by (rule takeWhile_append2)
    then show ?thesis by (simp add: is_digit_def less_eq_char_def)
  qed
  from a show ?thesis unfolding holder_of_def t by (auto simp: d Let_def split: if_split_asm)
qed

text \<open>What the lock keeps in clean runs.\<close>

definition lock_inv :: "machine \<Rightarrow> bool" where
  "lock_inv s =
     ((\<forall>p f. holds s p f \<longrightarrow> mc_lock s = Some f \<and> lf_text f = lock_text (cn_host p) (cn_pid p) \<and> mc_clock s - lf_mtime f \<le> LOCK_STALE_MS) \<and>
      (\<forall>p q f g. holds s p f \<longrightarrow> holds s q g \<longrightarrow> p = q) \<and>
      (\<forall>p f. mc_pc s p = Judged f \<or> mc_pc s p = Removing f \<longrightarrow> (\<forall>q g. holds s q g \<longrightarrow> \<not> sameLock g f)) \<and>
      (\<forall>p f. mc_pc s p = Saw f \<or> mc_pc s p = Judged f \<or> mc_pc s p = Removing f \<longrightarrow> f \<in> set (mc_used s)) \<and>
      (\<forall>f. mc_lock s = Some f \<longrightarrow> f \<in> set (mc_used s)))"

lemma sameLock_sym: "sameLock f g \<Longrightarrow> sameLock g f"
  by (auto simp: sameLock_def)

lemma lock_inv_held:
  "lock_inv s \<Longrightarrow> holds s p f \<Longrightarrow>
     mc_lock s = Some f \<and> lf_text f = lock_text (cn_host p) (cn_pid p) \<and> mc_clock s - lf_mtime f \<le> LOCK_STALE_MS"
  by (simp add: lock_inv_def)

lemma lock_inv_one: "lock_inv s \<Longrightarrow> holds s p f \<Longrightarrow> holds s q g \<Longrightarrow> p = q"
  unfolding lock_inv_def by blast

lemma lock_inv_judged: "lock_inv s \<Longrightarrow> mc_pc s p = Judged f \<or> mc_pc s p = Removing f \<Longrightarrow> holds s q g \<Longrightarrow> \<not> sameLock g f"
  unfolding lock_inv_def by blast

lemma lock_inv_used: "lock_inv s \<Longrightarrow> mc_pc s p = Saw f \<or> mc_pc s p = Judged f \<or> mc_pc s p = Removing f \<Longrightarrow> f \<in> set (mc_used s)"
  unfolding lock_inv_def by blast

lemma lock_inv_file: "lock_inv s \<Longrightarrow> mc_lock s = Some f \<Longrightarrow> f \<in> set (mc_used s)"
  unfolding lock_inv_def by blast

lemma lock_invI:
  assumes "\<And>p f. holds s p f \<Longrightarrow>
      mc_lock s = Some f \<and> lf_text f = lock_text (cn_host p) (cn_pid p) \<and> mc_clock s - lf_mtime f \<le> LOCK_STALE_MS"
    and "\<And>p q f g. holds s p f \<Longrightarrow> holds s q g \<Longrightarrow> p = q"
    and "\<And>p q f g. mc_pc s p = Judged f \<or> mc_pc s p = Removing f \<Longrightarrow> holds s q g \<Longrightarrow> \<not> sameLock g f"
    and "\<And>p f. mc_pc s p = Saw f \<or> mc_pc s p = Judged f \<or> mc_pc s p = Removing f \<Longrightarrow> f \<in> set (mc_used s)"
    and "\<And>f. mc_lock s = Some f \<Longrightarrow> f \<in> set (mc_used s)"
  shows "lock_inv s"
  unfolding lock_inv_def using assms by blast

lemma stale_not_held:
  assumes "lock_inv s" and "lock_stale s p f" and "holds s q g"
  shows "\<not> sameLock g f"
proof
  assume same: "sameLock g f"
  note g = lock_inv_held [OF assms(1,3)]
  from same g have "\<not> LOCK_STALE_MS < mc_clock s - lf_mtime f" by (simp add: sameLock_def)
  with assms(2) g obtain h pid where h: "holder_of (lf_text g) = Some (h, pid)" "h = cn_host p"
    "\<forall>n. dec n = pid \<longrightarrow> mc_pc s (Client (cn_host p) n) = Ended"
    by (auto simp: lock_stale_def holderExited_def split: option.split_asm)
  from g have "lf_text g = lock_text (cn_host q) (cn_pid q)" by simp
  from holder_of_lock_text [OF h(1) [unfolded this]] h(2,3) have "mc_pc s q = Ended" by (cases q) auto
  with assms(3) show False by (simp add: holds_def)
qed

lemma lock_inv_frame [simp]:
  "lock_inv (s\<lparr>mc_cred := c\<rparr>) = lock_inv s" "lock_inv (s\<lparr>mc_log := l\<rparr>) = lock_inv s" "lock_inv (s\<lparr>mc_issued := i\<rparr>) = lock_inv s"
  by (simp_all add: lock_inv_def holds_def)

lemma holds_move:
  "holds (move p x s) q f \<longleftrightarrow> (if q = p then (\<exists>ph. x = Inside f ph) \<or> x = Leaving f else holds s q f)"
  by (simp add: holds_def)

text \<open>A move that acquires nothing.\<close>

lemma lock_inv_move:
  assumes "lock_inv s" and "\<And>f. (\<exists>ph. x = Inside f ph) \<or> x = Leaving f \<Longrightarrow> holds s p f"
    and "\<And>f q g. x = Judged f \<or> x = Removing f \<Longrightarrow> holds s q g \<Longrightarrow> \<not> sameLock g f"
    and "\<And>f. x = Saw f \<or> x = Judged f \<or> x = Removing f \<Longrightarrow> f \<in> set (mc_used s)"
  shows "lock_inv (move p x s)"
proof -
  have h: "holds s q f" if "holds (move p x s) q f" for q f
    using that assms(2) by (auto simp: holds_move split: if_split_asm)
  have j: "\<not> sameLock g f" if "mc_pc (move p x s) q = Judged f \<or> mc_pc (move p x s) q = Removing f" "holds s r g" for q r f g
    using that assms(1,3) by (auto simp: lock_inv_def split: if_split_asm)
  have u: "f \<in> set (mc_used s)" if "mc_pc (move p x s) q = Saw f \<or> mc_pc (move p x s) q = Judged f \<or> mc_pc (move p x s) q = Removing f" for q f
    using that assms(1,4) by (auto simp: lock_inv_def split: if_split_asm)
  show ?thesis
  proof (rule lock_invI)
    fix q r f g assume "holds (move p x s) q f" "holds (move p x s) r g"
    then show "q = r" by (rule lock_inv_one [OF assms(1) h h])
  next
    fix q r f g assume "mc_pc (move p x s) q = Judged f \<or> mc_pc (move p x s) q = Removing f" "holds (move p x s) r g"
    then show "\<not> sameLock g f" by (rule j [OF _ h])
  next
    fix q f assume "mc_pc (move p x s) q = Saw f \<or> mc_pc (move p x s) q = Judged f \<or> mc_pc (move p x s) q = Removing f"
    then show "f \<in> set (mc_used (move p x s))" by (simp add: u)
  qed (use lock_inv_held [OF assms(1) h] lock_inv_file [OF assms(1)] in simp_all)
qed

text \<open>A lock file that nobody holds may go.\<close>

lemma lock_inv_unlock:
  assumes "lock_inv s" and "\<And>q g. \<not> holds s q g"
  shows "lock_inv (s\<lparr>mc_lock := None\<rparr>)"
proof (rule lock_invI)
  fix p f assume "mc_pc (s\<lparr>mc_lock := None\<rparr>) p = Saw f \<or> mc_pc (s\<lparr>mc_lock := None\<rparr>) p = Judged f \<or> mc_pc (s\<lparr>mc_lock := None\<rparr>) p = Removing f"
  then show "f \<in> set (mc_used (s\<lparr>mc_lock := None\<rparr>))" using lock_inv_used [OF assms(1)] by simp
qed (use assms(2) in \<open>simp_all add: holds_def\<close>)

lemma lock_inv_create:
  assumes "lock_inv s" and "mc_lock s = None" and "lf_mtime f = mc_clock s" and "lf_text f = lock_text (cn_host p) (cn_pid p)"
    and "\<forall>g \<in> set (mc_used s). \<not> sameLock f g"
  shows "lock_inv (move p (Inside f Entered) (s\<lparr>mc_lock := Some f, mc_used := f # mc_used s\<rparr>))" (is "lock_inv ?s")
proof -
  have none: "\<not> holds s q g" for q g using lock_inv_held [OF assms(1), of q g] assms(2) by auto
  have h: "q = p \<and> g = f" if "holds ?s q g" for q g
    using that none [of q g] by (auto simp: holds_def split: if_split_asm)
  show ?thesis
  proof (rule lock_invI)
    fix q g assume "holds ?s q g"
    from h [OF this] show "mc_lock ?s = Some g \<and> lf_text g = lock_text (cn_host q) (cn_pid q) \<and> mc_clock ?s - lf_mtime g \<le> LOCK_STALE_MS"
      by (simp add: assms(3,4) LOCK_STALE_MS_def)
  next
    fix q r g k assume "holds ?s q g" "holds ?s r k"
    then show "q = r" using h by blast
  next
    fix q r g k assume a: "mc_pc ?s q = Judged g \<or> mc_pc ?s q = Removing g" and "holds ?s r k"
    then have k: "k = f" using h by blast
    from a have "g \<in> set (mc_used s)" using lock_inv_used [OF assms(1), of q g] by (auto split: if_split_asm)
    with assms(5) k show "\<not> sameLock k g" by simp
  next
    fix q g assume "mc_pc ?s q = Saw g \<or> mc_pc ?s q = Judged g \<or> mc_pc ?s q = Removing g"
    then have "g \<in> set (mc_used s)" using lock_inv_used [OF assms(1), of q g] by (auto split: if_split_asm)
    then show "g \<in> set (mc_used ?s)" by simp
  qed simp
qed

lemma lock_inv_tick:
  assumes "lock_inv s" and "\<forall>p f. holds s p f \<longrightarrow> t - lf_mtime f \<le> LOCK_STALE_MS"
  shows "lock_inv (s\<lparr>mc_clock := t\<rparr>)"
proof -
  have h: "holds (s\<lparr>mc_clock := t\<rparr>) p f = holds s p f" for p f by (simp add: holds_def)
  show ?thesis
  proof (rule lock_invI)
    fix p q f g assume "holds (s\<lparr>mc_clock := t\<rparr>) p f" "holds (s\<lparr>mc_clock := t\<rparr>) q g"
    then show "p = q" unfolding h by (rule lock_inv_one [OF assms(1)])
  next
    fix p q f g assume "mc_pc (s\<lparr>mc_clock := t\<rparr>) p = Judged f \<or> mc_pc (s\<lparr>mc_clock := t\<rparr>) p = Removing f" "holds (s\<lparr>mc_clock := t\<rparr>) q g"
    then show "\<not> sameLock g f" using lock_inv_judged [OF assms(1)] by (simp add: h)
  next
    fix p f assume "mc_pc (s\<lparr>mc_clock := t\<rparr>) p = Saw f \<or> mc_pc (s\<lparr>mc_clock := t\<rparr>) p = Judged f \<or> mc_pc (s\<lparr>mc_clock := t\<rparr>) p = Removing f"
    then show "f \<in> set (mc_used (s\<lparr>mc_clock := t\<rparr>))" using lock_inv_used [OF assms(1)] by simp
  qed (use lock_inv_held [OF assms(1)] lock_inv_file [OF assms(1)] assms(2) in \<open>simp_all add: h\<close>)
qed

lemma holds_inside: "mc_pc s p = Inside f ph \<Longrightarrow> holds s p f"
  by (simp add: holds_def)

lemma lock_inv_inside:
  assumes "lock_inv s" and "mc_pc s p = Inside f ph"
  shows "lock_inv (move p (Inside f ph') s)"
  by (rule lock_inv_move [OF assms(1)]) (use holds_inside [OF assms(2)] in auto)

lemma lock_inv_free:
  assumes "lock_inv s" and "x \<in> {Outside, Trying, Looking, Ended}"
  shows "lock_inv (move p x s)"
  by (rule lock_inv_move [OF assms(1)]) (use assms(2) in auto)

theorem lock_inv_step: "lock_step True s s' \<Longrightarrow> lock_inv s \<Longrightarrow> lock_inv s'"
proof (induction rule: lock_step.induct)
  case (tick s t)
  then show ?case by (simp add: lock_inv_tick)
next
  case (create s p f)
  from lock_inv_create [OF create.prems create.hyps(2-5)] show ?case by simp
next
  case (look s p f)
  then show ?case by (auto intro!: lock_inv_move lock_inv_file)
next
  case (judge s p f)
  show ?case
    by (rule lock_inv_move [OF judge.prems])
      (use stale_not_held [OF judge.prems judge.hyps(2)] lock_inv_used [OF judge.prems] judge.hyps(1) in auto)
next
  case (check s p f)
  show ?case
  proof (rule lock_inv_move [OF check.prems])
    fix g q h assume "(if still_there s f then Removing f else Trying) = Judged g \<or> (if still_there s f then Removing f else Trying) = Removing g"
      and h: "holds s q h"
    then have "g = f" by (simp split: if_split_asm)
    with lock_inv_judged [OF check.prems _ h] check.hyps show "\<not> sameLock h g" by blast
  next
    fix g assume "(if still_there s f then Removing f else Trying) = Saw g \<or> (if still_there s f then Removing f else Trying) = Judged g \<or>
      (if still_there s f then Removing f else Trying) = Removing g"
    then have "g = f" by (simp split: if_split_asm)
    with lock_inv_used [OF check.prems] check.hyps show "g \<in> set (mc_used s)" by blast
  qed (simp split: if_split_asm)
next
  case (unlink s p f)
  have "\<not> holds s q g" for q g
  proof
    assume g: "holds s q g"
    from lock_inv_held [OF unlink.prems g] unlink.hyps(2) have "sameLock g f" by (auto simp: still_there_def)
    with lock_inv_judged [OF unlink.prems _ g] unlink.hyps(1) show False by blast
  qed
  from lock_inv_free [OF lock_inv_unlock [OF unlink.prems this], of Trying p] show ?case by simp
next
  case (leave s p f)
  show ?case
  proof (rule lock_inv_move [OF leave.prems])
    fix g assume "(\<exists>ph. (if still_there s f then Leaving f else Outside) = Inside g ph) \<or> (if still_there s f then Leaving f else Outside) = Leaving g"
    then have "g = f" by (auto split: if_split_asm)
    with holds_inside [OF leave.hyps] show "holds s p g" by simp
  qed (auto split: if_split_asm)
next
  case (release s p f)
  have p: "holds s p f" using release.hyps by (simp add: holds_def)
  have "lock_inv (move p Outside s)" by (rule lock_inv_free [OF release.prems]) simp
  moreover have "\<not> holds (move p Outside s) q g" for q g
    using lock_inv_one [OF release.prems p, of q g] by (auto simp: holds_move)
  ultimately have "lock_inv ((move p Outside s)\<lparr>mc_lock := None\<rparr>)" by (rule lock_inv_unlock)
  moreover have "(move p Outside s)\<lparr>mc_lock := None\<rparr> = move p Outside (s\<lparr>mc_lock := None\<rparr>)" by (cases s) simp
  ultimately show ?case by simp
next
  case (start s p)
  then show ?case by (simp add: lock_inv_free)
next
  case (busy s p)
  then show ?case by (simp add: lock_inv_free)
next
  case (gone s p)
  then show ?case by (simp add: lock_inv_free)
next
  case (wait s p f)
  then show ?case by (simp add: lock_inv_free)
next
  case (die s p)
  then show ?case by (simp add: lock_inv_free)
next
  case (decide s p f stale)
  then show ?case by (rule lock_inv_inside [rotated])
next
  case (present s p f t taken outcome)
  show ?case by (rule lock_inv_inside [of _ _ f "Sending t"]) (use present in simp_all)
next
  case (commit s p f outcome)
  show ?case by (rule lock_inv_inside [of _ _ f "Answered outcome"]) (use commit in simp_all)
next
  case (sign_in s p f n)
  show ?case by (rule lock_inv_inside [of _ _ f Entered]) (use sign_in in simp_all)
next
  case (sign_out s p f)
  show ?case by (rule lock_inv_inside [of _ _ f Entered]) (use sign_out in simp_all)
next
  case (abort s p f ph)
  show ?case by (rule lock_inv_inside [of _ _ f ph]) (use abort in simp_all)
qed

section \<open>The tokens: lemmas\<close>

text \<open>No token appears in the log after an entry of it that the provider took.\<close>

fun presented_once :: "(string \<times> bool) list \<Rightarrow> bool" where
  "presented_once [] = True"
| "presented_once ((t, taken) # l) = ((taken \<longrightarrow> t \<notin> fst ` set l) \<and> presented_once l)"

lemma presented_once_append: "presented_once (l @ [(t, b)]) \<longleftrightarrow> presented_once l \<and> (t, True) \<notin> set l"
  by (induction l rule: presented_once.induct) auto

definition token_inv :: "machine \<Rightarrow> bool" where
  "token_inv s =
     (fst ` set (mc_log s) \<subseteq> set (mc_issued s) \<and> set (token_list (mc_cred s)) \<subseteq> set (mc_issued s) \<and>
      (\<forall>t \<in> set (token_list (mc_cred s)). (t, True) \<in> set (mc_log s) \<longrightarrow> (\<exists>p f x. mc_pc s p = Inside f (Answered x) \<and> decisive x)) \<and>
      (\<forall>p f t. mc_pc s p = Inside f (Sending t) \<longrightarrow> t \<in> set (token_list (mc_cred s))) \<and>
      (\<forall>p f x. mc_pc s p = Inside f (Answered x) \<longrightarrow>
         (\<forall>t \<in> set (outcome_tokens x). t \<in> set (mc_issued s) \<and> (t, True) \<notin> set (mc_log s))) \<and>
      presented_once (mc_log s))"

lemma token_invI:
  assumes "fst ` set (mc_log s) \<subseteq> set (mc_issued s)" and "set (token_list (mc_cred s)) \<subseteq> set (mc_issued s)"
    and "\<And>t. t \<in> set (token_list (mc_cred s)) \<Longrightarrow> (t, True) \<in> set (mc_log s) \<Longrightarrow>
      \<exists>p f x. mc_pc s p = Inside f (Answered x) \<and> decisive x"
    and "\<And>p f t. mc_pc s p = Inside f (Sending t) \<Longrightarrow> t \<in> set (token_list (mc_cred s))"
    and "\<And>p f x t. mc_pc s p = Inside f (Answered x) \<Longrightarrow> t \<in> set (outcome_tokens x) \<Longrightarrow>
      t \<in> set (mc_issued s) \<and> (t, True) \<notin> set (mc_log s)"
    and "presented_once (mc_log s)"
  shows "token_inv s"
proof -
  have "\<forall>t \<in> set (token_list (mc_cred s)). (t, True) \<in> set (mc_log s) \<longrightarrow> (\<exists>p f x. mc_pc s p = Inside f (Answered x) \<and> decisive x)"
    using assms(3) by blast
  moreover have "\<forall>p f t. mc_pc s p = Inside f (Sending t) \<longrightarrow> t \<in> set (token_list (mc_cred s))" using assms(4) by blast
  moreover have "\<forall>p f x. mc_pc s p = Inside f (Answered x) \<longrightarrow>
      (\<forall>t \<in> set (outcome_tokens x). t \<in> set (mc_issued s) \<and> (t, True) \<notin> set (mc_log s))" using assms(5) by blast
  ultimately show ?thesis unfolding token_inv_def using assms(1,2,6) by (intro conjI)
qed

lemma token_inv_parts:
  assumes "token_inv s"
  shows "fst ` set (mc_log s) \<subseteq> set (mc_issued s)" and "set (token_list (mc_cred s)) \<subseteq> set (mc_issued s)"
    and "\<And>t. t \<in> set (token_list (mc_cred s)) \<Longrightarrow> (t, True) \<in> set (mc_log s) \<Longrightarrow>
      \<exists>p f x. mc_pc s p = Inside f (Answered x) \<and> decisive x"
    and "\<And>p f t. mc_pc s p = Inside f (Sending t) \<Longrightarrow> t \<in> set (token_list (mc_cred s))"
    and "\<And>p f x t. mc_pc s p = Inside f (Answered x) \<Longrightarrow> t \<in> set (outcome_tokens x) \<Longrightarrow>
      t \<in> set (mc_issued s) \<and> (t, True) \<notin> set (mc_log s)"
    and "presented_once (mc_log s)"
proof -
  note p = assms [unfolded token_inv_def]
  show "fst ` set (mc_log s) \<subseteq> set (mc_issued s)" by (rule p [THEN conjunct1])
  show "set (token_list (mc_cred s)) \<subseteq> set (mc_issued s)" by (rule p [THEN conjunct2, THEN conjunct1])
  show "\<And>t. t \<in> set (token_list (mc_cred s)) \<Longrightarrow> (t, True) \<in> set (mc_log s) \<Longrightarrow>
      \<exists>p f x. mc_pc s p = Inside f (Answered x) \<and> decisive x"
    by (rule p [THEN conjunct2, THEN conjunct2, THEN conjunct1, THEN bspec, THEN mp])
  show "\<And>p f t. mc_pc s p = Inside f (Sending t) \<Longrightarrow> t \<in> set (token_list (mc_cred s))"
    by (rule p [THEN conjunct2, THEN conjunct2, THEN conjunct2, THEN conjunct1, rule_format])
  show "\<And>p f x t. mc_pc s p = Inside f (Answered x) \<Longrightarrow> t \<in> set (outcome_tokens x) \<Longrightarrow>
      t \<in> set (mc_issued s) \<and> (t, True) \<notin> set (mc_log s)"
    by (rule p [THEN conjunct2, THEN conjunct2, THEN conjunct2, THEN conjunct2, THEN conjunct1, rule_format])
  show "presented_once (mc_log s)" using p by (elim conjE)
qed

lemma token_inv_frame [simp]:
  "token_inv (s\<lparr>mc_lock := l\<rparr>) = token_inv s" "token_inv (s\<lparr>mc_clock := t\<rparr>) = token_inv s" "token_inv (s\<lparr>mc_used := u\<rparr>) = token_inv s"
  by (simp_all add: token_inv_def)

text \<open>A move away from everywhere but an answer, to nowhere of interest.\<close>

lemma token_inv_move:
  assumes "token_inv s" and "\<And>f y. mc_pc s p \<noteq> Inside f (Answered y)"
    and "\<And>f y. x \<noteq> Inside f (Answered y)" and "\<And>f t. x = Inside f (Sending t) \<Longrightarrow> t \<in> set (token_list (mc_cred s))"
  shows "token_inv (move p x s)"
proof (rule token_invI)
  fix t assume "t \<in> set (token_list (mc_cred (move p x s)))" "(t, True) \<in> set (mc_log (move p x s))"
  then have "\<exists>q f y. mc_pc s q = Inside f (Answered y) \<and> decisive y" using token_inv_parts(3) [OF assms(1), of t] by simp
  then obtain q f y where q: "mc_pc s q = Inside f (Answered y)" "decisive y" by blast
  with assms(2) have "q \<noteq> p" by auto
  with q show "\<exists>q f y. mc_pc (move p x s) q = Inside f (Answered y) \<and> decisive y" by auto
next
  fix q f y t assume a: "mc_pc (move p x s) q = Inside f (Answered y)" and t: "t \<in> set (outcome_tokens y)"
  with assms(3) have "mc_pc s q = Inside f (Answered y)" by (auto split: if_split_asm)
  from token_inv_parts(5) [OF assms(1) this t] show "t \<in> set (mc_issued (move p x s)) \<and> (t, True) \<notin> set (mc_log (move p x s))" by simp
next
  fix q f t assume "mc_pc (move p x s) q = Inside f (Sending t)"
  then show "t \<in> set (token_list (mc_cred (move p x s)))"
    using token_inv_parts(4) [OF assms(1), of q f t] assms(4) by (auto split: if_split_asm)
qed (use token_inv_parts(1,2,6) [OF assms(1)] in simp_all)

text \<open>Only the holder of the lock is inside.\<close>

lemma inside_one: "lock_inv s \<Longrightarrow> mc_pc s p = Inside f ph \<Longrightarrow> mc_pc s q = Inside g ph' \<Longrightarrow> q = p"
  by (metis holds_inside lock_inv_one)

text \<open>The holder replaces the credential by one whose token has not been presented, or removes it, or leaves it.\<close>

lemma token_inv_store:
  assumes "token_inv s" and "lock_inv s" and "mc_pc s p = Inside f ph" and "x = Inside f Over"
    and "\<And>t. t \<in> set (token_list c) \<Longrightarrow> (t, True) \<notin> set (mc_log s) \<and> t \<in> set (new @ mc_issued s)"
  shows "token_inv (move p x (s\<lparr>mc_cred := c, mc_issued := new @ mc_issued s\<rparr>))"
proof (rule token_invI)
  fix q g t assume "mc_pc (move p x (s\<lparr>mc_cred := c, mc_issued := new @ mc_issued s\<rparr>)) q = Inside g (Sending t)"
  then have "q \<noteq> p" "mc_pc s q = Inside g (Sending t)" using assms(4) by (auto split: if_split_asm)
  with inside_one [OF assms(2,3)] show "t \<in> set (token_list (mc_cred (move p x (s\<lparr>mc_cred := c, mc_issued := new @ mc_issued s\<rparr>))))" by blast
next
  fix q g y t assume "mc_pc (move p x (s\<lparr>mc_cred := c, mc_issued := new @ mc_issued s\<rparr>)) q = Inside g (Answered y)"
  then have "q \<noteq> p" "mc_pc s q = Inside g (Answered y)" using assms(4) by (auto split: if_split_asm)
  with inside_one [OF assms(2,3)] show "t \<in> set (mc_issued (move p x (s\<lparr>mc_cred := c, mc_issued := new @ mc_issued s\<rparr>))) \<and>
    (t, True) \<notin> set (mc_log (move p x (s\<lparr>mc_cred := c, mc_issued := new @ mc_issued s\<rparr>)))" by blast
qed (use token_inv_parts(1,6) [OF assms(1)] assms(5) in auto)

lemma token_inv_store0:
  assumes "token_inv s" and "lock_inv s" and "mc_pc s p = Inside f ph"
    and "\<And>t. t \<in> set (token_list c) \<Longrightarrow> (t, True) \<notin> set (mc_log s) \<and> t \<in> set (mc_issued s)"
  shows "token_inv (move p (Inside f Over) (s\<lparr>mc_cred := c\<rparr>))"
proof -
  have "s\<lparr>mc_cred := c, mc_issued := [] @ mc_issued s\<rparr> = s\<lparr>mc_cred := c\<rparr>" by (cases s) simp
  with token_inv_store [OF assms(1-3) refl, of c "[]"] assms(4) show ?thesis by simp
qed

lemma decision_present: "refresh_decision stale c = Present t \<Longrightarrow> t \<in> set (token_list c)"
  by (auto simp: refresh_decision_def token_list_def split: option.split_asm if_split_asm)

lemma kept_tokens: "t \<in> set (token_list (kept_after x c)) \<Longrightarrow> t \<in> set (outcome_tokens x) \<or> \<not> decisive x \<and> t \<in> set (token_list c)"
  by (auto simp: kept_after_def decisive_def outcome_tokens_def token_list_def split: sum.split_asm cli_error.split_asm)

lemma token_inv_commit:
  assumes "token_inv s" and "lock_inv s" and "mc_pc s p = Inside f (Answered x)"
  shows "token_inv (move p (Inside f Over) (s\<lparr>mc_cred := kept_after x (mc_cred s)\<rparr>))"
proof (rule token_inv_store0 [OF assms])
  fix t assume "t \<in> set (token_list (kept_after x (mc_cred s)))"
  then consider "t \<in> set (outcome_tokens x)" | "\<not> decisive x" "t \<in> set (token_list (mc_cred s))" using kept_tokens by blast
  then show "(t, True) \<notin> set (mc_log s) \<and> t \<in> set (mc_issued s)"
  proof cases
    case 1
    with token_inv_parts(5) [OF assms(1,3)] show ?thesis by blast
  next
    case 2
    have "(t, True) \<notin> set (mc_log s)"
    proof
      assume "(t, True) \<in> set (mc_log s)"
      from token_inv_parts(3) [OF assms(1) 2(2) this] obtain q g y where "mc_pc s q = Inside g (Answered y)" "decisive y" by blast
      with inside_one [OF assms(2,3)] assms(3) 2(1) show False by fastforce
    qed
    with token_inv_parts(2) [OF assms(1)] 2(2) show ?thesis by blast
  qed
qed

lemma token_inv_present:
  assumes "token_inv s" and "lock_inv s" and "mc_pc s p = Inside f (Sending t)" and "taken \<Longrightarrow> decisive x"
    and "\<forall>n. x = Inr n \<longrightarrow> (\<exists>t'. cr_refreshToken n = Some t' \<and> t' \<notin> set (mc_issued s))"
  shows "token_inv (move p (Inside f (Answered x)) (s\<lparr>mc_log := mc_log s @ [(t, taken)], mc_issued := outcome_tokens x @ mc_issued s\<rparr>))"
    (is "token_inv ?s")
proof -
  note parts = token_inv_parts [OF assms(1)]
  have stored: "t \<in> set (token_list (mc_cred s))" by (rule parts(4) [OF assms(3)])
  then have issued: "t \<in> set (mc_issued s)" using parts(2) by blast
  have only: "q = p" if "mc_pc s q = Inside g ph" for q g ph by (rule inside_one [OF assms(2,3) that])
  have no: "(t', True) \<notin> set (mc_log s)" if "t' \<in> set (token_list (mc_cred s))" for t'
    using parts(3) [OF that] only assms(3) by fastforce
  show ?thesis
  proof (rule token_invI)
    fix t' assume "t' \<in> set (token_list (mc_cred ?s))" "(t', True) \<in> set (mc_log ?s)"
    with no have "taken" by auto
    then show "\<exists>q g y. mc_pc ?s q = Inside g (Answered y) \<and> decisive y" using assms(4) by auto
  next
    fix q g t' assume "mc_pc ?s q = Inside g (Sending t')"
    then show "t' \<in> set (token_list (mc_cred ?s))" using only by (auto split: if_split_asm)
  next
    fix q g y t' assume "mc_pc ?s q = Inside g (Answered y)" and t': "t' \<in> set (outcome_tokens y)"
    then have "y = x" using only by (auto split: if_split_asm)
    with t' assms(5) have "t' \<in> set (outcome_tokens x)" "t' \<notin> set (mc_issued s)"
      by (auto simp: outcome_tokens_def token_list_def split: sum.split_asm)
    with parts(1) issued show "t' \<in> set (mc_issued ?s) \<and> (t', True) \<notin> set (mc_log ?s)" by force
  next
    show "presented_once (mc_log ?s)" using parts(6) no [OF stored] by (simp add: presented_once_append)
  qed (use parts(1,2) issued in auto)
qed

theorem token_inv_step: "lock_step True s s' \<Longrightarrow> lock_inv s \<Longrightarrow> token_inv s \<Longrightarrow> token_inv s'"
proof (induction rule: lock_step.induct)
  case (tick s t)
  then show ?case by simp
next
  case (decide s p f stale)
  then show ?case by (intro token_inv_move) (auto split: decision.split_asm intro: decision_present)
next
  case (present s p f t taken outcome)
  from present.hyps present.prems
  have "token_inv (move p (Inside f (Answered outcome)) (s\<lparr>mc_log := mc_log s @ [(t, taken)], mc_issued := outcome_tokens outcome @ mc_issued s\<rparr>))"
    by (intro token_inv_present) simp_all
  then show ?case .
next
  case (commit s p f outcome)
  then show ?case by (intro token_inv_commit)
next
  case (sign_in s p f n)
  have "token_inv (move p (Inside f Over) (s\<lparr>mc_cred := Some n, mc_issued := token_list (Some n) @ mc_issued s\<rparr>))"
  proof (rule token_inv_store [OF sign_in.prems(2,1) sign_in.hyps(1) refl])
    fix t assume "t \<in> set (token_list (Some n))"
    with sign_in.hyps(2) token_inv_parts(1) [OF sign_in.prems(2)]
    show "(t, True) \<notin> set (mc_log s) \<and> t \<in> set (token_list (Some n) @ mc_issued s)" by force
  qed
  then show ?case .
next
  case (sign_out s p f)
  then show ?case by (intro token_inv_store0) (simp_all add: token_list_def)
next
  case (create s p f)
  show ?case by (rule token_inv_move) (use create in auto)
next
  case (unlink s p f)
  show ?case by (rule token_inv_move) (use unlink in auto)
next
  case (release s p f)
  show ?case by (rule token_inv_move) (use release in auto)
next
  case (abort s p f ph)
  show ?case by (rule token_inv_move) (use abort in auto)
next
  case (check s p f)
  show ?case by (rule token_inv_move) (use check in \<open>auto split: if_split_asm\<close>)
next
  case (leave s p f)
  show ?case by (rule token_inv_move) (use leave in \<open>auto split: if_split_asm\<close>)
qed (auto intro: token_inv_move)

lemma lock_run_inv: "lock_run True s s' \<Longrightarrow> lock_inv s \<Longrightarrow> token_inv s \<Longrightarrow> lock_inv s' \<and> token_inv s'"
  by (induction rule: lock_run.induct) (auto intro: lock_inv_step token_inv_step)

lemma start_inv: "lock_start s \<Longrightarrow> lock_inv s \<and> token_inv s"
proof -
  assume s: "lock_start s"
  then have out: "mc_pc s p = Outside \<or> mc_pc s p = Ended" for p by (simp add: lock_start_def)
  have none: "\<not> holds s p f" for p f using out [of p] by (auto simp: holds_def)
  have "lock_inv s"
  proof (rule lock_invI)
    fix p f assume "mc_pc s p = Saw f \<or> mc_pc s p = Judged f \<or> mc_pc s p = Removing f"
    with out [of p] show "f \<in> set (mc_used s)" by auto
  qed (use s none in \<open>simp_all add: lock_start_def\<close>)
  moreover have "token_inv s"
  proof (rule token_invI)
    fix p f t assume "mc_pc s p = Inside f (Sending t)"
    with out [of p] show "t \<in> set (token_list (mc_cred s))" by auto
  next
    fix p f x t assume "mc_pc s p = Inside f (Answered x)"
    with out [of p] show "t \<in> set (mc_issued s) \<and> (t, True) \<notin> set (mc_log s)" by auto
  qed (use s in \<open>simp_all add: lock_start_def\<close>)
  ultimately show ?thesis ..
qed

text \<open>The write that the model of the lock makes in one step is the one of session.ts.\<close>

lemma after_refresh_kept:
  assumes "readCredentials fs issuer = Inr stored" and "\<And>n. outcome = Inr n \<Longrightarrow> cr_issuer n = issuer"
    and "after_refresh None issuer outcome fs = (r, fs')"
  shows "readCredentials fs' issuer = Inr (kept_after outcome stored) \<and> r = outcome"
proof -
  have w: "\<exists>fs2. writeCredentials None n fs = (Inr (), fs2)" for n
    using assms(1) by (auto simp: writeCredentials_def readCredentials_def writeStore_def split: sum.split_asm)
  have dl: "\<exists>fs2. deleteCredentials None issuer fs = (Inr (), fs2)"
    using assms(1) by (auto simp: deleteCredentials_def readCredentials_def writeStore_def split: sum.split_asm)
  show ?thesis
  proof (cases outcome)
    case (Inr n)
    from w [of n] obtain fs2 where f: "writeCredentials None n fs = (Inr (), fs2)" by blast
    with assms(3) Inr have "fs' = fs2" "r = outcome" by (simp_all add: after_refresh_def)
    with stored_credential_roundtrip [of None n fs "()" fs2] f assms(2) Inr show ?thesis by (simp add: kept_after_def)
  next
    case (Inl e)
    show ?thesis
    proof (cases "\<exists>why. e = SignInAgain why")
      case True
      then obtain why where e: "e = SignInAgain why" ..
      from dl obtain fs2 where f: "deleteCredentials None issuer fs = (Inr (), fs2)" by blast
      with assms(3) Inl e have "fs' = fs2" "r = outcome" by (simp_all add: after_refresh_def)
      with stored_credential_roundtrip [of None _ fs "()" fs2 issuer] f Inl e show ?thesis by (simp add: kept_after_def)
    next
      case False
      then have "after_refresh None issuer (Inl e) fs = (Inl e, fs)" "kept_after (Inl e) stored = stored"
        by (cases e; simp add: after_refresh_def kept_after_def)+
      with assms(1,3) Inl show ?thesis by simp
    qed
  qed
qed

text \<open>
  An answer of success without a usable token has spent the refresh token, and the credential is kept all the same: the
  next refresh presents it again.
\<close>

lemma malformed_answer_keeps_spent_token:
  "refresh_outcome issuer resource t (200, Obj []) now = Inl NoAccessToken \<and>
   after_refresh fails issuer (Inl NoAccessToken) fs = (Inl NoAccessToken, fs)"
  by (simp add: refresh_outcome_def toCredential_def after_refresh_def)

section \<open>Properties\<close>


definition demo_cred :: "string \<Rightarrow> cred" where
  "demo_cred t = \<lparr>cr_issuer = ''https://i'', cr_resource = ''r'', cr_scope = [], cr_accessToken = ''a'', cr_accessExpiresAt = Fin 0,
     cr_refreshToken = Some t, cr_obtainedAt = 0\<rparr>"

definition demo_machine :: machine where
  "demo_machine = \<lparr>mc_lock = None, mc_clock = 0, mc_used = [], mc_pc = (\<lambda>p. Outside), mc_cred = Some (demo_cred ''r1''), mc_log = [],
     mc_issued = [''r1'']\<rparr>"

lemma demo_lock_run: "\<exists>s. lock_run True demo_machine s \<and> mc_log s = [(''r1'', True)] \<and> holds s (Client ''h'' 7) \<lparr>lf_ino = 1, lf_mtime = 0, lf_text = lock_text ''h'' 7\<rparr>"
proof -
  let ?p = "Client ''h'' 7" and ?f = "\<lparr>lf_ino = 1, lf_mtime = 0, lf_text = lock_text ''h'' 7\<rparr>" and ?s = demo_machine
  let ?s1 = "move ?p Trying ?s"
  let ?s2 = "move ?p (Inside ?f Entered) (?s1\<lparr>mc_lock := Some ?f, mc_used := ?f # mc_used ?s1\<rparr>)"
  let ?s3 = "move ?p (Inside ?f (Sending ''r1'')) ?s2"
  let ?x = "Inr (demo_cred ''r2'') :: cli_error + cred"
  let ?s4 = "move ?p (Inside ?f (Answered ?x)) (?s3\<lparr>mc_log := mc_log ?s3 @ [(''r1'', True)], mc_issued := outcome_tokens ?x @ mc_issued ?s3\<rparr>)"
  have d: "refresh_decision (demo_cred ''r1'') (mc_cred ?s2) = Present ''r1''"
    by (simp add: refresh_decision_def demo_machine_def demo_cred_def)
  have a: "lock_step True ?s ?s1" by (rule lock_step.start) (simp add: demo_machine_def)
  have b: "lock_step True ?s1 ?s2" by (rule lock_step.create) (simp_all add: demo_machine_def)
  have c: "lock_step True ?s2 ?s3"
  proof -
    have "lock_step True ?s2 (move ?p (Inside ?f (case refresh_decision (demo_cred ''r1'') (mc_cred ?s2) of Present t \<Rightarrow> Sending t | _ \<Rightarrow> Over)) ?s2)"
      by (rule lock_step.decide) simp
    then show ?thesis by (simp only: d decision.case)
  qed
  have e: "lock_step True ?s3 ?s4" by (rule lock_step.present) (simp_all add: decisive_def demo_cred_def demo_machine_def)
  have "lock_run True ?s ?s4" by (rule lock_run.more [OF lock_run.more [OF lock_run.more [OF lock_run.more [OF lock_run.none a] b] c] e])
  moreover have "mc_log ?s4 = [(''r1'', True)]" by (simp add: demo_machine_def)
  moreover have "holds ?s4 ?p ?f" by (simp add: holds_def)
  ultimately show ?thesis by blast
qed


end
