(* ===== verification/Cli.thy ===== *)
theory Cli
  imports CliStore
begin

text \<open>
  The command line client of the admin API (apps/cli/src/client.ts, commands.ts): a call with its bearer and its
  refresh, the commands and the requests they become, signing in and out, the exit code. The argument parser and the
  JSON codec of the runtime, the texts of HTTP status codes, the resolution of a relative link and the file of
  \<open>--file\<close> are fields of \<open>mm_deps\<close>.
\<close>

section \<open>A call (client.ts)\<close>

definition REFRESH_MARGIN_MS :: rat where
  "REFRESH_MARGIN_MS = 30000"

datatype http_method = GET | POST | PUT | DELETE

record api_request =
  ap_method :: http_method
  ap_path :: string
  ap_query :: "(string \<times> string) list"
  ap_body :: "js option"

text \<open>What \<open>fetch\<close> is given, with the headers; a redirect is not followed.\<close>

record api_send =
  as_base :: string
  as_request :: api_request
  as_headers :: "(string \<times> string) list"

text \<open>The body of a reply is null where it is empty or not JSON.\<close>

record api_reply =
  re_status :: int
  re_body :: js
  re_retryAfter :: "string option"
  re_link :: "string option"

record api_ok =
  ao_status :: int
  ao_body :: js
  ao_next :: "string option"

text \<open>Where the access token comes from, and how it is replaced; the time; a transport failure has its error code, if any.\<close>

record 'w api_session =
  se_current :: "'w \<Rightarrow> cli_error + cred"
  se_refresh :: "cred \<Rightarrow> 'w \<Rightarrow> (cli_error + cred) \<times> 'w"

record 'w api_net =
  an_fetch :: "api_send \<Rightarrow> 'w \<Rightarrow> (string option + api_reply) \<times> 'w"
  an_now :: "'w \<Rightarrow> int"
  an_reason :: "int \<Rightarrow> string option"
  an_show :: "js \<Rightarrow> string"
  an_cursor :: "string \<Rightarrow> string \<Rightarrow> string option option"

definition date_like :: "string \<Rightarrow> bool" where
  "date_like s =
     list_all2 (\<lambda>p c. if p = CHR ''a'' then is_upper c \<or> is_lower c else if p = CHR ''0'' then is_digit c else c = p)
       ''aaa, 00 aaa 0000 00:00:00 GMT'' s"

definition retryAfterText :: "string option \<Rightarrow> string option" where
  "retryAfterText v =
     (case v of
        None \<Rightarrow> None
      | Some s \<Rightarrow>
          if s = [] then None
          else if length s \<le> 9 \<and> list_all is_digit s then Some (s @ '' seconds'')
          else if date_like s then Some s else None)"

definition error_line :: "(js \<Rightarrow> string) \<Rightarrow> js \<Rightarrow> string" where
  "error_line sh e =
     ''  '' @ (case as_str (getp e ''path'') of None \<Rightarrow> ''(body)'' | Some p \<Rightarrow> if p = [] then ''(body)'' else p) @ '': '' @
     (case getp e ''message'' of Str s \<Rightarrow> s | Undef \<Rightarrow> ''undefined'' | x \<Rightarrow> sh x)"

definition formatProblem :: "(int \<Rightarrow> string option) \<Rightarrow> (js \<Rightarrow> string) \<Rightarrow> int \<Rightarrow> js \<Rightarrow> string option \<Rightarrow> string" where
  "formatProblem reason sh status problem retryAfter =
     (let title = (case as_str (getp problem ''title'') of Some t \<Rightarrow> t
             | None \<Rightarrow> (case reason status of Some r \<Rightarrow> r | None \<Rightarrow> ''Error''));
          head = int_str status @ '' '' @ title @ (case as_str (getp problem ''detail'') of None \<Rightarrow> [] | Some d \<Rightarrow> '': '' @ d)
      in join_on [CHR 0x0A]
        ([head] @
         (case as_str (getp problem ''capability'') of None \<Rightarrow> []
          | Some c \<Rightarrow> [''  capability: '' @ c @ '' (sign in again with it in --scope)'']) @
         (case as_arr (getp problem ''errors'') of None \<Rightarrow> [] | Some es \<Rightarrow> map (error_line sh) es) @
         (case retryAfterText retryAfter of None \<Rightarrow> [] | Some t \<Rightarrow> [''  retry after: '' @ t])))"

text \<open>\<open>/^\s*<([^>]*)>\s*;\s*rel="?next"?\s*$/\<close>: the target.\<close>

definition drop_quote :: "string \<Rightarrow> string" where
  "drop_quote s = (case s of c # cs \<Rightarrow> if c = CHR 0x22 then cs else s | [] \<Rightarrow> [])"

definition next_link :: "string \<Rightarrow> string option" where
  "next_link part =
     (case dropWhile white part of
        c # s \<Rightarrow>
          if c \<noteq> CHR ''<'' then None
          else (let target = takeWhile (\<lambda>x. x \<noteq> CHR ''>'') s;
                    after = dropWhile white (drop (Suc (length target)) s);
                    rel = dropWhile white (tl after);
                    val = drop_quote (drop 4 rel) in
            if length target < length s \<and> after \<noteq> [] \<and> hd after = CHR '';'' \<and> take 4 rel = ''rel='' \<and> take 4 val = ''next'' \<and>
               list_all white (drop_quote (drop 4 val)) then Some target else None)
      | [] \<Rightarrow> None)"

text \<open>The cursor of the next page; \<open>None\<close> where the target is not a URL.\<close>

definition nextCursor :: "(string \<Rightarrow> string \<Rightarrow> string option option) \<Rightarrow> string option \<Rightarrow> string \<Rightarrow> string option option" where
  "nextCursor cursor_of link base =
     (case link of
        None \<Rightarrow> Some None
      | Some l \<Rightarrow> (case List.map_filter next_link (split_on CHR '','' l) of [] \<Rightarrow> Some None | t # ts \<Rightarrow> cursor_of t base))"

definition api_headers :: "cred \<Rightarrow> api_request \<Rightarrow> (string \<times> string) list" where
  "api_headers c req =
     [(''authorization'', ''Bearer '' @ cr_accessToken c), (''accept'', ''application/json'')] @
     (case ap_body req of None \<Rightarrow> [] | Some b \<Rightarrow> [(''content-type'', ''application/json'')])"

definition network_code :: "string option \<Rightarrow> string" where
  "network_code c =
     (case c of
        None \<Rightarrow> []
      | Some s \<Rightarrow> if s \<noteq> [] \<and> list_all (\<lambda>x. is_upper x \<or> is_digit x \<or> x = CHR ''_'') s then '': '' @ s else [])"

definition api_send_as :: "('w, 'z) api_net_scheme \<Rightarrow> string \<Rightarrow> api_request \<Rightarrow> cred \<Rightarrow> 'w \<Rightarrow> (cli_error + api_reply) \<times> 'w" where
  "api_send_as n consoleUrl req c w =
     (case an_fetch n \<lparr>as_base = consoleUrl, as_request = req, as_headers = api_headers c req\<rparr> w of
        (Inl e, w') \<Rightarrow> (Inl (ApiUnsent (consoleUrl @ network_code e)), w')
      | (Inr r, w') \<Rightarrow> (Inr r, w'))"

fun expires_within :: "jnum \<Rightarrow> int \<Rightarrow> rat \<Rightarrow> bool" where
  "expires_within (Fin x) now margin = (x - of_int now \<le> margin)"
| "expires_within NegInf now margin = True"
| "expires_within _ now margin = False"

fun signInAgain :: "cli_error \<Rightarrow> bool" where
  "signInAgain (SignInAgain why) = True"
| "signInAgain _ = False"

datatype early = NotTried cred | Renewed cred | EarlyFailed cli_error cred

text \<open>The refresh before anything is sent.\<close>

definition refresh_early :: "('w, 'z) api_net_scheme \<Rightarrow> 'w api_session \<Rightarrow> cred \<Rightarrow> 'w \<Rightarrow> (cli_error + early) \<times> 'w" where
  "refresh_early n ses c w =
     (if cr_refreshToken c \<noteq> None \<and> expires_within (cr_accessExpiresAt c) (an_now n w) REFRESH_MARGIN_MS
      then (case se_refresh ses c w of
          (Inr c', w1) \<Rightarrow> (Inr (Renewed c'), w1)
        | (Inl e, w1) \<Rightarrow>
            if signInAgain e \<or> expires_within (cr_accessExpiresAt c) (an_now n w1) 0 then (Inl e, w1)
            else (Inr (EarlyFailed e c), w1))
      else (Inr (NotTried c), w))"

definition api_answer :: "('w, 'z) api_net_scheme \<Rightarrow> string \<Rightarrow> api_reply \<Rightarrow> cli_error + api_ok" where
  "api_answer n consoleUrl r =
     (if 300 \<le> re_status r \<and> re_status r < 400 then Inl (ApiRedirect (re_status r))
      else if \<not> (200 \<le> re_status r \<and> re_status r < 300) then
        Inl (ApiProblem (re_status r) (formatProblem (an_reason n) (an_show n) (re_status r) (re_body r) (re_retryAfter r)))
      else (case nextCursor (an_cursor n) (re_link r) consoleUrl of
          None \<Rightarrow> Inl (NotAUrl ''link'' consoleUrl)
        | Some cur \<Rightarrow> Inr \<lparr>ao_status = re_status r, ao_body = re_body r, ao_next = cur\<rparr>))"

definition api_sent :: "('w, 'z) api_net_scheme \<Rightarrow> string \<Rightarrow> (cli_error + api_reply) \<times> 'w \<Rightarrow> (cli_error + api_ok) \<times> 'w" where
  "api_sent n consoleUrl x = (case x of (Inl e, w) \<Rightarrow> (Inl e, w) | (Inr r, w) \<Rightarrow> (api_answer n consoleUrl r, w))"

definition callApi :: "('w, 'z) api_net_scheme \<Rightarrow> string \<Rightarrow> 'w api_session \<Rightarrow> api_request \<Rightarrow> 'w \<Rightarrow> (cli_error + api_ok) \<times> 'w" where
  "callApi n consoleUrl ses req w =
     (case se_current ses w of
        Inl e \<Rightarrow> (Inl e, w)
      | Inr c0 \<Rightarrow>
          (case refresh_early n ses c0 w of
             (Inl e, w1) \<Rightarrow> (Inl e, w1)
           | (Inr (Renewed c), w1) \<Rightarrow> api_sent n consoleUrl (api_send_as n consoleUrl req c w1)
           | (Inr (EarlyFailed e c), w1) \<Rightarrow>
               (case api_send_as n consoleUrl req c w1 of
                  (Inl e', w2) \<Rightarrow> (Inl e', w2)
                | (Inr r, w2) \<Rightarrow> if re_status r = 401 then (Inl e, w2) else (api_answer n consoleUrl r, w2))
           | (Inr (NotTried c), w1) \<Rightarrow>
               (case api_send_as n consoleUrl req c w1 of
                  (Inl e', w2) \<Rightarrow> (Inl e', w2)
                | (Inr r, w2) \<Rightarrow>
                    if re_status r \<noteq> 401 then (api_answer n consoleUrl r, w2)
                    else (case se_refresh ses c w2 of
                        (Inl e', w3) \<Rightarrow> (Inl e', w3)
                      | (Inr c', w3) \<Rightarrow> api_sent n consoleUrl (api_send_as n consoleUrl req c' w3)))))"

section \<open>The commands (commands.ts)\<close>

record query_param =
  qp_name :: string
  qp_required :: bool

datatype body_spec = NoBody | JsonBody | FieldBody string string

record command_spec =
  cs_group :: string
  cs_action :: string
  cs_method :: http_method
  cs_path :: string
  cs_query :: "query_param list"
  cs_body :: body_spec

definition opt :: "string list \<Rightarrow> query_param list" where
  "opt names = map (\<lambda>n. \<lparr>qp_name = n, qp_required = False\<rparr>) names"

definition req :: "string list \<Rightarrow> query_param list" where
  "req names = map (\<lambda>n. \<lparr>qp_name = n, qp_required = True\<rparr>) names"

definition PAGE :: "query_param list" where
  "PAGE = opt [''limit'', ''cursor'']"

definition cmd :: "string \<Rightarrow> string \<Rightarrow> http_method \<Rightarrow> string \<Rightarrow> query_param list \<Rightarrow> body_spec \<Rightarrow> command_spec" where
  "cmd g a m p q b = \<lparr>cs_group = g, cs_action = a, cs_method = m, cs_path = p, cs_query = q, cs_body = b\<rparr>"

definition COMMANDS :: "command_spec list" where
  "COMMANDS = [
     cmd ''flocks'' ''list'' GET ''/flocks'' PAGE NoBody,
     cmd ''flocks'' ''get'' GET ''/flocks/{id}'' [] NoBody,
     cmd ''flocks'' ''create'' POST ''/flocks'' [] JsonBody,
     cmd ''flocks'' ''replace'' PUT ''/flocks/{id}'' [] JsonBody,
     cmd ''flocks'' ''delete'' DELETE ''/flocks/{id}'' [] NoBody,
     cmd ''paddocks'' ''list'' GET ''/paddocks'' PAGE NoBody,
     cmd ''paddocks'' ''get'' GET ''/paddocks/{id}'' [] NoBody,
     cmd ''paddocks'' ''create'' POST ''/paddocks'' [] JsonBody,
     cmd ''paddocks'' ''replace'' PUT ''/paddocks/{id}'' [] JsonBody,
     cmd ''paddocks'' ''delete'' DELETE ''/paddocks/{id}'' [] NoBody,
     cmd ''paddocks'' ''status'' PUT ''/paddocks/{id}/status'' [] (FieldBody ''status'' ''active|disabled''),
     cmd ''fence'' ''get'' GET ''/paddocks/{id}/fence'' [] NoBody,
     cmd ''fence'' ''set'' PUT ''/paddocks/{id}/fence'' [] JsonBody,
     cmd ''templates'' ''list'' GET ''/paddocks/{id}/templates'' [] NoBody,
     cmd ''templates'' ''add'' POST ''/paddocks/{id}/templates'' [] JsonBody,
     cmd ''templates'' ''replace'' PUT ''/paddocks/{id}/templates/{tid}'' [] JsonBody,
     cmd ''templates'' ''remove'' DELETE ''/paddocks/{id}/templates/{tid}'' [] NoBody,
     cmd ''keys'' ''list'' GET ''/keys'' PAGE NoBody,
     cmd ''keys'' ''create'' POST ''/keys'' [] JsonBody,
     cmd ''keys'' ''revoke'' POST ''/keys/{id}/revoke'' [] NoBody,
     cmd ''usage'' ''matrix'' GET ''/usage/matrix'' (req [''startBucket'', ''endBucket''] @ opt [''keyId'', ''paddockId'']) NoBody,
     cmd ''usage'' ''daily'' GET ''/usage/daily'' (req [''dim'', ''startBucket'', ''endBucket''] @ opt [''keyId'', ''paddockId'']) NoBody,
     cmd ''usage'' ''top-keys'' GET ''/usage/top-keys'' (req [''dim'', ''startBucket'', ''endBucket''] @ opt [''limit'']) NoBody]"

definition kebab :: "string \<Rightarrow> string" where
  "kebab name = concat (map (\<lambda>c. if is_upper c then [CHR ''-'', lower_char c] else [c]) name)"

definition QUERY_FLAGS :: "string list" where
  "QUERY_FLAGS = map kebab (uniq (concat (map (\<lambda>c. map qp_name (cs_query c)) COMMANDS)))"

text \<open>The flags, and which take a text.\<close>

definition OPTIONS :: "(string \<times> bool) list" where
  "OPTIONS = [(''issuer'', True), (''console'', True), (''scope'', True), (''data'', True), (''file'', True), (''help'', False),
     (''allow-insecure-http'', False)] @ map (\<lambda>f. (f, True)) QUERY_FLAGS"

text \<open>A flag's value is a text, or a switch that is set.\<close>

datatype flag_value = FlagText string | FlagOn

type_synonym flag_values = "(string \<times> flag_value) list"

definition text_flag :: "flag_values \<Rightarrow> string \<Rightarrow> string option" where
  "text_flag vs k = (case map_of vs k of Some (FlagText s) \<Rightarrow> Some s | _ \<Rightarrow> None)"

text \<open>Exit 2, or a failure of the run.\<close>

datatype cmd_error = UsageError string | ConfigError cli_error | RunError cli_error

datatype out = Out string | Err string

definition arg_label :: "command_spec \<Rightarrow> string \<Rightarrow> string" where
  "arg_label spec param =
     (if param = ''tid'' then ''<template-id>''
      else if cs_group spec = ''fence'' \<or> cs_group spec = ''templates'' then ''<paddock-id>''
      else ''<'' @ param @ ''>'')"

definition word_char :: "char \<Rightarrow> bool" where
  "word_char c = (is_upper c \<or> is_lower c \<or> is_digit c \<or> c = CHR ''_'')"

text \<open>The matches of \<open>/\{(\w+)\}/g\<close>.\<close>

fun pathParams :: "string \<Rightarrow> string list" where
  "pathParams [] = []"
| "pathParams (c # s) =
     (if c = CHR ''{'' \<and> takeWhile word_char s \<noteq> [] \<and> take 1 (dropWhile word_char s) = ''}''
      then takeWhile word_char s # pathParams s else pathParams s)"

definition usageLine :: "command_spec \<Rightarrow> string" where
  "usageLine spec =
     join_on '' '' ([''mm '' @ cs_group spec @ '' '' @ cs_action spec] @ map (arg_label spec) (pathParams (cs_path spec)) @
       (case cs_body spec of NoBody \<Rightarrow> [] | JsonBody \<Rightarrow> [''(--data JSON | --file PATH)''] | FieldBody f vs \<Rightarrow> [''<'' @ vs @ ''>'']) @
       map (\<lambda>q. if qp_required q then ''--'' @ kebab (qp_name q) @ '' VALUE'' else ''[--'' @ kebab (qp_name q) @ '' VALUE]'') (cs_query spec))"

definition unknownCommand :: "string option \<Rightarrow> string option \<Rightarrow> cmd_error" where
  "unknownCommand grp action =
     (if grp = Some ''keys'' \<and> action = Some ''delete'' then UsageError ''keys are revoked, never deleted''
      else UsageError (''unknown command '' @ join_on '' '' (filter (\<lambda>s. s \<noteq> []) (List.map_filter id [grp, action]))))"

definition GLOBAL_FLAGS :: "string list" where
  "GLOBAL_FLAGS = [''help'', ''allow-insecure-http'']"

definition allowOnly :: "flag_values \<Rightarrow> string list \<Rightarrow> string \<Rightarrow> cmd_error + unit" where
  "allowOnly vs allowed command =
     (case find (\<lambda>(k, v). k \<notin> set GLOBAL_FLAGS \<and> k \<notin> set allowed) vs of
        None \<Rightarrow> Inr ()
      | Some (k, v) \<Rightarrow> Inl (UsageError (''--'' @ k @ '' does not apply to '' @ command)))"

definition config :: "cli_error + 'a \<Rightarrow> cmd_error + 'a" where
  "config x = (case x of Inl e \<Rightarrow> Inl (ConfigError e) | Inr y \<Rightarrow> Inr y)"

text \<open>What the run is given: the environment, standard input, files, the parser and the printer of JSON.\<close>

record 'w mm_deps = "'w cli_deps" +
  mm_net :: "'w api_net"
  mm_env :: env
  mm_stdin :: string
  mm_file :: "string \<Rightarrow> string option"
  mm_json :: "string \<Rightarrow> js option"
  mm_print :: "js \<Rightarrow> string"
  mm_args :: "(string \<times> bool) list \<Rightarrow> string list \<Rightarrow> string + flag_values \<times> string list"

definition readJsonBody :: "('w, 'z) mm_deps_scheme \<Rightarrow> flag_values \<Rightarrow> string \<Rightarrow> cmd_error + js" where
  "readJsonBody d vs command =
     (let parse = (\<lambda>t src. case mm_json d t of None \<Rightarrow> Inl (UsageError (src @ '' is not valid JSON'')) | Some v \<Rightarrow> Inr v) in
      case (text_flag vs ''data'', text_flag vs ''file'') of
        (Some t, None) \<Rightarrow> parse t ''--data''
      | (None, Some f) \<Rightarrow>
          if f = ''-'' then parse (mm_stdin d) ''stdin''
          else (case mm_file d f of None \<Rightarrow> Inl (UsageError (''cannot read --file '' @ f)) | Some t \<Rightarrow> parse t f)
      | _ \<Rightarrow> Inl (UsageError (command @ '' needs exactly one of --data JSON or --file PATH'')))"

text \<open>\<open>s.replace(pat, v)\<close>: the first occurrence. The encoded value has no \<open>$\<close>, which a replacement would interpret.\<close>

fun replace_first :: "string \<Rightarrow> string \<Rightarrow> string \<Rightarrow> string" where
  "replace_first pat v [] = []"
| "replace_first pat v (c # s) =
     (if take (length pat) (c # s) = pat then v @ drop (length pat) (c # s) else c # replace_first pat v s)"

fun fill_path :: "command_spec \<Rightarrow> (string \<times> string) list \<Rightarrow> string \<Rightarrow> cmd_error + string" where
  "fill_path spec [] path = Inr path"
| "fill_path spec ((p, x) # rest) path =
     (if x = [] \<or> x = ''.'' \<or> x = ''..'' then Inl (UsageError (arg_label spec p @ '' cannot be empty, . or ..''))
      else fill_path spec rest (replace_first (''{'' @ p @ ''}'') (encodeURIComponent x) path))"

text \<open>The request a command line becomes, and the two addresses; everything here is refused with exit 2.\<close>

definition build_request :: "('w, 'z) mm_deps_scheme \<Rightarrow> command_spec \<Rightarrow> string list \<Rightarrow> flag_values \<Rightarrow> bool \<Rightarrow>
    cmd_error + api_request \<times> string \<times> string" where
  "build_request d spec rest vs insecure =
     (let command = ''mm '' @ cs_group spec @ '' '' @ cs_action spec; params = pathParams (cs_path spec);
          expected = length params + (case cs_body spec of FieldBody f x \<Rightarrow> 1 | _ \<Rightarrow> 0) in
      if length rest \<noteq> expected then Inl (UsageError (''usage: '' @ usageLine spec))
      else case allowOnly vs ([''issuer'', ''console''] @ (if cs_body spec = JsonBody then [''data'', ''file''] else []) @
              map (\<lambda>q. kebab (qp_name q)) (cs_query spec)) command of
          Inl e \<Rightarrow> Inl e
        | Inr x \<Rightarrow>
            (case fill_path spec (zip params rest) (cs_path spec) of
               Inl e \<Rightarrow> Inl e
             | Inr path \<Rightarrow>
                 (case (case cs_body spec of
                      NoBody \<Rightarrow> Inr None
                    | JsonBody \<Rightarrow> map_sum id Some (readJsonBody d vs command)
                    | FieldBody f x \<Rightarrow> Inr (Some (Obj [(f, Str (rest ! length params))]))) of
                    Inl e \<Rightarrow> Inl e
                  | Inr body \<Rightarrow>
                      (case (config (resolveIssuer (op_parse d) (text_flag vs ''issuer'') (mm_env d) insecure),
                             config (resolveConsoleUrl (op_parse d) (text_flag vs ''console'') (mm_env d) insecure)) of
                         (Inl e, _) \<Rightarrow> Inl e
                       | (_, Inl e) \<Rightarrow> Inl e
                       | (Inr issuer, Inr consoleUrl) \<Rightarrow>
                           Inr (\<lparr>ap_method = cs_method spec, ap_path = path,
                                 ap_query = List.map_filter (\<lambda>q. map_option (Pair (qp_name q)) (text_flag vs (kebab (qp_name q)))) (cs_query spec),
                                 ap_body = body\<rparr>, issuer, consoleUrl)))))"

definition api_session_of :: "('w, 'z) mm_deps_scheme \<Rightarrow> session_ctx \<Rightarrow> 'w api_session" where
  "api_session_of d ctx = \<lparr>se_current = (\<lambda>w. loadCredential (cl_fs d w) ctx), se_refresh = refreshStored d ctx\<rparr>"

definition shown :: "('w, 'z) mm_deps_scheme \<Rightarrow> api_ok \<Rightarrow> out list" where
  "shown d r =
     (if ao_body r \<noteq> Null then [Out (mm_print d (ao_body r) @ [CHR 0x0A])] else []) @
     (case ao_next r of None \<Rightarrow> [] | Some c \<Rightarrow> [Err (''More results: repeat with --cursor '' @ c @ [CHR 0x0A])])"

definition no_home :: cmd_error where
  "no_home = RunError (StoreRefused ''neither XDG_CONFIG_HOME nor HOME is set'')"

definition runApi :: "('w, 'z) mm_deps_scheme \<Rightarrow> command_spec \<Rightarrow> string list \<Rightarrow> flag_values \<Rightarrow> bool \<Rightarrow> 'w \<Rightarrow>
    (cmd_error + int) \<times> out list \<times> 'w" where
  "runApi d0 spec rest vs insecure w =
     (let d = d0\<lparr>op_insecure := insecure\<rparr> in
      case build_request d spec rest vs insecure of
        Inl e \<Rightarrow> (Inl e, [], w)
      | Inr (rq, issuer, consoleUrl) \<Rightarrow>
          (case credentialsPath (mm_env d) of
             None \<Rightarrow> (Inl no_home, [], w)
           | Some p \<Rightarrow>
               (case callApi (mm_net d) consoleUrl (api_session_of d \<lparr>sc_issuer = issuer, sc_resource = adminApiResource consoleUrl\<rparr>) rq w of
                  (Inl e, w') \<Rightarrow> (Inl (RunError e), [], w')
                | (Inr r, w') \<Rightarrow> (Inr 0, shown d r, w'))))"

section \<open>Signing in and out\<close>

text \<open>\<open>raw.split(/[\s,]+/).filter(Boolean)\<close>.\<close>

fun scope_words :: "string \<Rightarrow> string \<Rightarrow> string list" where
  "scope_words acc [] = (if acc = [] then [] else [acc])"
| "scope_words acc (c # s) =
     (if white c \<or> c = CHR '','' then (if acc = [] then [] else [acc]) @ scope_words [] s else scope_words (acc @ [c]) s)"

fun caps_of :: "string list \<Rightarrow> cmd_error + capability list" where
  "caps_of [] = Inr []"
| "caps_of (s # ss) =
     (case cap_of s of
        None \<Rightarrow> Inl (UsageError (''unknown scope '' @ s))
      | Some c \<Rightarrow> (case caps_of ss of Inl e \<Rightarrow> Inl e | Inr cs \<Rightarrow> Inr (c # cs)))"

definition parseScopes :: "string \<Rightarrow> cmd_error + capability list" where
  "parseScopes raw =
     (let words = uniq (scope_words [] raw) in
      if words = [] then Inl (UsageError ''--scope names no capability'') else caps_of words)"

text \<open>What the command line of a sign-in says, all refused with exit 2.\<close>

definition login_args :: "('w, 'z) mm_deps_scheme \<Rightarrow> string list \<Rightarrow> flag_values \<Rightarrow> bool \<Rightarrow> cmd_error + capability list \<times> string \<times> string" where
  "login_args d rest vs insecure =
     (if rest \<noteq> [] then Inl (UsageError ''usage: mm login [--scope read,resource.write]'')
      else case allowOnly vs [''issuer'', ''console'', ''scope''] ''mm login'' of
          Inl e \<Rightarrow> Inl e
        | Inr x \<Rightarrow>
            (case parseScopes (case text_flag vs ''scope'' of None \<Rightarrow> ''read'' | Some s \<Rightarrow> s) of
               Inl e \<Rightarrow> Inl e
             | Inr scopes \<Rightarrow>
                 (case (config (resolveIssuer (op_parse d) (text_flag vs ''issuer'') (mm_env d) insecure),
                        config (resolveConsoleUrl (op_parse d) (text_flag vs ''console'') (mm_env d) insecure)) of
                    (Inl e, _) \<Rightarrow> Inl e
                  | (_, Inl e) \<Rightarrow> Inl e
                  | (Inr issuer, Inr consoleUrl) \<Rightarrow> Inr (scopes, issuer, consoleUrl))))"

text \<open>Under the lock: the new credential is stored, then the refresh token it replaces is revoked.\<close>

definition login_body :: "('w, 'z) mm_deps_scheme \<Rightarrow> string \<Rightarrow> cred \<Rightarrow> 'w \<Rightarrow> (cli_error + bool option) \<times> 'w" where
  "login_body d issuer c w =
     (case readCredentials (cl_fs d w) issuer of
        Inl e \<Rightarrow> (Inl e, w)
      | Inr old \<Rightarrow>
          (let replaced = Option.bind old cr_refreshToken; (r, fs) = writeCredentials (cl_fault d w) c (cl_fs d w); w1 = cl_put d fs w in
           case r of
             Inl e \<Rightarrow> (Inl e, w1)
           | Inr x \<Rightarrow>
               (case replaced of
                  None \<Rightarrow> (Inr None, w1)
                | Some t \<Rightarrow>
                    if Some t = cr_refreshToken c then (Inr None, w1)
                    else (let (ok, w2) = revokeRefreshToken d issuer t w1 in (Inr (Some ok), w2)))))"

definition login :: "nat \<Rightarrow> ('w, 'z) mm_deps_scheme \<Rightarrow> string list \<Rightarrow> flag_values \<Rightarrow> bool \<Rightarrow> 'w \<Rightarrow> (cmd_error + int) option \<times> 'w" where
  "login fuel d0 rest vs insecure w =
     (let d = d0\<lparr>op_insecure := insecure\<rparr> in
      case login_args d rest vs insecure of
        Inl e \<Rightarrow> (Some (Inl e), w)
      | Inr (scopes, issuer, consoleUrl) \<Rightarrow>
          (case deviceLogin fuel d issuer (adminApiResource consoleUrl) scopes w of
             (None, pt, w1) \<Rightarrow> (None, w1)
           | (Some (Inl e), pt, w1) \<Rightarrow> (Some (Inl (RunError e)), w1)
           | (Some (Inr c), pt, w1) \<Rightarrow>
               (case credentialsPath (mm_env d) of
                  None \<Rightarrow> (Some (Inl no_home), w1)
                | Some p \<Rightarrow>
                    (case withCredentialsLock d (login_body d issuer c) w1 of
                       (Inl e, w2) \<Rightarrow> (Some (Inl (RunError e)), w2)
                     | (Inr revoked, w2) \<Rightarrow> (Some (Inr 0), w2)))))"

text \<open>Under the lock: the token is revoked, and forgotten whatever the provider said.\<close>

definition logout_body :: "('w, 'z) mm_deps_scheme \<Rightarrow> string \<Rightarrow> 'w \<Rightarrow> (cli_error + int) \<times> 'w" where
  "logout_body d issuer w =
     (case readCredentials (cl_fs d w) issuer of
        Inl e \<Rightarrow> (Inl e, w)
      | Inr None \<Rightarrow> (Inr 0, w)
      | Inr (Some c) \<Rightarrow>
          (let (revoked, w1) = (case cr_refreshToken c of
                 None \<Rightarrow> (None, w)
               | Some t \<Rightarrow> (let (ok, w') = revokeRefreshToken d issuer t w in (Some ok, w')));
               (r, fs) = deleteCredentials (cl_fault d w1) issuer (cl_fs d w1); w2 = cl_put d fs w1 in
           case r of Inl e \<Rightarrow> (Inl e, w2) | Inr x \<Rightarrow> (Inr (if revoked = Some False then 1 else 0), w2)))"

definition logout :: "('w, 'z) mm_deps_scheme \<Rightarrow> string list \<Rightarrow> flag_values \<Rightarrow> bool \<Rightarrow> 'w \<Rightarrow> (cmd_error + int) \<times> 'w" where
  "logout d0 rest vs insecure w =
     (let d = d0\<lparr>op_insecure := insecure\<rparr> in
      if rest \<noteq> [] then (Inl (UsageError ''usage: mm logout''), w)
      else case allowOnly vs [''issuer''] ''mm logout'' of
          Inl e \<Rightarrow> (Inl e, w)
        | Inr x \<Rightarrow>
            (case config (resolveIssuer (op_parse d) (text_flag vs ''issuer'') (mm_env d) insecure) of
               Inl e \<Rightarrow> (Inl e, w)
             | Inr issuer \<Rightarrow>
                 (case credentialsPath (mm_env d) of
                    None \<Rightarrow> (Inl no_home, w)
                  | Some p \<Rightarrow>
                      (case withCredentialsLock d (logout_body d issuer) w of
                         (Inl e, w') \<Rightarrow> (Inl (RunError e), w')
                       | (Inr c, w') \<Rightarrow> (Inr c, w')))))"

section \<open>The exit code\<close>

fun exit_code :: "cmd_error + int \<Rightarrow> int" where
  "exit_code (Inr c) = c"
| "exit_code (Inl (UsageError m)) = 2"
| "exit_code (Inl (ConfigError e)) = 2"
| "exit_code (Inl (RunError e)) = 1"

text \<open>One run: \<open>None\<close> where the sign-in is still waiting when the fuel is spent.\<close>

definition main :: "nat \<Rightarrow> ('w, 'z) mm_deps_scheme \<Rightarrow> string list \<Rightarrow> 'w \<Rightarrow> int option \<times> 'w" where
  "main fuel d argv w =
     (case mm_args d OPTIONS (if argv \<noteq> [] \<and> hd argv = ''--'' then tl argv else argv) of
        Inl m \<Rightarrow> (Some 2, w)
      | Inr (vs, positionals) \<Rightarrow>
          if map_of vs ''help'' = Some FlagOn then (Some 0, w)
          else (let insecure = insecureHttpAllowed (if map_of vs ''allow-insecure-http'' = Some FlagOn then Some True else None) (mm_env d) in
            case positionals of
              [] \<Rightarrow> (Some 2, w)
            | grp # rest \<Rightarrow>
                if grp = ''login'' then (let (r, w') = login fuel d rest vs insecure w in (map_option exit_code r, w'))
                else if grp = ''logout'' then (let (r, w') = logout d rest vs insecure w in (Some (exit_code r), w'))
                else (case find (\<lambda>c. cs_group c = grp \<and> rest \<noteq> [] \<and> cs_action c = hd rest) COMMANDS of
                    None \<Rightarrow> (Some (exit_code (Inl (unknownCommand (Some grp) (case rest of [] \<Rightarrow> None | a # as \<Rightarrow> Some a)))), w)
                  | Some spec \<Rightarrow> (let (r, outs, w') = runApi d spec (tl rest) vs insecure w in (Some (exit_code r), w')))))"

section \<open>Lemmas\<close>

lemma config_not_run: "config x = Inl e \<Longrightarrow> exit_code (Inl e) = 2"
  by (auto simp: config_def split: sum.split_asm)

lemma build_request_usage: "build_request d spec rest vs insecure = Inl e \<Longrightarrow> exit_code (Inl e) = 2"
proof -
  have a: "allowOnly vs al cm = Inl e \<Longrightarrow> exit_code (Inl e) = 2" for al cm e
    by (auto simp: allowOnly_def split: option.split_asm)
  have f: "fill_path spec ps p = Inl e \<Longrightarrow> exit_code (Inl e) = 2" for ps p e
    by (induction spec ps p rule: fill_path.induct) (auto split: if_split_asm)
  have j: "readJsonBody d vs cm = Inl e \<Longrightarrow> exit_code (Inl e) = 2" for cm e
    by (auto simp: readJsonBody_def Let_def split: option.split_asm if_split_asm)
  have jm: "map_sum id Some (readJsonBody d vs cm) = Inl e \<Longrightarrow> exit_code (Inl e) = 2" for cm e
    using j [of cm] by (cases "readJsonBody d vs cm") simp_all
  assume "build_request d spec rest vs insecure = Inl e"
  then show ?thesis
    by (auto simp: build_request_def Let_def dest: a f jm config_not_run
        split: if_split_asm sum.split_asm body_spec.split_asm prod.split_asm)
qed

text \<open>An encoded value has no separator of a path or a query, and no brace.\<close>

lemma encoded_no_separator:
  assumes "c \<in> {CHR ''/'', CHR ''{'', CHR ''?'', CHR ''#''}"
  shows "c \<notin> set (encodeURIComponent x)"
proof -
  have u: "\<not> unreserved c" "c \<noteq> CHR ''%''"
    using assms by (auto simp: unreserved_def is_upper_def is_lower_def is_digit_def less_eq_char_def)
  have "radix_digit c = None" using assms by (auto simp: radix_digit_def is_digit_def less_eq_char_def)
  then have h: "c \<noteq> hex_upper n" if "n < 16" for n using radix_hex_upper [OF that] by auto
  have "c \<notin> set (percent d)" for d
  proof -
    have "(of_char d :: nat) < 256" by simp
    then have "(of_char d :: nat) div 16 < 16" by (simp add: less_mult_imp_div_less)
    with u h show ?thesis by (simp add: percent_def)
  qed
  with u(1) show ?thesis by (auto simp: encodeURIComponent_def)
qed

lemma encode_inj: "encodeURIComponent x = encodeURIComponent y \<Longrightarrow> x = y"
  by (metis decode_encodeURIComponent option.inject)

lemma encoded_dots:
  assumes "x \<notin> {[], ''.'', ''..''}"
  shows "encodeURIComponent x \<notin> {[], ''.'', ''..''}"
proof -
  have "encodeURIComponent [] = []" "encodeURIComponent ''.'' = ''.''" "encodeURIComponent ''..'' = ''..''"
    by (simp_all add: encodeURIComponent_def unreserved_def)
  with assms encode_inj [of x "[]"] encode_inj [of x "''.''"] encode_inj [of x "''..''"] show ?thesis by auto
qed

lemma replace_first_at:
  "CHR ''{'' \<notin> set a \<Longrightarrow> replace_first (CHR ''{'' # q) v (a @ (CHR ''{'' # q) @ b) = a @ v @ b"
  by (induction a) auto

text \<open>A segment of a request's path for a segment of the template.\<close>

definition seg_ok :: "string \<Rightarrow> string \<Rightarrow> bool" where
  "seg_ok t x = (if take 1 t = ''{'' then \<exists>v. v \<notin> {[], ''.'', ''..''} \<and> x = encodeURIComponent v else x = t)"

definition path_ok :: "string \<Rightarrow> string \<Rightarrow> bool" where
  "path_ok template path =
     (list_all2 seg_ok (split_on CHR ''/'' template) (split_on CHR ''/'' path) \<and>
      (\<forall>x \<in> set (split_on CHR ''/'' path). x \<noteq> ''.'' \<and> x \<noteq> ''..'') \<and> CHR ''?'' \<notin> set path \<and> CHR ''#'' \<notin> set path)"

lemma fill_one:
  assumes "fill_path spec [(p, x)] (a @ (CHR ''{'' # p @ ''}'') @ b) = Inr path" and "CHR ''{'' \<notin> set a"
  shows "x \<notin> {[], ''.'', ''..''} \<and> path = a @ encodeURIComponent x @ b"
  using assms replace_first_at [OF assms(2), of "p @ ''}''" "encodeURIComponent x" b] by (auto split: if_split_asm)

lemma fill_two:
  assumes "fill_path spec [(p, x), (q, y)] (a @ (CHR ''{'' # p @ ''}'') @ b @ (CHR ''{'' # q @ ''}'') @ c) = Inr path"
    and "CHR ''{'' \<notin> set a" and "CHR ''{'' \<notin> set b"
  shows "x \<notin> {[], ''.'', ''..''} \<and> y \<notin> {[], ''.'', ''..''} \<and> path = a @ encodeURIComponent x @ b @ encodeURIComponent y @ c"
proof -
  from assms(1) have x: "x \<notin> {[], ''.'', ''..''}" by (auto split: if_split_asm)
  with assms(1) replace_first_at [OF assms(2), of "p @ ''}''" "encodeURIComponent x" "b @ (CHR ''{'' # q @ ''}'') @ c"]
  have "fill_path spec [(q, y)] ((a @ encodeURIComponent x @ b) @ (CHR ''{'' # q @ ''}'') @ c) = Inr path" by simp
  from fill_one [OF this] assms(2,3) encoded_no_separator [of "CHR ''{''" x] x show ?thesis by auto
qed

lemma seg_encoded: "v \<notin> {[], ''.'', ''..''} \<Longrightarrow> seg_ok (CHR ''{'' # t) (encodeURIComponent v)"
  by (auto simp: seg_ok_def)

lemma path_ok_one:
  assumes "fill_path spec [(p, x)] (a @ (CHR ''{'' # p @ ''}'') @ b) = Inr path" and "CHR ''{'' \<notin> set a"
    and "\<And>e. CHR ''/'' \<notin> set e \<Longrightarrow> split_on CHR ''/'' (a @ e @ b) = as @ e # bs"
    and "CHR ''/'' \<notin> set p" and "\<forall>s \<in> set (as @ bs). take 1 s \<noteq> ''{'' \<and> s \<noteq> ''.'' \<and> s \<noteq> ''..''"
    and "CHR ''?'' \<notin> set (a @ b)" and "CHR ''#'' \<notin> set (a @ b)"
  shows "path_ok (a @ (CHR ''{'' # p @ ''}'') @ b) path"
proof -
  from fill_one [OF assms(1,2)] have x: "x \<notin> {[], ''.'', ''..''}" and path: "path = a @ encodeURIComponent x @ b" by simp_all
  have t: "split_on CHR ''/'' (a @ (CHR ''{'' # p @ ''}'') @ b) = as @ (CHR ''{'' # p @ ''}'') # bs" by (rule assms(3)) (use assms(4) in simp)
  have e: "split_on CHR ''/'' path = as @ encodeURIComponent x # bs" unfolding path by (rule assms(3)) (simp add: encoded_no_separator)
  have refl: "list_all2 seg_ok ss ss" if "\<forall>s \<in> set ss. take 1 s \<noteq> ''{''" for ss
    using that by (induction ss) (simp_all add: seg_ok_def)
  have "list_all2 seg_ok (as @ (CHR ''{'' # p @ ''}'') # bs) (as @ encodeURIComponent x # bs)"
    using assms(5) by (intro list_all2_appendI list_all2_Cons [THEN iffD2] conjI refl seg_encoded [OF x]) auto
  moreover have "encodeURIComponent x \<noteq> ''.''" "encodeURIComponent x \<noteq> ''..''" using encoded_dots [of x] x by auto
  ultimately show ?thesis
    using assms(5-7) encoded_no_separator [of "CHR ''?''" x] encoded_no_separator [of "CHR ''#''" x] unfolding path_ok_def t e by (auto simp: path)
qed

lemma path_ok_two:
  assumes "fill_path spec [(''id'', x), (''tid'', y)] ''/paddocks/{id}/templates/{tid}'' = Inr path"
  shows "path_ok ''/paddocks/{id}/templates/{tid}'' path"
proof -
  from fill_two [of spec "''id''" x "''tid''" y "''/paddocks/''" "''/templates/''" "[]"] assms
  have x: "x \<notin> {[], ''.'', ''..''}" "y \<notin> {[], ''.'', ''..''}"
    and path: "path = ''/paddocks/'' @ encodeURIComponent x @ ''/templates/'' @ encodeURIComponent y" by auto
  have e: "split_on CHR ''/'' path = [[], ''paddocks'', encodeURIComponent x, ''templates'', encodeURIComponent y]"
    unfolding path by (simp add: split_on_append split_on_no_sep encoded_no_separator)
  have t: "split_on CHR ''/'' ''/paddocks/{id}/templates/{tid}'' = [[], ''paddocks'', ''{id}'', ''templates'', ''{tid}'']" by code_simp
  have "encodeURIComponent x \<notin> {[], ''.'', ''..''}" "encodeURIComponent y \<notin> {[], ''.'', ''..''}" using encoded_dots x by blast+
  moreover have "seg_ok ''{id}'' (encodeURIComponent x)" "seg_ok ''{tid}'' (encodeURIComponent y)" using x by (auto simp: seg_ok_def)
  ultimately show ?thesis unfolding path_ok_def t e
    using encoded_no_separator [of "CHR ''?''"] encoded_no_separator [of "CHR ''#''"] by (simp add: path seg_ok_def)
qed

definition ONE_ID :: "(string \<times> string) list" where
  "ONE_ID = [(''/flocks/'', ''''), (''/paddocks/'', ''''), (''/paddocks/'', ''/status''), (''/paddocks/'', ''/fence''),
     (''/paddocks/'', ''/templates''), (''/keys/'', ''/revoke'')]"

definition NO_ID :: "string list" where
  "NO_ID = [''/flocks'', ''/paddocks'', ''/keys'', ''/usage/matrix'', ''/usage/daily'', ''/usage/top-keys'']"

lemma command_paths:
  "\<forall>spec \<in> set COMMANDS. cs_path spec \<in> set NO_ID \<or> cs_path spec = ''/paddocks/{id}/templates/{tid}'' \<or>
     (\<exists>(a, b) \<in> set ONE_ID. cs_path spec = a @ ''{id}'' @ b)"
  by code_simp

lemma command_params:
  "\<forall>t \<in> set NO_ID. pathParams t = []" "pathParams ''/paddocks/{id}/templates/{tid}'' = [''id'', ''tid'']"
  "\<forall>(a, b) \<in> set ONE_ID. pathParams (a @ ''{id}'' @ b) = [''id'']"
  by code_simp+

lemma path_ok_refl:
  assumes "\<forall>s \<in> set (split_on CHR ''/'' t). take 1 s \<noteq> ''{'' \<and> s \<noteq> ''.'' \<and> s \<noteq> ''..''" and "CHR ''?'' \<notin> set t \<and> CHR ''#'' \<notin> set t"
  shows "path_ok t t"
proof -
  have "list_all2 seg_ok ss ss" if "\<forall>s \<in> set ss. take 1 s \<noteq> ''{''" for ss
    using that by (induction ss) (simp_all add: seg_ok_def)
  with assms show ?thesis by (simp add: path_ok_def)
qed

lemma path_ok_NO_ID: "t \<in> set NO_ID \<Longrightarrow> path_ok t t"
proof (rule path_ok_refl)
  assume t: "t \<in> set NO_ID"
  have "\<forall>t \<in> set NO_ID. (\<forall>s \<in> set (split_on CHR ''/'' t). take 1 s \<noteq> ''{'' \<and> s \<noteq> ''.'' \<and> s \<noteq> ''..'') \<and> CHR ''?'' \<notin> set t \<and> CHR ''#'' \<notin> set t"
    by code_simp
  with t show "\<forall>s \<in> set (split_on CHR ''/'' t). take 1 s \<noteq> ''{'' \<and> s \<noteq> ''.'' \<and> s \<noteq> ''..''" "CHR ''?'' \<notin> set t \<and> CHR ''#'' \<notin> set t"
    by blast+
qed

lemma path_ok_ONE_ID:
  assumes "(a, b) \<in> set ONE_ID" and "fill_path spec [(''id'', x)] (a @ ''{id}'' @ b) = Inr path"
  shows "path_ok (a @ ''{id}'' @ b) path"
proof -
  have one: "path_ok (a @ (CHR ''{'' # ''id'' @ ''}'') @ b) path"
    if "\<And>e. CHR ''/'' \<notin> set e \<Longrightarrow> split_on CHR ''/'' (a @ e @ b) = as @ e # bs"
      "\<forall>s \<in> set (as @ bs). take 1 s \<noteq> ''{'' \<and> s \<noteq> ''.'' \<and> s \<noteq> ''..''" for as bs
    by (rule path_ok_one [of spec "''id''" x, OF _ _ that(1) _ that(2)]) (use assms in \<open>auto simp: ONE_ID_def\<close>)
  show ?thesis using assms(1) one [of "[[], ''flocks'']" "[]"] one [of "[[], ''paddocks'']" "[]"]
      one [of "[[], ''paddocks'']" "[''status'']"] one [of "[[], ''paddocks'']" "[''fence'']"] one [of "[[], ''paddocks'']" "[''templates'']"]
      one [of "[[], ''keys'']" "[''revoke'']"]
    by (auto simp: ONE_ID_def split_on_append split_on_no_sep)
qed

lemma build_request_Inr:
  assumes "build_request d spec rest vs insecure = Inr (rq, issuer, u)"
  shows "fill_path spec (zip (pathParams (cs_path spec)) rest) (cs_path spec) = Inr (ap_path rq) \<and>
    length (pathParams (cs_path spec)) \<le> length rest \<and> ap_method rq = cs_method spec"
  using assms
  by (auto simp: build_request_def Let_def split: if_split_asm sum.split_asm body_spec.split_asm)

section \<open>Properties\<close>

text \<open>
  C20. Whatever its arguments, a command's request stays at its operation: the method is the command's, and the path is the
  template's, segment by segment, with each id in place as one encoded segment that is neither empty nor a dot segment;
  the path has no query and no fragment.
\<close>

theorem command_stays_at_its_operation:
  assumes "spec \<in> set COMMANDS" and "build_request d spec rest vs insecure = Inr (rq, issuer, consoleUrl)"
  shows "ap_method rq = cs_method spec \<and> path_ok (cs_path spec) (ap_path rq)"
proof -
  note b = build_request_Inr [OF assms(2)]
  consider "cs_path spec \<in> set NO_ID" | "cs_path spec = ''/paddocks/{id}/templates/{tid}''"
    | a c where "(a, c) \<in> set ONE_ID" "cs_path spec = a @ ''{id}'' @ c" using command_paths assms(1) by blast
  then have "path_ok (cs_path spec) (ap_path rq)"
  proof cases
    case 1
    with b have "fill_path spec [] (cs_path spec) = Inr (ap_path rq)" using command_params(1) by simp
    with path_ok_NO_ID [OF 1] show ?thesis by simp
  next
    case 2
    have "2 \<le> length rest" using b unfolding 2 command_params(2) by simp
    then obtain x y zs where r: "rest = x # y # zs" by (cases rest; cases "tl rest") auto
    have z: "zip [''id'', ''tid''] (x # y # zs) = [(''id'', x), (''tid'', y)]" by simp
    have "fill_path spec [(''id'', x), (''tid'', y)] ''/paddocks/{id}/templates/{tid}'' = Inr (ap_path rq)"
      using b [THEN conjunct1] unfolding 2 command_params(2) r z .
    then show ?thesis unfolding 2 by (rule path_ok_two)
  next
    case 3
    have p: "pathParams (a @ ''{id}'' @ c) = [''id'']" using command_params(3) 3(1) by blast
    have "1 \<le> length rest" using b unfolding 3(2) p by simp
    then obtain x zs where r: "rest = x # zs" by (cases rest) auto
    have z: "zip [''id''] (x # zs) = [(''id'', x)]" by simp
    have "fill_path spec [(''id'', x)] (a @ ''{id}'' @ c) = Inr (ap_path rq)" using b [THEN conjunct1] unfolding 3(2) p r z .
    then show ?thesis unfolding 3(2) by (rule path_ok_ONE_ID [OF 3(1)])
  qed
  with b show ?thesis by simp
qed

text \<open>A concrete client: no arguments, a sign-in whose access token has expired, a provider that answers nothing.\<close>

definition demo_fs :: store_fs where
  "demo_fs = \<lparr>sf_dir = Some \<lparr>st_isDirectory = True, st_mode = 0x1C0, st_uid = 1\<rparr>,
     sf_file = Some (\<lparr>st_isDirectory = False, st_mode = 0x180, st_uid = 1\<rparr>, Entries [(''https://i'',
       \<lparr>cr_issuer = ''https://i'', cr_resource = ''r'', cr_scope = [], cr_accessToken = ''a'', cr_accessExpiresAt = Fin 0,
        cr_refreshToken = Some ''rt'', cr_obtainedAt = 0\<rparr>)]), sf_tmp = None, sf_uid = Some 1\<rparr>"

definition demo_mm :: "string list \<Rightarrow> flag_values \<Rightarrow> store_fs mm_deps" where
  "demo_mm pos vs = \<lparr>op_parse = demo_parse, op_fetch = (\<lambda>r w. (None, w)), op_sleep = (\<lambda>t w. w), op_now = (\<lambda>w. 5), op_insecure = False,
     cl_fs = (\<lambda>w. w), cl_put = (\<lambda>fs w. fs), cl_fault = (\<lambda>w. None), cl_wait = (\<lambda>w. (Inr (), w)), cl_unlock = (\<lambda>w. w),
     mm_net = \<lparr>an_fetch = (\<lambda>q w. (Inl None, w)), an_now = (\<lambda>w. 5), an_reason = (\<lambda>n. None), an_show = (\<lambda>v. []), an_cursor = (\<lambda>t b. Some None)\<rparr>,
     mm_env = [''HOME'' \<mapsto> ''/h'', ISSUER_ENV \<mapsto> ''https://i'', CONSOLE_ENV \<mapsto> ''https://c''],
     mm_stdin = [], mm_file = (\<lambda>f. None), mm_json = (\<lambda>t. None), mm_print = (\<lambda>v. []), mm_args = (\<lambda>ops as. Inr (vs, pos))\<rparr>"

theorem command_stays_at_its_operation_witness:
  "\<exists>rq. build_request (demo_mm [] []) (cmd ''flocks'' ''get'' GET ''/flocks/{id}'' [] NoBody) [''../keys?x''] [] False =
     Inr (rq, ''https://i'', ''https://c'') \<and> path_ok ''/flocks/{id}'' (ap_path rq)"
proof -
  let ?b = "build_request (demo_mm [] []) (cmd ''flocks'' ''get'' GET ''/flocks/{id}'' [] NoBody) [''../keys?x''] [] False"
  have "case ?b of Inl e \<Rightarrow> False | Inr x \<Rightarrow> snd x = (''https://i'', ''https://c'')" by code_simp
  then obtain rq where b: "?b = Inr (rq, ''https://i'', ''https://c'')" by (cases ?b) auto
  have "cmd ''flocks'' ''get'' GET ''/flocks/{id}'' [] NoBody \<in> set COMMANDS" by (simp add: COMMANDS_def)
  from command_stays_at_its_operation [OF this b] b show ?thesis by (simp add: cmd_def)
qed

lemma logout_code: "logout d rest vs insecure w = (Inr c, w') \<Longrightarrow> c = 0 \<or> c = 1"
  by (auto simp: logout_def logout_body_def withCredentialsLock_def Let_def
      split: if_split_asm sum.split_asm option.split_asm prod.split_asm)

lemma runApi_code: "runApi d spec rest vs insecure w = (r, outs, w') \<Longrightarrow> w' = w \<and> exit_code r = 2 \<or> exit_code r \<in> {0, 1}"
  by (auto simp: runApi_def Let_def no_home_def dest: build_request_usage split: sum.split_asm option.split_asm prod.split_asm)

lemma allowOnly_usage: "allowOnly vs al cm = Inl e \<Longrightarrow> exit_code (Inl e) = 2"
  by (auto simp: allowOnly_def split: option.split_asm)

lemma caps_of_usage: "caps_of ss = Inl e \<Longrightarrow> exit_code (Inl e) = 2"
  by (induction ss arbitrary: e) (auto split: option.split_asm sum.split_asm)

lemma login_args_usage: "login_args d rest vs insecure = Inl e \<Longrightarrow> exit_code (Inl e) = 2"
  by (auto simp: login_args_def parseScopes_def Let_def dest: allowOnly_usage caps_of_usage config_not_run
      split: if_split_asm sum.split_asm prod.split_asm)

lemma login_code: "login fuel d rest vs insecure w = (Some r, w') \<Longrightarrow> w' = w \<and> exit_code r = 2 \<or> exit_code r \<in> {0, 1}"
  by (auto simp: login_def Let_def no_home_def dest: login_args_usage
      split: sum.split_asm option.split_asm prod.split_asm)

lemma logout_exit: "logout d rest vs insecure w = (r, w') \<Longrightarrow> w' = w \<and> exit_code r = 2 \<or> exit_code r \<in> {0, 1}"
proof (cases r)
  case (Inr c)
  assume "logout d rest vs insecure w = (r, w')"
  with Inr logout_code [of d rest vs insecure w c w'] show ?thesis by auto
next
  case (Inl e)
  assume "logout d rest vs insecure w = (r, w')"
  with Inl show ?thesis
    by (auto simp: logout_def Let_def no_home_def dest: allowOnly_usage config_not_run
        split: if_split_asm sum.split_asm option.split_asm prod.split_asm)
qed

text \<open>
  C23. Exit code 2 means that nothing was done: the command line was wrong, and the run made no request, touched no file
  and took no lock, so the world is as it was. Every other exit code is 0 or 1.
\<close>

theorem exit_two_does_nothing:
  assumes "main fuel d argv w = (Some c, w')"
  shows "(c = 2 \<longrightarrow> w' = w) \<and> c \<in> {0, 1, 2}"
  using assms
  by (auto simp: main_def Let_def unknownCommand_def dest: login_code logout_exit runApi_code
      split: sum.split_asm prod.split_asm if_split_asm list.split_asm option.split_asm)

theorem exit_two_does_nothing_witness:
  "main 1 (demo_mm [''keys'', ''delete''] []) [] demo_fs = (Some 2, demo_fs)"
proof -
  obtain c w' where m: "main 1 (demo_mm [''keys'', ''delete''] []) [] demo_fs = (Some c, w') \<and> c = 2"
    by (simp add: main_def demo_mm_def COMMANDS_def cmd_def unknownCommand_def)
  with exit_two_does_nothing [of 1 "demo_mm [''keys'', ''delete''] []" "[]" demo_fs c w'] show ?thesis by simp
qed

text \<open>
  Signing out forgets: whenever it completes, whatever the provider answered to the revocation, the machine no longer
  holds a sign-in for the issuer.
\<close>

theorem logout_forgets:
  assumes "\<And>fs w. cl_fs d (cl_put d fs w) = fs" and "\<And>w. cl_fs d (cl_unlock d w) = cl_fs d w"
    and "resolveIssuer (op_parse d) (text_flag vs ''issuer'') (mm_env d) insecure = Inr issuer"
    and "logout d rest vs insecure w = (Inr c, w')"
  shows "readCredentials (cl_fs d w') issuer = Inr None"
proof -
  let ?d = "d\<lparr>op_insecure := insecure\<rparr>"
  from assms(3,4) obtain c' where l: "withCredentialsLock ?d (logout_body ?d issuer) w = (Inr c', w')"
    by (auto simp: logout_def Let_def config_def split: if_split_asm sum.split_asm option.split_asm prod.split_asm)
  then obtain w1 w2 where b: "logout_body ?d issuer w1 = (Inr c', w2)" and w': "w' = cl_unlock d w2"
    by (auto simp: withCredentialsLock_def Let_def split: sum.split_asm prod.split_asm)
  have "readCredentials (cl_fs d w2) issuer = Inr None"
  proof (cases "readCredentials (cl_fs d w1) issuer")
    case (Inr o')
    show ?thesis
    proof (cases o')
      case None
      with Inr b show ?thesis by (simp add: logout_body_def)
    next
      case (Some cr)
      with Inr b obtain f w3 fs where "deleteCredentials f issuer (cl_fs d w3) = (Inr (), fs)" "w2 = cl_put d fs w3"
        by (auto simp: logout_body_def Let_def split: sum.split_asm prod.split_asm)
      with stored_credential_roundtrip [of f _ "cl_fs d w3" "()" fs issuer] assms(1) show ?thesis by simp
    qed
  qed (use b in \<open>simp add: logout_body_def\<close>)
  then show ?thesis by (simp add: w' assms(2))
qed

theorem logout_forgets_witness:
  "readCredentials (snd (logout (demo_mm [] []) [] [] False demo_fs)) ''https://i'' = Inr None"
proof -
  let ?l = "logout (demo_mm [] []) [] [] False demo_fs"
  have "fst ?l = Inr 1" by code_simp
  then obtain w' where l: "?l = (Inr 1, w')" by (cases ?l) simp
  have r: "resolveIssuer (op_parse (demo_mm [] [])) (text_flag [] ''issuer'') (mm_env (demo_mm [] [])) False = Inr ''https://i''" by code_simp
  have "readCredentials (cl_fs (demo_mm [] []) w') ''https://i'' = Inr None"
    by (rule logout_forgets [OF _ _ r l]) (simp_all add: demo_mm_def)
  with l show ?thesis by (simp add: demo_mm_def)
qed

text \<open>
  A call is bounded: it sends at most two requests and renews the credential at most once, and each request it sends
  is the one it was given, to the console alone. A request to any other address, or another request, would count three.
\<close>

theorem call_is_bounded:
  assumes "\<And>q w. sends (snd (an_fetch n q w)) = (if as_base q = consoleUrl \<and> as_request q = rq then Suc (sends w) else 3 + sends w)"
    and "\<And>c w. sends (snd (se_refresh ses c w)) = sends w"
    and "\<And>q w. renewals (snd (an_fetch n q w)) = renewals w" and "\<And>c w. renewals (snd (se_refresh ses c w)) = Suc (renewals w)"
    and "callApi n consoleUrl ses rq w = (r, w')"
  shows "sends w' \<le> sends w + (2 :: nat) \<and> renewals w' \<le> renewals w + (1 :: nat)"
proof -
  have s: "sends w2 = Suc (sends w1) \<and> renewals w2 = renewals w1" if "api_send_as n consoleUrl rq c w1 = (x, w2)" for c w1 x w2
    using that assms(1,3) [of "\<lparr>as_base = consoleUrl, as_request = rq, as_headers = api_headers c rq\<rparr>" w1]
    by (auto simp: api_send_as_def split: prod.split_asm sum.split_asm)
  have f: "sends w2 = sends w1 \<and> renewals w2 = Suc (renewals w1)" if "se_refresh ses c w1 = (x, w2)" for c w1 x w2
    using assms(2,4) [of c w1] that by simp
  from assms(5) show ?thesis
    by (auto simp: callApi_def api_sent_def refresh_early_def dest!: s f
        split: sum.split_asm prod.split_asm early.split_asm if_split_asm)
qed

end
