(* ===== verification/Spec2Isabelle.thy ===== *)
theory Spec2Isabelle
  imports App Worker Members OpInteractions OidcStore Period Reseal ConfigCache ConfigStore JobStore Licences FlockHealth CliLock Cli
begin

text \<open>
  The MetaModels gateway, a self-hosted front for upstream model servers (flocks): which programs reach which models,
  how often, and what they used. The repository is a workspace of TypeScript packages under src/. This library
  models its program logic as HOL functions and states what makes them correct.

  \<^bold>\<open>The parts of the program and how they meet.\<close> The data plane (apps/data-plane) takes a request to a paddock with an
  API key or an access token, passes it through scope, rate limit, quota and the breed's guard, sends it to the
  paddock's flock and emits meter events. The worker (apps/worker) turns the events of the stream into hourly rollups,
  which the quota gate reads back. The control plane (apps/control-plane) is the console and the admin API: it writes
  the database the data plane reads and publishes what it changed, so that the data plane's cache is flushed. The
  OpenID provider (apps/auth) signs users in, asks for consent and issues tokens; it asks the control plane to mint the
  key behind an approved MCP client. The command line client (apps/cli) signs in at the provider and calls the admin
  API. The packages schema and connectors hold what they share: the tables, the seals, the breeds.

  \<^bold>\<open>Theories and the code they model.\<close> Names of definitions are those of the source.

  \<^item> \<open>Prelude\<close>, \<open>JsText\<close>: the values, numbers and texts of the language: objects as lists of their own
    properties, \<open>Number(s)\<close>, percent and form encoding, base64, the bearer of a header.
  \<^item> \<open>Schema\<close>, \<open>Tables\<close>, \<open>Period\<close>, \<open>Sealed\<close>, \<open>Reseal\<close>, \<open>AccessToken\<close> (packages/schema):
    enumerations and configuration schemas, one record per table and the SQL statements as functions of the list of
    rows, billing windows on the civil calendar, sealed credentials, the rotation pass, the verifier of access tokens.
  \<^item> \<open>Breed\<close>, \<open>Ollama\<close>, \<open>ComfyTemplate\<close>, \<open>Comfy\<close> (packages/connectors): the interface of a breed and the
    two breeds: routes and guards, templates and the graphs built from them, metering, MCP tools.
  \<^item> \<open>RateLimit\<close>, \<open>JobStore\<close>, \<open>ConfigStore\<close>, \<open>ConfigCache\<close>, \<open>Proxy\<close>, \<open>Pipeline\<close>, \<open>Http\<close>,
    \<open>McpProtocol\<close>, \<open>McpEndpoint\<close>, \<open>App\<close> (apps/data-plane/src): the state the data plane keeps, the gates of a
    request in their order, the MCP endpoint, the routes. \<open>App\<close> composes them over one state, the record \<open>plane\<close>.
  \<^item> \<open>Worker\<close> (apps/worker/src, packages/schema/src/stream.ts): batches, rollups and acknowledgement over a stream.
  \<^item> \<open>Access\<close>, \<open>Paging\<close>, \<open>KeysService\<close>, \<open>Members\<close>, \<open>Flocks\<close>, \<open>Paddocks\<close>, \<open>TemplatesService\<close>,
    \<open>Usage\<close>, \<open>Licences\<close>, \<open>FlockHealth\<close> (apps/control-plane/src/server, lib, auth): the services. A service takes
    the database, the actor and a request to an error or an answer with the new database, since it is one
    transaction; \<open>Tenancy\<close> states what all of them keep.
  \<^item> \<open>Sessions\<close>, \<open>AdminApi\<close>, \<open>Consent\<close> (apps/control-plane/src/server, auth, app): the console's sign-in, the
    admin API from the raw request to the response, the internal routes of the provider.
  \<^item> \<open>Login\<close>, \<open>OidcStore\<close>, \<open>OpPolicy\<close>, \<open>ConsentClient\<close>, \<open>OpInteractions\<close> (apps/auth/src): passwords and
    the throttle, the storage adapter, what tokens are issued for, the signed assertion, the pages of the provider.
    \<open>ConsentClient\<close> and \<open>OpInteractions\<close> put the control plane's routes at the other end of the provider's calls.
  \<^item> \<open>CliOp\<close>, \<open>CliStore\<close>, \<open>CliLock\<close>, \<open>Cli\<close> (apps/cli/src): the provider's side of the client, the stored
    sign-ins, the clients of a machine at their lock, calls and commands.

  \<^bold>\<open>How state and effects are modelled.\<close> Shared state is a record passed along (\<open>db\<close>, \<open>plane\<close>, \<open>machine\<close>).
  Errors are values of a sum type. Where requests interleave at an \<open>await\<close>, the model is a step relation whose
  traces are the interleavings: \<open>cache_step\<close>, \<open>key_step\<close>, \<open>member_step\<close>, \<open>lock_step\<close>; the operations of the job stores and
  the limiters are atomic in the source, and sequences of them are the runs. What is not under src/ (ciphers and
  digests, the JOSE library, URL and JSON parsers, the network, clocks, random bytes, fresh ids, the framework's
  router, the provider library, the stream service) is an argument or a field of a record of arguments; what a theorem
  relies on of it is a named hypothesis (\<open>gcm_ok\<close>, \<open>digest_ok\<close>, \<open>stream_laws\<close>, \<open>keys_agree\<close>, \<open>ticks\<close>),
  which the theorem's witness discharges for a concrete function.

  \<^bold>\<open>Interfaces.\<close> \<open>sliding_limiter\<close> is what the pipeline needs of a rate limiter, interpreted on the in-memory limiter
  and on the Redis script; \<open>job_store\<close> and \<open>dedup_job_store\<close> are what metering needs of a job store, interpreted on
  the map and on the table; \<open>claim_guard\<close> is the replay guard of the consent routes, interpreted on Redis, on the
  process and on the one in use; \<open>payload_store\<close> is the storage the provider library asks for, interpreted on the
  adapter. Each client lemma is proved once inside its locale and used through the interpretations.

  \<^bold>\<open>What the groups of lemmas show.\<close> The properties, numbered C1 to C40 where they are stated, are of these groups.
  Safety of the data plane: no effect without a scoped key, guards that reach only allowed models, graphs that differ
  from the approved template in the declared inputs only, each job metered once, the limiters' windows and their
  equivalence. Integrity of the control plane: every change needs the actor's capability and is audited, the tables'
  invariants, an organization keeps an administrator and its seats, credentials are write-only and stay with their
  flock, licences with their grace. Tokens and consent: no grant without a key, an approval is honoured once, a token
  is backed by a live key, and an approved client does get its token. Round trips: seals, fences, passwords, cookies,
  forms, cursors, stored sign-ins. Refinement: the worker conserves usage, the adapter is a map. The command line
  client: credentials travel only to safe addresses, a refresh token is never spent twice by concurrent clients, a
  command stays at its operation, exit code 2 means nothing was done. Several lemmas outside the list state where the
  code departs from its comments; each says so where it stands.

  \<^bold>\<open>Loops and fuel.\<close> Recursion is structural except in three places. \<open>free_name\<close> (names of ComfyUI tools) has two
  more units of fuel than there are names taken, which \<open>free_name_enough\<close> shows to suffice. \<open>walk\<close> (a client following the
  links of a collection) suffices with more fuel than rows, as its lemma shows. \<open>poll\<close> (waiting for a sign-in) has as
  much fuel as milliseconds are left and two more, which \<open>polling_ends\<close> shows to suffice on a clock that advances;
  without such a clock the source loops. Integers of the language are unbounded here where the source keeps them far
  below the precision of a double; JavaScript numbers that may be fractional or infinite are \<open>jnum\<close>.

  \<^bold>\<open>Not modelled.\<close> The console's React pages, its server actions and its response headers, which call the modelled
  services; the static OpenAPI document; process bootstrap, environment wiring, sockets and signals; the provider's HTML
  templates, the middlewares that rewrite the provider library's own responses, and the loading of its signing keys
  and settings; the wording of the command line client's help and notices; log lines; the end-to-end tests and the
  design mock-ups. A JavaScript string is the list of its UTF-8 bytes, so its length is the source's on ASCII text only.
\<close>

end
